(* ===== verification/Prelude.thy ===== *)
theory Prelude
  imports Main "HOL-Library.Word" "HOL-Library.Sublist"
begin

text \<open>
  Shared ground of the development: the type names of the Go scalars the operator uses,
  the theorem collections the component theories fill, and the generic facts about lists,
  association by key and signed 32-bit words that several components need.

  \<^item> \<open>int32\<close> is Go's \<open>int32\<close>, kept at its width: \<open>+\<close> wraps, \<open><s\<close> and \<open>\<le>s\<close> are
    the signed comparisons the code uses.
  \<^item> \<open>time\<close> is an instant (nanoseconds since the Unix epoch) and \<open>duration\<close> a Go
    \<open>time.Duration\<close> (nanoseconds); instants are only compared and subtracted.
  \<^item> \<open>bytes\<close> and \<open>string\<close> are Go byte strings (one \<open>char\<close> is one byte).
\<close>

type_synonym int32 = "32 word"
type_synonym time = int
type_synonym duration = int
type_synonym bytes = "char list"
type_synonym go_map = "(string \<times> string) list"

text \<open>The collections: unfolding rules of the record-level operations of each layer.\<close>

named_theorems cond_simps \<open>reading a condition list after an update\<close>
named_theorems status_simps \<open>fields of a status after one of the mark or set operations\<close>
named_theorems trace_simps \<open>the trace after an effectful operation\<close>

section \<open>Durations\<close>

definition second :: duration where
  "second = 1000000000"

lemma second_pos [simp]: "0 < second"
  by (simp add: second_def)

section \<open>Lists searched by key\<close>

lemma find_append: "find P (xs @ ys) = (case find P xs of None \<Rightarrow> find P ys | Some x \<Rightarrow> Some x)"
  by (induction xs) auto

lemma find_Some_member: "find P xs = Some x \<Longrightarrow> x \<in> set xs \<and> P x"
  by (induction xs) (auto split: if_splits)

lemma find_None_all: "find P xs = None \<longleftrightarrow> (\<forall>x \<in> set xs. \<not> P x)"
  by (induction xs) auto

text \<open>
  A list whose elements have distinct keys is determined by the order of its keys and by
  what a lookup of each key finds: the way two condition lists are compared.
\<close>

lemma keyed_list_eqI:
  assumes "distinct (map key xs)" and "map key xs = map key ys"
    and "\<And>k. find (\<lambda>x. key x = k) xs = find (\<lambda>x. key x = k) ys"
  shows "xs = ys"
  using assms
proof (induction xs arbitrary: ys)
  case Nil
  then show ?case by simp
next
  case (Cons x xs)
  from Cons.prems(2) obtain y ys' where ys: "ys = y # ys'" and key: "key y = key x"
    and keys: "map key xs = map key ys'"
    by (cases ys) auto
  from Cons.prems(3) [of "key x"] ys key have xy: "x = y" by simp
  have "find (\<lambda>z. key z = k) xs = find (\<lambda>z. key z = k) ys'" for k
  proof (cases "k = key x")
    case True
    with Cons.prems(1) have notin: "k \<notin> set (map key xs)" by simp
    then have "find (\<lambda>z. key z = k) xs = None" by (auto simp: find_None_all)
    moreover from notin keys have "k \<notin> set (map key ys')" by simp
    then have "find (\<lambda>z. key z = k) ys' = None"
      by (auto simp: find_None_all)
    ultimately show ?thesis by simp
  next
    case False
    with Cons.prems(3) [of k] ys key show ?thesis by simp
  qed
  with Cons.IH [of ys'] Cons.prems(1) keys ys xy show ?case by simp
qed

lemma distinct_snoc_new: "distinct (map key xs) \<Longrightarrow> key x \<notin> key ` set xs \<Longrightarrow>
    distinct (map key (xs @ [x]))"
  by auto

section \<open>Go maps\<close>

text \<open>
  A Go \<open>map[string]string\<close> is an association list; the keys of a map decoded from the API are
  distinct, and only the first entry of a key counts. \<open>reflect.DeepEqual\<close> of two maps is
  \<open>same_map\<close>, decided over the keys that occur.
\<close>

definition same_map :: "go_map \<Rightarrow> go_map \<Rightarrow> bool" where
  "same_map m n \<longleftrightarrow> (\<forall>k \<in> set (map fst m) \<union> set (map fst n). map_of m k = map_of n k)"

lemma same_map_iff: "same_map m n \<longleftrightarrow> map_of m = map_of n"
proof
  assume same: "same_map m n"
  show "map_of m = map_of n"
  proof
    fix k
    show "map_of m k = map_of n k"
    proof (cases "k \<in> set (map fst m) \<union> set (map fst n)")
      case True
      with same show ?thesis unfolding same_map_def by blast
    next
      case False
      then have "k \<notin> fst ` set m" and "k \<notin> fst ` set n" by auto
      then have "map_of m k = None" and "map_of n k = None" by (simp_all add: map_of_eq_None_iff)
      then show ?thesis by simp
    qed
  qed
qed (simp add: same_map_def)

lemma same_map_refl [simp]: "same_map m m"
  by (simp add: same_map_iff)

section \<open>Signed 32-bit arithmetic\<close>

lemma sless_sint: "(a :: int32) <s b \<longleftrightarrow> sint a < sint b"
  by (simp add: word_sless_alt)

lemma sle_sint: "(a :: int32) \<le>s b \<longleftrightarrow> sint a \<le> sint b"
  by (simp add: word_sle_eq)

lemma not_sless_sle: "\<not> (a :: int32) <s b \<longleftrightarrow> b \<le>s a"
  by (auto simp: sless_sint sle_sint)

lemma sint32_range: "- (2 ^ 31) \<le> sint (a :: int32)" "sint (a :: int32) < 2 ^ 31"
  using sint_ge [of a] sint_lt [of a] by simp_all

text \<open>A counter that is still below a bound can be incremented without wrapping.\<close>

lemma sint_Suc_below:
  assumes "(a :: int32) <s b"
  shows "sint (a + 1) = sint a + 1"
proof -
  have "sint b < 2 ^ 31" by (rule sint32_range)
  with assms have "sint a + 1 < 2 ^ 31" by (simp add: sless_sint)
  moreover have "- (2 ^ 31) \<le> sint a + 1" using sint32_range(1) [of a] by simp
  ultimately have "signed_take_bit 31 (sint a + 1) = sint a + 1"
    by (intro signed_take_bit_int_eq_self) simp_all
  moreover have "sint (a + 1) = signed_take_bit 31 (sint a + sint (1 :: int32))"
    by (simp add: sint_word_ariths(1))
  ultimately show ?thesis by simp
qed

lemma sless_Suc_sle: "(a :: int32) <s b \<Longrightarrow> (a + 1) \<le>s b"
  by (simp add: sle_sint sint_Suc_below) (simp add: sless_sint)

lemma sint_less_Suc: "sint (a :: int32) < sint (m :: int32) \<Longrightarrow> sint a < sint (a + 1)"
  using sint_Suc_below [of a m] by (simp add: sless_sint)

lemma sint_of_nat32: "n < 2 ^ 31 \<Longrightarrow> sint (of_nat n :: int32) = int n"
  by (simp add: sint_uint signed_take_bit_int_eq_self unsigned_of_nat take_bit_nat_eq_self)

lemma of_nat32_inject: "m < 2 ^ 32 \<Longrightarrow> n < 2 ^ 32 \<Longrightarrow> (of_nat m :: int32) = of_nat n \<longleftrightarrow> m = n"
  by (auto simp: word_of_nat_eq_iff take_bit_nat_eq_self)

end
