(* ===== verification/GoStrings.thy ===== *)
theory GoStrings
  imports Prelude
begin

text \<open>
  The part of Go's \<open>strings\<close> and \<open>fmt\<close> packages the operator uses, over byte strings.
  White space and letter case are those of ASCII: the strings the operator handles are
  Kubernetes names, OCIDs, region names, header values and messages of the OCI services.
  Bytes from 128 on are ordinary characters: never trimmed, never case-folded, and printed
  as they are by \<open>%q\<close>.
\<close>

section \<open>White space, prefixes, case\<close>

definition is_space :: "char \<Rightarrow> bool" where
  "is_space c \<longleftrightarrow> (let n = (of_char c :: nat) in n = 32 \<or> (9 \<le> n \<and> n \<le> 13))"

definition trim_space :: "string \<Rightarrow> string" where
  "trim_space s = rev (dropWhile is_space (rev (dropWhile is_space s)))"

definition has_prefix :: "string \<Rightarrow> string \<Rightarrow> bool" where
  "has_prefix s p \<longleftrightarrow> take (length p) s = p"

definition trim_prefix :: "string \<Rightarrow> string \<Rightarrow> string" where
  "trim_prefix s p = (if has_prefix s p then drop (length p) s else s)"

definition trim_left_set :: "string \<Rightarrow> string \<Rightarrow> string" where
  "trim_left_set s cutset = dropWhile (\<lambda>c. c \<in> set cutset) s"

definition trim_right_set :: "string \<Rightarrow> string \<Rightarrow> string" where
  "trim_right_set s cutset = rev (trim_left_set (rev s) cutset)"

definition trim_set :: "string \<Rightarrow> string \<Rightarrow> string" where
  "trim_set s cutset = trim_right_set (trim_left_set s cutset) cutset"

definition lower_char :: "char \<Rightarrow> char" where
  "lower_char c = (let n = (of_char c :: nat) in
     if 65 \<le> n \<and> n \<le> 90 then char_of (n + 32) else c)"

definition to_lower :: "string \<Rightarrow> string" where
  "to_lower s = map lower_char s"

section \<open>Searching and splitting\<close>

fun index_of :: "string \<Rightarrow> string \<Rightarrow> nat option" where
  "index_of [] sub = (if sub = [] then Some 0 else None)"
| "index_of (x # xs) sub =
     (if has_prefix (x # xs) sub then Some 0 else map_option Suc (index_of xs sub))"

definition contains_str :: "string \<Rightarrow> string \<Rightarrow> bool" where
  "contains_str s sub \<longleftrightarrow> index_of s sub \<noteq> None"

fun split_char :: "char \<Rightarrow> string \<Rightarrow> string list" where
  "split_char c [] = [[]]"
| "split_char c (x # xs) =
     (if x = c then [] # split_char c xs
      else (case split_char c xs of [] \<Rightarrow> [[x]] | p # ps \<Rightarrow> (x # p) # ps))"

fun join :: "string list \<Rightarrow> string \<Rightarrow> string" where
  "join [] sep = []"
| "join [p] sep = p"
| "join (p # q # ps) sep = p @ sep @ join (q # ps) sep"

fun split_fields_from :: "string \<Rightarrow> string \<Rightarrow> string list" where
  "split_fields_from cur [] = (if cur = [] then [] else [rev cur])"
| "split_fields_from cur (c # cs) =
     (if is_space c then (if cur = [] then split_fields_from [] cs else rev cur # split_fields_from [] cs)
      else split_fields_from (c # cur) cs)"

definition split_fields :: "string \<Rightarrow> string list" where
  "split_fields s = split_fields_from [] s"

text \<open>\<open>strings.ReplaceAll(s, "\r\n", "\n")\<close>.\<close>

fun crlf_to_lf :: "string \<Rightarrow> string" where
  "crlf_to_lf (c # d # cs) =
     (if c = CHR 0x0D \<and> d = CHR 0x0A then CHR 0x0A # crlf_to_lf cs
      else c # crlf_to_lf (d # cs))"
| "crlf_to_lf cs = cs"

section \<open>Formatting\<close>

fun show_nat :: "nat \<Rightarrow> string" where
  "show_nat n = (if n < 10 then [char_of (48 + n)]
                 else show_nat (n div 10) @ [char_of (48 + n mod 10)])"

declare show_nat.simps [simp del]

definition show_int :: "int \<Rightarrow> string" where
  "show_int i = (if i < 0 then ''-'' @ show_nat (nat (- i)) else show_nat (nat i))"

definition hex_digit :: "nat \<Rightarrow> char" where
  "hex_digit n = (if n < 10 then char_of (48 + n) else char_of (87 + n))"

definition quote_char :: "char \<Rightarrow> string" where
  "quote_char c = (let n = (of_char c :: nat) in
     if n = 34 \<or> n = 92 then [CHR 0x5C, c]
     else if n = 7 then [CHR 0x5C, CHR ''a'']
     else if n = 8 then [CHR 0x5C, CHR ''b'']
     else if n = 9 then [CHR 0x5C, CHR ''t'']
     else if n = 10 then [CHR 0x5C, CHR ''n'']
     else if n = 11 then [CHR 0x5C, CHR ''v'']
     else if n = 12 then [CHR 0x5C, CHR ''f'']
     else if n = 13 then [CHR 0x5C, CHR ''r'']
     else if n < 32 \<or> n = 127 then [CHR 0x5C, CHR ''x'', hex_digit (n div 16), hex_digit (n mod 16)]
     else [c])"

text \<open>\<open>%q\<close>: a double-quoted Go string literal.\<close>

definition go_quote :: "string \<Rightarrow> string" where
  "go_quote s = CHR 0x22 # concat (map quote_char s) @ [CHR 0x22]"

section \<open>Facts\<close>

lemma dropWhile_id: "xs = [] \<or> \<not> P (hd xs) \<Longrightarrow> dropWhile P xs = xs"
  by (cases xs) auto

lemma trim_space_Nil [simp]: "trim_space [] = []"
  by (simp add: trim_space_def)

lemma trim_space_hd: "trim_space s \<noteq> [] \<Longrightarrow> \<not> is_space (hd (trim_space s))"
proof -
  define t where "t = dropWhile is_space s"
  assume "trim_space s \<noteq> []"
  then have ne: "dropWhile is_space (rev t) \<noteq> []" by (simp add: trim_space_def t_def)
  then obtain u where u: "rev t = u @ dropWhile is_space (rev t)"
    by (metis takeWhile_dropWhile_id)
  then have "t = rev (dropWhile is_space (rev t)) @ rev u"
    by (metis rev_append rev_rev_ident)
  with ne have "hd t = hd (rev (dropWhile is_space (rev t)))"
    by (metis hd_append2 rev_is_Nil_conv)
  moreover from ne have "t \<noteq> []" by auto
  then have "\<not> is_space (hd t)" unfolding t_def by (rule hd_dropWhile)
  ultimately show ?thesis by (simp add: trim_space_def t_def)
qed

lemma trim_space_last: "trim_space s \<noteq> [] \<Longrightarrow> \<not> is_space (last (trim_space s))"
  by (simp add: trim_space_def last_rev hd_dropWhile)

lemma trim_space_id:
  "s = [] \<or> (\<not> is_space (hd s) \<and> \<not> is_space (last s)) \<Longrightarrow> trim_space s = s"
  by (cases s rule: rev_cases) (auto simp: trim_space_def dropWhile_id hd_append)

lemma trim_space_idem [simp]: "trim_space (trim_space s) = trim_space s"
  by (rule trim_space_id) (metis trim_space_hd trim_space_last)

lemma trim_space_eq_Nil: "trim_space s = [] \<longleftrightarrow> (\<forall>c \<in> set s. is_space c)"
proof -
  have "trim_space s = [] \<longleftrightarrow> dropWhile is_space s = []"
  proof
    assume "trim_space s = []"
    then have "\<forall>c \<in> set (dropWhile is_space s). is_space c"
      by (simp add: trim_space_def dropWhile_eq_Nil_conv)
    then show "dropWhile is_space s = []"
      by (metis hd_dropWhile hd_in_set)
  qed (simp add: trim_space_def del: dropWhile_eq_Nil_conv)
  then show ?thesis by (simp add: dropWhile_eq_Nil_conv)
qed

lemma trim_space_subset: "set (trim_space s) \<subseteq> set s"
  by (auto simp: trim_space_def dest!: set_dropWhileD)

lemma has_prefix_iff: "has_prefix s p \<longleftrightarrow> (\<exists>t. s = p @ t)"
  by (auto simp: has_prefix_def) (metis append_take_drop_id)

lemma length_to_lower [simp]: "length (to_lower s) = length s"
  by (simp add: to_lower_def)

lemma index_of_Some: "index_of s sub = Some i \<Longrightarrow> has_prefix (drop i s) sub \<and> i + length sub \<le> length s"
proof (induction s sub arbitrary: i rule: index_of.induct)
  case (1 sub)
  then show ?case by (auto simp: has_prefix_def split: if_splits)
next
  case (2 x xs sub)
  show ?case
  proof (cases "has_prefix (x # xs) sub")
    case True
    then obtain t where "x # xs = sub @ t" by (auto simp: has_prefix_iff)
    then have "length (x # xs) = length sub + length t" by (metis length_append)
    with True "2.prems" show ?thesis by simp
  next
    case False
    with "2.prems" obtain j where "i = Suc j" "index_of xs sub = Some j" by auto
    with "2.IH" False show ?thesis by auto
  qed
qed

lemma index_of_first: "index_of s sub = Some i \<Longrightarrow> j < i \<Longrightarrow> \<not> has_prefix (drop j s) sub"
proof (induction s sub arbitrary: i j rule: index_of.induct)
  case (1 sub)
  then show ?case by (auto split: if_splits)
next
  case (2 x xs sub)
  then show ?case by (cases j) (auto split: if_splits)
qed

lemma split_char_ne [simp]: "split_char c s \<noteq> []"
  by (induction s) (auto split: list.splits)

text \<open>Splitting and joining with the same separator are inverse, and no part holds it.\<close>

lemma join_split_char: "join (split_char c s) [c] = s"
proof (induction s)
  case (Cons x xs)
  obtain p ps where "split_char c xs = p # ps" by (meson neq_Nil_conv split_char_ne)
  with Cons show ?case by (cases ps) auto
qed simp

lemma split_char_parts: "p \<in> set (split_char c s) \<Longrightarrow> c \<notin> set p"
  by (induction s arbitrary: p) (auto split: if_splits list.splits)

definition space_free :: "string \<Rightarrow> bool" where
  "space_free s \<longleftrightarrow> s \<noteq> [] \<and> list_all (\<lambda>c. \<not> is_space c) s"

lemma split_fields_from_parts:
  "list_all (\<lambda>c. \<not> is_space c) cur \<Longrightarrow> list_all space_free (split_fields_from cur s)"
  by (induction cur s rule: split_fields_from.induct) (simp_all add: space_free_def)

lemma split_fields_parts: "list_all space_free (split_fields s)"
  unfolding split_fields_def by (rule split_fields_from_parts) simp

lemma go_quote_ne [simp]: "go_quote s \<noteq> []"
  by (simp add: go_quote_def)

end
