(* ===== verification/GoErrors.thy ===== *)
theory GoErrors
  imports GoStrings
begin

text \<open>
  Errors as values. A Go \<open>error\<close> is modelled by what the operator can observe of it: its text
  (\<open>err.Error()\<close>), the sentinel \<open>invoker.ErrNotImplemented\<close> it may wrap (\<open>errors.Is\<close>), and,
  for an error handed out by the OCI SDK or the network stack, the service failure it carries
  (\<open>common.IsServiceError\<close>) and whether it is a timeout or an endpoint failure. \<open>nil\<close> is
  \<open>None\<close> of \<open>go_error option\<close>.
\<close>

record service_failure =
  sf_status :: int
  sf_code :: string
  sf_message :: string
  sf_opc_request_id :: string

record sdk_failure =
  sdk_text :: string
  sdk_service :: "service_failure option"
  sdk_timeout :: bool
  sdk_endpoint :: bool

datatype go_error =
    ErrNotImplemented
  | ErrorText string
  | SdkError sdk_failure
  | WrapError string go_error
  | PendingLogError string

primrec err_text :: "go_error \<Rightarrow> string" where
  "err_text ErrNotImplemented = ''oci functions invoker is not implemented''"
| "err_text (ErrorText m) = m"
| "err_text (SdkError f) = sdk_text f"
| "err_text (WrapError m e) = m @ '': '' @ err_text e"
| "err_text (PendingLogError m) = m"

text \<open>\<open>errors.Is(err, invoker.ErrNotImplemented)\<close> follows the chain of wrapped errors.\<close>

primrec is_not_implemented :: "go_error \<Rightarrow> bool" where
  "is_not_implemented ErrNotImplemented = True"
| "is_not_implemented (ErrorText m) = False"
| "is_not_implemented (SdkError f) = False"
| "is_not_implemented (WrapError m e) = is_not_implemented e"
| "is_not_implemented (PendingLogError m) = False"

definition is_nil_or :: "(go_error \<Rightarrow> bool) \<Rightarrow> go_error option \<Rightarrow> bool" where
  "is_nil_or P e = (case e of None \<Rightarrow> True | Some x \<Rightarrow> P x)"

definition err_is_not_implemented :: "go_error option \<Rightarrow> bool" where
  "err_is_not_implemented e = (case e of None \<Rightarrow> False | Some x \<Rightarrow> is_not_implemented x)"

lemma err_is_not_implemented_simps [simp]:
  "err_is_not_implemented None = False"
  "err_is_not_implemented (Some x) = is_not_implemented x"
  by (simp_all add: err_is_not_implemented_def)

text \<open>\<open>common.IsServiceError\<close> looks at the error itself, not at what it wraps.\<close>

definition service_of :: "go_error \<Rightarrow> service_failure option" where
  "service_of e = (case e of SdkError f \<Rightarrow> sdk_service f | _ \<Rightarrow> None)"

definition has_service_status :: "go_error \<Rightarrow> int \<Rightarrow> bool" where
  "has_service_status e n = (case service_of e of None \<Rightarrow> False | Some f \<Rightarrow> sf_status f = n)"

end
