(* ===== verification/KubeApi.thy ===== *)
theory KubeApi
  imports GoErrors
begin

text \<open>
  What the controllers see of Kubernetes: object metadata, status conditions, the results of a
  reconciliation and the trace of its effects. The library code they call
  (\<open>k8s.io/apimachinery/pkg/api/meta\<close> and controller-runtime's \<open>controllerutil\<close>) is not part of
  the repository: it is the parameter record \<open>kube_lib\<close>, and what its documentation promises is
  the predicate \<open>kube_lib_ok\<close>, put together from the locale \<open>condition_store\<close> and the
  laws of a finalizer set. The repository's own condition setters are shown to meet the same contract
  in the theories of the components that define them.
\<close>

section \<open>Metadata and conditions\<close>

datatype condition_status = CondTrue | CondFalse | CondUnknown

record condition =
  c_type :: string
  c_status :: condition_status
  c_reason :: string
  c_message :: string
  c_observed_generation :: int
  c_last_transition :: time

fun show_condition_status :: "condition_status \<Rightarrow> string" where
  "show_condition_status CondTrue = ''True''"
| "show_condition_status CondFalse = ''False''"
| "show_condition_status CondUnknown = ''Unknown''"

text \<open>The reason, status and message a controller wants a condition to show.\<close>

record condition_state =
  cs_status :: condition_status
  cs_reason :: string
  cs_message :: string

record object_meta =
  om_name :: string
  om_namespace :: string
  om_uid :: string
  om_generation :: int
  om_finalizers :: "string list"
  om_deletion_timestamp :: "time option"

section \<open>The contract of a condition list\<close>

definition lookup_condition :: "condition list \<Rightarrow> string \<Rightarrow> condition option" where
  "lookup_condition cs t = find (\<lambda>c. c_type c = t) cs"

definition condition_types :: "condition list \<Rightarrow> string list" where
  "condition_types cs = map c_type cs"

text \<open>
  An update keeps the transition time of a condition whose status does not change.
\<close>

definition stamp_condition :: "condition option \<Rightarrow> condition \<Rightarrow> condition" where
  "stamp_condition old c = (case old of
     None \<Rightarrow> c
   | Some o' \<Rightarrow> if c_status o' = c_status c then c\<lparr>c_last_transition := c_last_transition o'\<rparr> else c)"

definition has_condition :: "condition list \<Rightarrow> string \<Rightarrow> condition_status \<Rightarrow> string \<Rightarrow> bool" where
  "has_condition cs t st r = (case lookup_condition cs t of
     None \<Rightarrow> False | Some c \<Rightarrow> c_status c = st \<and> c_reason c = r)"

definition condition_status_of :: "condition list \<Rightarrow> string \<Rightarrow> condition_status option" where
  "condition_status_of cs t = map_option c_status (lookup_condition cs t)"

definition truth :: "bool \<Rightarrow> condition_status" where
  "truth b = (if b then CondTrue else CondFalse)"

lemma truth_simps [simp]: "truth b = CondTrue \<longleftrightarrow> b" "truth b \<noteq> CondUnknown"
  by (simp_all add: truth_def)

lemma stamp_condition_simps [simp]:
  "c_type (stamp_condition old c) = c_type c"
  "c_status (stamp_condition old c) = c_status c"
  "c_reason (stamp_condition old c) = c_reason c"
  "c_message (stamp_condition old c) = c_message c"
  "c_observed_generation (stamp_condition old c) = c_observed_generation c"
  by (auto simp: stamp_condition_def split: option.splits)

locale condition_store =
  fixes set_cond :: "condition list \<Rightarrow> condition \<Rightarrow> condition list"
  assumes lookup_set: "lookup_condition (set_cond cs c) t =
      (if t = c_type c then Some (stamp_condition (lookup_condition cs t) c)
       else lookup_condition cs t)"
    and types_set: "condition_types (set_cond cs c) =
      (if c_type c \<in> set (condition_types cs) then condition_types cs
       else condition_types cs @ [c_type c])"
begin

lemma distinct_set: "distinct (condition_types cs) \<Longrightarrow> distinct (condition_types (set_cond cs c))"
  by (simp add: types_set)

lemma status_set: "condition_status_of (set_cond cs c) t =
    (if t = c_type c then Some (c_status c) else condition_status_of cs t)"
  by (simp add: condition_status_of_def lookup_set)

text \<open>
  Setting a condition that already shows the wanted status, reason, message and generation
  leaves the list exactly as it is, transition times included.
\<close>

lemma set_unchanged:
  assumes dist: "distinct (condition_types cs)" and old: "lookup_condition cs (c_type c) = Some d"
    and same: "c_status d = c_status c" "c_reason d = c_reason c" "c_message d = c_message c"
      "c_observed_generation d = c_observed_generation c"
  shows "set_cond cs c = cs"
proof -
  have "c_type d = c_type c" using old by (auto simp: lookup_condition_def dest: find_Some_member)
  with same have d: "stamp_condition (Some d) c = d" by (simp add: stamp_condition_def)
  have "c_type c \<in> set (condition_types cs)"
    using old by (auto simp: lookup_condition_def condition_types_def dest!: find_Some_member
        intro: rev_image_eqI)
  then have types: "map c_type (set_cond cs c) = map c_type cs"
    using types_set [of cs c] by (simp add: condition_types_def)
  show ?thesis
  proof (rule keyed_list_eqI [where key = c_type])
    show "distinct (map c_type (set_cond cs c))"
      using dist types by (simp add: condition_types_def)
    show "map c_type (set_cond cs c) = map c_type cs" by (rule types)
    fix k
    have "lookup_condition (set_cond cs c) k = lookup_condition cs k"
      using lookup_set [of cs c k] old d by auto
    then show "find (\<lambda>x. c_type x = k) (set_cond cs c) = find (\<lambda>x. c_type x = k) cs"
      by (simp add: lookup_condition_def)
  qed
qed

lemma set_idem: "distinct (condition_types cs) \<Longrightarrow> set_cond (set_cond cs c) c = set_cond cs c"
  by (rule set_unchanged [of _ _ "stamp_condition (lookup_condition cs (c_type c)) c"])
    (simp_all add: distinct_set lookup_set)

end

section \<open>The contract of a finalizer list\<close>

definition finalizer_laws ::
    "(string list \<Rightarrow> string \<Rightarrow> string list) \<Rightarrow> (string list \<Rightarrow> string \<Rightarrow> bool) \<Rightarrow>
     (string list \<Rightarrow> string \<Rightarrow> string list) \<Rightarrow> bool" where
  "finalizer_laws add has remove \<longleftrightarrow>
     (\<forall>fs f. has fs f \<longleftrightarrow> f \<in> set fs) \<and>
     (\<forall>fs f. set (add fs f) = insert f (set fs)) \<and>
     (\<forall>fs f. set (remove fs f) = set fs - {f})"

section \<open>The library parameter\<close>

record kube_lib =
  set_status_condition :: "condition list \<Rightarrow> condition \<Rightarrow> condition list"
  find_status_condition :: "condition list \<Rightarrow> string \<Rightarrow> condition option"
  is_status_condition_true :: "condition list \<Rightarrow> string \<Rightarrow> bool"
  add_finalizer :: "string list \<Rightarrow> string \<Rightarrow> string list"
  contains_finalizer :: "string list \<Rightarrow> string \<Rightarrow> bool"
  remove_finalizer :: "string list \<Rightarrow> string \<Rightarrow> string list"

definition kube_lib_ok :: "kube_lib \<Rightarrow> bool" where
  "kube_lib_ok K \<longleftrightarrow>
     condition_store (set_status_condition K) \<and>
     (\<forall>cs t. find_status_condition K cs t = lookup_condition cs t) \<and>
     (\<forall>cs t. is_status_condition_true K cs t \<longleftrightarrow> condition_status_of cs t = Some CondTrue) \<and>
     finalizer_laws (add_finalizer K) (contains_finalizer K) (remove_finalizer K)"

lemma kube_lib_okD:
  assumes "kube_lib_ok K"
  shows kube_condition_store: "condition_store (set_status_condition K)"
    and kube_find: "find_status_condition K cs t = lookup_condition cs t"
    and kube_is_true: "is_status_condition_true K cs t \<longleftrightarrow> condition_status_of cs t = Some CondTrue"
    and kube_contains: "contains_finalizer K fs f \<longleftrightarrow> f \<in> set fs"
    and kube_add: "set (add_finalizer K fs f) = insert f (set fs)"
    and kube_remove: "set (remove_finalizer K fs f) = set fs - {f}"
  using assms by (auto simp: kube_lib_ok_def finalizer_laws_def)

lemmas kube_lookup_set = condition_store.lookup_set [OF kube_condition_store]
lemmas kube_status_set = condition_store.status_set [OF kube_condition_store]
lemmas kube_distinct_set = condition_store.distinct_set [OF kube_condition_store]
lemmas kube_set_unchanged = condition_store.set_unchanged [OF kube_condition_store]
lemmas kube_finalizers = kube_contains kube_add kube_remove

section \<open>Reads, results, effects\<close>

text \<open>The outcome of a \<open>Get\<close>: the object, a NotFound error, or another error.\<close>

datatype 'a get_result = Got 'a | NotFound | GetFailed go_error

record ctrl_result =
  requeue :: bool
  requeue_after :: duration

definition no_requeue :: ctrl_result where
  "no_requeue = \<lparr>requeue = False, requeue_after = 0\<rparr>"

definition requeue_now :: ctrl_result where
  "requeue_now = \<lparr>requeue = True, requeue_after = 0\<rparr>"

definition requeue_in :: "duration \<Rightarrow> ctrl_result" where
  "requeue_in d = \<lparr>requeue = False, requeue_after = d\<rparr>"

datatype reconcile_end = Returned ctrl_result "go_error option" | Panicked

datatype event_severity = EventNormal | EventWarning

text \<open>
  One reconciliation writes a trace: the objects it sends to the API server (status subresource,
  whole object, deletion), the Kubernetes events it records and the external calls it makes.
  \<open>io\<close> threads the trace together with an arbitrary world \<open>'w\<close>: the state of everything outside
  the operator, which every read may inspect and every call may change.
\<close>

datatype ('o, 'c) effect =
    StatusUpdate 'o
  | ObjectUpdate 'o
  | ObjectDelete 'o
  | EventRecorded event_severity string string
  | Called 'c

record ('e, 'w) io =
  io_world :: 'w
  io_trace :: "'e list"

definition emit :: "'e \<Rightarrow> ('e, 'w) io \<Rightarrow> ('e, 'w) io" where
  "emit e s = s\<lparr>io_trace := io_trace s @ [e]\<rparr>"

text \<open>An API or service call: log it, run it on the world.\<close>

definition perform :: "'e \<Rightarrow> ('w \<Rightarrow> 'r \<times> 'w) \<Rightarrow> ('e, 'w) io \<Rightarrow> 'r \<times> ('e, 'w) io" where
  "perform e f s = (let (r, w) = f (io_world s) in (r, emit e (s\<lparr>io_world := w\<rparr>)))"

definition record_event ::
    "bool \<Rightarrow> event_severity \<Rightarrow> string \<Rightarrow> string \<Rightarrow> (('o, 'c) effect, 'w) io \<Rightarrow> (('o, 'c) effect, 'w) io" where
  "record_event recorder sev reason message s =
     (if recorder then emit (EventRecorded sev reason message) s else s)"

fun calls :: "('o, 'c) effect list \<Rightarrow> 'c list" where
  "calls [] = []"
| "calls (Called c # es) = c # calls es"
| "calls (_ # es) = calls es"

fun writes :: "('o, 'c) effect list \<Rightarrow> ('o, 'c) effect list" where
  "writes [] = []"
| "writes (StatusUpdate x # es) = StatusUpdate x # writes es"
| "writes (ObjectUpdate x # es) = ObjectUpdate x # writes es"
| "writes (ObjectDelete x # es) = ObjectDelete x # writes es"
| "writes (_ # es) = writes es"

lemma calls_append [simp]: "calls (xs @ ys) = calls xs @ calls ys"
  by (induction xs rule: calls.induct) auto

lemma writes_append [simp]: "writes (xs @ ys) = writes xs @ writes ys"
  by (induction xs rule: writes.induct) auto

lemma io_emit [simp]:
  "io_world (emit e s) = io_world s" "io_trace (emit e s) = io_trace s @ [e]"
  by (simp_all add: emit_def)

lemma record_event_simps [simp]:
  "io_world (record_event r sev reason m s) = io_world s"
  "calls (io_trace (record_event r sev reason m s)) = calls (io_trace s)"
  "writes (io_trace (record_event r sev reason m s)) = writes (io_trace s)"
  by (simp_all add: record_event_def)

text \<open>A stretch of the trace with neither calls nor writes: events only.\<close>

definition quiet :: "('o, 'c) effect list \<Rightarrow> bool" where
  "quiet t \<longleftrightarrow> calls t = [] \<and> writes t = []"

lemma quiet_simps [simp]: "quiet []" "quiet (t @ u) \<longleftrightarrow> quiet t \<and> quiet u"
  by (auto simp: quiet_def)

lemma mem_writes:
  "StatusUpdate x \<in> set (writes t) \<longleftrightarrow> StatusUpdate x \<in> set t"
  "ObjectUpdate x \<in> set (writes t) \<longleftrightarrow> ObjectUpdate x \<in> set t"
  "ObjectDelete x \<in> set (writes t) \<longleftrightarrow> ObjectDelete x \<in> set t"
  by (induction t rule: writes.induct) auto

lemma mem_calls: "c \<in> set (calls t) \<longleftrightarrow> Called c \<in> set t"
  by (induction t rule: calls.induct) auto

lemma quiet_mem:
  "quiet t \<Longrightarrow> StatusUpdate x \<notin> set t" "quiet t \<Longrightarrow> ObjectUpdate x \<notin> set t" "quiet t \<Longrightarrow> Called c \<notin> set t"
  using mem_writes [of x t] mem_calls [of c t] by (simp_all add: quiet_def)

lemma record_event_quiet: "\<exists>t. io_trace (record_event r sev reason m s) = io_trace s @ t \<and> quiet t"
  by (auto simp: record_event_def quiet_def)

lemma perform_simps:
  "perform e f s = (fst (f (io_world s)), emit e (s\<lparr>io_world := snd (f (io_world s))\<rparr>))"
  by (simp add: perform_def split: prod.splits)

section \<open>A concrete library for evaluation\<close>

text \<open>
  A library that meets the contract, so that the theorems can be evaluated on concrete inputs.
\<close>

fun set_condition_list :: "condition list \<Rightarrow> condition \<Rightarrow> condition list" where
  "set_condition_list [] c = [c]"
| "set_condition_list (d # ds) c =
     (if c_type d = c_type c then stamp_condition (Some d) c # ds
      else d # set_condition_list ds c)"

definition sample_lib :: kube_lib where
  "sample_lib = \<lparr>
     set_status_condition = set_condition_list,
     find_status_condition = lookup_condition,
     is_status_condition_true = (\<lambda>cs t. condition_status_of cs t = Some CondTrue),
     add_finalizer = (\<lambda>fs f. if f \<in> set fs then fs else fs @ [f]),
     contains_finalizer = (\<lambda>fs f. f \<in> set fs),
     remove_finalizer = (\<lambda>fs f. filter (\<lambda>g. g \<noteq> f) fs)\<rparr>"

lemma lookup_set_condition_list:
  "lookup_condition (set_condition_list cs c) t =
     (if t = c_type c then Some (stamp_condition (lookup_condition cs t) c)
      else lookup_condition cs t)"
  by (induction cs) (auto simp: lookup_condition_def stamp_condition_def)

lemma types_set_condition_list:
  "condition_types (set_condition_list cs c) =
     (if c_type c \<in> set (condition_types cs) then condition_types cs
      else condition_types cs @ [c_type c])"
  by (induction cs) (auto simp: condition_types_def)

interpretation sample_conditions: condition_store set_condition_list
  by unfold_locales (rule lookup_set_condition_list, rule types_set_condition_list)

lemma sample_lib_ok: "kube_lib_ok sample_lib"
  unfolding kube_lib_ok_def sample_lib_def finalizer_laws_def
  using sample_conditions.condition_store_axioms by auto

end
