(* ===== verification/ApiTypes.thy ===== *)
theory ApiTypes
  imports KubeApi
begin

text \<open>
  The five custom resources of \<open>api/v1alpha1\<close>: one record per struct, one datatype per string
  enumeration (with a constructor for the empty string; the CRD schema admits no other value),
  and the methods the package defines on them. A Go slice is a list and a pointer an option;
  where the code tells a nil slice or map from an empty one the field is an option as well.
  \<open>runtime.RawExtension\<close> is its raw bytes, nil or not.
\<close>

section \<open>Function (function\_types.go)\<close>

datatype function_mode = FunctionModeUnset | FunctionModeExisting | FunctionModeManaged

datatype function_phase =
  FunctionPhaseUnset | FunctionPhasePending | FunctionPhaseReady | FunctionPhaseError

datatype deletion_policy = DeletionPolicyUnset | DeletionPolicyRetain | DeletionPolicyDelete

record application_reference =
  ar_name :: string

record function_config =
  fc_region :: string
  fc_compartment_id :: string
  fc_application_name :: string
  fc_subnet_ids :: "string list"
  fc_nsg_ids :: "string list option"
  fc_application_ocid :: string
  fc_display_name :: string
  fc_image :: string
  fc_memory_in_mbs :: int32
  fc_memory_in_mb :: int32
  fc_timeout_in_seconds :: int32
  fc_config :: go_map
  fc_environment :: go_map
  fc_freeform_tags :: go_map

record function_spec =
  fs_mode :: function_mode
  fs_function_id :: string
  fs_existing_function_ocid :: string
  fs_invoke_endpoint :: string
  fs_config :: "function_config option"
  fs_application_ref :: "application_reference option"
  fs_deletion_policy :: deletion_policy

record function_status =
  fst_observed_generation :: int
  fst_phase :: function_phase
  fst_function_ocid :: string
  fst_function_id :: string
  fst_application_id :: string
  fst_invoke_endpoint :: string
  fst_message :: string
  fst_last_sync_time :: "time option"
  fst_conditions :: "condition list"

record oci_function =
  fn_meta :: object_meta
  fn_spec :: function_spec
  fn_status :: function_status

definition function_condition_ready :: string where
  "function_condition_ready = ''Ready''"

definition set_function_condition :: "kube_lib \<Rightarrow> condition \<Rightarrow> oci_function \<Rightarrow> oci_function" where
  "set_function_condition K c f =
     fn_status_update (fst_conditions_update (\<lambda>cs. set_status_condition K cs c)) f"

definition function_is_ready :: "kube_lib \<Rightarrow> oci_function \<Rightarrow> bool" where
  "function_is_ready K f = is_status_condition_true K (fst_conditions (fn_status f)) function_condition_ready"

definition function_deletion_policy :: "oci_function \<Rightarrow> deletion_policy" where
  "function_deletion_policy f =
     (if fs_deletion_policy (fn_spec f) = DeletionPolicyDelete then DeletionPolicyDelete
      else DeletionPolicyRetain)"

section \<open>FunctionApplication (functionapplication\_types.go)\<close>

datatype application_mode = ApplicationModeUnset | ApplicationModeManaged | ApplicationModeExisting

datatype application_phase =
  ApplicationPhaseUnset | ApplicationPhasePending | ApplicationPhaseReady | ApplicationPhaseError

record invocation_logs_spec =
  il_enabled :: "bool option"
  il_log_group_id :: string
  il_log_display_name :: string
  il_service :: string
  il_category :: string
  il_line_format :: string

record application_logging_spec =
  ls_invocation_logs :: "invocation_logs_spec option"

record application_spec =
  as_mode :: application_mode
  as_compartment_id :: string
  as_display_name :: string
  as_region :: string
  as_subnet_ids :: "string list"
  as_nsg_ids :: "string list option"
  as_config :: "go_map option"
  as_logging :: "application_logging_spec option"
  as_existing_application_id :: string
  as_deletion_policy :: deletion_policy

record application_status =
  ast_observed_generation :: int
  ast_phase :: application_phase
  ast_application_id :: string
  ast_display_name :: string
  ast_region :: string
  ast_message :: string
  ast_last_sync_time :: "time option"
  ast_conditions :: "condition list"

record function_application =
  app_meta :: object_meta
  app_spec :: application_spec
  app_status :: application_status

definition application_condition_ready :: string where
  "application_condition_ready = ''Ready''"

definition application_condition_resolved :: string where
  "application_condition_resolved = ''ApplicationResolved''"

definition application_condition_application_ready :: string where
  "application_condition_application_ready = ''ApplicationReady''"

definition set_application_status_condition :: "kube_lib \<Rightarrow> condition \<Rightarrow> function_application \<Rightarrow> function_application" where
  "set_application_status_condition K c a =
     app_status_update (ast_conditions_update (\<lambda>cs. set_status_condition K cs c)) a"

definition application_is_ready :: "kube_lib \<Rightarrow> function_application \<Rightarrow> bool" where
  "application_is_ready K a = is_status_condition_true K (ast_conditions (app_status a)) application_condition_ready"

definition effective_application_mode :: "function_application \<Rightarrow> application_mode" where
  "effective_application_mode a =
     (if as_mode (app_spec a) = ApplicationModeExisting then ApplicationModeExisting
      else ApplicationModeManaged)"

definition application_deletion_policy :: "function_application \<Rightarrow> deletion_policy" where
  "application_deletion_policy a =
     (if as_deletion_policy (app_spec a) = DeletionPolicyDelete then DeletionPolicyDelete
      else DeletionPolicyRetain)"

section \<open>FunctionJob (functionjob\_types.go)\<close>

datatype job_phase = JobPhaseUnset | JobPhasePending | JobPhaseRunning | JobPhaseSucceeded | JobPhaseFailed

datatype invocation_phase =
    InvocationPhaseUnset
  | InvocationPhasePending
  | InvocationPhaseRunning
  | InvocationPhaseSucceeded
  | InvocationPhaseFailed

record function_reference =
  fr_name :: string

type_synonym raw_extension = "bytes option"

record job_spec =
  js_function_ref :: function_reference
  js_payload :: "raw_extension option"
  js_payloads :: "raw_extension list"
  js_parallelism :: int32
  js_retry_limit :: int32

record invocation_status =
  is_index :: int32
  is_payload_digest :: string
  is_phase :: invocation_phase
  is_attempts :: int32
  is_invocation_id :: string
  is_oci_request_id :: string
  is_status_code :: int32
  is_error :: string
  is_completed_at :: "time option"

record job_status =
  jst_observed_generation :: int
  jst_phase :: job_phase
  jst_start_time :: "time option"
  jst_completion_time :: "time option"
  jst_active :: int32
  jst_succeeded :: int32
  jst_failed :: int32
  jst_retries :: int32
  jst_last_error :: string
  jst_last_oci_request_id :: string
  jst_invocations :: "invocation_status list"
  jst_conditions :: "condition list"

record function_job =
  job_meta :: object_meta
  job_spec :: job_spec
  job_status :: job_status

definition job_condition_pending :: string where "job_condition_pending = ''Pending''"
definition job_condition_running :: string where "job_condition_running = ''Running''"
definition job_condition_resolved :: string where "job_condition_resolved = ''FunctionResolved''"
definition job_condition_complete :: string where "job_condition_complete = ''Complete''"
definition job_condition_failed :: string where "job_condition_failed = ''Failed''"

lemmas job_condition_defs =
  job_condition_pending_def job_condition_running_def job_condition_resolved_def
  job_condition_complete_def job_condition_failed_def

lemma job_condition_distinct [simp]:
  "distinct [job_condition_pending, job_condition_running, job_condition_resolved,
     job_condition_complete, job_condition_failed]"
  by (simp add: job_condition_defs)

lemma job_condition_neq [simp]:
  "job_condition_pending \<noteq> job_condition_running" "job_condition_running \<noteq> job_condition_pending"
  "job_condition_pending \<noteq> job_condition_resolved" "job_condition_resolved \<noteq> job_condition_pending"
  "job_condition_pending \<noteq> job_condition_complete" "job_condition_complete \<noteq> job_condition_pending"
  "job_condition_pending \<noteq> job_condition_failed" "job_condition_failed \<noteq> job_condition_pending"
  "job_condition_running \<noteq> job_condition_resolved" "job_condition_resolved \<noteq> job_condition_running"
  "job_condition_running \<noteq> job_condition_complete" "job_condition_complete \<noteq> job_condition_running"
  "job_condition_running \<noteq> job_condition_failed" "job_condition_failed \<noteq> job_condition_running"
  "job_condition_resolved \<noteq> job_condition_complete" "job_condition_complete \<noteq> job_condition_resolved"
  "job_condition_resolved \<noteq> job_condition_failed" "job_condition_failed \<noteq> job_condition_resolved"
  "job_condition_complete \<noteq> job_condition_failed" "job_condition_failed \<noteq> job_condition_complete"
  using job_condition_distinct by auto

definition desired_parallelism :: "function_job \<Rightarrow> int32" where
  "desired_parallelism j =
     (if js_parallelism (job_spec j) <s 1 then 1 else js_parallelism (job_spec j))"

definition desired_retry_limit :: "function_job \<Rightarrow> int32" where
  "desired_retry_limit j =
     (if js_retry_limit (job_spec j) <s 0 then 0 else js_retry_limit (job_spec j))"

definition set_job_status_condition :: "kube_lib \<Rightarrow> condition \<Rightarrow> function_job \<Rightarrow> function_job" where
  "set_job_status_condition K c j =
     job_status_update (jst_conditions_update (\<lambda>cs. set_status_condition K cs c)) j"

definition job_phase_terminal :: "job_phase \<Rightarrow> bool" where
  "job_phase_terminal p \<longleftrightarrow> p = JobPhaseSucceeded \<or> p = JobPhaseFailed"

definition job_is_terminal :: "function_job \<Rightarrow> bool" where
  "job_is_terminal j = job_phase_terminal (jst_phase (job_status j))"

section \<open>FunctionEvent (functionevent\_types.go)\<close>

datatype event_phase =
    EventPhaseUnset
  | EventPhasePending
  | EventPhaseProcessing
  | EventPhaseProcessed
  | EventPhaseFailed

datatype event_invocation_phase =
    EventInvocationUnset
  | EventInvocationPending
  | EventInvocationSucceeded
  | EventInvocationFailed

record event_spec =
  es_event_type :: string
  es_source :: string
  es_subject :: string
  es_payload :: "raw_extension option"
  es_id :: string
  es_ttl_seconds :: "int32 option"

record event_invocation =
  ei_trigger_name :: string
  ei_function_name :: string
  ei_phase :: event_invocation_phase
  ei_attempts :: int32
  ei_last_attempt :: "time option"
  ei_message :: string

record event_status =
  est_observed_generation :: int
  est_phase :: event_phase
  est_matched_triggers :: "string list"
  est_invocations :: "event_invocation list"
  est_message :: string
  est_conditions :: "condition list"

record function_event =
  ev_meta :: object_meta
  ev_spec :: event_spec
  ev_status :: event_status

definition event_condition_processed :: string where "event_condition_processed = ''Processed''"
definition event_condition_failed :: string where "event_condition_failed = ''Failed''"

lemma event_condition_neq [simp]:
  "event_condition_processed \<noteq> event_condition_failed" "event_condition_failed \<noteq> event_condition_processed"
  by (simp_all add: event_condition_processed_def event_condition_failed_def)

definition set_event_status_condition :: "kube_lib \<Rightarrow> condition \<Rightarrow> function_event \<Rightarrow> function_event" where
  "set_event_status_condition K c e =
     ev_status_update (est_conditions_update (\<lambda>cs. set_status_condition K cs c)) e"

definition event_is_terminal :: "function_event \<Rightarrow> bool" where
  "event_is_terminal e \<longleftrightarrow>
     est_phase (ev_status e) = EventPhaseProcessed \<or> est_phase (ev_status e) = EventPhaseFailed"

section \<open>FunctionEventTrigger (functioneventtrigger\_types.go)\<close>

datatype trigger_phase =
  TriggerPhaseUnset | TriggerPhasePending | TriggerPhaseReady | TriggerPhaseError

record event_condition =
  ec_raw_json :: string
  ec_event_type :: "string list"
  ec_data :: "raw_extension option"

record trigger_spec =
  ts_function_ref :: function_reference
  ts_compartment_id :: string
  ts_display_name :: string
  ts_description :: string
  ts_is_enabled :: "bool option"
  ts_condition :: event_condition
  ts_deletion_policy :: deletion_policy

record trigger_status =
  tst_observed_generation :: int
  tst_phase :: trigger_phase
  tst_rule_id :: string
  tst_last_sync_time :: "time option"
  tst_message :: string
  tst_conditions :: "condition list"

record event_trigger =
  tr_meta :: object_meta
  tr_spec :: trigger_spec
  tr_status :: trigger_status

definition trigger_condition_resolved :: string where "trigger_condition_resolved = ''FunctionResolved''"
definition trigger_condition_rule_ready :: string where "trigger_condition_rule_ready = ''RuleReady''"

lemma trigger_condition_neq [simp]:
  "trigger_condition_resolved \<noteq> trigger_condition_rule_ready" "trigger_condition_rule_ready \<noteq> trigger_condition_resolved"
  by (simp_all add: trigger_condition_resolved_def trigger_condition_rule_ready_def)

definition set_trigger_status_condition :: "kube_lib \<Rightarrow> condition \<Rightarrow> event_trigger \<Rightarrow> event_trigger" where
  "set_trigger_status_condition K c t =
     tr_status_update (tst_conditions_update (\<lambda>cs. set_status_condition K cs c)) t"

definition trigger_deletion_policy :: "event_trigger \<Rightarrow> deletion_policy" where
  "trigger_deletion_policy t =
     (if ts_deletion_policy (tr_spec t) = DeletionPolicyRetain then DeletionPolicyRetain
      else DeletionPolicyDelete)"

definition rule_enabled :: "event_trigger \<Rightarrow> bool" where
  "rule_enabled t = (case ts_is_enabled (tr_spec t) of None \<Rightarrow> True | Some b \<Rightarrow> b)"

section \<open>The API client\<close>

text \<open>
  The operations of \<open>client.Client\<close> the reconcilers use, over a world \<open>'w\<close>. A read may inspect
  the world, a write returns an error or nil and may change it.
\<close>

datatype delete_result = DeleteDone | DeleteNotFound | DeleteFailed go_error

record 'w kube_client =
  get_function :: "string \<Rightarrow> string \<Rightarrow> 'w \<Rightarrow> oci_function get_result"
  get_application :: "string \<Rightarrow> string \<Rightarrow> 'w \<Rightarrow> function_application get_result"
  get_job :: "string \<Rightarrow> string \<Rightarrow> 'w \<Rightarrow> function_job get_result"
  get_event :: "string \<Rightarrow> string \<Rightarrow> 'w \<Rightarrow> function_event get_result"
  get_trigger :: "string \<Rightarrow> string \<Rightarrow> 'w \<Rightarrow> event_trigger get_result"
  list_triggers :: "string \<Rightarrow> 'w \<Rightarrow> go_error + event_trigger list"
  status_update_function :: "oci_function \<Rightarrow> 'w \<Rightarrow> go_error option \<times> 'w"
  status_update_application :: "function_application \<Rightarrow> 'w \<Rightarrow> go_error option \<times> 'w"
  status_update_job :: "function_job \<Rightarrow> 'w \<Rightarrow> go_error option \<times> 'w"
  status_update_event :: "function_event \<Rightarrow> 'w \<Rightarrow> go_error option \<times> 'w"
  status_update_trigger :: "event_trigger \<Rightarrow> 'w \<Rightarrow> go_error option \<times> 'w"
  update_function :: "oci_function \<Rightarrow> 'w \<Rightarrow> go_error option \<times> 'w"
  update_application :: "function_application \<Rightarrow> 'w \<Rightarrow> go_error option \<times> 'w"
  update_trigger :: "event_trigger \<Rightarrow> 'w \<Rightarrow> go_error option \<times> 'w"
  delete_event :: "function_event \<Rightarrow> 'w \<Rightarrow> delete_result \<times> 'w"

end
