(* ===== verification/Invoker.thy ===== *)
theory Invoker
  imports ApiTypes
begin

text \<open>
  \<open>internal/invoker\<close>: the narrow invocation interface the controllers use, and its three
  implementations in the repository (\<open>NotImplemented\<close>, \<open>Fake\<close>, \<open>OCI\<close>). The interface is the
  locale \<open>invoker_contract\<close>: an invocation that returns a nil error carries no status code or a
  2xx one. The OCI SDK client, its factory and \<open>net/url\<close>'s parser are parameters.
\<close>

section \<open>The interface (invoker.go)\<close>

record invoke_target =
  tg_namespace :: string
  tg_function_name :: string
  tg_function_ocid :: string
  tg_invoke_endpoint :: string

record invoke_request =
  rq_target :: invoke_target
  rq_index :: int32
  rq_body :: "bytes option"

record invoke_response =
  rsp_invocation_id :: string
  rsp_oci_request_id :: string
  rsp_status_code :: int32
  rsp_body :: "bytes option"

definition empty_response :: invoke_response where
  "empty_response = \<lparr>rsp_invocation_id = [], rsp_oci_request_id = [], rsp_status_code = 0, rsp_body = None\<rparr>"

text \<open>
  An invoker value: its method \<open>Invoke\<close> over the world, and what the optional capability
  \<open>FunctionIDRequirement\<close> answers (\<open>False\<close> when the value does not implement it).
\<close>

type_synonym 'w invoke_method =
  "invoke_request \<Rightarrow> 'w \<Rightarrow> (invoke_response \<times> go_error option) \<times> 'w"

record 'w invoker =
  inv_invoke :: "'w invoke_method"
  inv_requires_function_id :: bool

definition success_status :: "int32 \<Rightarrow> bool" where
  "success_status c \<longleftrightarrow> c = 0 \<or> (200 \<le>s c \<and> c <s 300)"

locale invoker_contract =
  fixes invoke :: "'w invoke_method"
  assumes success_code: "invoke rq w = ((resp, None), w') \<Longrightarrow> success_status (rsp_status_code resp)"

section \<open>NotImplemented and Fake\<close>

definition not_implemented_invoke :: "'w invoke_method" where
  "not_implemented_invoke rq w = ((empty_response, Some ErrNotImplemented), w)"

definition not_implemented_invoker :: "'w invoker" where
  "not_implemented_invoker = \<lparr>inv_invoke = not_implemented_invoke, inv_requires_function_id = False\<rparr>"

definition fake_invoke :: "'w invoke_method" where
  "fake_invoke rq w =
     ((empty_response\<lparr>
         rsp_invocation_id := ''fake-'' @ tg_function_name (rq_target rq) @ ''-'' @ show_int (sint (rq_index rq)),
         rsp_status_code := 202\<rparr>, None), w)"

definition fake_invoker :: "'w invoker" where
  "fake_invoker = \<lparr>inv_invoke = fake_invoke, inv_requires_function_id = False\<rparr>"

interpretation not_implemented: invoker_contract not_implemented_invoke
  by unfold_locales (simp add: not_implemented_invoke_def)

interpretation fake: invoker_contract fake_invoke
  by unfold_locales (auto simp: fake_invoke_def success_status_def sle_sint sless_sint)

section \<open>OCI invocation (oci.go)\<close>

record parsed_url =
  url_scheme :: string
  url_host :: string
  url_path :: string

text \<open>The HTTP response the SDK hands back: status code and the two headers the code reads.\<close>

record raw_response =
  rr_status_code :: int
  rr_fn_call_id :: string
  rr_opc_request_id :: string

record oci_invoke_response =
  oir_raw :: "raw_response option"
  oir_opc_request_id :: "string option"
  oir_content :: "(go_error + bytes) option"

text \<open>
  An \<open>OCI\<close> invoker: whether it is configured (receiver, config provider and client factory
  non-nil), the URL parser, the client factory for an endpoint and the SDK call
  \<open>InvokeFunction\<close> of the client made for that endpoint.
\<close>

record 'w oci_invoker =
  oi_configured :: bool
  oi_parse_url :: "string \<Rightarrow> go_error + parsed_url"
  oi_client_factory :: "string \<Rightarrow> 'w \<Rightarrow> go_error option"
  oi_invoke_function :: "string \<Rightarrow> string \<Rightarrow> bytes option \<Rightarrow> 'w \<Rightarrow> (oci_invoke_response \<times> go_error option) \<times> 'w"

definition max_oci_error_body_bytes :: nat where
  "max_oci_error_body_bytes = 512"

definition normalize_invoke_endpoint ::
    "(string \<Rightarrow> go_error + parsed_url) \<Rightarrow> string \<Rightarrow> go_error + string" where
  "normalize_invoke_endpoint parse value =
     (let endpoint = trim_space value in
      if endpoint = [] then Inl (ErrorText ''target invoke endpoint is required in OCI mode'')
      else case parse endpoint of
        Inl e \<Rightarrow> Inl (WrapError (''invalid target invoke endpoint '' @ go_quote endpoint) e)
      | Inr u \<Rightarrow>
          if url_scheme u \<noteq> ''https'' \<and> url_scheme u \<noteq> ''http'' then
            Inl (ErrorText (''invalid target invoke endpoint '' @ go_quote endpoint @
              '': endpoint must start with https:// or http://''))
          else if url_host u = [] then
            Inl (ErrorText (''invalid target invoke endpoint '' @ go_quote endpoint @
              '': endpoint must include a host''))
          else if url_path u \<noteq> [] \<and> url_path u \<noteq> ''/'' then
            Inl (ErrorText (''invalid target invoke endpoint '' @ go_quote endpoint @
              '': endpoint must not include a path; the OCI SDK adds the Functions API path''))
          else Inr (trim_right_set endpoint ''/''))"

definition response_from_oci :: "oci_invoke_response \<Rightarrow> invoke_response" where
  "response_from_oci r =
     (let r0 = empty_response;
          r1 = (case oir_raw r of None \<Rightarrow> r0
                | Some raw \<Rightarrow>
                    let a = r0\<lparr>rsp_status_code := word_of_int (rr_status_code raw)\<rparr>;
                        b = (if rr_fn_call_id raw \<noteq> [] then a\<lparr>rsp_invocation_id := rr_fn_call_id raw\<rparr> else a);
                        c = b\<lparr>rsp_oci_request_id := rr_opc_request_id raw\<rparr>
                    in if rsp_invocation_id c = [] then c\<lparr>rsp_invocation_id := rsp_oci_request_id c\<rparr> else c);
          r2 = (case oir_opc_request_id r of None \<Rightarrow> r1
                | Some opc \<Rightarrow>
                    let a = (if rsp_oci_request_id r1 = [] then r1\<lparr>rsp_oci_request_id := opc\<rparr> else r1)
                    in if rsp_invocation_id a = [] then a\<lparr>rsp_invocation_id := opc\<rparr> else a)
      in if rsp_oci_request_id r2 = [] then r2\<lparr>rsp_oci_request_id := rsp_invocation_id r2\<rparr> else r2)"

definition oci_error_details :: "invoke_response \<Rightarrow> string" where
  "oci_error_details r =
     (let parts =
        (if rsp_status_code r \<noteq> 0 then [''status='' @ show_int (sint (rsp_status_code r))] else []) @
        (if rsp_oci_request_id r \<noteq> [] then [''ociRequestId='' @ rsp_oci_request_id r] else []) @
        (if rsp_invocation_id r \<noteq> [] \<and> rsp_invocation_id r \<noteq> rsp_oci_request_id r
         then [''invocationId='' @ rsp_invocation_id r] else [])
      in if parts = [] then [] else '' '' @ join parts '' '')"

definition truncate_for_status :: "bytes option \<Rightarrow> string" where
  "truncate_for_status body =
     (let value = trim_space (case body of None \<Rightarrow> [] | Some b \<Rightarrow> b) in
      if length value \<le> max_oci_error_body_bytes then value
      else take max_oci_error_body_bytes value @ ''...(truncated)'')"

definition non_2xx_error :: "string \<Rightarrow> invoke_response \<Rightarrow> bytes option \<Rightarrow> go_error" where
  "non_2xx_error function_id r body =
     ErrorText (''oci non-2xx response invoking function '' @ function_id @ oci_error_details r @
       '' body='' @ go_quote (truncate_for_status body))"

primrec is_timeout_error :: "go_error \<Rightarrow> bool" where
  "is_timeout_error ErrNotImplemented = False"
| "is_timeout_error (ErrorText m) = False"
| "is_timeout_error (SdkError f) = sdk_timeout f"
| "is_timeout_error (WrapError m e) = is_timeout_error e"
| "is_timeout_error (PendingLogError m) = False"

primrec is_endpoint_error :: "go_error \<Rightarrow> bool" where
  "is_endpoint_error ErrNotImplemented = False"
| "is_endpoint_error (ErrorText m) = False"
| "is_endpoint_error (SdkError f) = sdk_endpoint f"
| "is_endpoint_error (WrapError m e) = is_endpoint_error e"
| "is_endpoint_error (PendingLogError m) = False"

definition oci_request_id_from_error :: "go_error \<Rightarrow> string" where
  "oci_request_id_from_error e = (case service_of e of None \<Rightarrow> [] | Some f \<Rightarrow> sf_opc_request_id f)"

definition status_code_from_error :: "go_error \<Rightarrow> int" where
  "status_code_from_error e = (case service_of e of None \<Rightarrow> 0 | Some f \<Rightarrow> sf_status f)"

definition classify_service_error ::
    "string \<Rightarrow> invoke_response \<Rightarrow> service_failure \<Rightarrow> go_error" where
  "classify_service_error function_id r f =
     (let status_code = sf_status f;
          r1 = (if rsp_oci_request_id r = [] then r\<lparr>rsp_oci_request_id := sf_opc_request_id f\<rparr> else r);
          r2 = (if rsp_status_code r1 = 0 then r1\<lparr>rsp_status_code := word_of_int status_code\<rparr> else r1);
          details = oci_error_details r2 @ (if sf_code f \<noteq> [] then '' code='' @ sf_code f else [])
      in if status_code = 401 \<or> status_code = 403 then
           ErrorText (''oci auth error invoking function '' @ function_id @ details @ '': '' @ sf_message f)
         else if status_code = 404 then
           ErrorText (''oci function OCID error invoking function '' @ function_id @ details @ '': '' @ sf_message f)
         else
           ErrorText (''oci service error invoking function '' @ function_id @ details @ '': '' @ sf_message f))"

definition classify_oci_invoke_error :: "string \<Rightarrow> invoke_response \<Rightarrow> go_error \<Rightarrow> go_error" where
  "classify_oci_invoke_error function_id r e =
     (let details = oci_error_details r in
      if is_timeout_error e then
        WrapError (''oci timeout invoking function '' @ function_id @ details) e
      else if is_endpoint_error e then
        WrapError (''oci endpoint error invoking function '' @ function_id @ details) e
      else case service_of e of
        Some f \<Rightarrow> classify_service_error function_id r f
      | None \<Rightarrow>
          if 400 \<le>s rsp_status_code r then
            WrapError (err_text (non_2xx_error function_id r (rsp_body r))) e
          else WrapError (''oci invoke error invoking function '' @ function_id @ details) e)"

text \<open>\<open>(*OCI).Invoke\<close>: the checks in their order, the SDK call, then the verdict on its response.\<close>

definition oci_finish ::
    "string \<Rightarrow> oci_invoke_response \<Rightarrow> go_error option \<Rightarrow> invoke_response \<times> go_error option" where
  "oci_finish function_id sdk err =
     (let response = response_from_oci sdk in
      case err of
        Some e \<Rightarrow>
          (let r1 = (if rsp_oci_request_id response = []
                     then response\<lparr>rsp_oci_request_id := oci_request_id_from_error e\<rparr> else response);
               r2 = (if rsp_status_code r1 = 0
                     then r1\<lparr>rsp_status_code := word_of_int (status_code_from_error e)\<rparr> else r1)
           in (r2, Some (classify_oci_invoke_error function_id r2 e)))
      | None \<Rightarrow>
          (case oir_content sdk of
             Some (Inl read_err) \<Rightarrow>
               (response, Some (WrapError (''read OCI Function '' @ function_id @ '' response body'') read_err))
           | content \<Rightarrow>
               (let r = (case content of Some (Inr body) \<Rightarrow> response\<lparr>rsp_body := Some body\<rparr> | _ \<Rightarrow> response)
                in if rsp_status_code r \<noteq> 0 \<and> (rsp_status_code r <s 200 \<or> 300 \<le>s rsp_status_code r)
                   then (r, Some (non_2xx_error function_id r (rsp_body r)))
                   else (r, None))))"

definition oci_invoke :: "'w oci_invoker \<Rightarrow> 'w invoke_method" where
  "oci_invoke I rq w =
     (let function_id = trim_space (tg_function_ocid (rq_target rq)) in
      if function_id = [] then
        ((empty_response, Some (ErrorText ''oci invoker requires target function OCID'')), w)
      else if \<not> oi_configured I then
        ((empty_response, Some (ErrorText ''oci invoker is not configured'')), w)
      else case normalize_invoke_endpoint (oi_parse_url I) (tg_invoke_endpoint (rq_target rq)) of
        Inl e \<Rightarrow> ((empty_response, Some e), w)
      | Inr endpoint \<Rightarrow>
          (case oi_client_factory I endpoint w of
             Some e \<Rightarrow> ((empty_response, Some (WrapError
               (''configure OCI Functions invoke client for endpoint '' @ endpoint) e)), w)
           | None \<Rightarrow>
               (let ((sdk, err), w1) = oi_invoke_function I endpoint function_id (rq_body rq) w
                in (oci_finish function_id sdk err, w1))))"

definition oci_invoker_value :: "'w oci_invoker \<Rightarrow> 'w invoker" where
  "oci_invoker_value I = \<lparr>inv_invoke = oci_invoke I, inv_requires_function_id = True\<rparr>"

section \<open>Calling an invoker from a reconciler\<close>

type_synonym invoke_call = "invoke_request \<times> invoke_response \<times> go_error option"

definition call_invoker ::
    "'w invoker \<Rightarrow> invoke_request \<Rightarrow> (('o, invoke_call) effect, 'w) io \<Rightarrow>
     (invoke_response \<times> go_error option) \<times> (('o, invoke_call) effect, 'w) io" where
  "call_invoker I rq s =
     (let ((resp, err), w) = inv_invoke I rq (io_world s)
      in ((resp, err), emit (Called (rq, resp, err)) (s\<lparr>io_world := w\<rparr>)))"

lemma call_invoker_trace:
  "call_invoker I rq s = ((resp, err), s') \<Longrightarrow>
     io_trace s' = io_trace s @ [Called (rq, resp, err)] \<and>
     inv_invoke I rq (io_world s) = ((resp, err), io_world s')"
  by (auto simp: call_invoker_def split: prod.splits)

section \<open>Facts\<close>

lemma oci_finish_success:
  "oci_finish fid sdk err = (resp, None) \<Longrightarrow> success_status (rsp_status_code resp)"
  by (auto simp: oci_finish_def success_status_def Let_def not_sless_sle sless_sint sle_sint
      split: option.splits sum.splits if_splits)

interpretation oci: invoker_contract "oci_invoke I" for I :: "'w oci_invoker"
  by unfold_locales
    (auto simp: oci_invoke_def Let_def dest: oci_finish_success
      split: if_splits sum.splits option.splits prod.splits)

lemma truncate_for_status_bound: "length (truncate_for_status b) \<le> max_oci_error_body_bytes + 14"
  by (simp add: truncate_for_status_def Let_def)

text \<open>An accepted endpoint has no trailing slash and was accepted by every check.\<close>

lemma trim_right_set_last: "trim_right_set s cs \<noteq> [] \<Longrightarrow> last (trim_right_set s cs) \<notin> set cs"
proof -
  assume "trim_right_set s cs \<noteq> []"
  then have "dropWhile (\<lambda>c. c \<in> set cs) (rev s) \<noteq> []"
    by (simp add: trim_right_set_def trim_left_set_def)
  then show ?thesis
    using hd_dropWhile [of "\<lambda>c. c \<in> set cs" "rev s"]
    by (simp add: trim_right_set_def trim_left_set_def last_rev)
qed

lemma normalize_invoke_endpoint_Inr:
  assumes "normalize_invoke_endpoint parse v = Inr ep"
  shows "\<exists>u. parse (trim_space v) = Inr u \<and> url_scheme u \<in> {''https'', ''http''} \<and> url_host u \<noteq> []
    \<and> url_path u \<in> {[], ''/''} \<and> ep = trim_right_set (trim_space v) ''/''"
  using assms
  by (auto simp: normalize_invoke_endpoint_def Let_def split: if_splits sum.splits)

end
