(* ===== verification/InvocationTarget.thy ===== *)
theory InvocationTarget
  imports Invoker
begin

text \<open>
  How a \<open>Function\<close> resource is read by the rest of the operator: its effective mode and OCID
  (\<open>resolvedFunctionMode\<close>, \<open>resolvedSpecFunctionID\<close> of \<open>function_controller.go\<close>), the invocation
  target a job or an event builds from it, when that target may be invoked, and the message when
  it may not (\<open>functionjob_controller.go\<close>).
\<close>

definition resolved_spec_function_id :: "oci_function \<Rightarrow> string" where
  "resolved_spec_function_id f =
     (if fs_function_id (fn_spec f) \<noteq> [] then trim_space (fs_function_id (fn_spec f))
      else trim_space (fs_existing_function_ocid (fn_spec f)))"

definition resolved_function_mode :: "oci_function \<Rightarrow> function_mode" where
  "resolved_function_mode f =
     (case fs_mode (fn_spec f) of
        FunctionModeExisting \<Rightarrow> FunctionModeExisting
      | FunctionModeManaged \<Rightarrow> FunctionModeManaged
      | FunctionModeUnset \<Rightarrow>
          if resolved_spec_function_id f \<noteq> [] then FunctionModeExisting
          else if fs_config (fn_spec f) \<noteq> None then FunctionModeManaged
          else if fs_application_ref (fn_spec f) \<noteq> None then FunctionModeManaged
          else FunctionModeUnset)"

definition invocation_target_for_function :: "oci_function \<Rightarrow> invoke_target" where
  "invocation_target_for_function f =
     (let st = fn_status f;
          id0 = trim_space (fst_function_id st);
          id1 = (if id0 = [] then trim_space (fst_function_ocid st) else id0);
          ep1 = trim_space (fst_invoke_endpoint st);
          existing = (resolved_function_mode f = FunctionModeExisting);
          id2 = (if existing \<and> id1 = [] then resolved_spec_function_id f else id1);
          ep2 = (if existing \<and> ep1 = [] then trim_space (fs_invoke_endpoint (fn_spec f)) else ep1)
      in \<lparr>tg_namespace = om_namespace (fn_meta f), tg_function_name = om_name (fn_meta f),
          tg_function_ocid = id2, tg_invoke_endpoint = ep2\<rparr>)"

definition function_ready_for_invocation :: "kube_lib \<Rightarrow> oci_function \<Rightarrow> invoke_target \<Rightarrow> bool" where
  "function_ready_for_invocation K f t =
     (if tg_function_ocid t = [] \<or> tg_invoke_endpoint t = [] then False
      else function_is_ready K f)"

definition ready_condition_detail :: "condition option \<Rightarrow> string list" where
  "ready_condition_detail c = (case c of
     None \<Rightarrow> [''Ready condition is missing'']
   | Some d \<Rightarrow>
       if c_status d \<noteq> CondTrue then
         [''Ready='' @ show_condition_status (c_status d) @
          (if c_reason d \<noteq> [] then '' reason='' @ c_reason d else []) @
          (if c_message d \<noteq> [] then '' message='' @ c_message d else [])]
       else [])"

definition function_not_ready_message :: "kube_lib \<Rightarrow> oci_function \<Rightarrow> invoke_target \<Rightarrow> string" where
  "function_not_ready_message K f t =
     (let details =
        ready_condition_detail
          (find_status_condition K (fst_conditions (fn_status f)) function_condition_ready) @
        (if tg_function_ocid t = [] then [''function OCID is missing''] else []) @
        (if tg_invoke_endpoint t = [] then [''invoke endpoint is missing''] else []);
          details' = (if details = [] then [''Ready condition is false''] else details)
      in ''referenced Function '' @ go_quote (om_name (fn_meta f)) @ '' is not Ready: '' @
         join details' ''; '')"

text \<open>\<open>requiresFunctionID\<close>.\<close>

definition requires_function_id :: "'w invoker \<Rightarrow> bool" where
  "requires_function_id I = inv_requires_function_id I"

section \<open>Facts\<close>

lemma ready_for_invocation_target:
  "function_ready_for_invocation K f t \<Longrightarrow>
     tg_function_ocid t \<noteq> [] \<and> tg_invoke_endpoint t \<noteq> [] \<and> function_is_ready K f"
  by (simp add: function_ready_for_invocation_def split: if_splits)

lemma target_trimmed:
  "trim_space (tg_function_ocid (invocation_target_for_function f)) = tg_function_ocid (invocation_target_for_function f)"
  "trim_space (tg_invoke_endpoint (invocation_target_for_function f)) = tg_invoke_endpoint (invocation_target_for_function f)"
  by (simp_all add: invocation_target_for_function_def resolved_spec_function_id_def Let_def)

lemma resolved_mode_unset_iff:
  "resolved_function_mode f = FunctionModeUnset \<longleftrightarrow>
     fs_mode (fn_spec f) = FunctionModeUnset \<and> resolved_spec_function_id f = [] \<and>
     fs_config (fn_spec f) = None \<and> fs_application_ref (fn_spec f) = None"
  by (simp add: resolved_function_mode_def split: function_mode.splits)

text \<open>
  The code's fallback detail is never used: a function that is not ready for invocation always
  gives at least one of the other details, under the documented behaviour of the library.
\<close>

lemma not_ready_details:
  assumes "kube_lib_ok K" and "\<not> function_ready_for_invocation K f t"
  shows "ready_condition_detail
      (find_status_condition K (fst_conditions (fn_status f)) function_condition_ready) \<noteq> []
    \<or> tg_function_ocid t = [] \<or> tg_invoke_endpoint t = []"
  using assms
  by (auto simp: function_ready_for_invocation_def function_is_ready_def kube_find kube_is_true
      ready_condition_detail_def condition_status_of_def split: option.splits if_splits)

end
