(* ===== verification/JobController.thy ===== *)
theory JobController
  imports InvocationTarget
begin

text \<open>
  \<open>internal/controller/functionjob_controller.go\<close>: the \<open>FunctionJob\<close> reconciler, from the
  payload list of the spec to the per-payload statuses, the bounded invocation loop, the summary
  and the status update. SHA-256 in hexadecimal is the parameter \<open>jr_sha256\<close>; the API client,
  the invoker and the library are parameters as everywhere.
\<close>

record 'w job_reconciler =
  jr_client :: "'w kube_client"
  jr_lib :: kube_lib
  jr_invoker :: "'w invoker option"
  jr_recorder :: bool
  jr_sha256 :: "bytes \<Rightarrow> string"

type_synonym job_effect = "(function_job, invoke_call) effect"
type_synonym 'w job_io = "(job_effect, 'w) io"

section \<open>Conditions of a job\<close>

record condition_set =
  set_pending :: condition_state
  set_running :: condition_state
  set_complete :: condition_state
  set_failed :: condition_state

definition set_job_condition ::
    "kube_lib \<Rightarrow> time \<Rightarrow> string \<Rightarrow> condition_state \<Rightarrow> function_job \<Rightarrow> function_job" where
  "set_job_condition K now t c j =
     set_job_status_condition K \<lparr>c_type = t, c_status = cs_status c, c_reason = cs_reason c,
       c_message = cs_message c, c_observed_generation = om_generation (job_meta j),
       c_last_transition = now\<rparr> j"

definition set_job_conditions :: "kube_lib \<Rightarrow> time \<Rightarrow> condition_set \<Rightarrow> function_job \<Rightarrow> function_job" where
  "set_job_conditions K now cs j =
     set_job_condition K now job_condition_failed (set_failed cs)
       (set_job_condition K now job_condition_complete (set_complete cs)
         (set_job_condition K now job_condition_running (set_running cs)
           (set_job_condition K now job_condition_pending (set_pending cs) j)))"

text \<open>The \<open>FunctionResolved\<close> condition, set outside the four of a condition set.\<close>

definition set_resolved_condition ::
    "kube_lib \<Rightarrow> time \<Rightarrow> condition_status \<Rightarrow> string \<Rightarrow> string \<Rightarrow> function_job \<Rightarrow> function_job" where
  "set_resolved_condition K now st reason message j =
     set_job_condition K now job_condition_resolved
       \<lparr>cs_status = st, cs_reason = reason, cs_message = message\<rparr> j"

definition cstate :: "condition_status \<Rightarrow> string \<Rightarrow> string \<Rightarrow> condition_state" where
  "cstate st reason message = \<lparr>cs_status = st, cs_reason = reason, cs_message = message\<rparr>"

section \<open>Marking a job\<close>

definition mark_invalid_function_ref :: "kube_lib \<Rightarrow> time \<Rightarrow> function_job \<Rightarrow> function_job" where
  "mark_invalid_function_ref K now j =
     set_job_conditions K now
       \<lparr>set_pending = cstate CondFalse ''InvalidFunctionRef'' ''FunctionJob has an invalid function reference.'',
        set_running = cstate CondFalse ''InvalidFunctionRef'' ''FunctionJob cannot run with an invalid function reference.'',
        set_complete = cstate CondFalse ''InvalidFunctionRef'' ''FunctionJob did not complete.'',
        set_failed = cstate CondTrue ''InvalidFunctionRef'' ''spec.functionRef.name is required.''\<rparr>
       (job_status_update (\<lambda>s. s\<lparr>jst_phase := JobPhaseFailed, jst_completion_time := Some now\<rparr>) j)"

definition mark_waiting_for_function ::
    "kube_lib \<Rightarrow> time \<Rightarrow> string \<Rightarrow> string \<Rightarrow> function_job \<Rightarrow> function_job" where
  "mark_waiting_for_function K now reason message j =
     set_job_conditions K now
       \<lparr>set_pending = cstate CondTrue reason message,
        set_running = cstate CondFalse ''WaitingForFunction'' ''Waiting for the referenced Function to become ready.'',
        set_complete = cstate CondFalse ''WaitingForFunction'' ''FunctionJob has not completed.'',
        set_failed = cstate CondFalse ''WaitingForFunction'' ''FunctionJob has not failed.''\<rparr>
       (set_resolved_condition K now CondFalse reason message
         (job_status_update (\<lambda>s. s\<lparr>jst_phase := JobPhasePending, jst_active := 0\<rparr>) j))"

text \<open>\<open>if CompletionTime == nil { CompletionTime = &now }\<close>.\<close>

definition complete_once :: "time \<Rightarrow> job_status \<Rightarrow> job_status" where
  "complete_once now s =
     (if jst_completion_time s = None then s\<lparr>jst_completion_time := Some now\<rparr> else s)"

definition mark_function_not_ready ::
    "kube_lib \<Rightarrow> time \<Rightarrow> oci_function \<Rightarrow> invoke_target \<Rightarrow> function_job \<Rightarrow> function_job" where
  "mark_function_not_ready K now f t j =
     (let message = function_not_ready_message K f t in
      set_job_conditions K now
       \<lparr>set_pending = cstate CondFalse ''FunctionNotReady'' ''Referenced Function is not ready.'',
        set_running = cstate CondFalse ''FunctionNotReady'' ''FunctionJob cannot run until the referenced Function is ready.'',
        set_complete = cstate CondFalse ''FunctionNotReady'' ''FunctionJob did not complete.'',
        set_failed = cstate CondTrue ''FunctionNotReady'' message\<rparr>
       (set_resolved_condition K now CondFalse ''FunctionNotReady'' message
         (job_status_update (\<lambda>s. complete_once now
            (s\<lparr>jst_phase := JobPhaseFailed, jst_active := 0, jst_last_error := message\<rparr>)) j)))"

definition mark_invoker_not_configured :: "kube_lib \<Rightarrow> time \<Rightarrow> function_job \<Rightarrow> function_job" where
  "mark_invoker_not_configured K now j =
     set_job_conditions K now
       \<lparr>set_pending = cstate CondTrue ''InvokerNotConfigured'' ''OCI Functions invocation is not implemented yet.'',
        set_running = cstate CondFalse ''InvokerNotConfigured'' ''FunctionJob cannot run until an invoker is configured.'',
        set_complete = cstate CondFalse ''InvokerNotConfigured'' ''FunctionJob has not completed.'',
        set_failed = cstate CondFalse ''InvokerNotConfigured'' ''FunctionJob has not failed.''\<rparr>
       (job_status_update (\<lambda>s. s\<lparr>jst_phase := JobPhasePending, jst_active := 0,
          jst_last_error := ''invoker is not configured''\<rparr>) j)"

definition mark_function_id_required :: "kube_lib \<Rightarrow> time \<Rightarrow> string \<Rightarrow> function_job \<Rightarrow> function_job" where
  "mark_function_id_required K now function_name j =
     (let message = ''OCI mode requires referenced Function '' @ go_quote function_name @
        '' to resolve status.functionId'' in
      set_job_conditions K now
       \<lparr>set_pending = cstate CondFalse ''FunctionIDRequired'' ''Referenced Function is missing status.functionId.'',
        set_running = cstate CondFalse ''FunctionIDRequired'' ''FunctionJob cannot run without status.functionId in OCI mode.'',
        set_complete = cstate CondFalse ''FunctionIDRequired'' ''FunctionJob did not complete.'',
        set_failed = cstate CondTrue ''FunctionIDRequired'' message\<rparr>
       (job_status_update (\<lambda>s. complete_once now
          (s\<lparr>jst_phase := JobPhaseFailed, jst_active := 0, jst_last_error := message\<rparr>)) j))"

section \<open>Payloads\<close>

definition inline_payloads :: "function_job \<Rightarrow> bytes option list" where
  "inline_payloads j =
     (if js_payloads (job_spec j) \<noteq> [] then js_payloads (job_spec j)
      else case js_payload (job_spec j) of Some raw \<Rightarrow> [raw] | None \<Rightarrow> [None])"

definition digest_payload :: "(bytes \<Rightarrow> string) \<Rightarrow> bytes option \<Rightarrow> string" where
  "digest_payload sha256 p = ''sha256:'' @ sha256 (case p of None \<Rightarrow> [] | Some b \<Rightarrow> b)"

text \<open>
  The map \<open>existingByIndex\<close>: a later status of the same index replaces an earlier one.
\<close>

definition existing_by_index :: "invocation_status list \<Rightarrow> int32 \<Rightarrow> invocation_status option" where
  "existing_by_index sts i = find (\<lambda>st. is_index st = i) (rev sts)"

definition fresh_invocation :: "int32 \<Rightarrow> string \<Rightarrow> invocation_status" where
  "fresh_invocation i digest =
     \<lparr>is_index = i, is_payload_digest = digest, is_phase = InvocationPhasePending, is_attempts = 0,
      is_invocation_id = [], is_oci_request_id = [], is_status_code = 0, is_error = [],
      is_completed_at = None\<rparr>"

definition ensure_payload_status ::
    "(bytes \<Rightarrow> string) \<Rightarrow> invocation_status list \<Rightarrow> nat \<Rightarrow> bytes option \<Rightarrow> invocation_status" where
  "ensure_payload_status sha256 sts i payload =
     (let index = (of_nat i :: int32);
          digest = digest_payload sha256 payload;
          st0 = (case existing_by_index sts index of
                   None \<Rightarrow> fresh_invocation index digest
                 | Some st \<Rightarrow> if is_payload_digest st \<noteq> digest then fresh_invocation index digest else st);
          st1 = (if is_payload_digest st0 = [] then st0\<lparr>is_payload_digest := digest\<rparr> else st0)
      in if is_phase st1 = InvocationPhaseUnset then st1\<lparr>is_phase := InvocationPhasePending\<rparr> else st1)"

fun ensure_payloads_from ::
    "(bytes \<Rightarrow> string) \<Rightarrow> invocation_status list \<Rightarrow> nat \<Rightarrow> bytes option list \<Rightarrow> invocation_status list" where
  "ensure_payloads_from sha256 sts i [] = []"
| "ensure_payloads_from sha256 sts i (p # ps) =
     ensure_payload_status sha256 sts i p # ensure_payloads_from sha256 sts (Suc i) ps"

definition ensure_payload_statuses ::
    "(bytes \<Rightarrow> string) \<Rightarrow> bytes option list \<Rightarrow> job_status \<Rightarrow> job_status" where
  "ensure_payload_statuses sha256 payloads s =
     s\<lparr>jst_invocations := ensure_payloads_from sha256 (jst_invocations s) 0 payloads\<rparr>"

section \<open>Counting\<close>

definition count_invocation :: "invocation_status \<Rightarrow> job_status \<Rightarrow> job_status" where
  "count_invocation st s =
     (let s1 = (case is_phase st of
          InvocationPhaseRunning \<Rightarrow> s\<lparr>jst_active := jst_active s + 1\<rparr>
        | InvocationPhaseSucceeded \<Rightarrow> s\<lparr>jst_succeeded := jst_succeeded s + 1\<rparr>
        | InvocationPhaseFailed \<Rightarrow> s\<lparr>jst_failed := jst_failed s + 1\<rparr>
        | _ \<Rightarrow> s)
      in if 1 <s is_attempts st then s1\<lparr>jst_retries := jst_retries s1 + (is_attempts st - 1)\<rparr> else s1)"

definition recompute_invocation_counts :: "job_status \<Rightarrow> job_status" where
  "recompute_invocation_counts s =
     fold count_invocation (jst_invocations s)
       (s\<lparr>jst_active := 0, jst_succeeded := 0, jst_failed := 0, jst_retries := 0\<rparr>)"

definition is_runnable_payload :: "invocation_status \<Rightarrow> int32 \<Rightarrow> bool" where
  "is_runnable_payload st retry_limit =
     (if is_phase st = InvocationPhaseSucceeded then False
      else if is_phase st = InvocationPhaseFailed \<and> retry_limit + 1 \<le>s is_attempts st then False
      else True)"

fun has_runnable_payload :: "invocation_status list \<Rightarrow> int32 \<Rightarrow> bool" where
  "has_runnable_payload [] retry_limit = False"
| "has_runnable_payload (st # sts) retry_limit =
     (if is_runnable_payload st retry_limit then True else has_runnable_payload sts retry_limit)"

section \<open>Invoking payloads\<close>

text \<open>
  \<open>payloads[status.Index]\<close> panics out of range; \<open>None\<close> is that panic. An attempt loop ends
  normally, with \<open>ErrNotImplemented\<close>, or in that panic.
\<close>

definition payload_at :: "bytes option list \<Rightarrow> int32 \<Rightarrow> bytes option option" where
  "payload_at ps i = (if 0 \<le>s i \<and> nat (sint i) < length ps then Some (ps ! nat (sint i)) else None)"

datatype loop_end = LoopDone | LoopStopped go_error | LoopPanic

definition attempt_failed_message :: "invocation_status \<Rightarrow> string" where
  "attempt_failed_message st =
     ''Payload index '' @ show_int (sint (is_index st)) @ '' failed after '' @
     show_int (sint (is_attempts st)) @ '' attempt(s): '' @ is_error st"

text \<open>The assignments after a call that was implemented.\<close>

definition note_attempt :: "invoke_response \<Rightarrow> invocation_status \<Rightarrow> invocation_status" where
  "note_attempt response st =
     st\<lparr>is_attempts := is_attempts st + 1,
        is_invocation_id := rsp_invocation_id response,
        is_oci_request_id := rsp_oci_request_id response,
        is_status_code := rsp_status_code response\<rparr>"

definition note_request_id :: "invoke_response \<Rightarrow> job_status \<Rightarrow> job_status" where
  "note_request_id response ds =
     (if rsp_oci_request_id response \<noteq> []
      then ds\<lparr>jst_last_oci_request_id := rsp_oci_request_id response\<rparr> else ds)"

definition note_success :: "time \<Rightarrow> invocation_status \<Rightarrow> invocation_status" where
  "note_success now st =
     st\<lparr>is_phase := InvocationPhaseSucceeded, is_error := [], is_completed_at := Some now\<rparr>"

definition note_exhausted :: "time \<Rightarrow> invocation_status \<Rightarrow> invocation_status" where
  "note_exhausted now st = st\<lparr>is_phase := InvocationPhaseFailed, is_completed_at := Some now\<rparr>"

function invoke_attempts ::
    "bool \<Rightarrow> 'w invoker \<Rightarrow> invoke_target \<Rightarrow> bytes option list \<Rightarrow> time \<Rightarrow> int32 \<Rightarrow>
     invocation_status \<Rightarrow> job_status \<Rightarrow> 'w job_io \<Rightarrow>
     loop_end \<times> invocation_status \<times> job_status \<times> 'w job_io" where
  "invoke_attempts recorder I target payloads now max_attempts st ds s =
     (if is_attempts st <s max_attempts then
        (case payload_at payloads (is_index st) of
           None \<Rightarrow> (LoopPanic, st, ds, s)
         | Some body \<Rightarrow>
             (case call_invoker I \<lparr>rq_target = target, rq_index = is_index st, rq_body = body\<rparr> s of
                ((response, err), s1) \<Rightarrow>
                  if err_is_not_implemented err then
                    (LoopStopped (the err), st\<lparr>is_phase := InvocationPhasePending\<rparr>, ds, s1)
                  else
                    (let st1 = note_attempt response st; ds1 = note_request_id response ds in
                     case err of
                       None \<Rightarrow> (LoopDone, note_success now st1, ds1, s1)
                     | Some e \<Rightarrow>
                         (let st2 = st1\<lparr>is_error := err_text e\<rparr>;
                              ds2 = ds1\<lparr>jst_last_error := is_error st2\<rparr>
                          in if max_attempts \<le>s is_attempts st2 then
                               (let st3 = note_exhausted now st2
                                in (LoopDone, st3, ds2,
                                    record_event recorder EventWarning ''InvocationFailed''
                                      (attempt_failed_message st3) s1))
                             else invoke_attempts recorder I target payloads now max_attempts st2 ds2 s1))))
      else (LoopDone, st, ds, s))"
  by pat_completeness auto
termination
  by (relation "measure (\<lambda>(r, i, t, p, n, m, st, ds, s). nat (sint m - sint (is_attempts st)))")
    (auto simp: sless_sint note_attempt_def intro: sint_less_Suc)

declare invoke_attempts.simps [simp del]

fun invoke_payloads ::
    "bool \<Rightarrow> 'w invoker \<Rightarrow> invoke_target \<Rightarrow> bytes option list \<Rightarrow> time \<Rightarrow> int32 \<Rightarrow> int32 \<Rightarrow>
     int32 \<Rightarrow> invocation_status list \<Rightarrow> job_status \<Rightarrow> 'w job_io \<Rightarrow>
     int32 \<times> loop_end \<times> invocation_status list \<times> job_status \<times> 'w job_io" where
  "invoke_payloads recorder I target payloads now limit retry_limit processed [] ds s =
     (processed, LoopDone, [], ds, s)"
| "invoke_payloads recorder I target payloads now limit retry_limit processed (st # sts) ds s =
     (if limit \<le>s processed then (processed, LoopDone, st # sts, ds, s)
      else if \<not> is_runnable_payload st retry_limit then
        (case invoke_payloads recorder I target payloads now limit retry_limit processed sts ds s of
           (p, x, sts', ds', s') \<Rightarrow> (p, x, st # sts', ds', s'))
      else
        (case invoke_attempts recorder I target payloads now (retry_limit + 1)
                (st\<lparr>is_phase := InvocationPhaseRunning\<rparr>) ds s of
           (LoopDone, st', ds1, s1) \<Rightarrow>
             (case invoke_payloads recorder I target payloads now limit retry_limit (processed + 1) sts ds1 s1 of
                (p, x, sts', ds', s') \<Rightarrow> (p, x, st' # sts', ds', s'))
         | (x, st', ds1, s1) \<Rightarrow> (processed + 1, x, st' # sts, ds1, s1)))"

text \<open>
  \<open>invokeRunnablePayloads\<close>: \<open>desired.Status\<close> is updated in place, so its list of statuses is
  taken out, walked, and put back.
\<close>

definition invoke_runnable_payloads ::
    "'w job_reconciler \<Rightarrow> 'w invoker \<Rightarrow> function_job \<Rightarrow> invoke_target \<Rightarrow> bytes option list \<Rightarrow> time \<Rightarrow>
     function_job \<Rightarrow> 'w job_io \<Rightarrow> int32 \<times> loop_end \<times> function_job \<times> 'w job_io" where
  "invoke_runnable_payloads R I job target payloads now desired s =
     (case invoke_payloads (jr_recorder R) I target payloads now (desired_parallelism job)
             (desired_retry_limit job) 0 (jst_invocations (job_status desired)) (job_status desired) s of
        (processed, x, sts, ds, s') \<Rightarrow>
          (processed, x, desired\<lparr>job_status := ds\<lparr>jst_invocations := sts\<rparr>\<rparr>, s'))"

section \<open>Summary\<close>

definition mark_no_payloads :: "kube_lib \<Rightarrow> time \<Rightarrow> function_job \<Rightarrow> function_job" where
  "mark_no_payloads K now j =
     set_job_conditions K now
       \<lparr>set_pending = cstate CondFalse ''NoPayloads'' ''FunctionJob has no payloads to invoke.'',
        set_running = cstate CondFalse ''NoPayloads'' ''FunctionJob has no running payloads.'',
        set_complete = cstate CondTrue ''NoPayloads'' ''FunctionJob completed without payloads.'',
        set_failed = cstate CondFalse ''NoFailedInvocations'' ''No payload failures were observed.''\<rparr>
       (job_status_update (\<lambda>s. complete_once now (s\<lparr>jst_phase := JobPhaseSucceeded\<rparr>)) j)"

definition mark_job_failed :: "kube_lib \<Rightarrow> time \<Rightarrow> function_job \<Rightarrow> function_job" where
  "mark_job_failed K now j =
     set_job_conditions K now
       \<lparr>set_pending = cstate CondFalse ''PayloadsTerminal'' ''All payloads reached a terminal state.'',
        set_running = cstate CondFalse ''PayloadsTerminal'' ''FunctionJob has no remaining runnable payloads.'',
        set_complete = cstate CondFalse ''InvocationFailed'' ''One or more function invocations failed after retries.'',
        set_failed = cstate CondTrue ''InvocationFailed'' ''One or more function invocations failed after retries.''\<rparr>
       (job_status_update (\<lambda>s. complete_once now (s\<lparr>jst_phase := JobPhaseFailed\<rparr>)) j)"

definition mark_job_succeeded :: "kube_lib \<Rightarrow> time \<Rightarrow> function_job \<Rightarrow> function_job" where
  "mark_job_succeeded K now j =
     set_job_conditions K now
       \<lparr>set_pending = cstate CondFalse ''AllInvocationsSucceeded'' ''All requested payloads were invoked.'',
        set_running = cstate CondFalse ''AllInvocationsSucceeded'' ''FunctionJob has no remaining runnable payloads.'',
        set_complete = cstate CondTrue ''AllInvocationsSucceeded'' ''All requested function invocations succeeded.'',
        set_failed = cstate CondFalse ''NoFailedInvocations'' ''No invocation failures were observed.''\<rparr>
       (job_status_update (\<lambda>s. complete_once now
          (s\<lparr>jst_phase := JobPhaseSucceeded, jst_last_error := []\<rparr>)) j)"

definition mark_job_running :: "kube_lib \<Rightarrow> time \<Rightarrow> function_job \<Rightarrow> function_job" where
  "mark_job_running K now j =
     set_job_conditions K now
       \<lparr>set_pending = cstate CondFalse ''FunctionReady'' ''FunctionJob has started invoking payloads.'',
        set_running = cstate CondTrue ''PayloadsRemaining'' ''FunctionJob has remaining payloads to invoke.'',
        set_complete = cstate CondFalse ''PayloadsRemaining'' ''FunctionJob has not completed.'',
        set_failed = cstate CondFalse ''PayloadsRemaining'' ''FunctionJob has not failed.''\<rparr>
       (job_status_update (\<lambda>s. s\<lparr>jst_phase := JobPhaseRunning, jst_completion_time := None\<rparr>) j)"

definition summarize_invocation_state ::
    "kube_lib \<Rightarrow> function_job \<Rightarrow> function_job \<Rightarrow> bytes option list \<Rightarrow> time \<Rightarrow> function_job" where
  "summarize_invocation_state K original desired payloads now =
     (let total = (of_nat (length payloads) :: int32);
          ds = job_status desired;
          terminal = (jst_succeeded ds + jst_failed ds = total);
          d1 = (if total = 0 then mark_no_payloads K now desired
                else if 0 <s jst_failed ds \<and> terminal then mark_job_failed K now desired
                else if jst_succeeded ds = total then mark_job_succeeded K now desired
                else mark_job_running K now desired)
      in if jst_phase (job_status original) \<noteq> jst_phase (job_status d1)
         then job_status_update (\<lambda>s. s\<lparr>jst_observed_generation := om_generation (job_meta d1)\<rparr>) d1
         else d1)"

section \<open>Status update and reconciliation\<close>

definition update_job_status ::
    "'w job_reconciler \<Rightarrow> function_job \<Rightarrow> job_status \<Rightarrow> 'w job_io \<Rightarrow> go_error option \<times> 'w job_io" where
  "update_job_status R job desired s =
     (if job_status job = desired then (None, s)
      else perform (StatusUpdate (job\<lparr>job_status := desired\<rparr>))
             (status_update_job (jr_client R) (job\<lparr>job_status := desired\<rparr>)) s)"

text \<open>\<open>return ctrl.Result{}, r.updateFunctionJobStatus(...)\<close>.\<close>

definition finish_job ::
    "'w job_reconciler \<Rightarrow> function_job \<Rightarrow> function_job \<Rightarrow> 'w job_io \<Rightarrow> reconcile_end \<times> 'w job_io" where
  "finish_job R job desired s =
     (case update_job_status R job (job_status desired) s of
        (err, s') \<Rightarrow> (Returned no_requeue err, s'))"

definition job_completion_event ::
    "'w job_reconciler \<Rightarrow> function_job \<Rightarrow> function_job \<Rightarrow> 'w job_io \<Rightarrow> 'w job_io" where
  "job_completion_event R job desired s =
     (if \<not> job_is_terminal job \<and> job_is_terminal desired then
        (if jst_phase (job_status desired) = JobPhaseSucceeded then
           record_event (jr_recorder R) EventNormal ''Complete'' ''FunctionJob completed: all payloads succeeded.'' s
         else
           record_event (jr_recorder R) EventWarning ''Failed'' ''FunctionJob failed: one or more payloads failed after retries.'' s)
      else s)"

text \<open>The part of \<open>Reconcile\<close> after the referenced function has been found ready.\<close>

definition run_job ::
    "'w job_reconciler \<Rightarrow> time \<Rightarrow> function_job \<Rightarrow> function_job \<Rightarrow> oci_function \<Rightarrow> invoke_target \<Rightarrow>
     'w job_io \<Rightarrow> reconcile_end \<times> 'w job_io" where
  "run_job R now job desired0 f target s =
     (let K = jr_lib R;
          desired1 = set_resolved_condition K now CondTrue ''FunctionReady''
            ''Referenced Function is ready for invocation.'' desired0;
          payloads = inline_payloads job;
          desired2 = job_status_update (\<lambda>st. recompute_invocation_counts
            (ensure_payload_statuses (jr_sha256 R) payloads st)) desired1
      in case jr_invoker R of
           None \<Rightarrow> finish_job R job (mark_invoker_not_configured K now desired2) s
         | Some I \<Rightarrow>
             if requires_function_id I \<and> tg_function_ocid target = [] then
               (let desired3 = mark_function_id_required K now (om_name (fn_meta f)) desired2
                in finish_job R job desired3
                     (record_event (jr_recorder R) EventWarning ''Failed''
                       (jst_last_error (job_status desired3)) s))
             else
               (case invoke_runnable_payloads R I job target payloads now desired2 s of
                  (processed, LoopPanic, desired3, s1) \<Rightarrow> (Panicked, s1)
                | (processed, LoopStopped e, desired3, s1) \<Rightarrow>
                    if is_not_implemented e
                    then finish_job R job (mark_invoker_not_configured K now desired3) s1
                    else (Returned no_requeue (Some e), s1)
                | (processed, LoopDone, desired3, s1) \<Rightarrow>
                    (let desired4 = summarize_invocation_state K job
                           (job_status_update recompute_invocation_counts desired3) payloads now;
                         s2 = job_completion_event R job desired4 s1
                     in case update_job_status R job (job_status desired4) s2 of
                          (Some e, s3) \<Rightarrow> (Returned no_requeue (Some e), s3)
                        | (None, s3) \<Rightarrow>
                            if jst_phase (job_status desired4) = JobPhaseRunning \<and>
                               has_runnable_payload (jst_invocations (job_status desired4)) (desired_retry_limit job)
                            then (Returned requeue_now None, s3)
                            else (Returned no_requeue None, s3))))"

text \<open>\<open>desiredObject\<close> right after the copy: the observed generation and the start time.\<close>

definition start_job :: "time \<Rightarrow> function_job \<Rightarrow> function_job" where
  "start_job now job =
     job_status_update (\<lambda>s. s\<lparr>jst_observed_generation := om_generation (job_meta job),
       jst_start_time := (case jst_start_time s of None \<Rightarrow> Some now | Some t \<Rightarrow> Some t)\<rparr>) job"

definition reconcile_found_job ::
    "'w job_reconciler \<Rightarrow> time \<Rightarrow> function_job \<Rightarrow> 'w job_io \<Rightarrow> reconcile_end \<times> 'w job_io" where
  "reconcile_found_job R now job s =
     (if job_is_terminal job then (Returned no_requeue None, s)
      else
        (let K = jr_lib R; desired = start_job now job; ref = fr_name (js_function_ref (job_spec job)) in
         if ref = [] then
           finish_job R job (mark_invalid_function_ref K now desired)
             (record_event (jr_recorder R) EventWarning ''Failed''
               ''FunctionJob failed: spec.functionRef.name is required.'' s)
         else
           (case get_function (jr_client R) (om_namespace (job_meta job)) ref (io_world s) of
              GetFailed e \<Rightarrow> (Returned no_requeue (Some e), s)
            | NotFound \<Rightarrow>
                finish_job R job (mark_waiting_for_function K now ''FunctionNotFound''
                  ''Referenced Function was not found in the FunctionJob namespace.'' desired) s
            | Got f \<Rightarrow>
                (let target = invocation_target_for_function f in
                 if \<not> function_ready_for_invocation K f target then
                   (let desired' = mark_function_not_ready K now f target desired
                    in finish_job R job desired'
                         (record_event (jr_recorder R) EventWarning ''Failed''
                           (jst_last_error (job_status desired')) s))
                 else run_job R now job desired f target s))))"

definition reconcile_job ::
    "'w job_reconciler \<Rightarrow> time \<Rightarrow> string \<Rightarrow> string \<Rightarrow> 'w job_io \<Rightarrow> reconcile_end \<times> 'w job_io" where
  "reconcile_job R now namespace name s =
     (case get_job (jr_client R) namespace name (io_world s) of
        NotFound \<Rightarrow> (Returned no_requeue None, s)
      | GetFailed e \<Rightarrow> (Returned no_requeue (Some e), s)
      | Got job \<Rightarrow> reconcile_found_job R now job s)"

end
