(* ===== verification/JobLemmas.thy ===== *)
theory JobLemmas
  imports JobController
begin

text \<open>
  The library of facts about the \<open>FunctionJob\<close> reconciler: what each marking operation leaves in
  the status, what an attempt loop and a pass over the payloads do, and what the counters hold.
\<close>

section \<open>Condition setters and marks\<close>

lemma set_job_condition_frame [status_simps]:
  "job_meta (set_job_condition K now t c j) = job_meta j"
  "job_spec (set_job_condition K now t c j) = job_spec j"
  "jst_observed_generation (job_status (set_job_condition K now t c j)) = jst_observed_generation (job_status j)"
  "jst_phase (job_status (set_job_condition K now t c j)) = jst_phase (job_status j)"
  "jst_start_time (job_status (set_job_condition K now t c j)) = jst_start_time (job_status j)"
  "jst_completion_time (job_status (set_job_condition K now t c j)) = jst_completion_time (job_status j)"
  "jst_active (job_status (set_job_condition K now t c j)) = jst_active (job_status j)"
  "jst_succeeded (job_status (set_job_condition K now t c j)) = jst_succeeded (job_status j)"
  "jst_failed (job_status (set_job_condition K now t c j)) = jst_failed (job_status j)"
  "jst_retries (job_status (set_job_condition K now t c j)) = jst_retries (job_status j)"
  "jst_last_error (job_status (set_job_condition K now t c j)) = jst_last_error (job_status j)"
  "jst_invocations (job_status (set_job_condition K now t c j)) = jst_invocations (job_status j)"
  by (simp_all add: set_job_condition_def set_job_status_condition_def)

lemma set_job_conditions_frame [status_simps]:
  "job_meta (set_job_conditions K now cs j) = job_meta j"
  "job_spec (set_job_conditions K now cs j) = job_spec j"
  "jst_observed_generation (job_status (set_job_conditions K now cs j)) = jst_observed_generation (job_status j)"
  "jst_phase (job_status (set_job_conditions K now cs j)) = jst_phase (job_status j)"
  "jst_start_time (job_status (set_job_conditions K now cs j)) = jst_start_time (job_status j)"
  "jst_completion_time (job_status (set_job_conditions K now cs j)) = jst_completion_time (job_status j)"
  "jst_active (job_status (set_job_conditions K now cs j)) = jst_active (job_status j)"
  "jst_succeeded (job_status (set_job_conditions K now cs j)) = jst_succeeded (job_status j)"
  "jst_failed (job_status (set_job_conditions K now cs j)) = jst_failed (job_status j)"
  "jst_retries (job_status (set_job_conditions K now cs j)) = jst_retries (job_status j)"
  "jst_last_error (job_status (set_job_conditions K now cs j)) = jst_last_error (job_status j)"
  "jst_invocations (job_status (set_job_conditions K now cs j)) = jst_invocations (job_status j)"
  by (simp_all add: set_job_conditions_def status_simps)

lemma set_resolved_condition_frame [status_simps]:
  "job_meta (set_resolved_condition K now st r m j) = job_meta j"
  "job_spec (set_resolved_condition K now st r m j) = job_spec j"
  "jst_phase (job_status (set_resolved_condition K now st r m j)) = jst_phase (job_status j)"
  "jst_completion_time (job_status (set_resolved_condition K now st r m j)) = jst_completion_time (job_status j)"
  "jst_last_error (job_status (set_resolved_condition K now st r m j)) = jst_last_error (job_status j)"
  "jst_invocations (job_status (set_resolved_condition K now st r m j)) = jst_invocations (job_status j)"
  by (simp_all add: set_resolved_condition_def status_simps)

lemma complete_once_frame [status_simps]:
  "jst_phase (complete_once now s) = jst_phase s"
  "jst_last_error (complete_once now s) = jst_last_error s"
  "jst_invocations (complete_once now s) = jst_invocations s"
  "jst_succeeded (complete_once now s) = jst_succeeded s"
  "jst_failed (complete_once now s) = jst_failed s"
  "jst_conditions (complete_once now s) = jst_conditions s"
  "jst_completion_time (complete_once now s) \<noteq> None"
  by (simp_all add: complete_once_def)

abbreviation job_condition_status :: "function_job \<Rightarrow> string \<Rightarrow> condition_status option" where
  "job_condition_status j t \<equiv> condition_status_of (jst_conditions (job_status j)) t"

lemma set_job_condition_status [cond_simps]:
  assumes "kube_lib_ok K"
  shows "job_condition_status (set_job_condition K now t c j) t' =
    (if t' = t then Some (cs_status c) else job_condition_status j t')"
  using kube_status_set [OF assms]
  by (simp add: set_job_condition_def set_job_status_condition_def)

lemma set_job_conditions_status [cond_simps]:
  assumes "kube_lib_ok K"
  shows "job_condition_status (set_job_conditions K now cs j) t =
    (if t = job_condition_failed then Some (cs_status (set_failed cs))
     else if t = job_condition_complete then Some (cs_status (set_complete cs))
     else if t = job_condition_running then Some (cs_status (set_running cs))
     else if t = job_condition_pending then Some (cs_status (set_pending cs))
     else job_condition_status j t)"
  by (simp add: set_job_conditions_def set_job_condition_status [OF assms])

lemma cstate_simps [simp]:
  "cs_status (cstate st r m) = st" "cs_reason (cstate st r m) = r" "cs_message (cstate st r m) = m"
  by (simp_all add: cstate_def)

text \<open>
  A job's conditions agree with its phase when each of \<open>Pending\<close>, \<open>Running\<close>, \<open>Complete\<close>
  and \<open>Failed\<close> is present and true exactly in its phase.
\<close>

definition job_conditions_agree :: "function_job \<Rightarrow> bool" where
  "job_conditions_agree j \<longleftrightarrow> (let p = jst_phase (job_status j) in
     job_condition_status j job_condition_pending = Some (truth (p = JobPhasePending)) \<and>
     job_condition_status j job_condition_running = Some (truth (p = JobPhaseRunning)) \<and>
     job_condition_status j job_condition_complete = Some (truth (p = JobPhaseSucceeded)) \<and>
     job_condition_status j job_condition_failed = Some (truth (p = JobPhaseFailed)))"

lemmas mark_defs =
  mark_invalid_function_ref_def mark_waiting_for_function_def mark_function_not_ready_def
  mark_invoker_not_configured_def mark_function_id_required_def mark_no_payloads_def
  mark_job_failed_def mark_job_succeeded_def mark_job_running_def Let_def

lemma mark_phase [status_simps]:
  "jst_phase (job_status (mark_invalid_function_ref K now j)) = JobPhaseFailed"
  "jst_phase (job_status (mark_waiting_for_function K now r m j)) = JobPhasePending"
  "jst_phase (job_status (mark_function_not_ready K now f t j)) = JobPhaseFailed"
  "jst_phase (job_status (mark_invoker_not_configured K now j)) = JobPhasePending"
  "jst_phase (job_status (mark_function_id_required K now n j)) = JobPhaseFailed"
  "jst_phase (job_status (mark_no_payloads K now j)) = JobPhaseSucceeded"
  "jst_phase (job_status (mark_job_failed K now j)) = JobPhaseFailed"
  "jst_phase (job_status (mark_job_succeeded K now j)) = JobPhaseSucceeded"
  "jst_phase (job_status (mark_job_running K now j)) = JobPhaseRunning"
  by (simp_all add: mark_defs status_simps)

lemma mark_conditions_agree:
  assumes "kube_lib_ok K"
  shows "job_conditions_agree (mark_invalid_function_ref K now j)"
    "job_conditions_agree (mark_waiting_for_function K now r m j)"
    "job_conditions_agree (mark_function_not_ready K now f t j)"
    "job_conditions_agree (mark_invoker_not_configured K now j)"
    "job_conditions_agree (mark_function_id_required K now n j)"
    "job_conditions_agree (mark_no_payloads K now j)"
    "job_conditions_agree (mark_job_failed K now j)"
    "job_conditions_agree (mark_job_succeeded K now j)"
    "job_conditions_agree (mark_job_running K now j)"
  by (simp_all add: job_conditions_agree_def status_simps)
    (simp_all add: mark_defs set_job_conditions_status [OF assms] truth_def)

lemma summary_agrees:
  assumes "kube_lib_ok K"
  shows "job_conditions_agree (summarize_invocation_state K original desired payloads now)"
proof -
  have upd: "job_conditions_agree (job_status_update (\<lambda>s. s\<lparr>jst_observed_generation := g\<rparr>) j)
      = job_conditions_agree j" for g j
    by (simp add: job_conditions_agree_def)
  show ?thesis
    by (simp add: summarize_invocation_state_def Let_def upd mark_conditions_agree [OF assms])
qed

section \<open>One attempt loop\<close>

text \<open>
  The loop as a relation: one rule per way through its body. Facts about the loop are proved by
  rule induction over it.
\<close>

inductive attempts_run ::
    "bool \<Rightarrow> 'w invoker \<Rightarrow> invoke_target \<Rightarrow> bytes option list \<Rightarrow> time \<Rightarrow> int32 \<Rightarrow>
     invocation_status \<Rightarrow> job_status \<Rightarrow> 'w job_io \<Rightarrow>
     loop_end \<Rightarrow> invocation_status \<Rightarrow> job_status \<Rightarrow> 'w job_io \<Rightarrow> bool"
  for r I target payloads now m where
  spent: "m \<le>s is_attempts st \<Longrightarrow> attempts_run r I target payloads now m st ds s LoopDone st ds s"
| panic: "is_attempts st <s m \<Longrightarrow> payload_at payloads (is_index st) = None \<Longrightarrow>
    attempts_run r I target payloads now m st ds s LoopPanic st ds s"
| stopped: "is_attempts st <s m \<Longrightarrow> payload_at payloads (is_index st) = Some body \<Longrightarrow>
    call_invoker I \<lparr>rq_target = target, rq_index = is_index st, rq_body = body\<rparr> s = ((resp, Some e), s1) \<Longrightarrow>
    is_not_implemented e \<Longrightarrow>
    attempts_run r I target payloads now m st ds s
      (LoopStopped e) (st\<lparr>is_phase := InvocationPhasePending\<rparr>) ds s1"
| success: "is_attempts st <s m \<Longrightarrow> payload_at payloads (is_index st) = Some body \<Longrightarrow>
    call_invoker I \<lparr>rq_target = target, rq_index = is_index st, rq_body = body\<rparr> s = ((resp, None), s1) \<Longrightarrow>
    attempts_run r I target payloads now m st ds s
      LoopDone (note_success now (note_attempt resp st)) (note_request_id resp ds) s1"
| exhausted: "is_attempts st <s m \<Longrightarrow> payload_at payloads (is_index st) = Some body \<Longrightarrow>
    call_invoker I \<lparr>rq_target = target, rq_index = is_index st, rq_body = body\<rparr> s = ((resp, Some e), s1) \<Longrightarrow>
    \<not> is_not_implemented e \<Longrightarrow> m \<le>s is_attempts st + 1 \<Longrightarrow>
    st3 = note_exhausted now ((note_attempt resp st)\<lparr>is_error := err_text e\<rparr>) \<Longrightarrow>
    attempts_run r I target payloads now m st ds s
      LoopDone st3 ((note_request_id resp ds)\<lparr>jst_last_error := err_text e\<rparr>)
      (record_event r EventWarning ''InvocationFailed'' (attempt_failed_message st3) s1)"
| retry: "is_attempts st <s m \<Longrightarrow> payload_at payloads (is_index st) = Some body \<Longrightarrow>
    call_invoker I \<lparr>rq_target = target, rq_index = is_index st, rq_body = body\<rparr> s = ((resp, Some e), s1) \<Longrightarrow>
    \<not> is_not_implemented e \<Longrightarrow> is_attempts st + 1 <s m \<Longrightarrow>
    attempts_run r I target payloads now m ((note_attempt resp st)\<lparr>is_error := err_text e\<rparr>)
      ((note_request_id resp ds)\<lparr>jst_last_error := err_text e\<rparr>) s1 x st' ds' s' \<Longrightarrow>
    attempts_run r I target payloads now m st ds s x st' ds' s'"

lemma note_attempt_simps [simp]:
  "is_attempts (note_attempt resp st) = is_attempts st + 1"
  "is_index (note_attempt resp st) = is_index st"
  "is_phase (note_attempt resp st) = is_phase st"
  "is_payload_digest (note_attempt resp st) = is_payload_digest st"
  "is_status_code (note_attempt resp st) = rsp_status_code resp"
  by (simp_all add: note_attempt_def)

lemma note_success_simps [simp]:
  "is_attempts (note_success now st) = is_attempts st"
  "is_index (note_success now st) = is_index st"
  "is_phase (note_success now st) = InvocationPhaseSucceeded"
  "is_payload_digest (note_success now st) = is_payload_digest st"
  "is_status_code (note_success now st) = is_status_code st"
  "is_completed_at (note_success now st) = Some now"
  by (simp_all add: note_success_def)

lemma note_exhausted_simps [simp]:
  "is_attempts (note_exhausted now st) = is_attempts st"
  "is_index (note_exhausted now st) = is_index st"
  "is_phase (note_exhausted now st) = InvocationPhaseFailed"
  "is_payload_digest (note_exhausted now st) = is_payload_digest st"
  "is_completed_at (note_exhausted now st) = Some now"
  by (simp_all add: note_exhausted_def)

lemma invoke_attempts_run:
  "invoke_attempts r I target payloads now m st ds s = (x, st', ds', s') \<Longrightarrow>
     attempts_run r I target payloads now m st ds s x st' ds' s'"
proof (induction r I target payloads now m st ds s rule: invoke_attempts.induct)
  case (1 r I target payloads now m st ds s)
  show ?case
  proof (cases "is_attempts st <s m \<and> payload_at payloads (is_index st) \<noteq> None")
    case False
    then show ?thesis using "1.prems"
      by (subst (asm) invoke_attempts.simps)
        (auto simp: not_sless_sle intro: attempts_run.spent attempts_run.panic split: if_splits)
  next
    case True
    then obtain body where lt: "is_attempts st <s m" and body: "payload_at payloads (is_index st) = Some body"
      by auto
    obtain resp err s1 where call:
      "call_invoker I \<lparr>rq_target = target, rq_index = is_index st, rq_body = body\<rparr> s = ((resp, err), s1)"
      by (metis prod.exhaust)
    note IH = "1.IH" [OF lt body call [symmetric] refl _ refl refl]
    show ?thesis
    proof (cases err)
      case None
      with "1.prems" lt body call show ?thesis
        by (subst (asm) invoke_attempts.simps) (auto simp: Let_def intro: attempts_run.success)
    next
      case (Some e)
      show ?thesis
      proof (cases "is_not_implemented e \<or> m \<le>s is_attempts st + 1")
        case True
        with "1.prems" lt body call Some show ?thesis
          by (subst (asm) invoke_attempts.simps)
            (auto simp: Let_def intro: attempts_run.stopped attempts_run.exhausted split: if_splits)
      next
        case False
        with "1.prems" lt body call Some
        have "invoke_attempts r I target payloads now m ((note_attempt resp st)\<lparr>is_error := err_text e\<rparr>)
            ((note_request_id resp ds)\<lparr>jst_last_error := err_text e\<rparr>) s1 = (x, st', ds', s')"
          by (subst (asm) invoke_attempts.simps) (simp add: Let_def)
        with IH Some False
        have "attempts_run r I target payloads now m ((note_attempt resp st)\<lparr>is_error := err_text e\<rparr>)
            ((note_request_id resp ds)\<lparr>jst_last_error := err_text e\<rparr>) s1 x st' ds' s'"
          by simp
        with lt body call Some False show ?thesis
          by (intro attempts_run.retry [of st m payloads body]) (auto simp: not_sless_sle)
      qed
    qed
  qed
qed

text \<open>
  What a loop over one payload adds to the trace: calls for that payload only, no writes, at
  most one call per remaining attempt, and every call but the last one failed.
\<close>

definition loop_calls :: "invocation_status \<Rightarrow> bytes option list \<Rightarrow> invoke_target \<Rightarrow> invoke_call list \<Rightarrow> bool" where
  "loop_calls st payloads target cs \<longleftrightarrow>
     (\<forall>(rq, resp, err) \<in> set cs. rq_index rq = is_index st \<and> rq_target rq = target \<and>
        payload_at payloads (is_index st) = Some (rq_body rq)) \<and>
     (\<forall>(rq, resp, err) \<in> set (butlast cs). err \<noteq> None)"

lemma attempts_run_trace:
  "attempts_run r I target payloads now m st ds s x st' ds' s' \<Longrightarrow>
     \<exists>t. io_trace s' = io_trace s @ t \<and> writes t = [] \<and> loop_calls st payloads target (calls t) \<and>
       int (length (calls t)) \<le> max 0 (sint m - sint (is_attempts st))"
proof (induction rule: attempts_run.induct)
  case (spent st ds s)
  show ?case by (rule exI [of _ "[]"]) (simp add: loop_calls_def)
next
  case (panic st ds s)
  show ?case by (rule exI [of _ "[]"]) (simp add: loop_calls_def)
next
  case (stopped st body s resp e s1 ds)
  from call_invoker_trace [OF stopped(3)] stopped show ?case by (auto simp: loop_calls_def sless_sint)
next
  case (success st body s resp s1 ds)
  from call_invoker_trace [OF success(3)] success show ?case by (auto simp: loop_calls_def sless_sint)
next
  case (exhausted st body s resp e s1 st3 ds)
  from call_invoker_trace [OF exhausted(3)] exhausted show ?case
    by (auto simp: loop_calls_def sless_sint record_event_def)
next
  case (retry st body s resp e s1 ds x st' ds' s')
  then obtain t where t: "io_trace s' = io_trace s1 @ t" "writes t = []"
    "loop_calls ((note_attempt resp st)\<lparr>is_error := err_text e\<rparr>) payloads target (calls t)"
    "int (length (calls t)) \<le> max 0 (sint m - sint (is_attempts st + 1))" by auto
  from call_invoker_trace [OF retry(3)] t retry show ?case
    by (intro exI [of _ "Called (\<lparr>rq_target = target, rq_index = is_index st, rq_body = body\<rparr>, resp, Some e) # t"])
      (auto simp: loop_calls_def sless_sint sint_Suc_below [OF retry(1)])
qed

text \<open>
  How it leaves the payload: same index and digest; after a normal end succeeded or failed with
  its attempts spent (when it had any left); after \<open>ErrNotImplemented\<close> pending with attempts left.
\<close>

lemma attempts_run_status:
  "attempts_run r I target payloads now m st ds s x st' ds' s' \<Longrightarrow>
     is_index st' = is_index st \<and> is_payload_digest st' = is_payload_digest st \<and>
     sint (is_attempts st) \<le> sint (is_attempts st') \<and>
     (x = LoopDone \<and> is_attempts st <s m \<longrightarrow>
        is_phase st' = InvocationPhaseSucceeded \<or>
        is_phase st' = InvocationPhaseFailed \<and> m \<le>s is_attempts st') \<and>
     (\<forall>e. x = LoopStopped e \<longrightarrow> is_not_implemented e \<and> is_phase st' = InvocationPhasePending \<and>
        is_attempts st' <s m) \<and>
     (x = LoopPanic \<longrightarrow> payload_at payloads (is_index st) = None)"
proof (induction rule: attempts_run.induct)
  case (retry st body s resp e s1 ds x st' ds' s')
  then show ?case by (auto simp: sint_Suc_below [OF retry(1)])
qed (auto simp: not_sless_sle [symmetric] sint_Suc_below)

text \<open>The loop touches nothing of the job's own status but the last error and request id.\<close>

definition without_notes :: "job_status \<Rightarrow> job_status" where
  "without_notes ds = ds\<lparr>jst_last_error := [], jst_last_oci_request_id := []\<rparr>"

lemma without_notes_updates [simp]:
  "without_notes (ds\<lparr>jst_last_error := e\<rparr>) = without_notes ds"
  "without_notes (note_request_id resp ds) = without_notes ds"
  by (simp_all add: without_notes_def note_request_id_def)

lemma without_notes_fields:
  assumes "without_notes ds = without_notes ds'"
  shows "jst_phase ds = jst_phase ds'" "jst_start_time ds = jst_start_time ds'"
    "jst_completion_time ds = jst_completion_time ds'" "jst_conditions ds = jst_conditions ds'"
    "jst_invocations ds = jst_invocations ds'" "jst_observed_generation ds = jst_observed_generation ds'"
  using assms by (cases ds; cases ds'; simp add: without_notes_def)+

lemma attempts_run_frame:
  "attempts_run r I target payloads now m st ds s x st' ds' s' \<Longrightarrow> without_notes ds' = without_notes ds"
  by (induction rule: attempts_run.induct) simp_all

section \<open>One pass over the payloads\<close>

inductive pass_run ::
    "bool \<Rightarrow> 'w invoker \<Rightarrow> invoke_target \<Rightarrow> bytes option list \<Rightarrow> time \<Rightarrow> int32 \<Rightarrow> int32 \<Rightarrow>
     int32 \<Rightarrow> invocation_status list \<Rightarrow> job_status \<Rightarrow> 'w job_io \<Rightarrow>
     int32 \<Rightarrow> loop_end \<Rightarrow> invocation_status list \<Rightarrow> job_status \<Rightarrow> 'w job_io \<Rightarrow> bool"
  for r I target payloads now limit retry_limit where
  pass_nil: "pass_run r I target payloads now limit retry_limit n [] ds s n LoopDone [] ds s"
| pass_limit: "limit \<le>s n \<Longrightarrow>
    pass_run r I target payloads now limit retry_limit n (st # sts) ds s n LoopDone (st # sts) ds s"
| pass_skip: "n <s limit \<Longrightarrow> \<not> is_runnable_payload st retry_limit \<Longrightarrow>
    pass_run r I target payloads now limit retry_limit n sts ds s p x sts' ds' s' \<Longrightarrow>
    pass_run r I target payloads now limit retry_limit n (st # sts) ds s p x (st # sts') ds' s'"
| pass_step: "n <s limit \<Longrightarrow> is_runnable_payload st retry_limit \<Longrightarrow>
    attempts_run r I target payloads now (retry_limit + 1) (st\<lparr>is_phase := InvocationPhaseRunning\<rparr>) ds s
      LoopDone st' ds1 s1 \<Longrightarrow>
    pass_run r I target payloads now limit retry_limit (n + 1) sts ds1 s1 p x sts' ds' s' \<Longrightarrow>
    pass_run r I target payloads now limit retry_limit n (st # sts) ds s p x (st' # sts') ds' s'"
| pass_abort: "n <s limit \<Longrightarrow> is_runnable_payload st retry_limit \<Longrightarrow>
    attempts_run r I target payloads now (retry_limit + 1) (st\<lparr>is_phase := InvocationPhaseRunning\<rparr>) ds s
      x st' ds1 s1 \<Longrightarrow> x \<noteq> LoopDone \<Longrightarrow>
    pass_run r I target payloads now limit retry_limit n (st # sts) ds s (n + 1) x (st' # sts) ds1 s1"

lemma invoke_payloads_run:
  "invoke_payloads r I target payloads now limit retry_limit n sts ds s = (p, x, sts', ds', s') \<Longrightarrow>
     pass_run r I target payloads now limit retry_limit n sts ds s p x sts' ds' s'"
proof (induction sts arbitrary: n ds s p x sts' ds' s')
  case Nil
  then show ?case by (auto intro: pass_nil)
next
  case (Cons st sts)
  show ?case
  proof (cases "limit \<le>s n")
    case True
    with Cons.prems show ?thesis by (auto intro: pass_limit)
  next
    case False
    then have lt: "n <s limit" by (simp add: not_sless_sle [symmetric])
    show ?thesis
    proof (cases "is_runnable_payload st retry_limit")
      case False
      with Cons.prems \<open>\<not> limit \<le>s n\<close> Cons.IH lt show ?thesis
        by (auto split: prod.splits intro: pass_skip)
    next
      case True
      obtain x1 st1 ds1 s1 where loop: "invoke_attempts r I target payloads now (retry_limit + 1)
          (st\<lparr>is_phase := InvocationPhaseRunning\<rparr>) ds s = (x1, st1, ds1, s1)"
        by (metis prod.exhaust)
      note run = invoke_attempts_run [OF this]
      show ?thesis
      proof (cases x1)
        case LoopDone
        with Cons.prems \<open>\<not> limit \<le>s n\<close> True loop Cons.IH run lt show ?thesis
          by (auto split: prod.splits intro: pass_step)
      qed (use Cons.prems \<open>\<not> limit \<le>s n\<close> True loop run lt in \<open>auto intro: pass_abort\<close>)
    qed
  qed
qed

text \<open>
  The calls of a pass: only for runnable payloads of the list, no writes, and at most
  \<open>retry limit + 1\<close> for each payload processed; never more payloads than the limit.
\<close>

definition pass_calls ::
    "int32 \<Rightarrow> invocation_status list \<Rightarrow> bytes option list \<Rightarrow> invoke_target \<Rightarrow> invoke_call list \<Rightarrow> bool" where
  "pass_calls retry_limit sts payloads target cs \<longleftrightarrow>
     (\<forall>(rq, resp, err) \<in> set cs. rq_target rq = target \<and>
        payload_at payloads (rq_index rq) = Some (rq_body rq) \<and>
        (\<exists>st \<in> set sts. is_index st = rq_index rq \<and> is_runnable_payload st retry_limit))"

lemma pass_calls_mono:
  "pass_calls l sts ps t cs \<Longrightarrow> pass_calls l (st # sts) ps t cs"
  by (fastforce simp: pass_calls_def)

lemma pass_calls_append:
  "pass_calls l sts ps t cs \<Longrightarrow> pass_calls l sts ps t ds \<Longrightarrow> pass_calls l sts ps t (cs @ ds)"
  by (auto simp: pass_calls_def)

lemma loop_pass_calls:
  "is_runnable_payload st l \<Longrightarrow> loop_calls (st\<lparr>is_phase := ph\<rparr>) ps t cs \<Longrightarrow> pass_calls l (st # sts) ps t cs"
  by (auto simp: pass_calls_def loop_calls_def)

lemma pass_run_count:
  "pass_run r I target payloads now limit l n sts ds s p x sts' ds' s' \<Longrightarrow>
     sint n \<le> sint p \<and> sint p \<le> max (sint n) (sint limit) \<and>
     (x = LoopDone \<and> p <s limit \<longrightarrow> sint p - sint n = int (length (filter (\<lambda>st. is_runnable_payload st l) sts)))"
proof (induction rule: pass_run.induct)
  case (pass_step n st ds s st' ds1 s1 sts p x sts' ds' s')
  with sint_Suc_below [OF pass_step(1)] show ?case by (auto simp: sless_sint)
next
  case (pass_abort n st ds s x st' ds1 s1 sts)
  with sint_Suc_below [OF pass_abort(1)] show ?case by (auto simp: sless_sint)
qed (auto simp: sless_sint sle_sint)

lemma pass_run_trace:
  "pass_run r I target payloads now limit l n sts ds s p x sts' ds' s' \<Longrightarrow>
     \<exists>t. io_trace s' = io_trace s @ t \<and> writes t = [] \<and> pass_calls l sts payloads target (calls t) \<and>
       (0 \<le>s l \<and> (\<forall>st \<in> set sts. 0 \<le>s is_attempts st) \<longrightarrow>
          int (length (calls t)) \<le> (sint p - sint n) * max 0 (sint (l + 1)))"
proof (induction rule: pass_run.induct)
  case (pass_nil n ds s)
  show ?case by (rule exI [of _ "[]"]) (simp add: pass_calls_def)
next
  case (pass_limit n st sts ds s)
  show ?case by (rule exI [of _ "[]"]) (simp add: pass_calls_def)
next
  case (pass_skip n st sts ds s p x sts' ds' s')
  then obtain t where t: "io_trace s' = io_trace s @ t" "writes t = []"
    "pass_calls l sts payloads target (calls t)"
    "0 \<le>s l \<and> (\<forall>st \<in> set sts. 0 \<le>s is_attempts st) \<longrightarrow>
       int (length (calls t)) \<le> (sint p - sint n) * max 0 (sint (l + 1))" by blast
  from t(4) pass_calls_mono [OF t(3)] t(1,2) show ?case by (intro exI [of _ t]) simp
next
  case (pass_step n st ds s st' ds1 s1 sts p x sts' ds' s')
  from attempts_run_trace [OF pass_step(3)] obtain t1 where t1: "io_trace s1 = io_trace s @ t1"
    "writes t1 = []" "loop_calls (st\<lparr>is_phase := InvocationPhaseRunning\<rparr>) payloads target (calls t1)"
    "int (length (calls t1)) \<le> max 0 (sint (l + 1) - sint (is_attempts st))" by auto
  from pass_step obtain t2 where t2: "io_trace s' = io_trace s1 @ t2" "writes t2 = []"
    "pass_calls l sts payloads target (calls t2)"
    "0 \<le>s l \<and> (\<forall>st \<in> set sts. 0 \<le>s is_attempts st) \<longrightarrow>
       int (length (calls t2)) \<le> (sint p - sint (n + 1)) * max 0 (sint (l + 1))" by blast
  have "pass_calls l (st # sts) payloads target (calls (t1 @ t2))"
    using loop_pass_calls [OF pass_step(2) t1(3)] pass_calls_mono [OF t2(3)]
    by (simp add: pass_calls_append)
  moreover have "int (length (calls (t1 @ t2))) \<le> (sint p - sint n) * max 0 (sint (l + 1))"
    if "0 \<le>s l" "\<forall>st \<in> set (st # sts). 0 \<le>s is_attempts st"
  proof -
    let ?m = "max 0 (sint (l + 1))"
    from that t1(4) have "int (length (calls t1)) \<le> ?m" by (auto simp: sle_sint)
    moreover from that t2(4) have "int (length (calls t2)) \<le> (sint p - sint (n + 1)) * ?m" by simp
    moreover have "(sint p - sint n) * ?m = ?m + (sint p - sint (n + 1)) * ?m"
      by (simp add: sint_Suc_below [OF pass_step(1)] left_diff_distrib distrib_right)
    ultimately show ?thesis by simp
  qed
  ultimately show ?case using t1(1,2) t2(1,2) by (intro exI [of _ "t1 @ t2"]) simp
next
  case (pass_abort n st ds s x st' ds1 s1 sts)
  from attempts_run_trace [OF pass_abort(3)] obtain t1 where t1: "io_trace s1 = io_trace s @ t1"
    "writes t1 = []" "loop_calls (st\<lparr>is_phase := InvocationPhaseRunning\<rparr>) payloads target (calls t1)"
    "int (length (calls t1)) \<le> max 0 (sint (l + 1) - sint (is_attempts st))" by auto
  with loop_pass_calls [OF pass_abort(2) t1(3)] show ?case
    by (intro exI [of _ t1]) (auto simp: sint_Suc_below [OF pass_abort(1)] sle_sint)
qed

text \<open>
  The statuses after a pass, position by position: index and digest stay, a payload that was not
  runnable is exactly what it was.
\<close>

definition kept :: "int32 \<Rightarrow> invocation_status \<Rightarrow> invocation_status \<Rightarrow> bool" where
  "kept l st st' \<longleftrightarrow> is_index st' = is_index st \<and> is_payload_digest st' = is_payload_digest st \<and>
     (\<not> is_runnable_payload st l \<longrightarrow> st' = st)"

lemma kept_refl [simp]: "kept l st st"
  by (simp add: kept_def)

lemma kept_list_refl: "list_all2 (kept l) sts sts"
  by (simp add: list_all2_same)

lemma pass_run_kept:
  "pass_run r I target payloads now limit l n sts ds s p x sts' ds' s' \<Longrightarrow> list_all2 (kept l) sts sts'"
proof (induction rule: pass_run.induct)
  case (pass_step n st ds s st' ds1 s1 sts p x sts' ds' s')
  with attempts_run_status [OF pass_step(3)] show ?case by (simp add: kept_def)
next
  case (pass_abort n st ds s x st' ds1 s1 sts)
  with attempts_run_status [OF pass_abort(3)] show ?case
    by (simp add: kept_list_refl) (simp add: kept_def)
qed (simp_all add: kept_list_refl)

lemma pass_run_frame:
  "pass_run r I target payloads now limit l n sts ds s p x sts' ds' s' \<Longrightarrow> without_notes ds' = without_notes ds"
  by (induction rule: pass_run.induct) (auto dest: attempts_run_frame)

text \<open>
  Progress: when every runnable payload has attempts left, a pass that ends normally settles each
  payload it processes, so the runnable ones decrease by the number processed.
\<close>

definition attempts_left :: "int32 \<Rightarrow> invocation_status \<Rightarrow> bool" where
  "attempts_left l st \<longleftrightarrow> (is_runnable_payload st l \<longrightarrow> is_attempts st <s l + 1)"

abbreviation runnable_count :: "int32 \<Rightarrow> invocation_status list \<Rightarrow> nat" where
  "runnable_count l sts \<equiv> length (filter (\<lambda>st. is_runnable_payload st l) sts)"

lemma settled_not_runnable:
  assumes "is_phase st = InvocationPhaseSucceeded \<or>
    is_phase st = InvocationPhaseFailed \<and> l + 1 \<le>s is_attempts st"
  shows "\<not> is_runnable_payload st l"
  using assms by (auto simp: is_runnable_payload_def)

lemma pass_run_progress:
  "pass_run r I target payloads now limit l n sts ds s p x sts' ds' s' \<Longrightarrow> x = LoopDone \<Longrightarrow>
   list_all (attempts_left l) sts \<Longrightarrow>
     list_all (attempts_left l) sts' \<and>
     int (runnable_count l sts') + (sint p - sint n) = int (runnable_count l sts)"
proof (induction rule: pass_run.induct)
  case (pass_step n st ds s st' ds1 s1 sts p x sts' ds' s')
  then have "is_attempts (st\<lparr>is_phase := InvocationPhaseRunning\<rparr>) <s l + 1"
    by (simp add: attempts_left_def)
  with attempts_run_status [OF pass_step(3)] have "\<not> is_runnable_payload st' l"
    by (intro settled_not_runnable) auto
  with pass_step show ?case by (simp add: attempts_left_def sint_Suc_below [OF pass_step(1)])
qed simp_all

lemma pass_run_end:
  "pass_run r I target payloads now limit l n sts ds s p x sts' ds' s' \<Longrightarrow>
     (\<forall>e. x = LoopStopped e \<longrightarrow> is_not_implemented e) \<and>
     (x = LoopPanic \<longrightarrow> (\<exists>st \<in> set sts. payload_at payloads (is_index st) = None))"
proof (induction rule: pass_run.induct)
  case (pass_abort n st ds s x st' ds1 s1 sts)
  with attempts_run_status [OF pass_abort(3)] show ?case by auto
qed auto

section \<open>Counters and summary\<close>

abbreviation phase_count :: "invocation_phase \<Rightarrow> invocation_status list \<Rightarrow> nat" where
  "phase_count ph sts \<equiv> length (filter (\<lambda>st. is_phase st = ph) sts)"

lemma fold_count:
  "jst_active (fold count_invocation xs s) = jst_active s + of_nat (phase_count InvocationPhaseRunning xs)"
  "jst_succeeded (fold count_invocation xs s) = jst_succeeded s + of_nat (phase_count InvocationPhaseSucceeded xs)"
  "jst_failed (fold count_invocation xs s) = jst_failed s + of_nat (phase_count InvocationPhaseFailed xs)"
  by (induction xs arbitrary: s)
    (simp_all add: count_invocation_def Let_def algebra_simps split: invocation_phase.splits)

lemma count_invocation_frame:
  "jst_phase (count_invocation st s) = jst_phase s"
  "jst_invocations (count_invocation st s) = jst_invocations s"
  "jst_conditions (count_invocation st s) = jst_conditions s"
  "jst_completion_time (count_invocation st s) = jst_completion_time s"
  by (simp_all add: count_invocation_def Let_def split: invocation_phase.splits)

lemma fold_count_frame:
  "jst_phase (fold count_invocation xs s) = jst_phase s"
  "jst_invocations (fold count_invocation xs s) = jst_invocations s"
  "jst_conditions (fold count_invocation xs s) = jst_conditions s"
  "jst_completion_time (fold count_invocation xs s) = jst_completion_time s"
  by (induction xs arbitrary: s) (simp_all add: count_invocation_frame)

lemma recompute_counts [status_simps]:
  "jst_active (recompute_invocation_counts s) = of_nat (phase_count InvocationPhaseRunning (jst_invocations s))"
  "jst_succeeded (recompute_invocation_counts s) = of_nat (phase_count InvocationPhaseSucceeded (jst_invocations s))"
  "jst_failed (recompute_invocation_counts s) = of_nat (phase_count InvocationPhaseFailed (jst_invocations s))"
  "jst_phase (recompute_invocation_counts s) = jst_phase s"
  "jst_invocations (recompute_invocation_counts s) = jst_invocations s"
  "jst_conditions (recompute_invocation_counts s) = jst_conditions s"
  "jst_completion_time (recompute_invocation_counts s) = jst_completion_time s"
  by (simp_all add: recompute_invocation_counts_def fold_count fold_count_frame)

text \<open>
  What the phase of a job should be for its payload statuses: running while one is neither
  succeeded nor failed, then failed when one failed, succeeded otherwise.
\<close>

definition invocation_settled :: "invocation_status \<Rightarrow> bool" where
  "invocation_settled st \<longleftrightarrow> is_phase st = InvocationPhaseSucceeded \<or> is_phase st = InvocationPhaseFailed"

definition summary_phase :: "invocation_status list \<Rightarrow> job_phase" where
  "summary_phase sts =
     (if \<not> list_all invocation_settled sts then JobPhaseRunning
      else if list_ex (\<lambda>st. is_phase st = InvocationPhaseFailed) sts then JobPhaseFailed
      else JobPhaseSucceeded)"

lemma settled_count:
  "phase_count InvocationPhaseSucceeded sts + phase_count InvocationPhaseFailed sts \<le> length sts"
  "phase_count InvocationPhaseSucceeded sts + phase_count InvocationPhaseFailed sts = length sts
     \<longleftrightarrow> list_all invocation_settled sts"
  "phase_count InvocationPhaseFailed sts = 0 \<longleftrightarrow> \<not> list_ex (\<lambda>st. is_phase st = InvocationPhaseFailed) sts"
proof -
  show le: "phase_count InvocationPhaseSucceeded sts + phase_count InvocationPhaseFailed sts \<le> length sts" for sts
    by (induction sts) (auto split: if_splits)
  show "phase_count InvocationPhaseSucceeded sts + phase_count InvocationPhaseFailed sts = length sts
     \<longleftrightarrow> list_all invocation_settled sts"
  proof (induction sts)
    case (Cons st sts)
    with le [of sts] show ?case by (auto simp: invocation_settled_def)
  qed simp
  show "phase_count InvocationPhaseFailed sts = 0 \<longleftrightarrow> \<not> list_ex (\<lambda>st. is_phase st = InvocationPhaseFailed) sts"
    by (induction sts) auto
qed

lemma summary_phase_correct:
  assumes inv: "jst_invocations (job_status j) = sts" and len: "length payloads = length sts"
    and bound: "0 < length sts" "length sts < 2 ^ 31"
  shows "jst_phase (job_status (summarize_invocation_state K original
      (job_status_update recompute_invocation_counts j) payloads now)) = summary_phase sts"
proof -
  let ?a = "phase_count InvocationPhaseSucceeded sts" and ?b = "phase_count InvocationPhaseFailed sts"
  have ab: "?a + ?b \<le> length sts" by (rule settled_count)
  have total: "(of_nat (length sts) :: int32) \<noteq> 0"
    using of_nat32_inject [of "length sts" 0] bound by simp
  have sum: "(of_nat ?a + of_nat ?b = (of_nat (length sts) :: int32)) \<longleftrightarrow> ?a + ?b = length sts"
    using of_nat32_inject [of "?a + ?b" "length sts"] ab bound by simp
  have succ: "(of_nat ?a = (of_nat (length sts) :: int32)) \<longleftrightarrow> ?a = length sts"
    using of_nat32_inject [of ?a "length sts"] ab bound by simp
  have pos: "0 <s (of_nat ?b :: int32) \<longleftrightarrow> 0 < ?b"
    using sint_of_nat32 [of ?b] ab bound by (simp add: sless_sint)
  show ?thesis
    using ab sum succ pos total settled_count [of sts] inv len
    by (auto simp: summarize_invocation_state_def summary_phase_def Let_def status_simps)
qed

lemma summary_invocations:
  "jst_invocations (job_status (summarize_invocation_state K original j payloads now)) = jst_invocations (job_status j)"
  by (simp add: summarize_invocation_state_def Let_def mark_defs status_simps)

lemma summary_meta:
  "job_meta (summarize_invocation_state K original j payloads now) = job_meta j"
  "job_spec (summarize_invocation_state K original j payloads now) = job_spec j"
  by (simp_all add: summarize_invocation_state_def Let_def mark_defs status_simps)

section \<open>The payload statuses\<close>

lemma inline_payloads_ne [simp]: "inline_payloads j \<noteq> []"
  by (simp add: inline_payloads_def split: option.splits)

lemma ensure_payloads_length [simp]: "length (ensure_payloads_from h sts i ps) = length ps"
  by (induction ps arbitrary: i) auto

lemma ensure_payloads_nth:
  "k < length ps \<Longrightarrow> ensure_payloads_from h sts i ps ! k = ensure_payload_status h sts (i + k) (ps ! k)"
proof (induction ps arbitrary: i k)
  case (Cons p ps)
  then show ?case by (cases k) auto
qed simp

lemma digest_ne [simp]: "digest_payload h p \<noteq> []"
  by (simp add: digest_payload_def)

lemma existing_by_index_Some:
  "existing_by_index sts i = Some st \<Longrightarrow> st \<in> set sts \<and> is_index st = i"
  by (auto simp: existing_by_index_def dest: find_Some_member)

lemma ensure_payload_status_facts:
  "is_index (ensure_payload_status h sts i p) = of_nat i"
  "is_payload_digest (ensure_payload_status h sts i p) = digest_payload h p"
  "is_phase (ensure_payload_status h sts i p) \<noteq> InvocationPhaseUnset"
  by (auto simp: ensure_payload_status_def fresh_invocation_def Let_def dest: existing_by_index_Some
      split: option.splits)

text \<open>A status of the same index and digest is carried over unchanged; any other is fresh.\<close>

lemma ensure_payload_status_cases:
  obtains (carried) st where "existing_by_index sts (of_nat i) = Some st"
      "is_payload_digest st = digest_payload h p"
      "ensure_payload_status h sts i p =
         (if is_phase st = InvocationPhaseUnset then st\<lparr>is_phase := InvocationPhasePending\<rparr> else st)"
  | (fresh) "ensure_payload_status h sts i p = fresh_invocation (of_nat i) (digest_payload h p)"
proof (cases "\<exists>st. existing_by_index sts (of_nat i) = Some st \<and> is_payload_digest st = digest_payload h p")
  case True
  then obtain st where st: "existing_by_index sts (of_nat i) = Some st" "is_payload_digest st = digest_payload h p"
    by blast
  then have "ensure_payload_status h sts i p =
      (if is_phase st = InvocationPhaseUnset then st\<lparr>is_phase := InvocationPhasePending\<rparr> else st)"
    by (simp add: ensure_payload_status_def Let_def)
  with st show ?thesis by (rule carried)
next
  case False
  then have "ensure_payload_status h sts i p = fresh_invocation (of_nat i) (digest_payload h p)"
    by (cases "existing_by_index sts (of_nat i)")
      (simp_all add: ensure_payload_status_def fresh_invocation_def Let_def)
  then show ?thesis by (rule fresh)
qed

lemma fresh_attempts_left: "0 \<le>s l \<Longrightarrow> l <s 2147483647 \<Longrightarrow> attempts_left l (fresh_invocation i d)"
  using sint_Suc_below [of l 2147483647]
  by (simp add: attempts_left_def fresh_invocation_def sless_sint sle_sint)

lemma ensure_payloads_attempts_left:
  assumes "0 \<le>s l" "l <s 2147483647" "list_all (attempts_left l) sts"
  shows "list_all (attempts_left l) (ensure_payloads_from h sts i ps)"
proof (induction ps arbitrary: i)
  case (Cons p ps)
  have "attempts_left l (ensure_payload_status h sts i p)"
  proof (cases rule: ensure_payload_status_cases [of sts i h p])
    case (carried st)
    from existing_by_index_Some [OF carried(1)] assms(3) have "attempts_left l st"
      by (auto simp: list_all_iff)
    with carried(3) show ?thesis by (simp add: attempts_left_def is_runnable_payload_def)
  next
    case fresh
    with assms show ?thesis by (simp add: fresh_attempts_left)
  qed
  with Cons show ?case by simp
qed simp

lemma payload_at_of_nat:
  "i < length ps \<Longrightarrow> length ps < 2 ^ 31 \<Longrightarrow> payload_at ps (of_nat i) = Some (ps ! i)"
  by (simp add: payload_at_def sle_sint sint_of_nat32)

lemma ensured_payload_at:
  assumes "length ps < 2 ^ 31" and "st \<in> set (ensure_payloads_from h sts 0 ps)"
  shows "\<exists>i < length ps. is_index st = of_nat i \<and> payload_at ps (is_index st) = Some (ps ! i)"
proof -
  from assms(2) obtain i where i: "i < length ps" "st = ensure_payloads_from h sts 0 ps ! i"
    by (auto simp: in_set_conv_nth)
  with assms(1) show ?thesis
    by (auto simp: ensure_payloads_nth ensure_payload_status_facts payload_at_of_nat)
qed

end
