(* ===== verification/JobReconcile.thy ===== *)
theory JobReconcile
  imports JobLemmas
begin

text \<open>
  The \<open>FunctionJob\<close> reconciler as a whole: how one reconciliation can end, what it may write and
  call, and how repeated reconciliations bring a job to its end.
\<close>

section \<open>Writing the status\<close>

lemma update_job_status_trace:
  assumes "update_job_status R job d s = (err, s')"
  shows "\<exists>t. io_trace s' = io_trace s @ t \<and> calls t = [] \<and>
    t = (if job_status job = d then [] else [StatusUpdate (job\<lparr>job_status := d\<rparr>)])"
  using assms by (auto simp: update_job_status_def perform_simps split: if_splits)

lemma finish_job_trace:
  assumes "finish_job R job d s = (out, s')"
  shows "\<exists>t err. io_trace s' = io_trace s @ t \<and> calls t = [] \<and> out = Returned no_requeue err \<and>
    t = (if job_status job = job_status d then [] else [StatusUpdate (job\<lparr>job_status := job_status d\<rparr>)])"
proof -
  obtain err s1 where "update_job_status R job (job_status d) s = (err, s1)" by (metis prod.exhaust)
  with update_job_status_trace [OF this] assms show ?thesis by (auto simp: finish_job_def)
qed

lemma record_event_trace:
  "\<exists>t. io_trace (record_event r sev reason m s) = io_trace s @ t \<and> calls t = [] \<and> writes t = []"
  by (auto simp: record_event_def)

lemma completion_event_trace:
  "\<exists>t. io_trace (job_completion_event R job d s) = io_trace s @ t \<and> calls t = [] \<and> writes t = []"
  by (simp add: job_completion_event_def record_event_trace)

section \<open>The ways a reconciliation goes\<close>

text \<open>The payload statuses a pass starts from.\<close>

definition ensured :: "'w job_reconciler \<Rightarrow> function_job \<Rightarrow> invocation_status list" where
  "ensured R job = ensure_payloads_from (jr_sha256 R) (jst_invocations (job_status job)) 0 (inline_payloads job)"

lemma start_job_simps [simp]:
  "job_meta (start_job now job) = job_meta job" "job_spec (start_job now job) = job_spec job"
  "jst_invocations (job_status (start_job now job)) = jst_invocations (job_status job)"
  "jst_phase (job_status (start_job now job)) = jst_phase (job_status job)"
  "jst_conditions (job_status (start_job now job)) = jst_conditions (job_status job)"
  by (simp_all add: start_job_def)

text \<open>\<open>desiredObject\<close> just before the payloads are invoked.\<close>

definition prepared :: "'w job_reconciler \<Rightarrow> time \<Rightarrow> function_job \<Rightarrow> function_job" where
  "prepared R now job =
     job_status_update (\<lambda>st. recompute_invocation_counts
         (ensure_payload_statuses (jr_sha256 R) (inline_payloads job) st))
       (set_resolved_condition (jr_lib R) now CondTrue ''FunctionReady''
         ''Referenced Function is ready for invocation.'' (start_job now job))"

lemma prepared_simps [simp]:
  "job_meta (prepared R now job) = job_meta job" "job_spec (prepared R now job) = job_spec job"
  "jst_invocations (job_status (prepared R now job)) = ensured R job"
  by (simp_all add: prepared_def status_simps ensure_payload_statuses_def ensured_def)

text \<open>The job a finished pass is summarised into.\<close>

definition summarized ::
    "'w job_reconciler \<Rightarrow> time \<Rightarrow> function_job \<Rightarrow> invocation_status list \<Rightarrow> job_status \<Rightarrow> function_job" where
  "summarized R now job sts ds =
     summarize_invocation_state (jr_lib R) job
       (job_status_update recompute_invocation_counts
         ((prepared R now job)\<lparr>job_status := ds\<lparr>jst_invocations := sts\<rparr>\<rparr>)) (inline_payloads job) now"

inductive job_pass ::
    "'w job_reconciler \<Rightarrow> time \<Rightarrow> function_job \<Rightarrow> 'w invoker \<Rightarrow> oci_function \<Rightarrow> 'w job_io \<Rightarrow>
     int32 \<Rightarrow> loop_end \<Rightarrow> invocation_status list \<Rightarrow> job_status \<Rightarrow> 'w job_io \<Rightarrow> bool" where
  "pass_run (jr_recorder R) I (invocation_target_for_function f) (inline_payloads job) now
     (desired_parallelism job) (desired_retry_limit job) 0 (ensured R job)
     (job_status (prepared R now job)) s p x sts ds s1 \<Longrightarrow>
   job_pass R now job I f s p x sts ds s1"

inductive_cases job_passE: "job_pass R now job I f s p x sts ds s1"

lemma invoke_runnable_pass:
  assumes "invoke_runnable_payloads R I job (invocation_target_for_function f) (inline_payloads job) now
      (prepared R now job) s = (p, x, d, s1)"
  obtains sts ds where "job_pass R now job I f s p x sts ds s1"
    and "d = (prepared R now job)\<lparr>job_status := ds\<lparr>jst_invocations := sts\<rparr>\<rparr>"
  using assms that
  by (auto simp: invoke_runnable_payloads_def dest!: invoke_payloads_run intro: job_pass.intros
      split: prod.splits)

lemma run_job_cases:
  assumes "run_job R now job (start_job now job) f (invocation_target_for_function f) s = (out, s')"
  obtains (unconfigured) "jr_invoker R = None"
      "finish_job R job (mark_invoker_not_configured (jr_lib R) now (prepared R now job)) s = (out, s')"
    | (id_required) d where "d = mark_function_id_required (jr_lib R) now (om_name (fn_meta f)) (prepared R now job)"
      "tg_function_ocid (invocation_target_for_function f) = []"
      "finish_job R job d (record_event (jr_recorder R) EventWarning ''Failed'' (jst_last_error (job_status d)) s)
         = (out, s')"
    | (panicked) I p sts ds where "job_pass R now job I f s p LoopPanic sts ds s'" "out = Panicked"
    | (stopped) I p e sts ds s1 where "job_pass R now job I f s p (LoopStopped e) sts ds s1" "is_not_implemented e"
      "jr_invoker R = Some I"
      "finish_job R job (mark_invoker_not_configured (jr_lib R) now
         ((prepared R now job)\<lparr>job_status := ds\<lparr>jst_invocations := sts\<rparr>\<rparr>)) s1 = (out, s')"
    | (completed) I p sts ds s1 err where "job_pass R now job I f s p LoopDone sts ds s1" "jr_invoker R = Some I"
      "update_job_status R job (job_status (summarized R now job sts ds))
         (job_completion_event R job (summarized R now job sts ds) s1) = (err, s')"
      "out = Returned (if err = None \<and> jst_phase (job_status (summarized R now job sts ds)) = JobPhaseRunning \<and>
           has_runnable_payload (jst_invocations (job_status (summarized R now job sts ds))) (desired_retry_limit job)
         then requeue_now else no_requeue) err"
proof (cases "jr_invoker R")
  case None
  with assms show ?thesis
    by (intro unconfigured) (simp_all add: run_job_def prepared_def Let_def)
next
  case (Some I)
  let ?t = "invocation_target_for_function f"
  show ?thesis
  proof (cases "requires_function_id I \<and> tg_function_ocid ?t = []")
    case True
    with Some assms show ?thesis
      by (intro id_required [OF refl]) (simp_all add: run_job_def prepared_def Let_def)
  next
    case False
    obtain p x d s1 where inv: "invoke_runnable_payloads R I job ?t (inline_payloads job) now
        (prepared R now job) s = (p, x, d, s1)"
      by (metis prod.exhaust)
    then obtain sts ds where pass: "job_pass R now job I f s p x sts ds s1"
      and d: "d = (prepared R now job)\<lparr>job_status := ds\<lparr>jst_invocations := sts\<rparr>\<rparr>"
      by (rule invoke_runnable_pass)
    note unfold = run_job_def Let_def inv [unfolded prepared_def Let_def]
    show ?thesis
    proof (cases x)
      case LoopPanic
      with assms Some False inv have "out = Panicked" "s' = s1"
        by (auto simp: run_job_def Let_def prepared_def)
      with pass LoopPanic show ?thesis by (intro panicked) auto
    next
      case (LoopStopped e)
      from pass LoopStopped have ne: "is_not_implemented e"
        by (auto elim!: job_passE dest: pass_run_end)
      with assms Some False inv LoopStopped d
      have "finish_job R job (mark_invoker_not_configured (jr_lib R) now d) s1 = (out, s')"
        by (auto simp: run_job_def Let_def prepared_def)
      with pass LoopStopped ne d Some show ?thesis by (intro stopped) auto
    next
      case LoopDone
      obtain err s3 where upd: "update_job_status R job (job_status (summarized R now job sts ds))
         (job_completion_event R job (summarized R now job sts ds) s1) = (err, s3)"
        by (metis prod.exhaust)
      from assms Some False inv LoopDone d upd
      have "s3 = s' \<and> out = Returned (if err = None \<and> jst_phase (job_status (summarized R now job sts ds)) = JobPhaseRunning \<and>
           has_runnable_payload (jst_invocations (job_status (summarized R now job sts ds))) (desired_retry_limit job)
         then requeue_now else no_requeue) err"
        by (cases err) (auto simp: run_job_def Let_def prepared_def summarized_def)
      with pass LoopDone upd Some show ?thesis by (intro completed [of I p sts ds s1 err]) auto
    qed
  qed
qed

abbreviation job_function_lookup :: "'w job_reconciler \<Rightarrow> function_job \<Rightarrow> 'w \<Rightarrow> oci_function get_result" where
  "job_function_lookup R job w \<equiv>
     get_function (jr_client R) (om_namespace (job_meta job)) (fr_name (js_function_ref (job_spec job))) w"

lemma reconcile_found_job_cases:
  assumes "reconcile_found_job R now job s = (out, s')"
  obtains (terminal) "job_is_terminal job" "out = Returned no_requeue None" "s' = s"
    | (invalid_ref) d where "d = mark_invalid_function_ref (jr_lib R) now (start_job now job)"
      "\<not> job_is_terminal job" "fr_name (js_function_ref (job_spec job)) = []"
      "finish_job R job d (record_event (jr_recorder R) EventWarning ''Failed''
          ''FunctionJob failed: spec.functionRef.name is required.'' s) = (out, s')"
    | (lookup_failed) e where "\<not> job_is_terminal job" "job_function_lookup R job (io_world s) = GetFailed e"
      "out = Returned no_requeue (Some e)" "s' = s"
    | (missing) "\<not> job_is_terminal job" "job_function_lookup R job (io_world s) = NotFound"
      "finish_job R job (mark_waiting_for_function (jr_lib R) now ''FunctionNotFound''
          ''Referenced Function was not found in the FunctionJob namespace.'' (start_job now job)) s = (out, s')"
    | (not_ready) f d where "\<not> job_is_terminal job" "job_function_lookup R job (io_world s) = Got f"
      "\<not> function_ready_for_invocation (jr_lib R) f (invocation_target_for_function f)"
      "d = mark_function_not_ready (jr_lib R) now f (invocation_target_for_function f) (start_job now job)"
      "finish_job R job d
         (record_event (jr_recorder R) EventWarning ''Failed'' (jst_last_error (job_status d)) s) = (out, s')"
    | (ready) f where "\<not> job_is_terminal job" "job_function_lookup R job (io_world s) = Got f"
      "function_ready_for_invocation (jr_lib R) f (invocation_target_for_function f)"
      "run_job R now job (start_job now job) f (invocation_target_for_function f) s = (out, s')"
proof (cases "job_is_terminal job")
  case True
  with assms show ?thesis by (intro terminal) (simp_all add: reconcile_found_job_def)
next
  case False
  show ?thesis
  proof (cases "fr_name (js_function_ref (job_spec job)) = []")
    case True
    with False assms show ?thesis
      by (intro invalid_ref [OF refl]) (simp_all add: reconcile_found_job_def Let_def)
  next
    case ne: False
    show ?thesis
    proof (cases "job_function_lookup R job (io_world s)")
      case (Got f)
      with False ne assms show ?thesis
        by (cases "function_ready_for_invocation (jr_lib R) f (invocation_target_for_function f)")
          (rule ready not_ready [OF _ _ _ refl]; simp add: reconcile_found_job_def Let_def)+
    next
      case NotFound
      with False ne assms show ?thesis by (intro missing) (simp_all add: reconcile_found_job_def Let_def)
    next
      case (GetFailed e)
      with False ne assms show ?thesis
        by (intro lookup_failed) (auto simp: reconcile_found_job_def Let_def)
    qed
  qed
qed

section \<open>Effects of one reconciliation\<close>

text \<open>A status written for a job: same metadata and spec, conditions that agree with the phase.\<close>

definition agreeing_writes :: "function_job \<Rightarrow> job_effect list \<Rightarrow> bool" where
  "agreeing_writes job t \<longleftrightarrow> (\<forall>e \<in> set (writes t). \<exists>j. e = StatusUpdate j \<and>
     job_meta j = job_meta job \<and> job_spec j = job_spec job \<and> job_conditions_agree j)"

lemma job_conditions_agree_status:
  "job_conditions_agree (job\<lparr>job_status := job_status d\<rparr>) = job_conditions_agree d"
  by (simp add: job_conditions_agree_def)

lemma agreeing_writes_append:
  "agreeing_writes job (t @ u) \<longleftrightarrow> agreeing_writes job t \<and> agreeing_writes job u"
  by (auto simp: agreeing_writes_def)

lemma agreeing_writes_none: "writes t = [] \<Longrightarrow> agreeing_writes job t"
  by (simp add: agreeing_writes_def)

lemma finish_job_effects:
  assumes fin: "finish_job R job d s = (out, s')" and agree: "job_conditions_agree d"
  shows "\<exists>t. io_trace s' = io_trace s @ t \<and> calls t = [] \<and> agreeing_writes job t \<and> out \<noteq> Panicked"
proof -
  from finish_job_trace [OF fin] obtain t err where t: "io_trace s' = io_trace s @ t" "calls t = []"
    "out = Returned no_requeue err"
    "t = (if job_status job = job_status d then [] else [StatusUpdate (job\<lparr>job_status := job_status d\<rparr>)])"
    by blast
  have "agreeing_writes job t"
    unfolding t(4) by (simp add: agreeing_writes_def agree job_conditions_agree_status)
  with t(1,2,3) show ?thesis by blast
qed

lemma finish_after_event:
  assumes "finish_job R job d (record_event r sev reason m s) = (out, s')" and "job_conditions_agree d"
  shows "\<exists>t. io_trace s' = io_trace s @ t \<and> calls t = [] \<and> agreeing_writes job t \<and> out \<noteq> Panicked"
proof -
  from finish_job_effects [OF assms] obtain t where
    "io_trace s' = io_trace (record_event r sev reason m s) @ t" "calls t = []" "agreeing_writes job t"
    "out \<noteq> Panicked" by blast
  moreover from record_event_trace [of r sev reason m s] obtain u where
    "io_trace (record_event r sev reason m s) = io_trace s @ u" "calls u = []" "writes u = []" by blast
  ultimately show ?thesis
    by (intro exI [of _ "u @ t"]) (simp add: agreeing_writes_append agreeing_writes_none)
qed

text \<open>
  The calls a reconciliation may make: for payloads of the job that are runnable, to the target
  of the ready function, no more than \<open>parallelism * (retry limit + 1)\<close>.
\<close>

definition job_calls_ok :: "'w job_reconciler \<Rightarrow> function_job \<Rightarrow> invoke_target \<Rightarrow> invoke_call list \<Rightarrow> bool" where
  "job_calls_ok R job target cs \<longleftrightarrow>
     pass_calls (desired_retry_limit job) (ensured R job) (inline_payloads job) target cs \<and>
     (list_all (\<lambda>st. 0 \<le>s is_attempts st) (ensured R job) \<longrightarrow>
       int (length cs) \<le> sint (desired_parallelism job) * max 0 (sint (desired_retry_limit job + 1)))"

lemma desired_parallelism_pos: "1 \<le> sint (desired_parallelism j)"
  by (auto simp: desired_parallelism_def sless_sint)

lemma desired_retry_limit_nonneg: "0 \<le>s desired_retry_limit j"
  by (auto simp: desired_retry_limit_def sless_sint sle_sint)

lemma job_calls_ok_Nil: "job_calls_ok R job target []"
  using desired_parallelism_pos [of job] by (simp add: job_calls_ok_def pass_calls_def)

lemma job_pass_calls:
  assumes "job_pass R now job I f s p x sts ds s1"
  shows "\<exists>t. io_trace s1 = io_trace s @ t \<and> writes t = [] \<and>
    job_calls_ok R job (invocation_target_for_function f) (calls t)"
  using assms
proof (rule job_passE)
  assume run: "pass_run (jr_recorder R) I (invocation_target_for_function f) (inline_payloads job) now
     (desired_parallelism job) (desired_retry_limit job) 0 (ensured R job)
     (job_status (prepared R now job)) s p x sts ds s1"
  let ?m = "max 0 (sint (desired_retry_limit job + 1))"
  from pass_run_count [OF run] desired_parallelism_pos [of job]
  have p: "sint p \<le> sint (desired_parallelism job)" by simp
  from pass_run_trace [OF run] obtain t where t: "io_trace s1 = io_trace s @ t" "writes t = []"
    "pass_calls (desired_retry_limit job) (ensured R job) (inline_payloads job) (invocation_target_for_function f) (calls t)"
    "(\<forall>st \<in> set (ensured R job). 0 \<le>s is_attempts st) \<longrightarrow> int (length (calls t)) \<le> sint p * ?m"
    using desired_retry_limit_nonneg [of job] by auto
  have "sint p * ?m \<le> sint (desired_parallelism job) * ?m" using p by (intro mult_right_mono) auto
  with t(4) have "list_all (\<lambda>st. 0 \<le>s is_attempts st) (ensured R job) \<longrightarrow>
      int (length (calls t)) \<le> sint (desired_parallelism job) * ?m" by (auto simp: list_all_iff)
  with t(1-3) show ?thesis by (auto simp: job_calls_ok_def)
qed

lemma job_pass_no_panic:
  assumes "length (inline_payloads job) < 2 ^ 31"
  shows "\<not> job_pass R now job I f s p LoopPanic sts ds s1"
proof
  assume "job_pass R now job I f s p LoopPanic sts ds s1"
  then obtain st where "st \<in> set (ensured R job)" "payload_at (inline_payloads job) (is_index st) = None"
    by (auto elim!: job_passE dest: pass_run_end)
  with ensured_payload_at [OF assms] show False unfolding ensured_def by force
qed

lemma update_job_status_effects:
  assumes "update_job_status R job (job_status d) s = (err, s')" and "job_conditions_agree d"
  shows "\<exists>t. io_trace s' = io_trace s @ t \<and> calls t = [] \<and> agreeing_writes job t"
proof -
  from update_job_status_trace [OF assms(1)] obtain t where t: "io_trace s' = io_trace s @ t" "calls t = []"
    "t = (if job_status job = job_status d then [] else [StatusUpdate (job\<lparr>job_status := job_status d\<rparr>)])"
    by blast
  have "agreeing_writes job t"
    unfolding t(3) by (simp add: agreeing_writes_def assms(2) job_conditions_agree_status)
  with t(1,2) show ?thesis by blast
qed

lemma run_job_effects:
  assumes run: "run_job R now job (start_job now job) f (invocation_target_for_function f) s = (out, s')"
    and lib: "kube_lib_ok (jr_lib R)"
  shows "\<exists>t. io_trace s' = io_trace s @ t \<and> agreeing_writes job t \<and>
    job_calls_ok R job (invocation_target_for_function f) (calls t) \<and>
    (length (inline_payloads job) < 2 ^ 31 \<longrightarrow> out \<noteq> Panicked)"
  using run
proof (cases rule: run_job_cases)
  case unconfigured
  from finish_job_effects [OF unconfigured(2) mark_conditions_agree(4) [OF lib]] show ?thesis
    by (auto simp: job_calls_ok_Nil)
next
  case (id_required d)
  from finish_after_event [OF id_required(3)] mark_conditions_agree(5) [OF lib] id_required(1) show ?thesis
    by (auto simp: job_calls_ok_Nil)
next
  case (panicked I p sts ds)
  from job_pass_calls [OF panicked(1)] obtain t where "io_trace s' = io_trace s @ t" "writes t = []"
    "job_calls_ok R job (invocation_target_for_function f) (calls t)" by blast
  moreover have "\<not> length (inline_payloads job) < 2 ^ 31" using job_pass_no_panic panicked(1) by blast
  ultimately show ?thesis by (intro exI [of _ t]) (simp add: agreeing_writes_none)
next
  case (stopped I p e sts ds s1)
  from job_pass_calls [OF stopped(1)] obtain t where t: "io_trace s1 = io_trace s @ t" "writes t = []"
    "job_calls_ok R job (invocation_target_for_function f) (calls t)" by blast
  from finish_job_effects [OF stopped(4) mark_conditions_agree(4) [OF lib]] obtain u where
    "io_trace s' = io_trace s1 @ u" "calls u = []" "agreeing_writes job u" "out \<noteq> Panicked" by blast
  with t show ?thesis
    by (intro exI [of _ "t @ u"]) (simp add: agreeing_writes_append agreeing_writes_none)
next
  case (completed I p sts ds s1 err)
  let ?d = "summarized R now job sts ds"
  from job_pass_calls [OF completed(1)] obtain t where t: "io_trace s1 = io_trace s @ t" "writes t = []"
    "job_calls_ok R job (invocation_target_for_function f) (calls t)" by blast
  obtain v where v: "io_trace (job_completion_event R job ?d s1) = io_trace s1 @ v" "calls v = []" "writes v = []"
    using completion_event_trace [of R job ?d s1] by blast
  from update_job_status_effects [OF completed(3)] summary_agrees [OF lib]
  obtain u where "io_trace s' = io_trace (job_completion_event R job ?d s1) @ u" "calls u = []" "agreeing_writes job u"
    by (auto simp: summarized_def)
  with t v completed(4) show ?thesis
    by (intro exI [of _ "t @ v @ u"]) (simp add: agreeing_writes_append agreeing_writes_none)
qed

text \<open>The effects of a reconciliation of a job that was found, in one statement.\<close>

lemma reconcile_found_effects:
  assumes rec: "reconcile_found_job R now job s = (out, s')" and lib: "kube_lib_ok (jr_lib R)"
  shows "\<exists>t. io_trace s' = io_trace s @ t \<and> agreeing_writes job t \<and>
    (length (inline_payloads job) < 2 ^ 31 \<longrightarrow> out \<noteq> Panicked) \<and>
    (calls t \<noteq> [] \<longrightarrow> \<not> job_is_terminal job \<and>
      (\<exists>f. job_function_lookup R job (io_world s) = Got f \<and>
        function_ready_for_invocation (jr_lib R) f (invocation_target_for_function f) \<and>
        job_calls_ok R job (invocation_target_for_function f) (calls t)))"
  using rec
proof (cases rule: reconcile_found_job_cases)
  case terminal
  then show ?thesis by (intro exI [of _ "[]"]) (simp add: agreeing_writes_def)
next
  case (invalid_ref d)
  from finish_after_event [OF invalid_ref(4)] mark_conditions_agree(1) [OF lib] invalid_ref(1) show ?thesis
    by auto
next
  case (lookup_failed e)
  then show ?thesis by (intro exI [of _ "[]"]) (simp add: agreeing_writes_def)
next
  case missing
  from finish_job_effects [OF missing(3) mark_conditions_agree(2) [OF lib]] show ?thesis by auto
next
  case (not_ready f d)
  from finish_after_event [OF not_ready(5)] mark_conditions_agree(3) [OF lib] not_ready(4) show ?thesis
    by auto
next
  case (ready f)
  from run_job_effects [OF ready(4) lib] ready(1-3) show ?thesis by auto
qed

section \<open>Repeated reconciliation\<close>

text \<open>
  The API server stores the last status written; the next reconciliation reads it back.
\<close>

definition stored_job :: "function_job \<Rightarrow> job_effect list \<Rightarrow> function_job" where
  "stored_job job t = (case rev (writes t) of StatusUpdate j # _ \<Rightarrow> j | _ \<Rightarrow> job)"

fun job_rounds :: "'w job_reconciler \<Rightarrow> time list \<Rightarrow> function_job \<Rightarrow> 'w job_io \<Rightarrow> function_job \<times> 'w job_io" where
  "job_rounds R [] job s = (job, s)"
| "job_rounds R (now # nows) job s =
     (case reconcile_found_job R now job (s\<lparr>io_trace := []\<rparr>) of
        (out, s') \<Rightarrow> job_rounds R nows (stored_job job (io_trace s')) s')"

text \<open>Payload statuses that line up with the payloads are carried over exactly.\<close>

definition aligned :: "'w job_reconciler \<Rightarrow> function_job \<Rightarrow> invocation_status list \<Rightarrow> bool" where
  "aligned R job sts \<longleftrightarrow> length sts = length (inline_payloads job) \<and>
     (\<forall>i < length sts. is_index (sts ! i) = of_nat i \<and>
        is_payload_digest (sts ! i) = digest_payload (jr_sha256 R) (inline_payloads job ! i) \<and>
        is_phase (sts ! i) \<noteq> InvocationPhaseUnset)"

lemma ensured_length [simp]: "length (ensured R job) = length (inline_payloads job)"
  by (simp add: ensured_def)

lemma ensured_aligned: "aligned R job (ensured R job)"
  by (simp add: aligned_def ensured_def ensure_payloads_nth ensure_payload_status_facts)

lemma attempts_run_phase:
  "attempts_run r I target payloads now m st ds s x st' ds' s' \<Longrightarrow>
     is_phase st \<noteq> InvocationPhaseUnset \<Longrightarrow> is_phase st' \<noteq> InvocationPhaseUnset"
  by (induction rule: attempts_run.induct) simp_all

lemma pass_run_phase:
  "pass_run r I target payloads now limit l n sts ds s p x sts' ds' s' \<Longrightarrow>
     list_all (\<lambda>st. is_phase st \<noteq> InvocationPhaseUnset) sts \<Longrightarrow>
     list_all (\<lambda>st. is_phase st \<noteq> InvocationPhaseUnset) sts'"
  by (induction rule: pass_run.induct) (auto dest: attempts_run_phase)

lemma pass_aligned:
  assumes "pass_run r I target payloads now limit l n sts ds s p x sts' ds' s'" "aligned R job sts"
  shows "aligned R job sts'"
proof -
  have "list_all (\<lambda>st. is_phase st \<noteq> InvocationPhaseUnset) sts"
    using assms(2) by (auto simp: aligned_def list_all_length)
  with pass_run_phase [OF assms(1)] have "list_all (\<lambda>st. is_phase st \<noteq> InvocationPhaseUnset) sts'" by simp
  with pass_run_kept [OF assms(1)] assms(2) show ?thesis
    by (auto simp: aligned_def list_all2_conv_all_nth list_all_length kept_def)
qed

lemma existing_by_index_nth:
  assumes "\<And>i. i < length sts \<Longrightarrow> is_index (sts ! i) = of_nat i" "length sts < 2 ^ 31" "k < length sts"
  shows "existing_by_index sts (of_nat k) = Some (sts ! k)"
proof -
  have neq: "(of_nat i :: int32) \<noteq> of_nat k" if "i < length sts" "i \<noteq> k" for i
    using of_nat32_inject [of i k] that assms(2,3) by simp
  have "sts ! k \<in> set (rev sts)" "is_index (sts ! k) = of_nat k" using assms(1,3) by simp_all
  then have "find (\<lambda>st. is_index st = of_nat k) (rev sts) \<noteq> None"
    unfolding find_None_all by blast
  then obtain st where st: "find (\<lambda>st. is_index st = of_nat k) (rev sts) = Some st" by blast
  with find_Some_member [OF st] obtain i where "i < length sts" "st = sts ! i" "is_index st = of_nat k"
    by (auto simp: in_set_conv_nth)
  with assms(1) neq have "i = k" by metis
  with st \<open>st = sts ! i\<close> show ?thesis by (simp add: existing_by_index_def)
qed

lemma aligned_stable:
  assumes al: "aligned R job sts" and len: "length (inline_payloads job) < 2 ^ 31"
  shows "ensure_payloads_from (jr_sha256 R) sts 0 (inline_payloads job) = sts"
proof (rule nth_equalityI)
  show "length (ensure_payloads_from (jr_sha256 R) sts 0 (inline_payloads job)) = length sts"
    using al by (simp add: aligned_def)
  fix k assume k: "k < length (ensure_payloads_from (jr_sha256 R) sts 0 (inline_payloads job))"
  then have "k < length sts" using al by (simp add: aligned_def)
  with al len have "existing_by_index sts (of_nat k) = Some (sts ! k)"
    by (intro existing_by_index_nth) (auto simp: aligned_def)
  with k al show "ensure_payloads_from (jr_sha256 R) sts 0 (inline_payloads job) ! k = sts ! k"
    by (auto simp: ensure_payloads_nth ensure_payload_status_def aligned_def Let_def)
qed

text \<open>
  A steady environment: the function is there and ready, the invoker is implemented, status
  updates succeed.
\<close>

definition steady :: "'w job_reconciler \<Rightarrow> function_job \<Rightarrow> 'w invoker \<Rightarrow> oci_function \<Rightarrow> bool" where
  "steady R job I f \<longleftrightarrow>
     jr_invoker R = Some I \<and> fr_name (js_function_ref (job_spec job)) \<noteq> [] \<and>
     (\<forall>w. job_function_lookup R job w = Got f) \<and>
     function_ready_for_invocation (jr_lib R) f (invocation_target_for_function f) \<and>
     (\<forall>rq w resp e w'. inv_invoke I rq w = ((resp, Some e), w') \<longrightarrow> \<not> is_not_implemented e) \<and>
     (\<forall>j w. fst (status_update_job (jr_client R) j w) = None)"

lemma attempts_run_implemented:
  "attempts_run r I target payloads now m st ds s x st' ds' s' \<Longrightarrow>
     (\<And>rq w resp e w'. inv_invoke I rq w = ((resp, Some e), w') \<Longrightarrow> \<not> is_not_implemented e) \<Longrightarrow>
     \<forall>e. x \<noteq> LoopStopped e"
proof (induction rule: attempts_run.induct)
  case (stopped st body s resp e s1 ds)
  from call_invoker_trace [OF stopped(3)] stopped show ?case by blast
qed simp_all

lemma pass_run_implemented:
  "pass_run r I target payloads now limit l n sts ds s p x sts' ds' s' \<Longrightarrow>
     (\<And>rq w resp e w'. inv_invoke I rq w = ((resp, Some e), w') \<Longrightarrow> \<not> is_not_implemented e) \<Longrightarrow>
     \<forall>e. x \<noteq> LoopStopped e"
  by (induction rule: pass_run.induct) (auto dest: attempts_run_implemented)

lemma runnable_zero_settled:
  assumes "runnable_count l sts = 0"
  shows "list_all invocation_settled sts"
  using assms
  by (auto simp: list_all_iff filter_empty_conv is_runnable_payload_def invocation_settled_def
      split: if_splits)

text \<open>One reconciliation in a steady environment ends the job or settles \<open>parallelism\<close> payloads.\<close>

definition job_bounds :: "function_job \<Rightarrow> bool" where
  "job_bounds job \<longleftrightarrow> length (inline_payloads job) < 2 ^ 31 \<and> desired_retry_limit job <s 2147483647 \<and>
     list_all (attempts_left (desired_retry_limit job)) (jst_invocations (job_status job))"

lemma bounded_no_panic: "job_bounds job \<Longrightarrow> \<not> job_pass R now job I f s p LoopPanic sts ds s1"
  unfolding job_bounds_def using job_pass_no_panic by blast

lemma steady_pass:
  assumes steady: "steady R job I f" and bounds: "job_bounds job"
    and pass: "job_pass R now job I f s p x sts ds s1"
  shows "x = LoopDone \<and> aligned R job sts \<and> list_all (attempts_left (desired_retry_limit job)) sts \<and>
    (list_all invocation_settled sts \<or>
     int (runnable_count (desired_retry_limit job) sts) + sint (desired_parallelism job)
       = int (runnable_count (desired_retry_limit job) (ensured R job)))"
  using pass
proof (rule job_passE)
  assume run: "pass_run (jr_recorder R) I (invocation_target_for_function f) (inline_payloads job) now
     (desired_parallelism job) (desired_retry_limit job) 0 (ensured R job)
     (job_status (prepared R now job)) s p x sts ds s1"
  let ?l = "desired_retry_limit job"
  have "x \<noteq> LoopPanic" using bounded_no_panic [OF bounds] pass by blast
  moreover have "\<forall>e. x \<noteq> LoopStopped e"
    using steady pass_run_implemented [OF run] unfolding steady_def by blast
  ultimately have x: "x = LoopDone" by (cases x) auto
  have "list_all (attempts_left ?l) (ensured R job)"
    unfolding ensured_def using bounds desired_retry_limit_nonneg
    by (intro ensure_payloads_attempts_left) (simp_all add: job_bounds_def)
  from pass_run_progress [OF run x this]
  have progress: "list_all (attempts_left ?l) sts"
    "int (runnable_count ?l sts) + sint p = int (runnable_count ?l (ensured R job))" by simp_all
  have "list_all invocation_settled sts \<or> sint p = sint (desired_parallelism job)"
  proof (cases "p <s desired_parallelism job")
    case True
    with pass_run_count [OF run] x progress(2) have "runnable_count ?l sts = 0" by simp
    then show ?thesis by (blast intro: runnable_zero_settled)
  next
    case False
    with pass_run_count [OF run] desired_parallelism_pos [of job] show ?thesis by (simp add: sless_sint)
  qed
  with x progress pass_aligned [OF run ensured_aligned] show ?thesis by auto
qed

lemma steady_round:
  assumes steady: "steady R job I f" and bounds: "job_bounds job" and run: "\<not> job_is_terminal job"
    and rec: "reconcile_found_job R now job (s\<lparr>io_trace := []\<rparr>) = (out, s')"
  obtains p sts ds s1 where "job_pass R now job I f (s\<lparr>io_trace := []\<rparr>) p LoopDone sts ds s1"
    and "stored_job job (io_trace s') = job\<lparr>job_status := job_status (summarized R now job sts ds)\<rparr>"
  using rec
proof (cases rule: reconcile_found_job_cases)
  case (ready g)
  with steady have g: "g = f" by (simp add: steady_def)
  from ready(4) show ?thesis unfolding g
  proof (cases rule: run_job_cases)
    case unconfigured
    with steady show ?thesis by (simp add: steady_def)
  next
    case (id_required d)
    with ready(3) g show ?thesis by (auto dest: ready_for_invocation_target)
  next
    case (panicked J p sts ds)
    with bounded_no_panic [OF bounds] show ?thesis by blast
  next
    case (stopped J p e sts ds s1)
    with steady_pass [OF steady bounds, of now _ p "LoopStopped e" sts ds s1] steady show ?thesis
      by (auto simp: steady_def)
  next
    case (completed J p sts ds s1 err)
    let ?d = "summarized R now job sts ds"
    from completed(2) steady have J: "J = I" by (simp add: steady_def)
    from job_pass_calls [OF completed(1)] obtain t where t: "io_trace s1 = t" "writes t = []" by auto
    obtain v where v: "io_trace (job_completion_event R job ?d s1) = io_trace s1 @ v" "writes v = []"
      using completion_event_trace [of R job ?d s1] by blast
    from update_job_status_trace [OF completed(3)] t v
    have "stored_job job (io_trace s') = job\<lparr>job_status := job_status ?d\<rparr>"
      by (auto simp: stored_job_def)
    with completed(1) J show ?thesis by (intro that) auto
  qed
qed (use steady run in \<open>auto simp: steady_def\<close>)

lemma summarized_invocations:
  "jst_invocations (job_status (summarized R now job sts ds)) = sts"
  by (simp add: summarized_def summary_invocations status_simps)

lemma summarized_phase:
  assumes "aligned R job sts" "length (inline_payloads job) < 2 ^ 31"
  shows "jst_phase (job_status (summarized R now job sts ds)) = summary_phase sts"
  unfolding summarized_def
  using assms by (intro summary_phase_correct) (auto simp: aligned_def)

lemma summary_phase_terminal: "job_phase_terminal (summary_phase sts) \<longleftrightarrow> list_all invocation_settled sts"
  by (simp add: summary_phase_def job_phase_terminal_def)

lemma terminal_rounds: "job_is_terminal job \<Longrightarrow> fst (job_rounds R nows job s) = job"
  by (induction nows arbitrary: s) (simp_all add: reconcile_found_job_def stored_job_def)

lemma rounds_terminate:
  assumes "steady R job I f" "job_bounds job"
    and "nows \<noteq> []"
    and "int (runnable_count (desired_retry_limit job) (ensured R job))
      \<le> sint (desired_parallelism job) * int (length nows)"
  shows "job_is_terminal (fst (job_rounds R nows job s))"
  using assms
proof (induction nows arbitrary: job s)
  case (Cons now nows)
  let ?l = "desired_retry_limit job" and ?P = "sint (desired_parallelism job)"
  show ?case
  proof (cases "job_is_terminal job")
    case True
    then show ?thesis by (simp add: terminal_rounds del: job_rounds.simps)
  next
    case False
    obtain out s' where rec: "reconcile_found_job R now job (s\<lparr>io_trace := []\<rparr>) = (out, s')"
      by (metis prod.exhaust)
    from steady_round [OF Cons.prems(1,2) False rec] obtain p sts ds s1 where
      pass: "job_pass R now job I f (s\<lparr>io_trace := []\<rparr>) p LoopDone sts ds s1" and
      stored: "stored_job job (io_trace s') = job\<lparr>job_status := job_status (summarized R now job sts ds)\<rparr>"
      by blast
    define job' where "job' = job\<lparr>job_status := job_status (summarized R now job sts ds)\<rparr>"
    have same: "inline_payloads job' = inline_payloads job" "desired_retry_limit job' = ?l"
      "desired_parallelism job' = desired_parallelism job" "job_meta job' = job_meta job"
      "job_spec job' = job_spec job"
      by (simp_all add: job'_def inline_payloads_def desired_retry_limit_def desired_parallelism_def)
    from steady_pass [OF Cons.prems(1,2) pass] have sts: "aligned R job sts" "list_all (attempts_left ?l) sts"
      "list_all invocation_settled sts \<or>
        int (runnable_count ?l sts) + ?P = int (runnable_count ?l (ensured R job))" by simp_all
    have len: "length (inline_payloads job) < 2 ^ 31" using Cons.prems(2) by (simp add: job_bounds_def)
    have rounds: "job_rounds R (now # nows) job s = job_rounds R nows job' s'"
      using rec stored by (simp add: job'_def)
    show ?thesis
    proof (cases "list_all invocation_settled sts")
      case True
      then have "job_is_terminal job'"
        by (simp add: job'_def job_is_terminal_def summarized_phase [OF sts(1) len] summary_phase_terminal)
      then show ?thesis by (simp add: rounds terminal_rounds del: job_rounds.simps)
    next
      case False
      then have left: "int (runnable_count ?l sts) + ?P = int (runnable_count ?l (ensured R job))"
        using sts(3) by simp
      have "0 < runnable_count ?l sts" using False runnable_zero_settled by blast
      moreover have "int (runnable_count ?l (ensured R job)) \<le> ?P + ?P * int (length nows)"
        using Cons.prems(4) by (simp add: distrib_left)
      ultimately have bound: "0 < ?P * int (length nows)" "int (runnable_count ?l sts) \<le> ?P * int (length nows)"
        using left by linarith+
      then have "nows \<noteq> []" by auto
      have inv: "jst_invocations (job_status job') = sts"
        by (simp add: job'_def summarized_invocations)
      have "steady R job' I f" using Cons.prems(1) by (simp add: steady_def same)
      moreover have "job_bounds job'"
        using Cons.prems(2) sts(2) by (simp add: job_bounds_def same inv)
      moreover have "ensured R job' = sts"
        using aligned_stable [OF sts(1) len] by (simp add: ensured_def inv same)
      ultimately show ?thesis
        using Cons.IH [of job' s'] bound \<open>nows \<noteq> []\<close> by (simp add: rounds same del: job_rounds.simps)
    qed
  qed
qed simp

end
