(* ===== verification/JobHistory.thy ===== *)
theory JobHistory
  imports JobReconcile
begin

text \<open>
  The history of a \<open>FunctionJob\<close> over several reconciliations: how often a payload can be invoked
  with success, what the statuses of succeeded payloads hold under the invoker contract, and
  that a job waiting for its function is left alone.
\<close>

section \<open>Successful calls are accounted for\<close>

definition success_calls :: "int32 \<Rightarrow> invoke_call list \<Rightarrow> nat" where
  "success_calls i cs = length (filter (\<lambda>(rq, resp, err). rq_index rq = i \<and> err = None) cs)"

definition success_marks :: "int32 \<Rightarrow> invocation_status list \<Rightarrow> nat" where
  "success_marks i sts =
     length (filter (\<lambda>st. is_index st = i \<and> is_phase st = InvocationPhaseSucceeded) sts)"

lemma success_calls_simps [simp]:
  "success_calls i [] = 0"
  "success_calls i ((rq, resp, err) # cs) = (if rq_index rq = i \<and> err = None then 1 else 0) + success_calls i cs"
  "success_calls i (cs @ ds) = success_calls i cs + success_calls i ds"
  by (simp_all add: success_calls_def)

lemma success_marks_simps [simp]:
  "success_marks i [] = 0"
  "success_marks i (st # sts) =
     (if is_index st = i \<and> is_phase st = InvocationPhaseSucceeded then 1 else 0) + success_marks i sts"
  by (simp_all add: success_marks_def)

text \<open>An attempt loop on a payload that has not succeeded marks it as often as a call succeeds.\<close>

lemma attempts_run_success:
  "attempts_run r I target payloads now m st ds s x st' ds' s' \<Longrightarrow>
     is_phase st \<noteq> InvocationPhaseSucceeded \<Longrightarrow>
     \<exists>t. io_trace s' = io_trace s @ t \<and> success_calls i (calls t) = success_marks i [st']"
proof (induction rule: attempts_run.induct)
  case (retry st body s resp e s1 ds x st' ds' s')
  then obtain t where "io_trace s' = io_trace s1 @ t" "success_calls i (calls t) = success_marks i [st']"
    by auto
  moreover from call_invoker_trace [OF retry(3)] have
    "io_trace s1 = io_trace s @ [Called (\<lparr>rq_target = target, rq_index = is_index st, rq_body = body\<rparr>, resp, Some e)]"
    by simp
  ultimately show ?case by auto
qed (auto dest!: call_invoker_trace simp: record_event_def)

lemma runnable_not_succeeded: "is_runnable_payload st l \<Longrightarrow> is_phase st \<noteq> InvocationPhaseSucceeded"
  by (auto simp: is_runnable_payload_def split: if_splits)

lemma pass_run_success:
  "pass_run r I target payloads now limit l n sts ds s p x sts' ds' s' \<Longrightarrow>
     \<exists>t. io_trace s' = io_trace s @ t \<and>
       success_calls i (calls t) + success_marks i sts = success_marks i sts'"
proof (induction rule: pass_run.induct)
  case (pass_step n st ds s st' ds1 s1 sts p x sts' ds' s')
  from attempts_run_success [OF pass_step(3), of i] obtain t where
    t: "io_trace s1 = io_trace s @ t" "success_calls i (calls t) = success_marks i [st']" by auto
  from pass_step.IH obtain u where
    u: "io_trace s' = io_trace s1 @ u" "success_calls i (calls u) + success_marks i sts = success_marks i sts'"
    by blast
  from t u runnable_not_succeeded [OF pass_step(2)] show ?case
    by (intro exI [of _ "t @ u"]) auto
next
  case (pass_abort n st ds s x st' ds1 s1 sts)
  from attempts_run_success [OF pass_abort(3), of i] obtain t where
    t: "io_trace s1 = io_trace s @ t" "success_calls i (calls t) = success_marks i [st']" by auto
  with runnable_not_succeeded [OF pass_abort(2)] show ?case by auto
qed auto

lemma job_pass_success:
  assumes "job_pass R now job I f s p x sts ds s1"
  obtains t where "io_trace s1 = io_trace s @ t"
    and "success_calls i (calls t) + success_marks i (ensured R job) = success_marks i sts"
    and "writes t = []"
proof -
  from assms obtain run: "pass_run (jr_recorder R) I (invocation_target_for_function f) (inline_payloads job) now
     (desired_parallelism job) (desired_retry_limit job) 0 (ensured R job)
     (job_status (prepared R now job)) s p x sts ds s1" by (rule job_passE)
  from pass_run_success [OF run, of i] job_pass_calls [OF assms] that show ?thesis by auto
qed

lemma aligned_success_marks:
  assumes "aligned R job sts" "length (inline_payloads job) < 2 ^ 31"
  shows "success_marks i sts \<le> 1"
proof -
  have "is_index (sts ! a) \<noteq> is_index (sts ! b)" if "a < length sts" "b < length sts" "a \<noteq> b" for a b
  proof -
    have "a < 2 ^ 32" "b < 2 ^ 32" using assms that by (auto simp: aligned_def)
    then have "(of_nat a :: int32) \<noteq> of_nat b" using that(3) by (simp add: of_nat32_inject)
    with assms(1) that show ?thesis by (simp add: aligned_def)
  qed
  then have "distinct (map is_index sts)" by (simp add: distinct_conv_nth)
  then show ?thesis
  proof (induction sts)
    case (Cons st sts)
    have "success_marks i sts = 0" if "is_index st = i"
      using Cons.prems that by (auto simp: success_marks_def filter_empty_conv) (metis image_eqI)
    with Cons show ?case by auto
  qed simp
qed

section \<open>What a reconciliation stores\<close>

definition ensured_of :: "'w job_reconciler \<Rightarrow> function_job \<Rightarrow> invocation_status list \<Rightarrow> bool" where
  "ensured_of R job sts \<longleftrightarrow> sts = jst_invocations (job_status job) \<or> sts = ensured R job"

text \<open>
  The successful calls of one reconciliation are exactly the successes that the stored job has
  more than the job it started from.
\<close>

definition accounted :: "'w job_reconciler \<Rightarrow> function_job \<Rightarrow> int32 \<Rightarrow> job_effect list \<Rightarrow> bool" where
  "accounted R job i t \<longleftrightarrow>
     job_spec (stored_job job t) = job_spec job \<and>
     success_calls i (calls t) + success_marks i (ensured R job) =
       success_marks i (ensured R (stored_job job t))"

lemma ensured_cong:
  "job_spec j = job_spec job \<Longrightarrow>
     ensured R j = ensure_payloads_from (jr_sha256 R) (jst_invocations (job_status j)) 0 (inline_payloads job)"
  by (simp add: ensured_def inline_payloads_def)

lemma ensured_fixed:
  assumes "length (inline_payloads job) < 2 ^ 31" "job_spec j = job_spec job"
    "aligned R job (jst_invocations (job_status j))"
  shows "ensured R j = jst_invocations (job_status j)"
  using aligned_stable [OF assms(3,1)] by (simp add: ensured_cong [OF assms(2)])

lemma stored_finish:
  fixes d :: function_job
  assumes "finish_job R job d s = (out, s')"
  obtains t where "io_trace s' = io_trace s @ t" "calls t = []"
    and "\<And>u. writes u = [] \<Longrightarrow> stored_job job (u @ t) = job\<lparr>job_status := job_status d\<rparr>"
proof -
  from finish_job_trace [OF assms] obtain t where t: "io_trace s' = io_trace s @ t" "calls t = []"
    "t = (if job_status job = job_status d then [] else [StatusUpdate (job\<lparr>job_status := job_status d\<rparr>)])"
    by blast
  then have "stored_job job (u @ t) = job\<lparr>job_status := job_status d\<rparr>" if "writes u = []" for u
    using that by (auto simp: stored_job_def)
  with t that show ?thesis by blast
qed

lemma stored_update:
  fixes d :: function_job
  assumes "update_job_status R job (job_status d) s = (err, s')"
  obtains t where "io_trace s' = io_trace s @ t" "calls t = []"
    and "\<And>u. writes u = [] \<Longrightarrow> stored_job job (u @ t) = job\<lparr>job_status := job_status d\<rparr>"
proof (rule stored_finish [of R job d s _ s'])
  show "finish_job R job d s = (Returned no_requeue err, s')" using assms by (simp add: finish_job_def)
qed (use that in blast)

lemma accounted_without_pass:
  fixes d :: function_job
  assumes len: "length (inline_payloads job) < 2 ^ 31" and c: "calls t = []"
    and st: "stored_job job t = job\<lparr>job_status := job_status d\<rparr>"
    and inv: "ensured_of R job (jst_invocations (job_status d))"
  shows "accounted R job i t"
proof -
  let ?j = "job\<lparr>job_status := job_status d\<rparr>"
  from inv have "ensured R ?j = ensured R job"
    unfolding ensured_of_def
  proof
    assume "jst_invocations (job_status d) = jst_invocations (job_status job)"
    then show ?thesis by (simp add: ensured_cong [of ?j job] ensured_def inline_payloads_def)
  next
    assume eq: "jst_invocations (job_status d) = ensured R job"
    then show ?thesis using ensured_aligned [of R job] by (simp add: ensured_fixed [OF len, of ?j])
  qed
  then show ?thesis by (simp add: accounted_def c st)
qed

lemma accounted_pass:
  fixes d :: function_job
  assumes len: "length (inline_payloads job) < 2 ^ 31"
    and pass: "job_pass R now job I f s p x sts ds s1"
    and tr: "io_trace s' = io_trace s1 @ u" "calls u = []"
    and st: "\<And>t. io_trace s1 = io_trace s @ t \<Longrightarrow> writes t = [] \<Longrightarrow>
      stored_job job (t @ u) = job\<lparr>job_status := job_status d\<rparr>"
    and inv: "jst_invocations (job_status d) = sts"
  shows "\<exists>t. io_trace s' = io_trace s @ t \<and> accounted R job i t"
proof -
  from job_pass_success [OF pass, of i] obtain t where t: "io_trace s1 = io_trace s @ t" "writes t = []"
    "success_calls i (calls t) + success_marks i (ensured R job) = success_marks i sts" by blast
  let ?j = "job\<lparr>job_status := job_status d\<rparr>"
  have "aligned R job sts" using pass by (auto elim!: job_passE intro: pass_aligned ensured_aligned)
  then have "ensured R ?j = sts" using ensured_fixed [OF len, of ?j R] inv by simp
  with t tr st [OF t(1,2)] show ?thesis
    by (intro exI [of _ "t @ u"]) (simp add: accounted_def)
qed

lemma mark_invocations [status_simps]:
  "jst_invocations (job_status (mark_invalid_function_ref K now j)) = jst_invocations (job_status j)"
  "jst_invocations (job_status (mark_waiting_for_function K now r m j)) = jst_invocations (job_status j)"
  "jst_invocations (job_status (mark_function_not_ready K now f t j)) = jst_invocations (job_status j)"
  "jst_invocations (job_status (mark_invoker_not_configured K now j)) = jst_invocations (job_status j)"
  "jst_invocations (job_status (mark_function_id_required K now n j)) = jst_invocations (job_status j)"
  by (simp_all add: mark_defs status_simps)

lemma accounted_finish:
  assumes len: "length (inline_payloads job) < 2 ^ 31"
    and fin: "finish_job R job d s0 = (out, s')"
    and s0: "io_trace s0 = io_trace s @ u" "calls u = []" "writes u = []"
    and inv: "ensured_of R job (jst_invocations (job_status d))"
  shows "\<exists>t. io_trace s' = io_trace s @ t \<and> accounted R job i t"
proof -
  from stored_finish [OF fin] obtain t where t: "io_trace s' = io_trace s0 @ t" "calls t = []"
    "stored_job job (u @ t) = job\<lparr>job_status := job_status d\<rparr>" using s0(3) by metis
  have "accounted R job i (u @ t)"
    using t s0(2) by (intro accounted_without_pass [OF len _ t(3) inv]) simp
  with t s0 show ?thesis by (intro exI [of _ "u @ t"]) simp
qed

lemma run_job_accounted:
  assumes len: "length (inline_payloads job) < 2 ^ 31"
    and run: "run_job R now job (start_job now job) f (invocation_target_for_function f) s = (out, s')"
  shows "\<exists>t. io_trace s' = io_trace s @ t \<and> accounted R job i t"
  using run
proof (cases rule: run_job_cases)
  case unconfigured
  show ?thesis
    by (rule accounted_finish [OF len unconfigured(2), of s "[]"]) (simp_all add: status_simps ensured_of_def)
next
  case (id_required d)
  obtain u where u: "io_trace (record_event (jr_recorder R) EventWarning ''Failed''
      (jst_last_error (job_status d)) s) = io_trace s @ u" "calls u = []" "writes u = []"
    using record_event_trace by blast
  from id_required(1) have "jst_invocations (job_status d) = ensured R job" by (simp add: status_simps)
  with accounted_finish [OF len id_required(3) u] show ?thesis by (simp add: ensured_of_def)
next
  case (panicked I p sts ds)
  with job_pass_no_panic [OF len] show ?thesis by blast
next
  case (stopped I p e sts ds s1)
  from stored_finish [OF stopped(4)] obtain u where u: "io_trace s' = io_trace s1 @ u" "calls u = []"
    "\<And>t. writes t = [] \<Longrightarrow> stored_job job (t @ u) = job\<lparr>job_status := job_status
       (mark_invoker_not_configured (jr_lib R) now ((prepared R now job)\<lparr>job_status := ds\<lparr>jst_invocations := sts\<rparr>\<rparr>))\<rparr>"
    by blast
  show ?thesis
    by (rule accounted_pass [OF len stopped(1) u(1,2) u(3)]) (simp_all add: status_simps)
next
  case (completed I p sts ds s1 err)
  let ?d = "summarized R now job sts ds"
  obtain v where v: "io_trace (job_completion_event R job ?d s1) = io_trace s1 @ v" "calls v = []" "writes v = []"
    using completion_event_trace [of R job ?d s1] by blast
  from stored_update [OF completed(3)] obtain u where
    u: "io_trace s' = io_trace (job_completion_event R job ?d s1) @ u" "calls u = []"
    "\<And>t. writes t = [] \<Longrightarrow> stored_job job (t @ u) = job\<lparr>job_status := job_status ?d\<rparr>"
    by blast
  have st: "stored_job job (t @ v @ u) = job\<lparr>job_status := job_status ?d\<rparr>" if "writes t = []" for t
    using u(3) [of "t @ v"] v(3) that by simp
  show ?thesis
    by (rule accounted_pass [OF len completed(1) _ _ st])
      (simp_all add: v u summarized_invocations)
qed

lemma reconcile_accounted:
  assumes len: "length (inline_payloads job) < 2 ^ 31"
    and rec: "reconcile_found_job R now job s = (out, s')"
  shows "\<exists>t. io_trace s' = io_trace s @ t \<and> accounted R job i t"
  using rec
proof (cases rule: reconcile_found_job_cases)
  case terminal
  then show ?thesis by (simp add: accounted_def stored_job_def)
next
  case (invalid_ref d)
  obtain u where u: "io_trace (record_event (jr_recorder R) EventWarning ''Failed''
      ''FunctionJob failed: spec.functionRef.name is required.'' s) = io_trace s @ u" "calls u = []" "writes u = []"
    using record_event_trace by blast
  from invalid_ref(1) have "ensured_of R job (jst_invocations (job_status d))"
    by (simp add: status_simps ensured_of_def)
  with accounted_finish [OF len invalid_ref(4) u] show ?thesis by simp
next
  case (lookup_failed e)
  then show ?thesis by (simp add: accounted_def stored_job_def)
next
  case missing
  show ?thesis
    by (rule accounted_finish [OF len missing(3), of s "[]"]) (simp_all add: status_simps ensured_of_def)
next
  case (not_ready f d)
  obtain u where u: "io_trace (record_event (jr_recorder R) EventWarning ''Failed''
      (jst_last_error (job_status d)) s) = io_trace s @ u" "calls u = []" "writes u = []"
    using record_event_trace by blast
  from not_ready(4) have "ensured_of R job (jst_invocations (job_status d))"
    by (simp add: status_simps ensured_of_def)
  with accounted_finish [OF len not_ready(5) u] show ?thesis by simp
next
  case (ready f)
  from run_job_accounted [OF len ready(4)] show ?thesis .
qed

section \<open>The calls of a whole history\<close>

fun job_history :: "'w job_reconciler \<Rightarrow> time list \<Rightarrow> function_job \<Rightarrow> 'w job_io \<Rightarrow> invoke_call list" where
  "job_history R [] job s = []"
| "job_history R (now # nows) job s =
     (case reconcile_found_job R now job (s\<lparr>io_trace := []\<rparr>) of
        (out, s') \<Rightarrow> calls (io_trace s') @ job_history R nows (stored_job job (io_trace s')) s')"

lemma history_accounted:
  assumes "length (inline_payloads job) < 2 ^ 31"
  shows "success_calls i (job_history R nows job s) + success_marks i (ensured R job) \<le> 1"
  using assms
proof (induction nows arbitrary: job s)
  case Nil
  then show ?case using aligned_success_marks [OF ensured_aligned] by simp
next
  case (Cons now nows)
  obtain out s' where rec: "reconcile_found_job R now job (s\<lparr>io_trace := []\<rparr>) = (out, s')"
    by (metis prod.exhaust)
  from reconcile_accounted [OF Cons.prems rec, of i] have acc: "accounted R job i (io_trace s')" by simp
  then have "inline_payloads (stored_job job (io_trace s')) = inline_payloads job"
    by (simp add: accounted_def inline_payloads_def)
  with Cons.IH [of "stored_job job (io_trace s')" s'] Cons.prems acc rec show ?case
    by (simp add: accounted_def)
qed

section \<open>Where the written payload statuses come from\<close>

text \<open>
  Every status a reconciliation writes holds the payload statuses of the job it read, those
  statuses aligned with the payloads, or the ones a pass of the configured invoker produced.
\<close>

definition written_from :: "'w job_reconciler \<Rightarrow> time \<Rightarrow> function_job \<Rightarrow> invocation_status list \<Rightarrow> bool" where
  "written_from R now job sts \<longleftrightarrow> ensured_of R job sts \<or>
     (\<exists>I f s p x ds s1. jr_invoker R = Some I \<and> job_pass R now job I f s p x sts ds s1)"

definition writes_from :: "'w job_reconciler \<Rightarrow> time \<Rightarrow> function_job \<Rightarrow> job_effect list \<Rightarrow> bool" where
  "writes_from R now job t \<longleftrightarrow>
     (\<forall>j. StatusUpdate j \<in> set (writes t) \<longrightarrow> written_from R now job (jst_invocations (job_status j)))"

lemma writes_from_append:
  "writes_from R now job (t @ u) \<longleftrightarrow> writes_from R now job t \<and> writes_from R now job u"
  by (auto simp: writes_from_def)

lemma writes_from_none: "writes t = [] \<Longrightarrow> writes_from R now job t"
  by (simp add: writes_from_def)

lemma writes_from_finish:
  assumes "finish_job R job d s0 = (out, s')" and "io_trace s0 = io_trace s @ u" "writes u = []"
    and "written_from R now job (jst_invocations (job_status d))"
  shows "\<exists>t. io_trace s' = io_trace s @ t \<and> writes_from R now job t"
proof -
  from finish_job_trace [OF assms(1)] obtain t where t: "io_trace s' = io_trace s0 @ t"
    "t = (if job_status job = job_status d then [] else [StatusUpdate (job\<lparr>job_status := job_status d\<rparr>)])"
    by blast
  have "writes_from R now job t" using assms(4) by (simp add: t(2) writes_from_def)
  with t assms(2,3) show ?thesis
    by (intro exI [of _ "u @ t"]) (simp add: writes_from_append writes_from_none)
qed

lemma writes_from_record:
  assumes "finish_job R job d (record_event r sev reason m s) = (out, s')"
    and "written_from R now job (jst_invocations (job_status d))"
  shows "\<exists>t. io_trace s' = io_trace s @ t \<and> writes_from R now job t"
  using record_event_trace [of r sev reason m s] writes_from_finish [OF assms(1) _ _ assms(2)] by blast

lemma written_fromI: "ensured_of R job sts \<Longrightarrow> written_from R now job sts"
  by (simp add: written_from_def)

lemma run_job_writes_from:
  assumes "run_job R now job (start_job now job) f (invocation_target_for_function f) s = (out, s')"
  shows "\<exists>t. io_trace s' = io_trace s @ t \<and> writes_from R now job t"
  using assms
proof (cases rule: run_job_cases)
  case unconfigured
  show ?thesis
    by (rule writes_from_finish [OF unconfigured(2), of s "[]"])
      (simp_all add: status_simps written_fromI ensured_of_def)
next
  case (id_required d)
  show ?thesis
    by (rule writes_from_record [OF id_required(3)])
      (simp add: id_required(1) status_simps written_fromI ensured_of_def)
next
  case (panicked I p sts ds)
  from job_pass_calls [OF panicked(1)] show ?thesis by (auto intro: writes_from_none)
next
  case (stopped I p e sts ds s1)
  from job_pass_calls [OF stopped(1)] obtain t where t: "io_trace s1 = io_trace s @ t" "writes t = []" by blast
  have "written_from R now job sts" using stopped by (auto simp: written_from_def)
  then show ?thesis by (intro writes_from_finish [OF stopped(4) t]) (simp add: status_simps)
next
  case (completed I p sts ds s1 err)
  let ?d = "summarized R now job sts ds"
  from job_pass_calls [OF completed(1)] obtain t where t: "io_trace s1 = io_trace s @ t" "writes t = []" by blast
  obtain v where v: "io_trace (job_completion_event R job ?d s1) = io_trace s1 @ v" "writes v = []"
    using completion_event_trace [of R job ?d s1] by blast
  have "written_from R now job (jst_invocations (job_status ?d))"
    using completed by (auto simp: written_from_def summarized_invocations)
  moreover have "finish_job R job ?d (job_completion_event R job ?d s1) = (Returned no_requeue err, s')"
    using completed(3) by (simp add: finish_job_def)
  ultimately show ?thesis using t v by (intro writes_from_finish [of _ _ _ _ _ _ _ "t @ v"]) simp_all
qed

lemma reconcile_writes_from:
  assumes "reconcile_found_job R now job s = (out, s')"
  shows "\<exists>t. io_trace s' = io_trace s @ t \<and> writes_from R now job t"
  using assms
proof (cases rule: reconcile_found_job_cases)
  case (invalid_ref d)
  show ?thesis
    by (rule writes_from_record [OF invalid_ref(4)])
      (simp add: invalid_ref(1) status_simps written_fromI ensured_of_def)
next
  case missing
  show ?thesis
    by (rule writes_from_finish [OF missing(3), of s "[]"])
      (simp_all add: status_simps written_fromI ensured_of_def)
next
  case (not_ready f d)
  show ?thesis
    by (rule writes_from_record [OF not_ready(5)])
      (simp add: not_ready(4) status_simps written_fromI ensured_of_def)
next
  case (ready f)
  then show ?thesis by (blast intro: run_job_writes_from)
qed (auto intro: writes_from_none)

section \<open>Succeeded payloads under the invoker contract\<close>

definition succeeded_ok :: "invocation_status \<Rightarrow> bool" where
  "succeeded_ok st \<longleftrightarrow>
     (is_phase st = InvocationPhaseSucceeded \<longrightarrow> success_status (is_status_code st))"

lemma ensured_succeeded_ok:
  assumes "list_all succeeded_ok (jst_invocations (job_status job))"
  shows "list_all succeeded_ok (ensured R job)"
proof -
  have "succeeded_ok (ensure_payload_status h sts i p)" if "list_all succeeded_ok sts" for h sts i p
  proof (cases rule: ensure_payload_status_cases [of sts i h p])
    case (carried st)
    with that existing_by_index_Some [OF carried(1)] show ?thesis
      by (auto simp: succeeded_ok_def list_all_iff)
  next
    case fresh
    then show ?thesis by (simp add: succeeded_ok_def fresh_invocation_def)
  qed
  then show ?thesis using assms by (simp add: ensured_def list_all_length ensure_payloads_nth)
qed

lemma ensured_attempts_nonneg:
  assumes "list_all (\<lambda>st. 0 \<le>s is_attempts st) (jst_invocations (job_status job))"
  shows "list_all (\<lambda>st. 0 \<le>s is_attempts st) (ensured R job)"
proof -
  have "0 \<le>s is_attempts (ensure_payload_status h sts i p)" if "list_all (\<lambda>st. 0 \<le>s is_attempts st) sts" for h sts i p
  proof (cases rule: ensure_payload_status_cases [of sts i h p])
    case (carried st)
    with that existing_by_index_Some [OF carried(1)] show ?thesis by (auto simp: list_all_iff)
  qed (simp add: fresh_invocation_def)
  then show ?thesis using assms by (simp add: ensured_def list_all_length ensure_payloads_nth)
qed

context invoker_contract begin

lemma attempts_succeeded_ok:
  "attempts_run r I target payloads now m st ds s x st' ds' s' \<Longrightarrow> inv_invoke I = invoke \<Longrightarrow>
     is_phase st \<noteq> InvocationPhaseSucceeded \<Longrightarrow> succeeded_ok st'"
proof (induction rule: attempts_run.induct)
  case (success st body s resp s1 ds)
  from call_invoker_trace [OF success(3)] success(4) have
    "invoke \<lparr>rq_target = target, rq_index = is_index st, rq_body = body\<rparr> (io_world s) =
       ((resp, None), io_world s1)" by simp
  from success_code [OF this] show ?case by (simp add: succeeded_ok_def)
qed (simp_all add: succeeded_ok_def note_exhausted_def)

lemma pass_succeeded_ok:
  "pass_run r I target payloads now limit l n sts ds s p x sts' ds' s' \<Longrightarrow> inv_invoke I = invoke \<Longrightarrow>
     list_all succeeded_ok sts \<Longrightarrow> list_all succeeded_ok sts'"
  by (induction rule: pass_run.induct) (auto dest: attempts_succeeded_ok)

text \<open>
  With an invoker that keeps the contract, every status written for a job marks a payload
  succeeded only with no status code or a 2xx one.
\<close>

lemma reconcile_succeeded_ok:
  assumes rec: "reconcile_found_job R now job s = (out, s')"
    and inv: "jr_invoker R = Some J" "inv_invoke J = invoke"
    and start: "list_all succeeded_ok (jst_invocations (job_status job))"
  shows "\<exists>t. io_trace s' = io_trace s @ t \<and>
    (\<forall>j. StatusUpdate j \<in> set (writes t) \<longrightarrow> list_all succeeded_ok (jst_invocations (job_status j)))"
proof -
  have "list_all succeeded_ok sts" if "written_from R now job sts" for sts
    using that unfolding written_from_def
  proof
    assume "ensured_of R job sts"
    with start ensured_succeeded_ok show ?thesis by (auto simp: ensured_of_def)
  next
    assume "\<exists>I f s p x ds s1. jr_invoker R = Some I \<and> job_pass R now job I f s p x sts ds s1"
    then obtain f s p x ds s1 where "job_pass R now job J f s p x sts ds s1" using inv(1) by auto
    then show ?thesis
      using pass_succeeded_ok [OF _ inv(2)] ensured_succeeded_ok [OF start] by (blast elim: job_passE)
  qed
  with reconcile_writes_from [OF rec] show ?thesis unfolding writes_from_def by blast
qed

end

section \<open>A job whose function is missing\<close>

text \<open>
  A job that already shows it waits for its function: the marks and the start of a later
  reconciliation leave its status exactly as it is, so nothing is written.
\<close>

definition shows_condition :: "function_job \<Rightarrow> string \<Rightarrow> condition_state \<Rightarrow> bool" where
  "shows_condition j t c \<longleftrightarrow> (case lookup_condition (jst_conditions (job_status j)) t of
     None \<Rightarrow> False
   | Some d \<Rightarrow> c_status d = cs_status c \<and> c_reason d = cs_reason c \<and> c_message d = cs_message c \<and>
       c_observed_generation d = om_generation (job_meta j))"

definition distinct_conditions :: "function_job \<Rightarrow> bool" where
  "distinct_conditions j \<longleftrightarrow> distinct (condition_types (jst_conditions (job_status j)))"

lemma set_job_condition_shows:
  assumes "kube_lib_ok K"
  shows "shows_condition (set_job_condition K now t c j) t' c' \<longleftrightarrow>
    (if t' = t then cs_status c = cs_status c' \<and> cs_reason c = cs_reason c' \<and> cs_message c = cs_message c'
     else shows_condition j t' c')"
  by (simp add: shows_condition_def set_job_condition_def set_job_status_condition_def
      kube_lookup_set [OF assms] cong: option.case_cong)

lemma set_job_condition_distinct:
  "kube_lib_ok K \<Longrightarrow> distinct_conditions j \<Longrightarrow> distinct_conditions (set_job_condition K now t c j)"
  by (simp add: distinct_conditions_def set_job_condition_def set_job_status_condition_def kube_distinct_set)

lemma set_job_condition_unchanged:
  assumes "kube_lib_ok K" "distinct_conditions j" "shows_condition j t c"
  shows "set_job_condition K now t c j = j"
proof -
  from assms(3) obtain d where d: "lookup_condition (jst_conditions (job_status j)) t = Some d"
    "c_status d = cs_status c" "c_reason d = cs_reason c" "c_message d = cs_message c"
    "c_observed_generation d = om_generation (job_meta j)"
    by (auto simp: shows_condition_def split: option.splits)
  have "set_status_condition K (jst_conditions (job_status j))
      \<lparr>c_type = t, c_status = cs_status c, c_reason = cs_reason c, c_message = cs_message c,
       c_observed_generation = om_generation (job_meta j), c_last_transition = now\<rparr>
    = jst_conditions (job_status j)"
    using assms(2) d by (intro kube_set_unchanged [OF assms(1)]) (simp_all add: distinct_conditions_def)
  then show ?thesis by (simp add: set_job_condition_def set_job_status_condition_def)
qed

lemmas waiting_defs = mark_waiting_for_function_def set_job_conditions_def set_resolved_condition_def

lemma waiting_status_shows:
  "shows_condition (job_status_update (\<lambda>s. s\<lparr>jst_phase := ph, jst_active := n\<rparr>) j) = shows_condition j"
  "distinct_conditions (job_status_update (\<lambda>s. s\<lparr>jst_phase := ph, jst_active := n\<rparr>) j) = distinct_conditions j"
  by (simp_all add: shows_condition_def distinct_conditions_def fun_eq_iff cong: option.case_cong)

lemma mark_waiting_again:
  assumes K: "kube_lib_ok K" and dist: "distinct_conditions j"
  shows "mark_waiting_for_function K now' r m (mark_waiting_for_function K now r m j)
    = mark_waiting_for_function K now r m j" (is "?mark now' ?j = ?j")
proof -
  have same: "job_status_update (\<lambda>s. s\<lparr>jst_phase := JobPhasePending, jst_active := 0\<rparr>) ?j = ?j"
  proof -
    have "jst_phase (job_status ?j) = JobPhasePending" "jst_active (job_status ?j) = 0"
      by (simp_all add: waiting_defs status_simps)
    then show ?thesis by simp
  qed
  have d: "distinct_conditions ?j"
    by (simp add: waiting_defs set_job_condition_distinct [OF K] waiting_status_shows dist)
  have "shows_condition ?j job_condition_resolved \<lparr>cs_status = CondFalse, cs_reason = r, cs_message = m\<rparr>"
    "shows_condition ?j job_condition_pending (cstate CondTrue r m)"
    "shows_condition ?j job_condition_running
      (cstate CondFalse ''WaitingForFunction'' ''Waiting for the referenced Function to become ready.'')"
    "shows_condition ?j job_condition_complete (cstate CondFalse ''WaitingForFunction'' ''FunctionJob has not completed.'')"
    "shows_condition ?j job_condition_failed (cstate CondFalse ''WaitingForFunction'' ''FunctionJob has not failed.'')"
    by (simp_all add: waiting_defs set_job_condition_shows [OF K])
  note unchanged = this [THEN set_job_condition_unchanged [OF K d]]
  have "?mark now' k = set_job_conditions K now'
       \<lparr>set_pending = cstate CondTrue r m,
        set_running = cstate CondFalse ''WaitingForFunction'' ''Waiting for the referenced Function to become ready.'',
        set_complete = cstate CondFalse ''WaitingForFunction'' ''FunctionJob has not completed.'',
        set_failed = cstate CondFalse ''WaitingForFunction'' ''FunctionJob has not failed.''\<rparr>
       (set_resolved_condition K now' CondFalse r m k)"
    if "job_status_update (\<lambda>s. s\<lparr>jst_phase := JobPhasePending, jst_active := 0\<rparr>) k = k" for k
    by (simp only: mark_waiting_for_function_def that)
  from this [OF same] show ?thesis
    by (simp only: set_job_conditions_def set_resolved_condition_def condition_set.simps unchanged)
qed

lemma start_waiting:
  "start_job now' (mark_waiting_for_function K now r m (start_job now j))
     = mark_waiting_for_function K now r m (start_job now j)"
proof -
  let ?j = "mark_waiting_for_function K now r m (start_job now j)"
  have "jst_observed_generation (job_status ?j) = om_generation (job_meta ?j)"
    "jst_start_time (job_status ?j) \<noteq> None"
    by (simp_all add: waiting_defs status_simps start_job_def split: option.splits)
  then show ?thesis by (auto simp: start_job_def)
qed

lemma missing_reconcile:
  assumes "\<not> job_is_terminal job" "fr_name (js_function_ref (job_spec job)) \<noteq> []"
    and "job_function_lookup R job (io_world s) = NotFound"
  shows "reconcile_found_job R now job s =
    finish_job R job (mark_waiting_for_function (jr_lib R) now ''FunctionNotFound''
      ''Referenced Function was not found in the FunctionJob namespace.'' (start_job now job)) s"
  using assms by (simp add: reconcile_found_job_def Let_def)

end
