(* ===== verification/JobSamples.thy ===== *)
theory JobSamples
  imports JobHistory
begin

text \<open>
  Concrete objects the theorems on jobs are evaluated on: a ready function, a job with two
  payloads and an API client that always finds the function and accepts every write.
\<close>

definition sample_meta :: "string \<Rightarrow> object_meta" where
  "sample_meta name = \<lparr>om_name = name, om_namespace = ''default'', om_uid = ''u1'', om_generation = 1,
     om_finalizers = [], om_deletion_timestamp = None\<rparr>"

definition sample_condition :: "string \<Rightarrow> condition_status \<Rightarrow> condition" where
  "sample_condition t st = \<lparr>c_type = t, c_status = st, c_reason = ''Sample'', c_message = [],
     c_observed_generation = 1, c_last_transition = 0\<rparr>"

definition sample_function :: "condition_status \<Rightarrow> oci_function" where
  "sample_function ready = \<lparr>
     fn_meta = sample_meta ''f'',
     fn_spec = \<lparr>fs_mode = FunctionModeExisting, fs_function_id = ''ocid1.fn'', fs_existing_function_ocid = [],
       fs_invoke_endpoint = ''https://fn.example'', fs_config = None, fs_application_ref = None,
       fs_deletion_policy = DeletionPolicyUnset\<rparr>,
     fn_status = \<lparr>fst_observed_generation = 1, fst_phase = FunctionPhaseReady, fst_function_ocid = [],
       fst_function_id = ''ocid1.fn'', fst_application_id = [], fst_invoke_endpoint = ''https://fn.example'',
       fst_message = [], fst_last_sync_time = None,
       fst_conditions = [sample_condition function_condition_ready ready]\<rparr>\<rparr>"

definition empty_job_status :: job_status where
  "empty_job_status = \<lparr>jst_observed_generation = 0, jst_phase = JobPhaseUnset, jst_start_time = None,
     jst_completion_time = None, jst_active = 0, jst_succeeded = 0, jst_failed = 0, jst_retries = 0,
     jst_last_error = [], jst_last_oci_request_id = [], jst_invocations = [], jst_conditions = []\<rparr>"

definition sample_job :: function_job where
  "sample_job = \<lparr>
     job_meta = sample_meta ''j'',
     job_spec = \<lparr>js_function_ref = \<lparr>fr_name = ''f''\<rparr>, js_payload = None,
       js_payloads = [Some ''a'', Some ''b''], js_parallelism = 1, js_retry_limit = 1\<rparr>,
     job_status = empty_job_status\<rparr>"

text \<open>The world of the sample client is the unit type; \<open>found\<close> is what it finds for a function.\<close>

definition sample_client :: "oci_function get_result \<Rightarrow> unit kube_client" where
  "sample_client found = \<lparr>
     get_function = (\<lambda>ns n w. found), get_application = (\<lambda>ns n w. NotFound),
     get_job = (\<lambda>ns n w. NotFound), get_event = (\<lambda>ns n w. NotFound),
     get_trigger = (\<lambda>ns n w. NotFound),
     list_triggers = (\<lambda>ns w. Inr []),
     status_update_function = (\<lambda>x w. (None, w)), status_update_application = (\<lambda>x w. (None, w)),
     status_update_job = (\<lambda>x w. (None, w)), status_update_event = (\<lambda>x w. (None, w)),
     status_update_trigger = (\<lambda>x w. (None, w)),
     update_function = (\<lambda>x w. (None, w)), update_application = (\<lambda>x w. (None, w)),
     update_trigger = (\<lambda>x w. (None, w)), delete_event = (\<lambda>x w. (DeleteDone, w))\<rparr>"

definition sample_jobs :: "oci_function get_result \<Rightarrow> unit invoker option \<Rightarrow> unit job_reconciler" where
  "sample_jobs found J = \<lparr>jr_client = sample_client found, jr_lib = sample_lib, jr_invoker = J,
     jr_recorder = True, jr_sha256 = id\<rparr>"

definition start_io :: "('e, unit) io" where
  "start_io = \<lparr>io_world = (), io_trace = []\<rparr>"

definition job_start :: "unit job_io" where
  "job_start = start_io"

definition sample_ready :: "unit job_reconciler" where
  "sample_ready = sample_jobs (Got (sample_function CondTrue)) (Some fake_invoker)"

end
