(* ===== verification/JobProperties.thy ===== *)
theory JobProperties
  imports JobSamples
begin

text \<open>
  The properties of the \<open>FunctionJob\<close> reconciler, each followed by a witness on the objects of
  \<open>JobSamples\<close>.
\<close>

lemma sample_ready_lib: "kube_lib_ok (jr_lib sample_ready)"
  by (simp add: sample_ready_def sample_jobs_def sample_lib_ok)

lemma sample_payloads: "length (inline_payloads sample_job) < 2 ^ 31"
  by (simp add: inline_payloads_def sample_job_def)

text \<open>
  C1: at most one successful invocation per payload. Over any number of reconciliations of a job,
  each reading back the status the one before it wrote, and whatever the invoker and the API
  server answer in between, at most one invocation of each payload index returns without an
  error. (It rests on the status being stored: the list of writes is what the next reconciliation
  reads.)
\<close>

theorem job_success_at_most_once:
  assumes "length (inline_payloads job) < 2 ^ 31"
  shows "success_calls i (job_history R nows job s) \<le> 1"
  using history_accounted [OF assms, of i R nows s] by simp

theorem job_success_at_most_once_witness:
  "success_calls 0 (job_history sample_ready [5, 6, 7] sample_job job_start) \<le> 1 \<and>
   length (job_history sample_ready [5, 6, 7] sample_job job_start) = 2"
proof
  show "success_calls 0 (job_history sample_ready [5, 6, 7] sample_job job_start) \<le> 1"
    by (rule job_success_at_most_once [OF sample_payloads])
  show "length (job_history sample_ready [5, 6, 7] sample_job job_start) = 2" by code_simp
qed

text \<open>
  C3: a job comes to its end. In a steady environment (the function is there and ready, the
  invoker is implemented, status updates succeed) a job whose runnable payloads have attempts
  left reaches \<open>Succeeded\<close> or \<open>Failed\<close> after at most as many reconciliations as it takes
  to process its payloads \<open>parallelism\<close> at a time, whatever the invocations return.
\<close>

theorem job_reaches_end:
  assumes "steady R job I f" "job_bounds job" "nows \<noteq> []"
    and "int (length (inline_payloads job)) \<le> sint (desired_parallelism job) * int (length nows)"
  shows "job_is_terminal (fst (job_rounds R nows job s))"
proof -
  have "runnable_count (desired_retry_limit job) (ensured R job) \<le> length (inline_payloads job)"
    using length_filter_le [of _ "ensured R job"] by simp
  with assms(4) show ?thesis by (intro rounds_terminate [OF assms(1-3)]) linarith
qed

lemma sample_steady: "steady sample_ready sample_job fake_invoker (sample_function CondTrue)"
proof -
  have "function_ready_for_invocation sample_lib (sample_function CondTrue)
      (invocation_target_for_function (sample_function CondTrue))" by code_simp
  then show ?thesis
    by (auto simp: steady_def sample_ready_def sample_jobs_def sample_client_def sample_job_def
        fake_invoker_def fake_invoke_def)
qed

lemma sample_bounds: "job_bounds sample_job"
  by (simp add: job_bounds_def sample_job_def inline_payloads_def desired_retry_limit_def
      empty_job_status_def sless_sint)

theorem job_reaches_end_witness:
  "job_is_terminal (fst (job_rounds sample_ready [5, 6] sample_job job_start)) \<and>
   \<not> job_is_terminal (fst (job_rounds sample_ready [5] sample_job job_start))"
proof
  have "int (length (inline_payloads sample_job)) \<le> sint (desired_parallelism sample_job) * int (length [5, 6 :: time])"
    by (simp add: inline_payloads_def sample_job_def desired_parallelism_def sless_sint)
  then show "job_is_terminal (fst (job_rounds sample_ready [5, 6] sample_job job_start))"
    by (intro job_reaches_end [OF sample_steady sample_bounds]) simp_all
  show "\<not> job_is_terminal (fst (job_rounds sample_ready [5] sample_job job_start))" by code_simp
qed

text \<open>
  C7: what a reconciliation may invoke. Calls are made only for a job that is not terminal
  and only when its function was found and is ready with an OCID and an endpoint; every call goes to
  that function's target, with the bytes of the payload of its index, and that payload was runnable
  (not succeeded, not failed with its attempts spent).
\<close>

theorem job_calls_justified:
  assumes "kube_lib_ok (jr_lib R)"
  shows "\<exists>t. io_trace (snd (reconcile_found_job R now job s)) = io_trace s @ t \<and>
    (calls t \<noteq> [] \<longrightarrow> \<not> job_is_terminal job \<and>
      (\<exists>f. job_function_lookup R job (io_world s) = Got f \<and> function_is_ready (jr_lib R) f \<and>
         (\<forall>(rq, resp, err) \<in> set (calls t).
            rq_target rq = invocation_target_for_function f \<and>
            tg_function_ocid (rq_target rq) \<noteq> [] \<and> tg_invoke_endpoint (rq_target rq) \<noteq> [] \<and>
            payload_at (inline_payloads job) (rq_index rq) = Some (rq_body rq) \<and>
            (\<exists>st \<in> set (ensured R job). is_index st = rq_index rq \<and>
               is_runnable_payload st (desired_retry_limit job)))))"
proof -
  obtain out s' where rec: "reconcile_found_job R now job s = (out, s')" by (metis prod.exhaust)
  from reconcile_found_effects [OF rec assms] obtain t where t: "io_trace s' = io_trace s @ t"
    "calls t \<noteq> [] \<longrightarrow> \<not> job_is_terminal job \<and>
      (\<exists>f. job_function_lookup R job (io_world s) = Got f \<and>
        function_ready_for_invocation (jr_lib R) f (invocation_target_for_function f) \<and>
        job_calls_ok R job (invocation_target_for_function f) (calls t))" by blast
  show ?thesis
  proof (intro exI [of _ t] conjI impI)
    show "io_trace (snd (reconcile_found_job R now job s)) = io_trace s @ t" using rec t(1) by simp
    assume ne: "calls t \<noteq> []"
    with t(2) show "\<not> job_is_terminal job" by blast
    from ne t(2) obtain f where f: "job_function_lookup R job (io_world s) = Got f"
        "function_ready_for_invocation (jr_lib R) f (invocation_target_for_function f)"
        "job_calls_ok R job (invocation_target_for_function f) (calls t)" by blast
    with ready_for_invocation_target [OF f(2)]
    show "\<exists>f. job_function_lookup R job (io_world s) = Got f \<and> function_is_ready (jr_lib R) f \<and>
         (\<forall>(rq, resp, err) \<in> set (calls t).
            rq_target rq = invocation_target_for_function f \<and>
            tg_function_ocid (rq_target rq) \<noteq> [] \<and> tg_invoke_endpoint (rq_target rq) \<noteq> [] \<and>
            payload_at (inline_payloads job) (rq_index rq) = Some (rq_body rq) \<and>
            (\<exists>st \<in> set (ensured R job). is_index st = rq_index rq \<and>
               is_runnable_payload st (desired_retry_limit job)))"
      unfolding job_calls_ok_def pass_calls_def by (intro exI [of _ f]) fastforce
  qed
qed

theorem job_calls_justified_witness:
  "length (calls (io_trace (snd (reconcile_found_job sample_ready 5 sample_job job_start)))) = 1 \<and>
   (\<exists>t. io_trace (snd (reconcile_found_job sample_ready 5 sample_job job_start)) = io_trace job_start @ t \<and>
    (calls t \<noteq> [] \<longrightarrow> \<not> job_is_terminal sample_job \<and>
      (\<exists>f. job_function_lookup sample_ready sample_job (io_world job_start) = Got f \<and>
         function_is_ready (jr_lib sample_ready) f \<and>
         (\<forall>(rq, resp, err) \<in> set (calls t).
            rq_target rq = invocation_target_for_function f \<and>
            tg_function_ocid (rq_target rq) \<noteq> [] \<and> tg_invoke_endpoint (rq_target rq) \<noteq> [] \<and>
            payload_at (inline_payloads sample_job) (rq_index rq) = Some (rq_body rq) \<and>
            (\<exists>st \<in> set (ensured sample_ready sample_job). is_index st = rq_index rq \<and>
               is_runnable_payload st (desired_retry_limit sample_job))))))"
proof
  show "length (calls (io_trace (snd (reconcile_found_job sample_ready 5 sample_job job_start)))) = 1"
    by code_simp
qed (rule job_calls_justified [OF sample_ready_lib])

text \<open>
  C14: a reconciliation makes at most \<open>parallelism * (retry limit + 1)\<close> invocations, when the
  stored attempt counts are not negative.
\<close>

theorem job_calls_bounded:
  assumes "kube_lib_ok (jr_lib R)"
    and "list_all (\<lambda>st. 0 \<le>s is_attempts st) (jst_invocations (job_status job))"
  shows "\<exists>t. io_trace (snd (reconcile_found_job R now job s)) = io_trace s @ t \<and>
    int (length (calls t)) \<le> sint (desired_parallelism job) * max 0 (sint (desired_retry_limit job + 1))"
proof -
  obtain out s' where rec: "reconcile_found_job R now job s = (out, s')" by (metis prod.exhaust)
  from reconcile_found_effects [OF rec assms(1)] obtain t where t: "io_trace s' = io_trace s @ t"
    "calls t \<noteq> [] \<longrightarrow> (\<exists>f. job_calls_ok R job (invocation_target_for_function f) (calls t))" by blast
  have "job_calls_ok R job target cs \<Longrightarrow>
    int (length cs) \<le> sint (desired_parallelism job) * max 0 (sint (desired_retry_limit job + 1))" for target cs
    unfolding job_calls_ok_def using ensured_attempts_nonneg [OF assms(2)] by blast
  moreover have "0 \<le> sint (desired_parallelism job) * max 0 (sint (desired_retry_limit job + 1))"
    using desired_parallelism_pos [of job] by simp
  ultimately have "int (length (calls t)) \<le>
      sint (desired_parallelism job) * max 0 (sint (desired_retry_limit job + 1))"
    using t(2) by (cases "calls t = []") auto
  with rec t(1) show ?thesis by (intro exI [of _ t]) simp
qed

theorem job_calls_bounded_witness:
  "\<exists>t. io_trace (snd (reconcile_found_job sample_ready 5 sample_job job_start)) = io_trace job_start @ t \<and>
    int (length (calls t)) \<le> sint (desired_parallelism sample_job) * max 0 (sint (desired_retry_limit sample_job + 1))"
  by (rule job_calls_bounded [OF sample_ready_lib]) (simp add: sample_job_def empty_job_status_def)

text \<open>
  C24: the conditions of a job agree with its phase in every status that is written: \<open>Pending\<close>,
  \<open>Running\<close>, \<open>Complete\<close> and \<open>Failed\<close> are all present and exactly the one of the phase
  is true; name, spec and the rest of the object are those of the job read.
\<close>

theorem job_conditions_agree_written:
  assumes "kube_lib_ok (jr_lib R)"
  shows "\<exists>t. io_trace (snd (reconcile_found_job R now job s)) = io_trace s @ t \<and>
    (\<forall>e \<in> set (writes t). \<exists>j. e = StatusUpdate j \<and> job_meta j = job_meta job \<and>
       job_spec j = job_spec job \<and> job_conditions_agree j)"
proof -
  obtain out s' where rec: "reconcile_found_job R now job s = (out, s')" by (metis prod.exhaust)
  from reconcile_found_effects [OF rec assms] show ?thesis
    unfolding agreeing_writes_def rec by auto
qed

theorem job_conditions_agree_written_witness:
  "length (writes (io_trace (snd (reconcile_found_job sample_ready 5 sample_job job_start)))) = 1 \<and>
   (\<exists>t. io_trace (snd (reconcile_found_job sample_ready 5 sample_job job_start)) = io_trace job_start @ t \<and>
    (\<forall>e \<in> set (writes t). \<exists>j. e = StatusUpdate j \<and> job_meta j = job_meta sample_job \<and>
       job_spec j = job_spec sample_job \<and> job_conditions_agree j))"
proof
  show "length (writes (io_trace (snd (reconcile_found_job sample_ready 5 sample_job job_start)))) = 1"
    by code_simp
qed (rule job_conditions_agree_written [OF sample_ready_lib])

text \<open>
  The phase a pass is summarised to is the one its payload statuses call for: \<open>Running\<close> while
  a payload is neither succeeded nor failed, then \<open>Failed\<close> when one failed, else \<open>Succeeded\<close>. The
  32-bit counters the code compares do not wrap for fewer than \<open>2 ^ 31\<close> payloads.
\<close>

theorem job_summary_phase:
  assumes "jst_invocations (job_status j) = sts" "length payloads = length sts"
    and "0 < length sts" "length sts < 2 ^ 31"
  shows "jst_phase (job_status (summarize_invocation_state K original
      (job_status_update recompute_invocation_counts j) payloads now)) = summary_phase sts"
  by (rule summary_phase_correct [OF assms])

theorem job_summary_phase_witness:
  "jst_phase (job_status (summarize_invocation_state sample_lib sample_job
      (job_status_update recompute_invocation_counts
        (job_status_update (\<lambda>s. s\<lparr>jst_invocations := [(fresh_invocation 0 ''d'')\<lparr>is_phase := InvocationPhaseFailed\<rparr>]\<rparr>)
          sample_job)) [None] 9))
   = JobPhaseFailed"
proof -
  let ?sts = "[(fresh_invocation 0 ''d'')\<lparr>is_phase := InvocationPhaseFailed\<rparr>]"
  have "summary_phase ?sts = JobPhaseFailed" by (simp add: summary_phase_def invocation_settled_def)
  moreover have "jst_phase (job_status (summarize_invocation_state sample_lib sample_job
      (job_status_update recompute_invocation_counts
        (job_status_update (\<lambda>s. s\<lparr>jst_invocations := ?sts\<rparr>) sample_job)) [None] 9)) = summary_phase ?sts"
    by (rule job_summary_phase) simp_all
  ultimately show ?thesis by simp
qed

text \<open>
  With the OCI invoker, a payload is only ever recorded as succeeded with no status code or
  a 2xx one: if the job read satisfies this, so does every status written for it.
\<close>

theorem job_oci_success_codes:
  assumes "jr_invoker R = Some (oci_invoker_value I)"
    and "list_all succeeded_ok (jst_invocations (job_status job))"
  shows "\<exists>t. io_trace (snd (reconcile_found_job R now job s)) = io_trace s @ t \<and>
    (\<forall>j. StatusUpdate j \<in> set (writes t) \<longrightarrow> list_all succeeded_ok (jst_invocations (job_status j)))"
proof -
  obtain out s' where rec: "reconcile_found_job R now job s = (out, s')" by (metis prod.exhaust)
  have "inv_invoke (oci_invoker_value I) = oci_invoke I" by (simp add: oci_invoker_value_def)
  from oci.reconcile_succeeded_ok [OF rec assms(1) this assms(2)] rec show ?thesis by auto
qed

definition sample_oci :: "unit oci_invoker" where
  "sample_oci = \<lparr>oi_configured = True,
     oi_parse_url = (\<lambda>u. Inr \<lparr>url_scheme = ''https'', url_host = ''fn.example'', url_path = []\<rparr>),
     oi_client_factory = (\<lambda>e w. None),
     oi_invoke_function = (\<lambda>e f b w.
       ((\<lparr>oir_raw = Some \<lparr>rr_status_code = 200, rr_fn_call_id = ''c'', rr_opc_request_id = ''r''\<rparr>,
          oir_opc_request_id = None, oir_content = None\<rparr>, None), w))\<rparr>"

theorem job_oci_success_codes_witness:
  "map (\<lambda>(rq, resp, err). (sint (rsp_status_code resp), err))
     (calls (io_trace (snd (reconcile_found_job (sample_jobs (Got (sample_function CondTrue))
        (Some (oci_invoker_value sample_oci))) 5 sample_job job_start)))) = [(200, None)] \<and>
   (\<exists>t. io_trace (snd (reconcile_found_job (sample_jobs (Got (sample_function CondTrue))
      (Some (oci_invoker_value sample_oci))) 5 sample_job job_start)) = io_trace job_start @ t \<and>
    (\<forall>j. StatusUpdate j \<in> set (writes t) \<longrightarrow> list_all succeeded_ok (jst_invocations (job_status j))))"
proof
  show "map (\<lambda>(rq, resp, err). (sint (rsp_status_code resp), err))
     (calls (io_trace (snd (reconcile_found_job (sample_jobs (Got (sample_function CondTrue))
        (Some (oci_invoker_value sample_oci))) 5 sample_job job_start)))) = [(200, None)]" by code_simp
qed (rule job_oci_success_codes [where I = sample_oci];
    simp add: sample_jobs_def sample_job_def empty_job_status_def)

text \<open>
  A reconciliation of a job with fewer than \<open>2 ^ 31\<close> payloads does not panic: the index that
  picks the payload is always in range.
\<close>

theorem job_never_panics:
  assumes "length (inline_payloads job) < 2 ^ 31" "kube_lib_ok (jr_lib R)"
  shows "fst (reconcile_found_job R now job s) \<noteq> Panicked"
proof -
  obtain out s' where rec: "reconcile_found_job R now job s = (out, s')" by (metis prod.exhaust)
  from reconcile_found_effects [OF rec assms(2)] assms(1) have "out \<noteq> Panicked" by blast
  with rec show ?thesis by simp
qed

theorem job_never_panics_witness:
  "fst (reconcile_found_job sample_ready 5 sample_job job_start) \<noteq> Panicked \<and>
   fst (reconcile_found_job sample_ready 5 sample_job job_start) = Returned requeue_now None"
proof
  show "fst (reconcile_found_job sample_ready 5 sample_job job_start) \<noteq> Panicked"
    by (rule job_never_panics [OF sample_payloads sample_ready_lib])
  show "fst (reconcile_found_job sample_ready 5 sample_job job_start) = Returned requeue_now None" by code_simp
qed

text \<open>
  A job that waits for a missing function is written once. The first reconciliation that does
  not find the function leaves it \<open>Pending\<close> without a call or a retry request; reconciling the
  stored job again, at any later time, writes nothing (no update loop, transition times kept).
\<close>

theorem job_waiting_written_once:
  fixes job :: function_job
  assumes lib: "kube_lib_ok (jr_lib R)" and dist: "distinct_conditions job"
    and open_job: "\<not> job_is_terminal job" "fr_name (js_function_ref (job_spec job)) \<noteq> []"
    and missing: "\<forall>w. job_function_lookup R job w = NotFound"
    and first: "reconcile_found_job R now job (s\<lparr>io_trace := []\<rparr>) = (out, s1)"
  shows "jst_phase (job_status (stored_job job (io_trace s1))) = JobPhasePending \<and> calls (io_trace s1) = [] \<and>
    reconcile_found_job R now' (stored_job job (io_trace s1)) s' = (Returned no_requeue None, s')"
proof -
  let ?mark = "\<lambda>now j. mark_waiting_for_function (jr_lib R) now ''FunctionNotFound''
      ''Referenced Function was not found in the FunctionJob namespace.'' (start_job now j)"
  have "finish_job R job (?mark now job) (s\<lparr>io_trace := []\<rparr>) = (out, s1)"
    using first missing_reconcile [OF open_job, of R "s\<lparr>io_trace := []\<rparr>" now] missing by simp
  from stored_finish [OF this] obtain t where t0: "io_trace s1 = io_trace (s\<lparr>io_trace := []\<rparr>) @ t" "calls t = []"
    "\<And>u. writes u = [] \<Longrightarrow> stored_job job (u @ t) = job\<lparr>job_status := job_status (?mark now job)\<rparr>"
    by blast
  from t0(1) t0(3) [of "[]"] t0(2) have t: "io_trace s1 = t" "calls t = []"
    "stored_job job t = job\<lparr>job_status := job_status (?mark now job)\<rparr>" by simp_all
  have frame: "job_meta (?mark now job) = job_meta job" "job_spec (?mark now job) = job_spec job"
    by (simp_all add: waiting_defs status_simps)
  then have stored: "stored_job job (io_trace s1) = ?mark now job" using t by simp
  have phase: "jst_phase (job_status (?mark now job)) = JobPhasePending" by (simp add: status_simps)
  have "distinct_conditions (start_job now job)" using dist by (simp add: distinct_conditions_def)
  then have again: "?mark now' (?mark now job) = ?mark now job"
    by (simp only: start_waiting mark_waiting_again [OF lib])
  have "reconcile_found_job R now' (?mark now job) s' = finish_job R (?mark now job) (?mark now' (?mark now job)) s'"
    using phase open_job missing frame
    by (intro missing_reconcile) (simp_all add: job_is_terminal_def job_phase_terminal_def)
  also have "\<dots> = (Returned no_requeue None, s')"
    by (simp only: again) (simp add: finish_job_def update_job_status_def)
  finally show ?thesis using stored phase t by simp
qed

theorem job_waiting_written_once_witness:
  "reconcile_found_job (sample_jobs NotFound None) 9
     (stored_job sample_job (io_trace (snd (reconcile_found_job (sample_jobs NotFound None) 5 sample_job
        (job_start\<lparr>io_trace := []\<rparr>))))) job_start = (Returned no_requeue None, job_start)"
proof -
  have "kube_lib_ok (jr_lib (sample_jobs NotFound None))" by (simp add: sample_jobs_def sample_lib_ok)
  moreover have "distinct_conditions sample_job"
    by (simp add: distinct_conditions_def sample_job_def empty_job_status_def condition_types_def)
  moreover have "\<not> job_is_terminal sample_job" "fr_name (js_function_ref (job_spec sample_job)) \<noteq> []"
    by (simp_all add: sample_job_def empty_job_status_def job_is_terminal_def job_phase_terminal_def)
  moreover have "\<forall>w. job_function_lookup (sample_jobs NotFound None) sample_job w = NotFound"
    by (simp add: sample_jobs_def sample_client_def)
  ultimately show ?thesis by (rule job_waiting_written_once [OF _ _ _ _ _ prod.collapse [symmetric], THEN conjunct2, THEN conjunct2])
qed

text \<open>
  The payload statuses of a pass line up with the payloads: one per payload, with its position
  and digest. The stored status of a position is carried over, attempts and outcome included, as
  long as the payload's digest is the one it was recorded for; otherwise the payload starts anew,
  pending with no attempts.
\<close>

theorem job_payload_statuses:
  fixes j :: function_job and h :: "bytes \<Rightarrow> string"
  assumes "k < length ps"
  defines "old \<equiv> existing_by_index (jst_invocations (job_status j)) (of_nat k)"
  defines "new \<equiv> jst_invocations (ensure_payload_statuses h ps (job_status j))"
  shows "length new = length ps \<and> is_index (new ! k) = of_nat k \<and>
    is_payload_digest (new ! k) = digest_payload h (ps ! k) \<and>
    (if old \<noteq> None \<and> is_payload_digest (the old) = digest_payload h (ps ! k)
     then new ! k = (the old)\<lparr>is_phase :=
        if is_phase (the old) = InvocationPhaseUnset then InvocationPhasePending else is_phase (the old)\<rparr>
     else new ! k = fresh_invocation (of_nat k) (digest_payload h (ps ! k)))"
  using assms(1) unfolding old_def new_def
  by (auto simp: ensure_payload_statuses_def ensure_payloads_nth
      ensure_payload_status_def fresh_invocation_def Let_def dest: existing_by_index_Some split: option.splits)

theorem job_payload_statuses_witness:
  "length (jst_invocations (ensure_payload_statuses id [Some ''a''] (job_status sample_job))) = 1"
  using job_payload_statuses [of 0 "[Some ''a'']" id sample_job] by simp

text \<open>
  A function that is not ready fails the job without an invocation: the phase becomes \<open>Failed\<close>,
  the completion time is set, the last error is the message built from the function's readiness, and the
  reconciliation asks for no retry.
\<close>

theorem job_not_ready_fails:
  fixes job :: function_job
  assumes open_job: "\<not> job_is_terminal job" "fr_name (js_function_ref (job_spec job)) \<noteq> []"
    and found: "job_function_lookup R job (io_world s) = Got f"
    and not_ready: "\<not> function_ready_for_invocation (jr_lib R) f (invocation_target_for_function f)"
    and rec: "reconcile_found_job R now job (s\<lparr>io_trace := []\<rparr>) = (out, s')"
  shows "calls (io_trace s') = [] \<and> (\<exists>err. out = Returned no_requeue err) \<and>
    (let st = job_status (stored_job job (io_trace s')) in
       jst_phase st = JobPhaseFailed \<and> jst_completion_time st \<noteq> None \<and>
       jst_last_error st = function_not_ready_message (jr_lib R) f (invocation_target_for_function f))"
  using rec
proof (cases rule: reconcile_found_job_cases)
  case (not_ready g d)
  with found have g: "g = f" by simp
  from record_event_trace [of "jr_recorder R" EventWarning "''Failed''" "jst_last_error (job_status d)" "s\<lparr>io_trace := []\<rparr>"]
  obtain u where u: "io_trace (record_event (jr_recorder R) EventWarning ''Failed'' (jst_last_error (job_status d))
      (s\<lparr>io_trace := []\<rparr>)) = u" "calls u = []" "writes u = []" by auto
  from stored_finish [OF not_ready(5)] u obtain t where t: "io_trace s' = u @ t" "calls t = []"
    "stored_job job (u @ t) = job\<lparr>job_status := job_status d\<rparr>" by metis
  have "jst_phase (job_status d) = JobPhaseFailed" "jst_completion_time (job_status d) \<noteq> None"
    "jst_last_error (job_status d) = function_not_ready_message (jr_lib R) f (invocation_target_for_function f)"
    unfolding not_ready(4) g by (simp_all add: mark_function_not_ready_def status_simps Let_def)
  with t u finish_job_trace [OF not_ready(5)] show ?thesis by (auto simp: Let_def)
next
  case (invalid_ref d)
  with open_job(2) show ?thesis by simp
qed (use open_job found not_ready in auto)

theorem job_not_ready_fails_witness:
  "jst_phase (job_status (stored_job sample_job (io_trace (snd (reconcile_found_job
     (sample_jobs (Got (sample_function CondFalse)) None) 5 sample_job (job_start\<lparr>io_trace := []\<rparr>)))))) = JobPhaseFailed"
proof -
  let ?R = "sample_jobs (Got (sample_function CondFalse)) None" and ?f = "sample_function CondFalse"
  have "\<not> job_is_terminal sample_job" "fr_name (js_function_ref (job_spec sample_job)) \<noteq> []"
    by (simp_all add: sample_job_def empty_job_status_def job_is_terminal_def job_phase_terminal_def)
  moreover have "job_function_lookup ?R sample_job (io_world job_start) = Got ?f"
    by (simp add: sample_jobs_def sample_client_def)
  moreover have "\<not> function_ready_for_invocation (jr_lib ?R) ?f (invocation_target_for_function ?f)" by code_simp
  ultimately show ?thesis
    using job_not_ready_fails [OF _ _ _ _ prod.collapse [symmetric], of sample_job ?R job_start ?f]
    by (simp add: Let_def)
qed

text \<open>
  An endpoint that the OCI invoker accepts was parsed as an http or https URL with a host and
  no path, and is passed on trimmed, without a trailing slash.
\<close>

theorem invoke_endpoint_accepted:
  assumes "normalize_invoke_endpoint parse v = Inr ep"
  shows "\<exists>u. parse (trim_space v) = Inr u \<and> url_scheme u \<in> {''https'', ''http''} \<and> url_host u \<noteq> [] \<and>
    url_path u \<in> {[], ''/''} \<and> ep = trim_right_set (trim_space v) ''/'' \<and> (ep \<noteq> [] \<longrightarrow> last ep \<noteq> CHR ''/'')"
  using normalize_invoke_endpoint_Inr [OF assms] trim_right_set_last [of "trim_space v" "''/''"] by auto

theorem invoke_endpoint_accepted_witness:
  "\<exists>u. oi_parse_url sample_oci (trim_space '' https://fn.example/ '') = Inr u \<and>
    url_scheme u \<in> {''https'', ''http''} \<and> url_host u \<noteq> [] \<and> url_path u \<in> {[], ''/''} \<and>
    ''https://fn.example'' = trim_right_set (trim_space '' https://fn.example/ '') ''/'' \<and>
    (''https://fn.example'' \<noteq> [] \<longrightarrow> last ''https://fn.example'' \<noteq> CHR ''/'')"
proof -
  have "normalize_invoke_endpoint (oi_parse_url sample_oci) '' https://fn.example/ '' = Inr ''https://fn.example''"
    by code_simp
  from invoke_endpoint_accepted [OF this] show ?thesis .
qed

end
