(* ===== verification/Lifecycle.thy ===== *)
theory Lifecycle
  imports ApiTypes
begin

text \<open>
  \<open>internal/lifecycle/lifecycle.go\<close>: the SDK-free contract between the controllers and the code
  that manages OCI Functions. The five operations of \<open>Manager\<close> are a record over the world, what
  the controllers rely on is the locale \<open>lifecycle_contract\<close>, met by the OCI implementation in
  \<open>OciLifecycle\<close>. A map or slice that may be nil is an option.
\<close>

section \<open>Desired and observed state\<close>

record desired_function =
  df_region :: string
  df_compartment_id :: string
  df_application_name :: string
  df_subnet_ids :: "string list"
  df_application_nsg_ids :: "string list option"
  df_manage_application_nsg_ids :: bool
  df_display_name :: string
  df_image :: string
  df_memory_in_mbs :: int
  df_timeout_in_seconds :: int
  df_config :: "go_map option"
  df_freeform_tags :: "go_map option"

record desired_function_in_application =
  dfa_region :: string
  dfa_application_id :: string
  dfa_display_name :: string
  dfa_image :: string
  dfa_memory_in_mbs :: int
  dfa_timeout_in_seconds :: int
  dfa_config :: "go_map option"
  dfa_freeform_tags :: "go_map option"

record function_delete_target =
  fdt_region :: string
  fdt_compartment_id :: string
  fdt_application_name :: string
  fdt_application_id :: string
  fdt_display_name :: string
  fdt_function_id :: string

record invocation_logs =
  log_enabled :: bool
  log_group_id :: string
  log_display_name :: string
  log_service :: string
  log_category :: string
  log_line_format :: string

text \<open>\<open>*ApplicationLogging\<close> holds one optional field; the two levels of nil are kept apart.\<close>

record application_logging =
  lg_invocation_logs :: "invocation_logs option"

record desired_application =
  da_mode :: application_mode
  da_region :: string
  da_compartment_id :: string
  da_display_name :: string
  da_subnet_ids :: "string list"
  da_application_nsg_ids :: "string list option"
  da_manage_application_nsg_ids :: bool
  da_config :: "go_map option"
  da_freeform_tags :: "go_map option"
  da_logging :: "application_logging option"
  da_existing_application_id :: string
  da_manage_application_configuration :: bool
  da_manage_application_logging :: bool

datatype lifecycle_event_type = LifecycleEventNormal | LifecycleEventWarning

record lifecycle_event =
  le_type :: lifecycle_event_type
  le_reason :: string
  le_message :: string

record application_state =
  aps_application_id :: string
  aps_display_name :: string
  aps_region :: string
  aps_ready :: bool
  aps_message :: string
  aps_events :: "lifecycle_event list"

record application_delete_target =
  adt_region :: string
  adt_application_id :: string
  adt_display_name :: string
  adt_compartment_id :: string

record application_deletion_state =
  ads_application_id :: string
  ads_deleted :: bool
  ads_blocked :: bool
  ads_message :: string
  ads_events :: "lifecycle_event list"

record function_state =
  fns_application_id :: string
  fns_function_id :: string
  fns_invoke_endpoint :: string
  fns_ready :: bool
  fns_message :: string
  fns_events :: "lifecycle_event list"

record function_deletion_state =
  fds_application_id :: string
  fds_function_id :: string
  fds_deleted :: bool
  fds_message :: string
  fds_events :: "lifecycle_event list"

definition empty_function_state :: function_state where
  "empty_function_state = \<lparr>fns_application_id = [], fns_function_id = [], fns_invoke_endpoint = [],
     fns_ready = False, fns_message = [], fns_events = []\<rparr>"

definition empty_application_state :: application_state where
  "empty_application_state = \<lparr>aps_application_id = [], aps_display_name = [], aps_region = [],
     aps_ready = False, aps_message = [], aps_events = []\<rparr>"

definition empty_function_deletion :: function_deletion_state where
  "empty_function_deletion = \<lparr>fds_application_id = [], fds_function_id = [], fds_deleted = False,
     fds_message = [], fds_events = []\<rparr>"

definition empty_application_deletion :: application_deletion_state where
  "empty_application_deletion = \<lparr>ads_application_id = [], ads_deleted = False, ads_blocked = False,
     ads_message = [], ads_events = []\<rparr>"

section \<open>The manager and its contract\<close>

record 'w lifecycle_manager =
  lm_ensure_function :: "desired_function \<Rightarrow> 'w \<Rightarrow> (function_state \<times> go_error option) \<times> 'w"
  lm_ensure_function_in_application ::
    "desired_function_in_application \<Rightarrow> 'w \<Rightarrow> (function_state \<times> go_error option) \<times> 'w"
  lm_delete_managed_function ::
    "function_delete_target \<Rightarrow> 'w \<Rightarrow> (function_deletion_state \<times> go_error option) \<times> 'w"
  lm_ensure_application :: "desired_application \<Rightarrow> 'w \<Rightarrow> (application_state \<times> go_error option) \<times> 'w"
  lm_delete_application ::
    "application_delete_target \<Rightarrow> 'w \<Rightarrow> (application_deletion_state \<times> go_error option) \<times> 'w"

text \<open>
  What a client may rely on: a ready function comes with its OCID and an endpoint that is not
  blank, a ready application with its OCID and in the region asked for, and an application whose
  deletion was blocked was not deleted.
\<close>

locale lifecycle_contract =
  fixes M :: "'w lifecycle_manager"
  assumes ready_function: "lm_ensure_function M d w = ((st, None), w') \<Longrightarrow> fns_ready st \<Longrightarrow>
      fns_function_id st \<noteq> [] \<and> trim_space (fns_invoke_endpoint st) \<noteq> []"
    and ready_function_in_application:
      "lm_ensure_function_in_application M d' w = ((st, None), w') \<Longrightarrow> fns_ready st \<Longrightarrow>
       fns_function_id st \<noteq> [] \<and> trim_space (fns_invoke_endpoint st) \<noteq> []"
    and ready_application: "lm_ensure_application M da w = ((ast, None), w') \<Longrightarrow> aps_ready ast \<Longrightarrow>
      aps_application_id ast \<noteq> [] \<and> trim_space (aps_region ast) \<noteq> []"
    and blocked_not_deleted: "lm_delete_application M t w = ((dst, None), w') \<Longrightarrow>
      ads_blocked dst \<Longrightarrow> \<not> ads_deleted dst"

section \<open>Shared conversions of function\_controller.go\<close>

text \<open>\<open>copyStringMap\<close> turns an empty map into nil, \<open>trimStringSlice\<close> keeps nil.\<close>

definition copy_string_map :: "go_map \<Rightarrow> go_map option" where
  "copy_string_map values = (if values = [] then None else Some values)"

definition trim_string_slice :: "string list \<Rightarrow> string list" where
  "trim_string_slice values = map trim_space values"

end
