(* ===== verification/OciErrorText.thy ===== *)
theory OciErrorText
  imports GoErrors
begin

text \<open>
  The text of OCI errors as the operator shows it in a status: the volatile parts of an SDK error
  (request ids, time stamps, client versions) are removed, and the rest becomes one sentence.
  The code is in \<open>functioneventtrigger_controller.go\<close> (\<open>sanitizeOCIErrorText\<close>,
  \<open>normalizeOCIEventRuleError\<close>, \<open>ensureSentence\<close>) and the sanitiser is shared with
  \<open>function_controller.go\<close>.
\<close>

section \<open>Searching without regard to case\<close>

definition substring_after_ci :: "string \<Rightarrow> string \<Rightarrow> string" where
  "substring_after_ci value marker =
     (case index_of (to_lower value) (to_lower marker) of
        None \<Rightarrow> []
      | Some i \<Rightarrow> drop (i + length marker) value)"

definition cut_before :: "string \<Rightarrow> string \<Rightarrow> string" where
  "cut_before stop value = (case index_of value stop of None \<Rightarrow> value | Some i \<Rightarrow> take i value)"

definition newline :: string where
  "newline = [CHR 0x0A]"

definition extract_period_field :: "string \<Rightarrow> string \<Rightarrow> string" where
  "extract_period_field value marker =
     (let remaining = substring_after_ci value marker in
      if remaining = [] then []
      else trim_space (cut_before newline (cut_before ''.'' remaining)))"

definition extract_line_field :: "string \<Rightarrow> string \<Rightarrow> string" where
  "extract_line_field value marker =
     (let remaining = substring_after_ci value marker in
      if remaining = [] then [] else trim_space (cut_before newline remaining))"

section \<open>Removing a field from a line\<close>

fun first_delimiter :: "string list \<Rightarrow> string \<Rightarrow> nat option" where
  "first_delimiter [] remaining = None"
| "first_delimiter (d # ds) remaining =
     (case index_of remaining d of Some i \<Rightarrow> Some (i + length d) | None \<Rightarrow> first_delimiter ds remaining)"

definition field_delimiters :: "string list" where
  "field_delimiters = [''. '', ''; '', '', '']"

text \<open>One turn of the loop of \<open>removeInlineOCIErrorField\<close>; \<open>None\<close> is its return.\<close>

definition remove_field_once :: "string \<Rightarrow> string \<Rightarrow> string option" where
  "remove_field_once marker value =
     (let remaining = substring_after_ci value marker in
      if remaining = [] then None
      else
        (let start = length value - length remaining - length marker;
             stop = (case first_delimiter field_delimiters remaining of
                 None \<Rightarrow> length value
               | Some k \<Rightarrow> start + length marker + k)
         in Some (trim_space (take start value @ drop stop value))))"

lemma length_trim_space: "length (trim_space s) \<le> length s"
  unfolding trim_space_def by (metis length_dropWhile_le length_rev order_trans)

lemma substring_after_ci_found:
  assumes "substring_after_ci value marker \<noteq> []"
  obtains i where "index_of (to_lower value) (to_lower marker) = Some i"
    and "substring_after_ci value marker = drop (i + length marker) value"
    and "i + length marker < length value"
proof -
  from assms obtain i where i: "index_of (to_lower value) (to_lower marker) = Some i"
    by (auto simp: substring_after_ci_def split: option.splits)
  then have s: "substring_after_ci value marker = drop (i + length marker) value"
    by (simp add: substring_after_ci_def)
  with assms have "i + length marker < length value" by auto
  with i s that show ?thesis by blast
qed

lemma first_delimiter_pos:
  "first_delimiter ds r = Some k \<Longrightarrow> [] \<notin> set ds \<Longrightarrow> 0 < k"
  by (induction ds) (auto split: option.splits)

lemma remove_field_once_shorter:
  assumes "remove_field_once marker value = Some v"
  shows "length v < length value"
proof -
  let ?r = "substring_after_ci value marker"
  from assms have ne: "?r \<noteq> []" by (auto simp: remove_field_once_def)
  then obtain i where r: "?r = drop (i + length marker) value" "i + length marker < length value"
    by (rule substring_after_ci_found)
  define stop where "stop = (case first_delimiter field_delimiters ?r of
      None \<Rightarrow> length value | Some k \<Rightarrow> i + length marker + k)"
  have start: "length value - length ?r - length marker = i" using r by simp
  have v: "v = trim_space (take i value @ drop stop value)"
    using assms ne unfolding remove_field_once_def Let_def start stop_def
    by (auto split: option.splits)
  have "i < stop"
  proof (cases "first_delimiter field_delimiters ?r")
    case (Some k)
    then have "0 < k" by (rule first_delimiter_pos) (simp add: field_delimiters_def)
    with Some show ?thesis by (simp add: stop_def)
  qed (use r in \<open>simp add: stop_def\<close>)
  have "length v \<le> length (take i value @ drop stop value)" unfolding v by (rule length_trim_space)
  also have "\<dots> < length value" using \<open>i < stop\<close> r(2) by simp
  finally show ?thesis .
qed

function remove_inline_field :: "string \<Rightarrow> string \<Rightarrow> string" where
  "remove_inline_field marker value =
     (case remove_field_once marker value of None \<Rightarrow> value | Some v \<Rightarrow> remove_inline_field marker v)"
  by pat_completeness auto
termination
  by (relation "measure (\<lambda>(m, v). length v)") (auto dest: remove_field_once_shorter)

declare remove_inline_field.simps [simp del]

section \<open>Sanitising\<close>

definition volatile_prefixes :: "string list" where
  "volatile_prefixes = [''operation name:'', ''timestamp:'', ''client version:'', ''request endpoint:'',
     ''troubleshooting tips:'', ''to get more info'', ''if you are unable'']"

definition is_volatile_line :: "string \<Rightarrow> bool" where
  "is_volatile_line line = list_ex (has_prefix (to_lower line)) volatile_prefixes"

definition inline_markers :: "string list" where
  "inline_markers = [''Opc request id:'', ''Opc-Request-Id:'', ''opc-request-id:'', ''opc-request-id='',
     ''request id:'', ''ociRequestId='']"

definition sanitize_line :: "string \<Rightarrow> string list" where
  "sanitize_line line0 =
     (let line = trim_space line0 in
      if line = [] \<or> is_volatile_line line then []
      else
        (let kept = trim_space (fold remove_inline_field inline_markers line)
         in if kept \<noteq> [] then [kept] else []))"

definition sanitize_oci_error_text :: "string \<Rightarrow> string" where
  "sanitize_oci_error_text value =
     (let lines = split_char (CHR 0x0A) (crlf_to_lf value);
          kept = concat (map sanitize_line lines)
      in join (split_fields (join kept '' '')) '' '')"

definition ensure_sentence :: "string \<Rightarrow> string" where
  "ensure_sentence value =
     (let v = trim_space value in
      if v = [] then v
      else if last v = CHR ''.'' \<or> last v = CHR ''!'' \<or> last v = CHR ''?'' then v
      else v @ ''.'')"

section \<open>Errors of the OCI Events rules (normalizeOCIEventRuleError)\<close>

definition digit_between :: "nat \<Rightarrow> nat \<Rightarrow> char \<Rightarrow> bool" where
  "digit_between lo hi c \<longleftrightarrow> 48 + lo \<le> (of_char c :: nat) \<and> (of_char c :: nat) \<le> 48 + hi"

definition is_http_status_code :: "string \<Rightarrow> bool" where
  "is_http_status_code v \<longleftrightarrow> length v = 3 \<and> digit_between 1 5 (v ! 0) \<and> digit_between 0 9 (v ! 1)
     \<and> digit_between 0 9 (v ! 2)"

definition known_rule_prefixes :: "string list" where
  "known_rule_prefixes = [''create oci events rule'', ''list oci events rules'', ''update oci events rule'',
     ''delete oci events rule'', ''get oci events rule'']"

text \<open>
  The loop over the known prefixes returns at the first one contained, if the text holds a colon at
  all; whether it does is the same for every prefix.
\<close>

definition strip_rule_error_prefix :: "string \<Rightarrow> string" where
  "strip_rule_error_prefix raw =
     (if list_ex (contains_str (to_lower raw)) known_rule_prefixes then
        (case index_of raw '':'' of Some i \<Rightarrow> trim_space (drop (Suc i) raw) | None \<Rightarrow> raw)
      else raw)"

definition rule_error_operation :: "string \<Rightarrow> string" where
  "rule_error_operation raw =
     (let operation = extract_line_field raw ''Operation Name:''; lower = to_lower raw in
      if operation \<noteq> [] then operation
      else if contains_str lower ''create oci events rule'' then ''CreateRule''
      else if contains_str lower ''list oci events rules'' then ''ListRules''
      else if contains_str lower ''update oci events rule'' then ''UpdateRule''
      else if contains_str lower ''delete oci events rule'' then ''DeleteRule''
      else if contains_str lower ''get oci events rule'' then ''GetRule''
      else ''OCI Events rule sync'')"

definition parse_service_error_fields :: "string \<Rightarrow> string \<times> string \<times> string" where
  "parse_service_error_fields raw =
     (extract_period_field raw ''Http Status Code:'',
      extract_period_field raw ''Error Code:'',
      sanitize_oci_error_text (extract_line_field raw ''Message:''))"

definition parse_leading_service_error :: "string \<Rightarrow> string \<times> string \<times> string" where
  "parse_leading_service_error raw =
     (let text = sanitize_oci_error_text (strip_rule_error_prefix raw) in
      case split_fields text of
        f0 # f1 # fs \<Rightarrow>
          if \<not> is_http_status_code f0 then ([], [], [])
          else
            (let rest1 = trim_space (trim_prefix text f0);
                 rest2 = trim_space (trim_prefix rest1 f1);
                 message = trim_left_set (trim_space rest2) '':. ''
             in (f0, trim_set f1 '':.'', sanitize_oci_error_text message))
      | _ \<Rightarrow> ([], [], []))"

definition format_rule_error :: "string \<Rightarrow> string \<Rightarrow> string \<Rightarrow> string \<Rightarrow> string" where
  "format_rule_error operation0 status code message0 =
     (let operation = (if trim_space operation0 = [] then ''OCI Events rule sync'' else trim_space operation0);
          message = (if trim_space message0 = [] then ''OCI Events API request failed'' else trim_space message0)
      in if status \<noteq> [] \<and> code \<noteq> [] then
           ensure_sentence (operation @ '' failed: '' @ status @ '' '' @ code @ '': '' @ message)
         else if status \<noteq> [] then ensure_sentence (operation @ '' failed: '' @ status @ '': '' @ message)
         else if code \<noteq> [] then ensure_sentence (operation @ '' failed: '' @ code @ '': '' @ message)
         else ensure_sentence (operation @ '' failed: '' @ message))"

fun normalize_rule_error :: "go_error option \<Rightarrow> string" where
  "normalize_rule_error None = ''OCI Events rule sync failed.''"
| "normalize_rule_error (Some e) =
     (let raw = trim_space (err_text e); operation = rule_error_operation raw in
      case parse_service_error_fields raw of (status, code, message) \<Rightarrow>
        if status \<noteq> [] \<or> code \<noteq> [] \<or> message \<noteq> [] then format_rule_error operation status code message
        else
          (case parse_leading_service_error raw of (status, code, message) \<Rightarrow>
             if status \<noteq> [] \<or> code \<noteq> [] \<or> message \<noteq> [] then format_rule_error operation status code message
             else
               (let text = sanitize_oci_error_text (strip_rule_error_prefix raw);
                    message' = (if text = [] then ''OCI Events API request failed'' else text)
                in ensure_sentence (operation @ '' failed: '' @ message'))))"

declare normalize_rule_error.simps [simp del]

section \<open>Facts\<close>

text \<open>The loop ends when the field is gone (or is the very end of the line).\<close>

lemma remove_inline_field_done: "substring_after_ci (remove_inline_field marker line) marker = []"
proof (induction marker line rule: remove_inline_field.induct)
  case (1 marker line)
  show ?case
  proof (cases "remove_field_once marker line")
    case None
    then have "substring_after_ci line marker = []"
      by (auto simp: remove_field_once_def Let_def split: if_splits)
    with None show ?thesis by (simp add: remove_inline_field.simps [of marker line])
  next
    case (Some w)
    with 1 show ?thesis by (simp add: remove_inline_field.simps [of marker line])
  qed
qed

lemma length_remove_inline_field: "length (remove_inline_field marker line) \<le> length line"
proof (induction marker line rule: remove_inline_field.induct)
  case (1 marker line)
  show ?case
  proof (cases "remove_field_once marker line")
    case None
    then show ?thesis by (simp add: remove_inline_field.simps [of marker line])
  next
    case (Some w)
    with 1 remove_field_once_shorter [OF Some] show ?thesis
      by (fastforce simp: remove_inline_field.simps [of marker line])
  qed
qed

lemma ensure_sentence_shape:
  "ensure_sentence v = [] \<longleftrightarrow> trim_space v = []"
  "ensure_sentence v \<noteq> [] \<Longrightarrow> last (ensure_sentence v) \<in> set ''.!?''"
proof -
  show ne: "ensure_sentence v = [] \<longleftrightarrow> trim_space v = []" by (simp add: ensure_sentence_def Let_def)
  assume "ensure_sentence v \<noteq> []"
  with ne show "last (ensure_sentence v) \<in> set ''.!?''" by (simp add: ensure_sentence_def Let_def)
qed

lemma ensure_sentence_idem [simp]: "ensure_sentence (ensure_sentence v) = ensure_sentence v"
proof (cases "trim_space v = []")
  case False
  define w where "w = ensure_sentence v"
  have w: "w \<noteq> []" "last w \<in> set ''.!?''"
    using False ensure_sentence_shape [of v] unfolding w_def by blast+
  have "hd w = hd (trim_space v)" using False by (auto simp: w_def ensure_sentence_def Let_def)
  then have "\<not> is_space (hd w)" using trim_space_hd [OF False] by simp
  moreover have "\<not> is_space (last w)" using w(2) by (auto simp: is_space_def)
  ultimately have "trim_space w = w" by (intro trim_space_id) simp
  with w show ?thesis by (auto simp: ensure_sentence_def [of w] w_def [symmetric] Let_def)
qed (simp add: ensure_sentence_def)

text \<open>The sanitised text is a single line of words separated by single blanks.\<close>

lemma join_words_space:
  assumes "list_all space_free ws" "c \<in> set (join ws '' '')" "is_space c"
  shows "c = CHR '' ''"
  using assms by (induction ws "'' ''" rule: join.induct) (auto simp: space_free_def list_all_iff)

lemma fields_from_word:
  "list_all (\<lambda>c. \<not> is_space c) w \<Longrightarrow> split_fields_from cur (w @ rest) = split_fields_from (rev w @ cur) rest"
  by (induction w arbitrary: cur) simp_all

lemma fields_join:
  assumes "list_all space_free ws"
  shows "split_fields (join ws '' '') = ws"
  using assms
proof (induction ws "'' ''" rule: join.induct)
  case 1
  then show ?case by (simp add: split_fields_def)
next
  case (2 p)
  then show ?case
    using fields_from_word [of p "[]" "[]"] by (simp add: split_fields_def space_free_def)
next
  case (3 p q ps)
  have "is_space (CHR '' '')" by (simp add: is_space_def)
  with 3 show ?case
    using fields_from_word [of p "[]" "'' '' @ join (q # ps) '' ''"] by (simp add: split_fields_def space_free_def)
qed

lemma sanitized_words:
  obtains ws where "sanitize_oci_error_text v = join ws '' ''" "list_all space_free ws"
  using split_fields_parts that unfolding sanitize_oci_error_text_def Let_def by blast

text \<open>Only the trimmed lines that are not volatile decide the text.\<close>

lemma concat_sanitize:
  "concat (map sanitize_line ls) =
     concat (map sanitize_line (filter (\<lambda>l. l \<noteq> [] \<and> \<not> is_volatile_line l) (map trim_space ls)))"
  by (induction ls) (auto simp: sanitize_line_def Let_def)

lemma format_rule_error_ne: "format_rule_error a b c d \<noteq> [] \<and> last (format_rule_error a b c d) \<in> set ''.!?''"
proof -
  have ne: "trim_space (x @ '' failed: '' @ y) \<noteq> []" for x y
    by (auto simp: trim_space_eq_Nil is_space_def)
  have *: "ensure_sentence (x @ '' failed: '' @ y) \<noteq> [] \<and> last (ensure_sentence (x @ '' failed: '' @ y)) \<in> set ''.!?''"
    for x y using ne [of x y] ensure_sentence_shape by blast
  have "\<exists>x y. format_rule_error a b c d = ensure_sentence (x @ '' failed: '' @ y)"
  proof -
    have "\<exists>y. format_rule_error a b c d =
      ensure_sentence ((if trim_space a = [] then ''OCI Events rule sync'' else trim_space a) @ '' failed: '' @ y)"
      unfolding format_rule_error_def Let_def
      by (cases "b = []"; cases "c = []"; simp only: simp_thms if_True if_False; rule exI; rule refl)
    then show ?thesis by blast
  qed
  with * show ?thesis by metis
qed

end
