(* ===== verification/FunctionController.thy ===== *)
theory FunctionController
  imports InvocationTarget Lifecycle OciErrorText
begin

text \<open>
  \<open>internal/controller/function_controller.go\<close>: the \<open>Function\<close> reconciler. Existing functions
  are copied from the spec, managed ones go through the lifecycle manager, deletion is guarded by a
  finalizer. The clock \<open>metav1.Now()\<close> reads the world.
\<close>

datatype function_call =
    EnsuredFunction desired_function function_state "go_error option"
  | EnsuredFunctionInApplication desired_function_in_application function_state "go_error option"
  | DeletedFunction function_delete_target function_deletion_state "go_error option"

record 'w function_reconciler =
  fr_client :: "'w kube_client"
  fr_lib :: kube_lib
  fr_manager :: "'w lifecycle_manager option"
  fr_recorder :: bool
  fr_clock :: "'w \<Rightarrow> time"

type_synonym function_effect = "(oci_function, function_call) effect"
type_synonym 'w function_io = "(function_effect, 'w) io"

definition function_finalizer :: string where
  "function_finalizer = ''functions.functions.oci.oracle.com/finalizer''"

definition function_delete_requeue :: duration where
  "function_delete_requeue = 30 * second"

section \<open>Events and conditions\<close>

definition record_lifecycle_events ::
    "bool \<Rightarrow> lifecycle_event list \<Rightarrow> (('o, 'c) effect, 'w) io \<Rightarrow> (('o, 'c) effect, 'w) io" where
  "record_lifecycle_events recorder es s =
     fold (\<lambda>e. record_event recorder
       (if le_type e = LifecycleEventWarning then EventWarning else EventNormal) (le_reason e) (le_message e)) es s"

text \<open>
  Every branch sets the phase, the message and the \<open>Ready\<close> condition, through \<open>SetCondition\<close> of
  the object.
\<close>

definition set_ready_status ::
    "kube_lib \<Rightarrow> time \<Rightarrow> function_phase \<Rightarrow> string \<Rightarrow> condition_state \<Rightarrow> oci_function \<Rightarrow> oci_function" where
  "set_ready_status K now phase message c f =
     set_function_condition K
       \<lparr>c_type = function_condition_ready, c_status = cs_status c, c_reason = cs_reason c,
        c_message = cs_message c, c_observed_generation = om_generation (fn_meta f),
        c_last_transition = now\<rparr>
       (fn_status_update (\<lambda>st. st\<lparr>fst_phase := phase, fst_message := message\<rparr>) f)"

definition not_ready :: "string \<Rightarrow> string \<Rightarrow> condition_state" where
  "not_ready reason message = \<lparr>cs_status = CondFalse, cs_reason = reason, cs_message = message\<rparr>"

definition now_ready :: "string \<Rightarrow> string \<Rightarrow> condition_state" where
  "now_ready reason message = \<lparr>cs_status = CondTrue, cs_reason = reason, cs_message = message\<rparr>"

text \<open>
  \<open>setFunctionReadyCondition\<close>, used on the deletion path: the list is searched and updated in
  place, or the condition appended.
\<close>

fun set_ready_condition_list :: "condition list \<Rightarrow> condition \<Rightarrow> condition list" where
  "set_ready_condition_list [] c = [c]"
| "set_ready_condition_list (existing # rest) c =
     (if c_type existing \<noteq> c_type c then existing # set_ready_condition_list rest c
      else (if c_status existing = c_status c then c\<lparr>c_last_transition := c_last_transition existing\<rparr> else c) # rest)"

definition set_function_ready_condition ::
    "condition_status \<Rightarrow> string \<Rightarrow> string \<Rightarrow> int \<Rightarrow> time \<Rightarrow> function_status \<Rightarrow> function_status" where
  "set_function_ready_condition st reason message generation now s =
     s\<lparr>fst_conditions := set_ready_condition_list (fst_conditions s)
        \<lparr>c_type = function_condition_ready, c_status = st, c_reason = reason, c_message = message,
         c_observed_generation = generation, c_last_transition = now\<rparr>\<rparr>"

text \<open>
  The copy \<open>status := function.Status\<close> shares its slice of conditions with the object: an update
  in place shows in the object as well, an append does not.
\<close>

definition share_conditions :: "function_status \<Rightarrow> oci_function \<Rightarrow> oci_function" where
  "share_conditions s f =
     (if list_ex (\<lambda>c. c_type c = function_condition_ready) (fst_conditions (fn_status f))
      then fn_status_update (\<lambda>st. st\<lparr>fst_conditions := fst_conditions s\<rparr>) f else f)"

section \<open>Status update\<close>

definition without_sync :: "function_status \<Rightarrow> function_status" where
  "without_sync s = s\<lparr>fst_last_sync_time := None\<rparr>"

definition update_function_status_if_changed ::
    "'w function_reconciler \<Rightarrow> oci_function \<Rightarrow> function_status \<Rightarrow> bool \<Rightarrow> 'w function_io \<Rightarrow>
     (oci_function \<times> bool \<times> go_error option) \<times> 'w function_io" where
  "update_function_status_if_changed R f desired update_last_sync s =
     (if without_sync (fn_status f) = without_sync desired then ((f, False, None), s)
      else
        (let d = (if update_last_sync
                  then desired\<lparr>fst_last_sync_time := Some (fr_clock R (io_world s))\<rparr> else desired);
             f' = f\<lparr>fn_status := d\<rparr>;
             (err, s') = perform (StatusUpdate f') (status_update_function (fr_client R) f') s
         in ((f', err = None, err), s')))"

section \<open>Desired state from the spec\<close>

definition should_have_function_finalizer :: "oci_function \<Rightarrow> function_mode \<Rightarrow> bool" where
  "should_have_function_finalizer f mode \<longleftrightarrow>
     mode = FunctionModeManaged \<and> function_deletion_policy f = DeletionPolicyDelete"

definition desired_memory_in_mbs :: "function_config \<Rightarrow> int" where
  "desired_memory_in_mbs c =
     (if 0 <s fc_memory_in_mbs c then sint (fc_memory_in_mbs c)
      else if 0 <s fc_memory_in_mb c then sint (fc_memory_in_mb c)
      else 128)"

definition desired_timeout_in_seconds :: "function_config \<Rightarrow> int" where
  "desired_timeout_in_seconds c =
     (if 0 <s fc_timeout_in_seconds c then sint (fc_timeout_in_seconds c) else 30)"

definition desired_config_map :: "function_config \<Rightarrow> go_map option" where
  "desired_config_map c =
     (if fc_config c \<noteq> [] then copy_string_map (fc_config c) else copy_string_map (fc_environment c))"

definition desired_function_from_config :: "function_config \<Rightarrow> desired_function" where
  "desired_function_from_config c =
     \<lparr>df_region = trim_space (fc_region c), df_compartment_id = trim_space (fc_compartment_id c),
      df_application_name = trim_space (fc_application_name c),
      df_subnet_ids = trim_string_slice (fc_subnet_ids c),
      df_application_nsg_ids = map_option trim_string_slice (fc_nsg_ids c),
      df_manage_application_nsg_ids = (fc_nsg_ids c \<noteq> None),
      df_display_name = trim_space (fc_display_name c), df_image = trim_space (fc_image c),
      df_memory_in_mbs = desired_memory_in_mbs c,
      df_timeout_in_seconds = desired_timeout_in_seconds c,
      df_config = desired_config_map c, df_freeform_tags = copy_string_map (fc_freeform_tags c)\<rparr>"

definition desired_function_in_application_from_config ::
    "function_config \<Rightarrow> function_application \<Rightarrow> desired_function_in_application" where
  "desired_function_in_application_from_config c app =
     \<lparr>dfa_region = trim_space (ast_region (app_status app)),
      dfa_application_id = trim_space (ast_application_id (app_status app)),
      dfa_display_name = trim_space (fc_display_name c), dfa_image = trim_space (fc_image c),
      dfa_memory_in_mbs = desired_memory_in_mbs c,
      dfa_timeout_in_seconds = desired_timeout_in_seconds c,
      dfa_config = desired_config_map c, dfa_freeform_tags = copy_string_map (fc_freeform_tags c)\<rparr>"

definition managed_function_delete_target :: "oci_function \<Rightarrow> function_delete_target" where
  "managed_function_delete_target f =
     (let id0 = trim_space (fst_function_id (fn_status f));
          id1 = (if id0 = [] then trim_space (fst_function_ocid (fn_status f)) else id0);
          t = \<lparr>fdt_region = [], fdt_compartment_id = [], fdt_application_name = [],
               fdt_application_id = trim_space (fst_application_id (fn_status f)),
               fdt_display_name = [], fdt_function_id = id1\<rparr>
      in case fs_config (fn_spec f) of
           None \<Rightarrow> t
         | Some c \<Rightarrow> t\<lparr>fdt_region := trim_space (fc_region c),
              fdt_compartment_id := trim_space (fc_compartment_id c),
              fdt_application_name := trim_space (fc_application_name c),
              fdt_display_name := trim_space (fc_display_name c)\<rparr>)"

definition has_legacy_application_fields :: "function_config option \<Rightarrow> bool" where
  "has_legacy_application_fields config = (case config of
     None \<Rightarrow> False
   | Some c \<Rightarrow> trim_space (fc_region c) \<noteq> [] \<or> trim_space (fc_compartment_id c) \<noteq> [] \<or>
       trim_space (fc_application_name c) \<noteq> [] \<or> trim_space (fc_application_ocid c) \<noteq> [] \<or>
       fc_subnet_ids c \<noteq> [] \<or> fc_nsg_ids c \<noteq> None)"

definition validate_legacy_config :: "function_config \<Rightarrow> go_error option" where
  "validate_legacy_config c =
     (if trim_space (fc_region c) = [] then
        Some (ErrorText ''managed Function requires spec.config.region when spec.applicationRef is not set'')
      else if trim_space (fc_compartment_id c) = [] then
        Some (ErrorText ''managed Function requires spec.config.compartmentId when spec.applicationRef is not set'')
      else if trim_space (fc_application_name c) = [] then
        Some (ErrorText ''managed Function requires spec.config.applicationName when spec.applicationRef is not set'')
      else if fc_subnet_ids c = [] then
        Some (ErrorText ''managed Function requires spec.config.subnetIds when spec.applicationRef is not set'')
      else None)"

section \<open>Resolving the application reference\<close>

text \<open>
  The three results of \<open>resolveFunctionApplicationRef\<close>: nothing to wait for (with the application, when
  one is referenced), waiting, or an error.
\<close>

datatype application_resolution =
    ApplicationResolution "function_application option"
  | ApplicationWaiting
  | ApplicationLookupError go_error

definition application_ref_name :: "oci_function \<Rightarrow> string" where
  "application_ref_name f = (case fs_application_ref (fn_spec f) of None \<Rightarrow> [] | Some r \<Rightarrow> trim_space (ar_name r))"

definition waiting_on_application ::
    "kube_lib \<Rightarrow> time \<Rightarrow> string \<Rightarrow> string \<Rightarrow> oci_function \<Rightarrow> oci_function" where
  "waiting_on_application K now reason message d =
     set_ready_status K now FunctionPhasePending message (not_ready reason message) d"

definition with_application_id :: "string \<Rightarrow> oci_function \<Rightarrow> oci_function" where
  "with_application_id i d = fn_status_update (\<lambda>st. st\<lparr>fst_application_id := i\<rparr>) d"

definition legacy_fields_message :: string where
  "legacy_fields_message = ''spec.applicationRef cannot be combined with legacy application fields in spec.config: region, compartmentId, applicationName, subnetIds, nsgIds, or applicationOcid.''"

definition resolve_function_application_ref ::
    "'w function_reconciler \<Rightarrow> oci_function \<Rightarrow> oci_function \<Rightarrow> time \<Rightarrow> 'w \<Rightarrow>
     application_resolution \<times> oci_function" where
  "resolve_function_application_ref R f d now w =
     (let K = fr_lib R; name = application_ref_name f in
      if name = [] then (ApplicationResolution None, d)
      else if has_legacy_application_fields (fs_config (fn_spec f)) then
        (ApplicationWaiting, set_ready_status K now FunctionPhaseError legacy_fields_message
           (not_ready ''InvalidApplicationRef'' legacy_fields_message) d)
      else case get_application (fr_client R) (om_namespace (fn_meta f)) name w of
        NotFound \<Rightarrow>
          (ApplicationWaiting, waiting_on_application K now ''FunctionApplicationNotFound''
             (''Waiting for FunctionApplication '' @ go_quote name @ '' to exist.'') d)
      | GetFailed e \<Rightarrow> (ApplicationLookupError e, d)
      | Got app \<Rightarrow>
          (let d1 = with_application_id (ast_application_id (app_status app)) d;
               quoted = go_quote (om_name (app_meta app))
           in if om_deletion_timestamp (app_meta app) \<noteq> None then
                (ApplicationWaiting, waiting_on_application K now ''FunctionApplicationDeleting''
                   (''Waiting for FunctionApplication '' @ quoted @ '' deletion to finish.'') d1)
              else if \<not> application_is_ready K app \<or> trim_space (ast_application_id (app_status app)) = [] then
                (ApplicationWaiting, waiting_on_application K now ''FunctionApplicationNotReady''
                   (''Waiting for FunctionApplication '' @ quoted @ '' to become Ready.'') d1)
              else (ApplicationResolution (Some app), d)))"

section \<open>Existing functions\<close>

definition reconcile_existing_function_status :: "kube_lib \<Rightarrow> time \<Rightarrow> oci_function \<Rightarrow> oci_function" where
  "reconcile_existing_function_status K now f =
     (let function_id = resolved_spec_function_id f;
          endpoint = trim_space (fs_invoke_endpoint (fn_spec f));
          f1 = fn_status_update (\<lambda>st. st\<lparr>fst_function_ocid := function_id, fst_function_id := function_id,
            fst_invoke_endpoint := endpoint\<rparr>) f
      in if function_id = [] \<or> endpoint = [] then
           set_ready_status K now FunctionPhaseError
             ''Existing Function mode requires spec.functionId and spec.invokeEndpoint.''
             (not_ready ''InvalidExistingFunction'' ''Existing Function mode requires spec.functionId or spec.existingFunctionOcid and spec.invokeEndpoint.'') f1
         else
           set_ready_status K now FunctionPhaseReady ''Using existing OCI Function.''
             (now_ready ''ExistingFunctionResolved'' ''Existing OCI Function OCID and invoke endpoint are configured.'') f1)"

definition delete_policy_message :: string where
  "delete_policy_message = ''spec.deletionPolicy=Delete is only supported for Managed mode. Existing mode never deletes OCI resources.''"

definition reconcile_existing_delete_policy_error :: "kube_lib \<Rightarrow> time \<Rightarrow> oci_function \<Rightarrow> oci_function" where
  "reconcile_existing_delete_policy_error K now f =
     set_ready_status K now FunctionPhaseError delete_policy_message
       (not_ready ''InvalidDeletionPolicy'' delete_policy_message) f"

section \<open>Managed functions\<close>

definition manager_missing_message :: string where
  "manager_missing_message = ''Function lifecycle manager is not configured; run the manager with INVOKER_MODE=oci for managed Functions.''"

definition invalid_managed :: "kube_lib \<Rightarrow> time \<Rightarrow> string \<Rightarrow> oci_function \<Rightarrow> oci_function" where
  "invalid_managed K now message f =
     set_ready_status K now FunctionPhaseError message (not_ready ''InvalidManagedFunction'' message) f"

definition managed_unconfigured :: "kube_lib \<Rightarrow> time \<Rightarrow> oci_function \<Rightarrow> oci_function" where
  "managed_unconfigured K now f =
     set_ready_status K now FunctionPhasePending manager_missing_message
       (not_ready ''LifecycleManagerNotConfigured'' manager_missing_message) f"

text \<open>The status fields taken from the manager's answer.\<close>

definition with_function_state :: "string \<Rightarrow> function_state \<Rightarrow> oci_function \<Rightarrow> oci_function" where
  "with_function_state application_id state f =
     fn_status_update (\<lambda>st. st\<lparr>fst_application_id := application_id,
       fst_function_ocid := fns_function_id state, fst_function_id := fns_function_id state,
       fst_invoke_endpoint := fns_invoke_endpoint state\<rparr>) f"

definition managed_failed :: "kube_lib \<Rightarrow> time \<Rightarrow> go_error \<Rightarrow> oci_function \<Rightarrow> oci_function" where
  "managed_failed K now e f =
     set_ready_status K now FunctionPhaseError (err_text e) (not_ready ''ManagedFunctionError'' (err_text e)) f"

definition managed_observed :: "kube_lib \<Rightarrow> time \<Rightarrow> function_state \<Rightarrow> oci_function \<Rightarrow> bool \<times> oci_function" where
  "managed_observed K now state f =
     (let message = (if fns_message state = [] then ''Managed OCI Function is reconciling.'' else fns_message state)
      in if fns_ready state then
           (False, set_ready_status K now FunctionPhaseReady message (now_ready ''ManagedFunctionReady'' message) f)
         else
           (True, set_ready_status K now FunctionPhasePending message (not_ready ''ManagedFunctionPending'' message) f))"

definition call_ensure_function ::
    "'w function_reconciler \<Rightarrow> 'w lifecycle_manager \<Rightarrow> desired_function \<Rightarrow> 'w function_io \<Rightarrow>
     (function_state \<times> go_error option) \<times> 'w function_io" where
  "call_ensure_function R M d s =
     (let ((state, err), w) = lm_ensure_function M d (io_world s)
      in ((state, err), record_lifecycle_events (fr_recorder R) (fns_events state)
            (emit (Called (EnsuredFunction d state err)) (s\<lparr>io_world := w\<rparr>))))"

definition call_ensure_in_application ::
    "'w function_reconciler \<Rightarrow> 'w lifecycle_manager \<Rightarrow> desired_function_in_application \<Rightarrow> 'w function_io \<Rightarrow>
     (function_state \<times> go_error option) \<times> 'w function_io" where
  "call_ensure_in_application R M d s =
     (let ((state, err), w) = lm_ensure_function_in_application M d (io_world s)
      in ((state, err), record_lifecycle_events (fr_recorder R) (fns_events state)
            (emit (Called (EnsuredFunctionInApplication d state err)) (s\<lparr>io_world := w\<rparr>))))"

text \<open>Both managed variants return whether the function is pending; neither returns an error.\<close>

definition reconcile_managed_with_application_ref ::
    "'w function_reconciler \<Rightarrow> oci_function \<Rightarrow> function_application \<Rightarrow> time \<Rightarrow> 'w function_io \<Rightarrow>
     (bool \<times> oci_function) \<times> 'w function_io" where
  "reconcile_managed_with_application_ref R f app now s =
     (let K = fr_lib R; app_id = ast_application_id (app_status app) in
      case fs_config (fn_spec f) of
        None \<Rightarrow> ((False, invalid_managed K now
          ''Managed Function mode with applicationRef requires spec.config for function-level fields.''
          (with_application_id app_id f)), s)
      | Some c \<Rightarrow>
          (case fr_manager R of
             None \<Rightarrow> ((True, managed_unconfigured K now (with_application_id app_id f)), s)
           | Some M \<Rightarrow>
               (case call_ensure_in_application R M (desired_function_in_application_from_config c app) s of
                  ((state, Some e), s') \<Rightarrow>
                    ((False, managed_failed K now e (with_function_state
                       (if fns_application_id state = [] then app_id else fns_application_id state) state f)), s')
                | ((state, None), s') \<Rightarrow> (managed_observed K now state (with_function_state app_id state f), s'))))"

definition reconcile_managed_function_status ::
    "'w function_reconciler \<Rightarrow> oci_function \<Rightarrow> time \<Rightarrow> 'w function_io \<Rightarrow>
     (bool \<times> oci_function) \<times> 'w function_io" where
  "reconcile_managed_function_status R f now s =
     (let K = fr_lib R in
      case fs_config (fn_spec f) of
        None \<Rightarrow> ((False, invalid_managed K now ''Managed Function mode requires spec.config.'' f), s)
      | Some c \<Rightarrow>
          (case validate_legacy_config c of
             Some e \<Rightarrow> ((False, invalid_managed K now (err_text e) f), s)
           | None \<Rightarrow>
               (case fr_manager R of
                  None \<Rightarrow> ((True, managed_unconfigured K now f), s)
                | Some M \<Rightarrow>
                    (case call_ensure_function R M (desired_function_from_config c) s of
                       ((state, Some e), s') \<Rightarrow>
                         ((False, managed_failed K now e (with_function_state (fns_application_id state) state f)), s')
                     | ((state, None), s') \<Rightarrow>
                         (managed_observed K now state (with_function_state (fns_application_id state) state f), s')))))"

section \<open>Deletion\<close>

definition is_function_delete_failure :: "oci_function \<Rightarrow> bool" where
  "is_function_delete_failure f =
     (if fst_phase (fn_status f) \<noteq> FunctionPhaseError then False
      else case lookup_condition (fst_conditions (fn_status f)) function_condition_ready of
        None \<Rightarrow> False
      | Some c \<Rightarrow> c_status c = CondFalse \<and>
          (c_reason c = ''ManagedFunctionDeleteFailed'' \<or> c_reason c = ''LifecycleManagerNotConfigured''))"

definition function_deletion_backoff :: "oci_function \<Rightarrow> time \<Rightarrow> duration option" where
  "function_deletion_backoff f now =
     (if \<not> is_function_delete_failure f then None
      else case fst_last_sync_time (fn_status f) of
        None \<Rightarrow> None
      | Some t \<Rightarrow> if function_delete_requeue \<le> now - t then None
                  else Some (function_delete_requeue - (now - t)))"

definition deletion_error_status :: "oci_function \<Rightarrow> time \<Rightarrow> string \<Rightarrow> string \<Rightarrow> function_status" where
  "deletion_error_status f now reason message =
     set_function_ready_condition CondFalse reason message (om_generation (fn_meta f)) now
       ((fn_status f)\<lparr>fst_observed_generation := om_generation (fn_meta f),
          fst_phase := FunctionPhaseError, fst_message := message\<rparr>)"

definition deleting_message :: string where
  "deleting_message = ''Deleting managed OCI Function; OCI Functions application will be retained.''"

definition deleting_status :: "oci_function \<Rightarrow> time \<Rightarrow> function_status" where
  "deleting_status f now =
     set_function_ready_condition CondFalse ''ManagedFunctionDeleting'' deleting_message
       (om_generation (fn_meta f)) now
       ((fn_status f)\<lparr>fst_observed_generation := om_generation (fn_meta f),
          fst_phase := FunctionPhasePending, fst_message := deleting_message\<rparr>)"

fun normalize_function_lifecycle_error :: "string \<Rightarrow> go_error option \<Rightarrow> string" where
  "normalize_function_lifecycle_error operation None = ensure_sentence (operation @ '' failed'')"
| "normalize_function_lifecycle_error operation (Some e) =
     (let text = sanitize_oci_error_text (err_text e);
          message = (if text = [] then ''OCI Functions API request failed'' else text)
      in ensure_sentence (operation @ '' failed: '' @ message))"

declare normalize_function_lifecycle_error.simps [simp del]

definition update_function_object ::
    "'w function_reconciler \<Rightarrow> oci_function \<Rightarrow> 'w function_io \<Rightarrow> go_error option \<times> 'w function_io" where
  "update_function_object R f s = perform (ObjectUpdate f) (update_function (fr_client R) f) s"

definition add_function_finalizer :: "kube_lib \<Rightarrow> oci_function \<Rightarrow> oci_function" where
  "add_function_finalizer K f =
     fn_meta_update (om_finalizers_update (\<lambda>fs. add_finalizer K fs function_finalizer)) f"

definition remove_function_finalizer :: "kube_lib \<Rightarrow> oci_function \<Rightarrow> oci_function" where
  "remove_function_finalizer K f =
     fn_meta_update (om_finalizers_update (\<lambda>fs. remove_finalizer K fs function_finalizer)) f"

definition has_function_finalizer :: "kube_lib \<Rightarrow> oci_function \<Rightarrow> bool" where
  "has_function_finalizer K f = contains_finalizer K (om_finalizers (fn_meta f)) function_finalizer"

text \<open>A failed deletion: the status, its warning event when it was written, and the retry.\<close>

definition report_delete_failure ::
    "'w function_reconciler \<Rightarrow> oci_function \<Rightarrow> time \<Rightarrow> string \<Rightarrow> string \<Rightarrow> 'w function_io \<Rightarrow>
     reconcile_end \<times> 'w function_io" where
  "report_delete_failure R f now reason message s =
     (let desired = deletion_error_status f now reason message in
      case update_function_status_if_changed R (share_conditions desired f) desired True s of
        ((f', patched, Some e), s') \<Rightarrow> (Returned no_requeue (Some e), s')
      | ((f', patched, None), s') \<Rightarrow>
          (Returned (requeue_in function_delete_requeue) None,
           (if patched then record_event (fr_recorder R) EventWarning ''ManagedFunctionDeleteFailed'' message s'
            else s')))"

definition call_delete_function ::
    "'w function_reconciler \<Rightarrow> 'w lifecycle_manager \<Rightarrow> function_delete_target \<Rightarrow> 'w function_io \<Rightarrow>
     (function_deletion_state \<times> go_error option) \<times> 'w function_io" where
  "call_delete_function R M t s =
     (let ((state, err), w) = lm_delete_managed_function M t (io_world s)
      in ((state, err), record_lifecycle_events (fr_recorder R) (fds_events state)
            (emit (Called (DeletedFunction t state err)) (s\<lparr>io_world := w\<rparr>))))"

text \<open>The part of \<open>reconcileDelete\<close> from the manager's call on.\<close>

definition delete_managed_function ::
    "'w function_reconciler \<Rightarrow> 'w lifecycle_manager \<Rightarrow> oci_function \<Rightarrow> time \<Rightarrow> 'w function_io \<Rightarrow>
     reconcile_end \<times> 'w function_io" where
  "delete_managed_function R M f now s =
     (case call_delete_function R M (managed_function_delete_target f) s of
        ((state, Some e), s1) \<Rightarrow>
          report_delete_failure R f now ''ManagedFunctionDeleteFailed''
            (normalize_function_lifecycle_error ''Delete managed OCI Function'' (Some e)) s1
      | ((state, None), s1) \<Rightarrow>
          (case update_function_object R (remove_function_finalizer (fr_lib R) f) s1 of
             (Some e, s2) \<Rightarrow> (Returned no_requeue (Some e), s2)
           | (None, s2) \<Rightarrow>
               (Returned no_requeue None,
                (if fds_message state \<noteq> [] then
                   record_event (fr_recorder R) EventNormal ''ManagedFunctionDeleted'' (fds_message state) s2
                 else s2))))"

definition reconcile_function_delete ::
    "'w function_reconciler \<Rightarrow> oci_function \<Rightarrow> 'w function_io \<Rightarrow> reconcile_end \<times> 'w function_io" where
  "reconcile_function_delete R f s =
     (let K = fr_lib R in
      if \<not> has_function_finalizer K f then (Returned no_requeue None, s)
      else if resolved_function_mode f \<noteq> FunctionModeManaged \<or>
              function_deletion_policy f \<noteq> DeletionPolicyDelete then
        (case update_function_object R (remove_function_finalizer K f)
                (record_event (fr_recorder R) EventNormal ''ManagedFunctionRetained''
                   ''Retained OCI resources for Function deletion.'' s) of
           (err, s') \<Rightarrow> (Returned no_requeue err, s'))
      else
        (let now = fr_clock R (io_world s) in
         case function_deletion_backoff f now of
           Some d \<Rightarrow> (Returned (requeue_in d) None, s)
         | None \<Rightarrow>
             (case fr_manager R of
                None \<Rightarrow> report_delete_failure R f now ''LifecycleManagerNotConfigured''
                  ''Cannot delete managed OCI Function because the lifecycle manager is not configured.'' s
              | Some M \<Rightarrow>
                  if is_function_delete_failure f then delete_managed_function R M f now s
                  else
                    (let deleting = deleting_status f now in
                     case update_function_status_if_changed R (share_conditions deleting f) deleting True s of
                       ((f', patched, Some e), s') \<Rightarrow> (Returned no_requeue (Some e), s')
                     | ((f', patched, None), s') \<Rightarrow> delete_managed_function R M f' now s'))))"

section \<open>Reconcile\<close>

text \<open>\<open>desiredObject\<close>: the object with a fresh status.\<close>

definition fresh_function_status :: "int \<Rightarrow> function_status" where
  "fresh_function_status generation = \<lparr>fst_observed_generation = generation, fst_phase = FunctionPhaseUnset,
     fst_function_ocid = [], fst_function_id = [], fst_application_id = [], fst_invoke_endpoint = [],
     fst_message = [], fst_last_sync_time = None, fst_conditions = []\<rparr>"

definition invalid_spec_message :: string where
  "invalid_spec_message = ''Function must specify functionId, existingFunctionOcid, or config.''"

text \<open>The switch over the mode: the requeue flag and the desired object.\<close>

definition reconcile_by_mode ::
    "'w function_reconciler \<Rightarrow> oci_function \<Rightarrow> function_application option \<Rightarrow> time \<Rightarrow> oci_function \<Rightarrow>
     'w function_io \<Rightarrow> (bool \<times> oci_function) \<times> 'w function_io" where
  "reconcile_by_mode R f app now d s =
     (let K = fr_lib R in
      case resolved_function_mode f of
        FunctionModeExisting \<Rightarrow>
          (if function_deletion_policy f = DeletionPolicyDelete then
             ((False, reconcile_existing_delete_policy_error K now d), s)
           else
             (let d1 = reconcile_existing_function_status K now d in
              ((False, case app of None \<Rightarrow> d1
                 | Some a \<Rightarrow> with_application_id (ast_application_id (app_status a)) d1), s)))
      | FunctionModeManaged \<Rightarrow>
          (case app of
             Some a \<Rightarrow> reconcile_managed_with_application_ref R d a now s
           | None \<Rightarrow> reconcile_managed_function_status R d now s)
      | FunctionModeUnset \<Rightarrow>
          ((False, set_ready_status K now FunctionPhaseError invalid_spec_message
             (not_ready ''InvalidSpec'' invalid_spec_message) d), s))"

definition finish_function ::
    "'w function_reconciler \<Rightarrow> oci_function \<Rightarrow> oci_function \<Rightarrow> ctrl_result \<Rightarrow> 'w function_io \<Rightarrow>
     reconcile_end \<times> 'w function_io" where
  "finish_function R f d result s =
     (case update_function_status_if_changed R f (fn_status d) True s of
        ((f', patched, Some e), s') \<Rightarrow> (Returned no_requeue (Some e), s')
      | ((f', patched, None), s') \<Rightarrow> (Returned result None, s'))"

definition reconcile_live_function ::
    "'w function_reconciler \<Rightarrow> oci_function \<Rightarrow> 'w function_io \<Rightarrow> reconcile_end \<times> 'w function_io" where
  "reconcile_live_function R f s =
     (let K = fr_lib R; now = fr_clock R (io_world s);
          d = f\<lparr>fn_status := fresh_function_status (om_generation (fn_meta f))\<rparr>;
          wanted = should_have_function_finalizer f (resolved_function_mode f)
      in if wanted \<and> \<not> has_function_finalizer K f then
           (case update_function_object R (add_function_finalizer K f) s of
              (Some e, s') \<Rightarrow> (Returned no_requeue (Some e), s')
            | (None, s') \<Rightarrow> (Returned requeue_now None, s'))
         else if \<not> wanted \<and> has_function_finalizer K f then
           (case update_function_object R (remove_function_finalizer K f) s of
              (Some e, s') \<Rightarrow> (Returned no_requeue (Some e), s')
            | (None, s') \<Rightarrow> (Returned requeue_now None, s'))
         else
           (case resolve_function_application_ref R f d now (io_world s) of
              (ApplicationLookupError e, d') \<Rightarrow> (Returned no_requeue (Some e), s)
            | (ApplicationWaiting, d') \<Rightarrow> finish_function R f d' (requeue_in (30 * second)) s
            | (ApplicationResolution app, d') \<Rightarrow>
                (case reconcile_by_mode R f app now d' s of
                   ((pending, d''), s') \<Rightarrow>
                     finish_function R f d'' (if pending then requeue_in (30 * second) else no_requeue) s')))"

definition reconcile_found_function ::
    "'w function_reconciler \<Rightarrow> oci_function \<Rightarrow> 'w function_io \<Rightarrow> reconcile_end \<times> 'w function_io" where
  "reconcile_found_function R f s =
     (if om_deletion_timestamp (fn_meta f) \<noteq> None then reconcile_function_delete R f s
      else reconcile_live_function R f s)"

definition reconcile_function ::
    "'w function_reconciler \<Rightarrow> string \<Rightarrow> string \<Rightarrow> 'w function_io \<Rightarrow> reconcile_end \<times> 'w function_io" where
  "reconcile_function R namespace name s =
     (case get_function (fr_client R) namespace name (io_world s) of
        NotFound \<Rightarrow> (Returned no_requeue None, s)
      | GetFailed e \<Rightarrow> (Returned no_requeue (Some e), s)
      | Got f \<Rightarrow> reconcile_found_function R f s)"

end
