(* ===== verification/FunctionLemmas.thy ===== *)
theory FunctionLemmas
  imports FunctionController
begin

text \<open>
  The library of facts about the \<open>Function\<close> reconciler: what each branch leaves in the status, what a
  reconciliation writes and calls on each of its ways, and the deletion path.
\<close>

section \<open>The in-place condition setter meets the contract\<close>

lemma lookup_set_ready:
  "lookup_condition (set_ready_condition_list cs c) t =
     (if t = c_type c then Some (stamp_condition (lookup_condition cs t) c) else lookup_condition cs t)"
  by (induction cs) (auto simp: lookup_condition_def stamp_condition_def)

lemma types_set_ready:
  "condition_types (set_ready_condition_list cs c) =
     (if c_type c \<in> set (condition_types cs) then condition_types cs else condition_types cs @ [c_type c])"
  by (induction cs) (auto simp: condition_types_def)

interpretation ready_list: condition_store set_ready_condition_list
  by unfold_locales (rule lookup_set_ready, rule types_set_ready)

section \<open>Status of the desired object\<close>

definition function_condition_status :: "oci_function \<Rightarrow> condition_status option" where
  "function_condition_status f = condition_status_of (fst_conditions (fn_status f)) function_condition_ready"

lemma lookup_condition_Nil [simp]: "lookup_condition [] t = None"
  by (simp add: lookup_condition_def)

text \<open>The \<open>Ready\<close> condition is present, and true exactly in the phase \<open>Ready\<close>.\<close>

definition function_agrees :: "oci_function \<Rightarrow> bool" where
  "function_agrees f \<longleftrightarrow>
     function_condition_status f = Some (truth (fst_phase (fn_status f) = FunctionPhaseReady))"

definition set_at :: "time \<Rightarrow> oci_function \<Rightarrow> bool" where
  "set_at now f \<longleftrightarrow> (case lookup_condition (fst_conditions (fn_status f)) function_condition_ready of
     None \<Rightarrow> False | Some c \<Rightarrow> c_last_transition c = now)"

lemma set_ready_status_frame [status_simps]:
  "fn_meta (set_ready_status K now ph m c f) = fn_meta f"
  "fn_spec (set_ready_status K now ph m c f) = fn_spec f"
  "fst_phase (fn_status (set_ready_status K now ph m c f)) = ph"
  "fst_message (fn_status (set_ready_status K now ph m c f)) = m"
  "fst_function_id (fn_status (set_ready_status K now ph m c f)) = fst_function_id (fn_status f)"
  "fst_function_ocid (fn_status (set_ready_status K now ph m c f)) = fst_function_ocid (fn_status f)"
  "fst_application_id (fn_status (set_ready_status K now ph m c f)) = fst_application_id (fn_status f)"
  "fst_invoke_endpoint (fn_status (set_ready_status K now ph m c f)) = fst_invoke_endpoint (fn_status f)"
  "fst_observed_generation (fn_status (set_ready_status K now ph m c f)) = fst_observed_generation (fn_status f)"
  by (simp_all add: set_ready_status_def set_function_condition_def)

lemma with_state_frame [status_simps]:
  "fn_meta (with_application_id i f) = fn_meta f"
  "fn_spec (with_application_id i f) = fn_spec f"
  "fst_conditions (fn_status (with_application_id i f)) = fst_conditions (fn_status f)"
  "fst_phase (fn_status (with_application_id i f)) = fst_phase (fn_status f)"
  "fst_function_id (fn_status (with_application_id i f)) = fst_function_id (fn_status f)"
  "fst_invoke_endpoint (fn_status (with_application_id i f)) = fst_invoke_endpoint (fn_status f)"
  "fst_observed_generation (fn_status (with_application_id i f)) = fst_observed_generation (fn_status f)"
  "fn_meta (with_function_state i st f) = fn_meta f"
  "fn_spec (with_function_state i st f) = fn_spec f"
  "fst_conditions (fn_status (with_function_state i st f)) = fst_conditions (fn_status f)"
  "fst_function_id (fn_status (with_function_state i st f)) = fns_function_id st"
  "fst_invoke_endpoint (fn_status (with_function_state i st f)) = fns_invoke_endpoint st"
  "fst_observed_generation (fn_status (with_function_state i st f)) = fst_observed_generation (fn_status f)"
  by (simp_all add: with_application_id_def with_function_state_def)

lemma set_ready_status_condition:
  assumes "kube_lib_ok K"
  shows "function_condition_status (set_ready_status K now ph m c f) = Some (cs_status c)"
    and "fst_conditions (fn_status f) = [] \<Longrightarrow> set_at now (set_ready_status K now ph m c f)"
  by (simp_all add: function_condition_status_def set_at_def set_ready_status_def set_function_condition_def
      kube_status_set [OF assms] kube_lookup_set [OF assms] lookup_condition_Nil stamp_condition_def)

lemma ready_state_simps [simp]:
  "cs_status (not_ready r m) = CondFalse" "cs_status (now_ready r m) = CondTrue"
  by (simp_all add: not_ready_def now_ready_def)

text \<open>What every branch of a live reconciliation does to the desired object.\<close>

definition settled :: "time \<Rightarrow> oci_function \<Rightarrow> oci_function \<Rightarrow> bool" where
  "settled now d d' \<longleftrightarrow> fn_meta d' = fn_meta d \<and> fn_spec d' = fn_spec d \<and>
     fst_observed_generation (fn_status d') = fst_observed_generation (fn_status d) \<and>
     function_agrees d' \<and> set_at now d'"

lemma settled_ready_status:
  assumes "kube_lib_ok K" "fst_conditions (fn_status f) = []"
    and "fn_meta f = fn_meta d" "fn_spec f = fn_spec d"
    and "fst_observed_generation (fn_status f) = fst_observed_generation (fn_status d)"
    and "cs_status c = truth (ph = FunctionPhaseReady)"
  shows "settled now d (set_ready_status K now ph m c f)"
  using assms
  by (simp add: settled_def status_simps function_agrees_def set_ready_status_condition)

lemma settled_application_id: "settled now d d' \<Longrightarrow> settled now d (with_application_id i d')"
  by (simp add: settled_def status_simps function_agrees_def function_condition_status_def set_at_def)

lemma settled_managed:
  assumes "kube_lib_ok K" "fst_conditions (fn_status f) = []"
    and "fn_meta f = fn_meta d" "fn_spec f = fn_spec d"
    and "fst_observed_generation (fn_status f) = fst_observed_generation (fn_status d)"
  shows "settled now d (invalid_managed K now m f)"
    and "settled now d (managed_unconfigured K now f)"
    and "settled now d (managed_failed K now e f)"
    and "settled now d (snd (managed_observed K now st f))"
  using assms
  by (simp_all add: invalid_managed_def managed_unconfigured_def managed_failed_def managed_observed_def
      Let_def settled_ready_status truth_def)

lemma settled_existing:
  assumes "kube_lib_ok K" "fst_conditions (fn_status d) = []"
  shows "settled now d (reconcile_existing_function_status K now d)"
    and "settled now d (reconcile_existing_delete_policy_error K now d)"
  using assms
  by (auto simp: reconcile_existing_function_status_def reconcile_existing_delete_policy_error_def Let_def truth_def
      intro!: settled_ready_status)

section \<open>Traces of the calls\<close>

lemma record_lifecycle_events_quiet:
  "\<exists>t. io_trace (record_lifecycle_events r es s) = io_trace s @ t \<and> quiet t"
proof (induction es arbitrary: s)
  case (Cons e es)
  let ?s = "record_event r (if le_type e = LifecycleEventWarning then EventWarning else EventNormal)
      (le_reason e) (le_message e) s"
  obtain t where t: "io_trace ?s = io_trace s @ t" "quiet t" using record_event_quiet by blast
  obtain u where u: "io_trace (record_lifecycle_events r es ?s) = io_trace ?s @ u" "quiet u"
    using Cons.IH [of ?s] by blast
  have "record_lifecycle_events r (e # es) s = record_lifecycle_events r es ?s"
    by (simp add: record_lifecycle_events_def)
  with t u show ?case by (intro exI [of _ "t @ u"]) simp
qed (simp add: record_lifecycle_events_def)

lemma call_ensure_function_trace:
  assumes "call_ensure_function R M d s = ((st, err), s')"
  shows "\<exists>t. io_trace s' = io_trace s @ Called (EnsuredFunction d st err) # t \<and> quiet t"
    and "\<exists>w'. lm_ensure_function M d (io_world s) = ((st, err), w')"
proof -
  from assms obtain w where s': "s' = record_lifecycle_events (fr_recorder R) (fns_events st)
      (emit (Called (EnsuredFunction d st err)) (s\<lparr>io_world := w\<rparr>))"
    and w: "lm_ensure_function M d (io_world s) = ((st, err), w)"
    by (auto simp: call_ensure_function_def split: prod.splits)
  then show "\<exists>w'. lm_ensure_function M d (io_world s) = ((st, err), w')" by blast
  show "\<exists>t. io_trace s' = io_trace s @ Called (EnsuredFunction d st err) # t \<and> quiet t"
    unfolding s' using record_lifecycle_events_quiet [of "fr_recorder R" "fns_events st"
        "emit (Called (EnsuredFunction d st err)) (s\<lparr>io_world := w\<rparr>)"] by auto
qed

lemma call_ensure_in_application_trace:
  assumes "call_ensure_in_application R M d s = ((st, err), s')"
  shows "\<exists>t. io_trace s' = io_trace s @ Called (EnsuredFunctionInApplication d st err) # t \<and> quiet t"
    and "\<exists>w'. lm_ensure_function_in_application M d (io_world s) = ((st, err), w')"
proof -
  from assms obtain w where s': "s' = record_lifecycle_events (fr_recorder R) (fns_events st)
      (emit (Called (EnsuredFunctionInApplication d st err)) (s\<lparr>io_world := w\<rparr>))"
    and w: "lm_ensure_function_in_application M d (io_world s) = ((st, err), w)"
    by (auto simp: call_ensure_in_application_def split: prod.splits)
  then show "\<exists>w'. lm_ensure_function_in_application M d (io_world s) = ((st, err), w')" by blast
  show "\<exists>t. io_trace s' = io_trace s @ Called (EnsuredFunctionInApplication d st err) # t \<and> quiet t"
    unfolding s' using record_lifecycle_events_quiet [of "fr_recorder R" "fns_events st"
        "emit (Called (EnsuredFunctionInApplication d st err)) (s\<lparr>io_world := w\<rparr>)"] by auto
qed

lemma call_delete_function_trace:
  assumes "call_delete_function R M d s = ((st, err), s')"
  shows "\<exists>t. io_trace s' = io_trace s @ Called (DeletedFunction d st err) # t \<and> quiet t"
proof -
  from assms obtain w where s': "s' = record_lifecycle_events (fr_recorder R) (fds_events st)
      (emit (Called (DeletedFunction d st err)) (s\<lparr>io_world := w\<rparr>))"
    by (auto simp: call_delete_function_def split: prod.splits)
  show ?thesis
    unfolding s' using record_lifecycle_events_quiet [of "fr_recorder R" "fds_events st"
        "emit (Called (DeletedFunction d st err)) (s\<lparr>io_world := w\<rparr>)"] by auto
qed

section \<open>Status updates\<close>

lemma update_status_trace:
  assumes "update_function_status_if_changed R f d sync s = ((f', patched, err), s')"
  obtains (unchanged) "without_sync (fn_status f) = without_sync d" "s' = s" "f' = f" "\<not> patched" "err = None"
    | (changed) "without_sync (fn_status f) \<noteq> without_sync d" "io_trace s' = io_trace s @ [StatusUpdate f']"
      "fn_meta f' = fn_meta f" "fn_spec f' = fn_spec f" "without_sync (fn_status f') = without_sync d"
      "patched \<longleftrightarrow> err = None"
      "sync \<longrightarrow> fst_last_sync_time (fn_status f') = Some (fr_clock R (io_world s))"
  using assms
  by (cases "without_sync (fn_status f) = without_sync d")
    (auto simp: update_function_status_if_changed_def perform_simps without_sync_def Let_def
      split: if_splits)

lemma without_sync_fields:
  assumes "without_sync a = without_sync b"
  shows "fst_phase a = fst_phase b" "fst_conditions a = fst_conditions b" "fst_message a = fst_message b"
    "fst_function_id a = fst_function_id b" "fst_function_ocid a = fst_function_ocid b"
    "fst_application_id a = fst_application_id b"
    "fst_invoke_endpoint a = fst_invoke_endpoint b" "fst_observed_generation a = fst_observed_generation b"
  using assms by (cases a, cases b, simp add: without_sync_def)+

lemma without_sync_agrees:
  assumes "without_sync (fn_status f) = without_sync (fn_status g)"
  shows "function_agrees f \<longleftrightarrow> function_agrees g"
  using without_sync_fields [OF assms] by (simp add: function_agrees_def function_condition_status_def)

end
