(* ===== verification/FunctionReconcile.thy ===== *)
theory FunctionReconcile
  imports FunctionLemmas
begin

text \<open>
  The \<open>Function\<close> reconciler as a whole: the ways a reconciliation of a live function and of one
  being deleted can go, with what each writes and calls.
\<close>

section \<open>The switch over the mode\<close>

definition ensure_call :: "function_call \<Rightarrow> bool" where
  "ensure_call c = (case c of DeletedFunction t st e \<Rightarrow> False | _ \<Rightarrow> True)"

lemma managed_with_ref_effects:
  assumes K: "kube_lib_ok (fr_lib R)" and none: "fst_conditions (fn_status d) = []"
    and run: "reconcile_managed_with_application_ref R d app now s = ((p, d'), s')"
  shows "settled now d d' \<and> (\<exists>t. io_trace s' = io_trace s @ t \<and> writes t = [] \<and> list_all ensure_call (calls t))"
proof (cases "fs_config (fn_spec d)")
  case None
  with run have "d' = invalid_managed (fr_lib R) now
      ''Managed Function mode with applicationRef requires spec.config for function-level fields.''
      (with_application_id (ast_application_id (app_status app)) d)" "s' = s"
    by (auto simp: reconcile_managed_with_application_ref_def Let_def)
  then show ?thesis by (auto intro!: settled_managed [OF K] simp: status_simps none)
next
  case (Some c)
  show ?thesis
  proof (cases "fr_manager R")
    case None
    with Some run have "d' = managed_unconfigured (fr_lib R) now
        (with_application_id (ast_application_id (app_status app)) d)" "s' = s"
      by (auto simp: reconcile_managed_with_application_ref_def Let_def)
    then show ?thesis by (auto intro!: settled_managed [OF K] simp: status_simps none)
  next
    case M: (Some M)
    obtain st err s1 where call: "call_ensure_in_application R M
        (desired_function_in_application_from_config c app) s = ((st, err), s1)"
      by (metis prod.exhaust)
    from call_ensure_in_application_trace(1) [OF call] obtain t where
      "io_trace s1 = io_trace s @ Called (EnsuredFunctionInApplication
        (desired_function_in_application_from_config c app) st err) # t" "quiet t" by blast
    then have t: "\<exists>t. io_trace s1 = io_trace s @ t \<and> writes t = [] \<and> list_all ensure_call (calls t)"
      by (auto simp: quiet_def ensure_call_def)
    have "s' = s1 \<and> settled now d d'"
    proof (cases err)
      case None
      with Some M call run have "d' = snd (managed_observed (fr_lib R) now st
          (with_function_state (ast_application_id (app_status app)) st d))" "s' = s1"
        by (auto simp: reconcile_managed_with_application_ref_def Let_def)
      then show ?thesis by (auto intro!: settled_managed [OF K] simp: status_simps none)
    next
      case (Some e)
      with \<open>fs_config (fn_spec d) = Some c\<close> M call run
      have "\<exists>i. d' = managed_failed (fr_lib R) now e (with_function_state i st d)" "s' = s1"
        by (auto simp: reconcile_managed_with_application_ref_def Let_def)
      then show ?thesis by (auto intro!: settled_managed [OF K] simp: status_simps none)
    qed
    with t show ?thesis by simp
  qed
qed

lemma managed_effects:
  assumes K: "kube_lib_ok (fr_lib R)" and none: "fst_conditions (fn_status d) = []"
    and run: "reconcile_managed_function_status R d now s = ((p, d'), s')"
  shows "settled now d d' \<and> (\<exists>t. io_trace s' = io_trace s @ t \<and> writes t = [] \<and> list_all ensure_call (calls t))"
proof (cases "\<exists>c M. fs_config (fn_spec d) = Some c \<and> validate_legacy_config c = None \<and> fr_manager R = Some M")
  case False
  with run have "s' = s \<and> ((\<exists>m. d' = invalid_managed (fr_lib R) now m d) \<or> d' = managed_unconfigured (fr_lib R) now d)"
    by (auto simp: reconcile_managed_function_status_def Let_def split: option.splits)
  then show ?thesis by (auto intro!: settled_managed [OF K] simp: none)
next
  case True
  then obtain c M where c: "fs_config (fn_spec d) = Some c" "validate_legacy_config c = None" "fr_manager R = Some M"
    by blast
  obtain st err s1 where call: "call_ensure_function R M (desired_function_from_config c) s = ((st, err), s1)"
    by (metis prod.exhaust)
  from call_ensure_function_trace(1) [OF call] obtain t where
    "io_trace s1 = io_trace s @ Called (EnsuredFunction (desired_function_from_config c) st err) # t" "quiet t" by blast
  then have t: "\<exists>t. io_trace s1 = io_trace s @ t \<and> writes t = [] \<and> list_all ensure_call (calls t)"
    by (auto simp: quiet_def ensure_call_def)
  have "s' = s1 \<and> settled now d d'"
  proof (cases err)
    case None
    with c call run have "d' = snd (managed_observed (fr_lib R) now st
        (with_function_state (fns_application_id st) st d))" "s' = s1"
      by (auto simp: reconcile_managed_function_status_def Let_def)
    then show ?thesis by (auto intro!: settled_managed [OF K] simp: status_simps none)
  next
    case (Some e)
    with c call run
    have "d' = managed_failed (fr_lib R) now e (with_function_state (fns_application_id st) st d)" "s' = s1"
      by (auto simp: reconcile_managed_function_status_def Let_def)
    then show ?thesis by (auto intro!: settled_managed [OF K] simp: status_simps none)
  qed
  with t show ?thesis by simp
qed

lemma by_mode_effects:
  assumes K: "kube_lib_ok (fr_lib R)" and none: "fst_conditions (fn_status d) = []"
    and run: "reconcile_by_mode R f app now d s = ((p, d'), s')"
  shows "settled now d d' \<and> (\<exists>t. io_trace s' = io_trace s @ t \<and> writes t = [] \<and> list_all ensure_call (calls t))"
proof (cases "resolved_function_mode f")
  case FunctionModeUnset
  with run have "d' = set_ready_status (fr_lib R) now FunctionPhaseError invalid_spec_message
      (not_ready ''InvalidSpec'' invalid_spec_message) d" "s' = s" by (auto simp: reconcile_by_mode_def)
  then show ?thesis by (auto intro!: settled_ready_status [OF K] simp: none truth_def)
next
  case FunctionModeExisting
  with run have "s' = s"
    by (auto simp: reconcile_by_mode_def Let_def split: if_splits)
  moreover from FunctionModeExisting run have "settled now d d'"
    by (auto simp: reconcile_by_mode_def Let_def split: if_splits option.splits
        intro!: settled_application_id settled_existing [OF K none])
  ultimately show ?thesis by auto
next
  case FunctionModeManaged
  with run managed_with_ref_effects [OF K none] managed_effects [OF K none] show ?thesis
    by (cases app) (auto simp: reconcile_by_mode_def)
qed

lemma resolve_ref_effects:
  assumes K: "kube_lib_ok (fr_lib R)" and none: "fst_conditions (fn_status d) = []"
    and run: "resolve_function_application_ref R f d now w = (res, d')"
  shows "(res = ApplicationWaiting \<longrightarrow> settled now d d') \<and> (\<forall>app. res = ApplicationResolution app \<longrightarrow> d' = d)"
  using run none
  by (auto simp: resolve_function_application_ref_def waiting_on_application_def Let_def truth_def status_simps
      split: if_splits get_result.splits intro!: settled_ready_status [OF K])

section \<open>A live function\<close>

definition finalizer_settled :: "kube_lib \<Rightarrow> oci_function \<Rightarrow> bool" where
  "finalizer_settled K f \<longleftrightarrow>
     has_function_finalizer K f = should_have_function_finalizer f (resolved_function_mode f)"

definition fresh_desired :: "oci_function \<Rightarrow> oci_function" where
  "fresh_desired f = f\<lparr>fn_status := fresh_function_status (om_generation (fn_meta f))\<rparr>"

lemma fresh_desired_simps [simp]:
  "fn_meta (fresh_desired f) = fn_meta f" "fn_spec (fresh_desired f) = fn_spec f"
  "fst_conditions (fn_status (fresh_desired f)) = []"
  "fst_observed_generation (fn_status (fresh_desired f)) = om_generation (fn_meta f)"
  by (simp_all add: fresh_desired_def fresh_function_status_def)

lemma reconcile_live_cases:
  assumes K: "kube_lib_ok (fr_lib R)" and run: "reconcile_live_function R f s = (out, s')"
  obtains (add) "should_have_function_finalizer f (resolved_function_mode f)"
      "\<not> has_function_finalizer (fr_lib R) f"
      "io_trace s' = io_trace s @ [ObjectUpdate (add_function_finalizer (fr_lib R) f)]"
    | (remove) "\<not> should_have_function_finalizer f (resolved_function_mode f)"
      "has_function_finalizer (fr_lib R) f"
      "io_trace s' = io_trace s @ [ObjectUpdate (remove_function_finalizer (fr_lib R) f)]"
    | (lookup_failed) e d' where "finalizer_settled (fr_lib R) f" "s' = s" "out = Returned no_requeue (Some e)"
      "resolve_function_application_ref R f (fresh_desired f) (fr_clock R (io_world s)) (io_world s)
         = (ApplicationLookupError e, d')"
    | (waiting) d' where "finalizer_settled (fr_lib R) f"
      "resolve_function_application_ref R f (fresh_desired f) (fr_clock R (io_world s)) (io_world s)
         = (ApplicationWaiting, d')"
      "settled (fr_clock R (io_world s)) (fresh_desired f) d'"
      "finish_function R f d' (requeue_in (30 * second)) s = (out, s')"
    | (by_mode) app p d' s1 t where "finalizer_settled (fr_lib R) f"
      "resolve_function_application_ref R f (fresh_desired f) (fr_clock R (io_world s)) (io_world s)
         = (ApplicationResolution app, fresh_desired f)"
      "reconcile_by_mode R f app (fr_clock R (io_world s)) (fresh_desired f) s = ((p, d'), s1)"
      "settled (fr_clock R (io_world s)) (fresh_desired f) d'"
      "io_trace s1 = io_trace s @ t" "writes t = []" "list_all ensure_call (calls t)"
      "finish_function R f d' (if p then requeue_in (30 * second) else no_requeue) s1 = (out, s')"
proof -
  let ?want = "should_have_function_finalizer f (resolved_function_mode f)"
  let ?has = "has_function_finalizer (fr_lib R) f" and ?now = "fr_clock R (io_world s)"
  consider "?want" "\<not> ?has" | "\<not> ?want" "?has" | "finalizer_settled (fr_lib R) f"
    by (auto simp: finalizer_settled_def)
  then show ?thesis
  proof cases
    case 1
    then have "io_trace s' = io_trace s @ [ObjectUpdate (add_function_finalizer (fr_lib R) f)]"
      using run by (auto simp: reconcile_live_function_def update_function_object_def perform_simps Let_def
          split: option.splits)
    with 1 show ?thesis by (rule add)
  next
    case 2
    then have "io_trace s' = io_trace s @ [ObjectUpdate (remove_function_finalizer (fr_lib R) f)]"
      using run by (auto simp: reconcile_live_function_def update_function_object_def perform_simps Let_def
          split: option.splits)
    with 2 show ?thesis by (rule remove)
  next
    case 3
    obtain res d1 where res: "resolve_function_application_ref R f (fresh_desired f) ?now (io_world s) = (res, d1)"
      by (metis prod.exhaust)
    from run 3 have run': "(out, s') = (case res of
        ApplicationLookupError e \<Rightarrow> (Returned no_requeue (Some e), s)
      | ApplicationWaiting \<Rightarrow> finish_function R f d1 (requeue_in (30 * second)) s
      | ApplicationResolution app \<Rightarrow>
          (case reconcile_by_mode R f app ?now d1 s of
             ((p, d''), s'') \<Rightarrow>
               finish_function R f d'' (if p then requeue_in (30 * second) else no_requeue) s''))"
      by (auto simp: reconcile_live_function_def finalizer_settled_def Let_def res [unfolded fresh_desired_def]
          split: application_resolution.splits)
    note facts = resolve_ref_effects [OF K fresh_desired_simps(3) res]
    show ?thesis
    proof (cases res)
      case (ApplicationResolution app)
      with facts have d1: "d1 = fresh_desired f" by simp
      obtain p d2 s1 where mode: "reconcile_by_mode R f app ?now (fresh_desired f) s = ((p, d2), s1)"
        by (metis prod.exhaust)
      from by_mode_effects [OF K fresh_desired_simps(3) mode] obtain t where
        "settled ?now (fresh_desired f) d2" "io_trace s1 = io_trace s @ t" "writes t = []"
        "list_all ensure_call (calls t)" by blast
      with 3 res mode run' d1 ApplicationResolution show ?thesis
        by (intro by_mode [of app p d2 s1 t]) simp_all
    next
      case ApplicationWaiting
      with 3 res run' facts show ?thesis by (intro waiting [of d1]) simp_all
    next
      case (ApplicationLookupError e)
      with 3 run' res show ?thesis by (intro lookup_failed [of e d1]) simp_all
    qed
  qed
qed

text \<open>A status write of a live reconciliation, if any, is the settled desired status.\<close>

lemma finish_function_effects:
  assumes "finish_function R f d result s = (out, s')"
  obtains t where "io_trace s' = io_trace s @ t" "calls t = []"
    and "\<forall>e \<in> set (writes t). \<exists>g. e = StatusUpdate g \<and> fn_meta g = fn_meta f \<and> fn_spec g = fn_spec f \<and>
      without_sync (fn_status g) = without_sync (fn_status d)"
    and "t = [] \<longleftrightarrow> without_sync (fn_status f) = without_sync (fn_status d)"
    and "out = Returned result None \<or> (\<exists>e. out = Returned no_requeue (Some e))"
proof -
  obtain f' patched err s1 where upd:
    "update_function_status_if_changed R f (fn_status d) True s = ((f', patched, err), s1)"
    by (metis prod.exhaust)
  with assms have s1: "s1 = s'" "out = Returned result None \<or> (\<exists>e. out = Returned no_requeue (Some e))"
    by (auto simp: finish_function_def split: option.splits)
  from upd show ?thesis
  proof (cases rule: update_status_trace)
    case unchanged
    with s1 show ?thesis by (intro that [of "[]"]) auto
  next
    case changed
    with s1 show ?thesis by (intro that [of "[StatusUpdate f']"]) auto
  qed
qed

section \<open>The deletion path\<close>

lemma report_delete_failure_effects:
  assumes "report_delete_failure R f now reason m s = (out, s')"
  obtains t where "io_trace s' = io_trace s @ t" "calls t = []"
    and "\<forall>e \<in> set (writes t). \<exists>g. e = StatusUpdate g \<and> om_finalizers (fn_meta g) = om_finalizers (fn_meta f)"
    and "out = Returned (requeue_in function_delete_requeue) None \<or> (\<exists>e. out = Returned no_requeue (Some e))"
proof -
  let ?d = "deletion_error_status f now reason m"
  obtain f' patched err s1 where upd:
    "update_function_status_if_changed R (share_conditions ?d f) ?d True s = ((f', patched, err), s1)"
    by (metis prod.exhaust)
  have meta: "fn_meta (share_conditions ?d f) = fn_meta f" by (simp add: share_conditions_def)
  have w: "\<exists>t. io_trace s1 = io_trace s @ t \<and> calls t = [] \<and>
      (\<forall>e \<in> set (writes t). \<exists>g. e = StatusUpdate g \<and> om_finalizers (fn_meta g) = om_finalizers (fn_meta f))"
    using upd
  proof (cases rule: update_status_trace)
    case changed
    with meta show ?thesis by auto
  qed auto
  obtain u where u: "io_trace (record_event (fr_recorder R) EventWarning ''ManagedFunctionDeleteFailed'' m s1)
      = io_trace s1 @ u" "quiet u" using record_event_quiet by blast
  have "(s' = s1 \<or> s' = record_event (fr_recorder R) EventWarning ''ManagedFunctionDeleteFailed'' m s1) \<and>
    (out = Returned (requeue_in function_delete_requeue) None \<or> (\<exists>e. out = Returned no_requeue (Some e)))"
    using assms upd by (auto simp: report_delete_failure_def Let_def split: option.splits if_splits)
  with w u that show ?thesis by (fastforce simp: quiet_def)
qed

text \<open>
  The call of the manager and what follows it: the finalizer goes only after a call without error.
\<close>

lemma delete_managed_effects:
  assumes run: "delete_managed_function R M f now s = (out, s')"
  obtains st err t where "io_trace s' = io_trace s @ Called (DeletedFunction (managed_function_delete_target f) st err) # t"
    and "calls t = []"
    and "\<forall>g. ObjectUpdate g \<in> set t \<longrightarrow> err = None \<and> g = remove_function_finalizer (fr_lib R) f"
    and "out \<noteq> Panicked"
proof -
  obtain st err s1 where call: "call_delete_function R M (managed_function_delete_target f) s = ((st, err), s1)"
    by (metis prod.exhaust)
  from call_delete_function_trace [OF call] obtain t where t: "quiet t"
    "io_trace s1 = io_trace s @ Called (DeletedFunction (managed_function_delete_target f) st err) # t" by blast
  have no_writes: "writes u = [] \<Longrightarrow> ObjectUpdate g \<notin> set u" for u :: "function_effect list" and g
    by (induction u rule: writes.induct) auto
  show ?thesis
  proof (cases err)
    case (Some e)
    with run call have "report_delete_failure R f now ''ManagedFunctionDeleteFailed''
        (normalize_function_lifecycle_error ''Delete managed OCI Function'' (Some e)) s1 = (out, s')"
      by (auto simp: delete_managed_function_def)
    then obtain u where u: "io_trace s' = io_trace s1 @ u" "calls u = []"
      "\<forall>e \<in> set (writes u). \<exists>g. e = StatusUpdate g \<and> om_finalizers (fn_meta g) = om_finalizers (fn_meta f)"
      "out \<noteq> Panicked"
      by (rule report_delete_failure_effects) blast
    have "ObjectUpdate g \<notin> set u" for g
    proof
      assume "ObjectUpdate g \<in> set u"
      then have "ObjectUpdate g \<in> set (writes u)" by (induction u rule: writes.induct) auto
      with u(3) show False by auto
    qed
    with t u no_writes show ?thesis
      by (intro that [of st err "t @ u"]) (auto simp: quiet_def)
  next
    case None
    let ?g = "remove_function_finalizer (fr_lib R) f"
    obtain err2 s2 where upd: "update_function_object R ?g s1 = (err2, s2)" by (metis prod.exhaust)
    then have s2: "io_trace s2 = io_trace s1 @ [ObjectUpdate ?g]"
      by (auto simp: update_function_object_def perform_simps)
    obtain u where u: "io_trace (record_event (fr_recorder R) EventNormal ''ManagedFunctionDeleted'' (fds_message st) s2)
        = io_trace s2 @ u" "quiet u" using record_event_quiet by blast
    have "s' = s2 \<or> s' = record_event (fr_recorder R) EventNormal ''ManagedFunctionDeleted'' (fds_message st) s2"
      and "out \<noteq> Panicked"
      using run call None upd by (auto simp: delete_managed_function_def split: option.splits if_splits)
    then obtain v where "io_trace s' = io_trace s2 @ v" "quiet v" using u by (metis append_Nil2 quiet_simps(1))
    with s2 t None no_writes \<open>out \<noteq> Panicked\<close> show ?thesis
      by (intro that [of st err "t @ ObjectUpdate ?g # v"]) (auto simp: quiet_def)
  qed
qed

lemma reconcile_delete_cases:
  assumes run: "reconcile_function_delete R f s = (out, s')"
  obtains (no_finalizer) "\<not> has_function_finalizer (fr_lib R) f" "out = Returned no_requeue None" "s' = s"
    | (retained) t err where "has_function_finalizer (fr_lib R) f"
      "resolved_function_mode f \<noteq> FunctionModeManaged \<or> function_deletion_policy f \<noteq> DeletionPolicyDelete"
      "io_trace s' = io_trace s @ t @ [ObjectUpdate (remove_function_finalizer (fr_lib R) f)]" "quiet t"
      "out = Returned no_requeue err"
    | (backoff) d where "function_deletion_backoff f (fr_clock R (io_world s)) = Some d"
      "out = Returned (requeue_in d) None" "s' = s"
    | (unconfigured) "fr_manager R = None"
      "report_delete_failure R f (fr_clock R (io_world s)) ''LifecycleManagerNotConfigured''
         ''Cannot delete managed OCI Function because the lifecycle manager is not configured.'' s = (out, s')"
    | (marking) t e where "io_trace s' = io_trace s @ t" "calls t = []" "\<forall>g. ObjectUpdate g \<notin> set t"
      "out = Returned no_requeue (Some e)"
    | (deleting) M f' t s1 where "has_function_finalizer (fr_lib R) f"
      "resolved_function_mode f = FunctionModeManaged" "function_deletion_policy f = DeletionPolicyDelete"
      "function_deletion_backoff f (fr_clock R (io_world s)) = None"
      "fr_manager R = Some M" "io_trace s1 = io_trace s @ t" "calls t = []" "\<forall>g. ObjectUpdate g \<notin> set t"
      "managed_function_delete_target f' = managed_function_delete_target f"
      "fn_meta f' = fn_meta f"
      "delete_managed_function R M f' (fr_clock R (io_world s)) s1 = (out, s')"
proof -
  let ?now = "fr_clock R (io_world s)" and ?K = "fr_lib R"
  show ?thesis
  proof (cases "has_function_finalizer ?K f")
    case False
    with run show ?thesis by (intro no_finalizer) (simp_all add: reconcile_function_delete_def Let_def)
  next
    case has: True
    show ?thesis
    proof (cases "resolved_function_mode f \<noteq> FunctionModeManaged \<or> function_deletion_policy f \<noteq> DeletionPolicyDelete")
      case True
      let ?s = "record_event (fr_recorder R) EventNormal ''ManagedFunctionRetained''
          ''Retained OCI resources for Function deletion.'' s"
      obtain u where "io_trace ?s = io_trace s @ u" "quiet u" using record_event_quiet by blast
      moreover obtain err s2 where "update_function_object R (remove_function_finalizer ?K f) ?s = (err, s2)"
        by (metis prod.exhaust)
      ultimately show ?thesis using run has True
        by (intro retained [of u err])
          (auto simp: reconcile_function_delete_def Let_def update_function_object_def perform_simps)
    next
      case managed: False
      show ?thesis
      proof (cases "function_deletion_backoff f ?now")
        case (Some d)
        with run has managed show ?thesis
          by (intro backoff [of d]) (simp_all add: reconcile_function_delete_def Let_def)
      next
        case nb: None
        show ?thesis
        proof (cases "fr_manager R")
          case None
          with run has managed nb show ?thesis
            by (intro unconfigured) (simp_all add: reconcile_function_delete_def Let_def)
        next
          case M: (Some M)
          show ?thesis
          proof (cases "is_function_delete_failure f")
            case True
            with run has managed nb M show ?thesis
              by (intro deleting [of M s "[]" f]) (simp_all add: reconcile_function_delete_def Let_def)
          next
            case False
            let ?d = "deleting_status f ?now"
            obtain f' patched err s1 where upd:
              "update_function_status_if_changed R (share_conditions ?d f) ?d True s = ((f', patched, err), s1)"
              by (metis prod.exhaust)
            have fields: "fst_function_id ?d = fst_function_id (fn_status f)"
              "fst_function_ocid ?d = fst_function_ocid (fn_status f)"
              "fst_application_id ?d = fst_application_id (fn_status f)"
              by (simp_all add: deleting_status_def set_function_ready_condition_def)
            have f': "fn_meta f' = fn_meta f" "fn_spec f' = fn_spec f" "without_sync (fn_status f') = without_sync ?d"
              and t: "\<exists>t. io_trace s1 = io_trace s @ t \<and> calls t = [] \<and> (\<forall>g. ObjectUpdate g \<notin> set t)"
              using upd by (cases rule: update_status_trace; auto simp: share_conditions_def)+
            from without_sync_fields [OF f'(3)] fields f'(2)
            have target: "managed_function_delete_target f' = managed_function_delete_target f"
              by (simp add: managed_function_delete_target_def Let_def split: option.split)
            from t obtain t where t: "io_trace s1 = io_trace s @ t" "calls t = []" "\<forall>g. ObjectUpdate g \<notin> set t"
              by blast
            show ?thesis
            proof (cases err)
              case None
              with run has managed nb M False upd have "delete_managed_function R M f' ?now s1 = (out, s')"
                by (simp add: reconcile_function_delete_def Let_def)
              with has managed nb M t target f' show ?thesis by (intro deleting [of M s1 t f']) simp_all
            next
              case (Some e)
              with run has managed nb M False upd have "out = Returned no_requeue (Some e)" "s' = s1"
                by (simp_all add: reconcile_function_delete_def Let_def)
              with t show ?thesis by (intro marking [of t e]) simp_all
            qed
          qed
        qed
      qed
    qed
  qed
qed

section \<open>Ready functions under the lifecycle contract\<close>

lemma existing_ready:
  assumes "fst_phase (fn_status (reconcile_existing_function_status K now d)) = FunctionPhaseReady"
  shows "trim_space (fst_function_id (fn_status (reconcile_existing_function_status K now d))) \<noteq> [] \<and>
    trim_space (fst_invoke_endpoint (fn_status (reconcile_existing_function_status K now d))) \<noteq> []"
  using assms
  by (auto simp: reconcile_existing_function_status_def Let_def status_simps resolved_spec_function_id_def
      split: if_splits)

lemma managed_observed_ready:
  "fst_phase (fn_status (snd (managed_observed K now st f))) = FunctionPhaseReady \<longleftrightarrow> fns_ready st"
  "fst_function_id (fn_status (snd (managed_observed K now st f))) = fst_function_id (fn_status f)"
  "fst_invoke_endpoint (fn_status (snd (managed_observed K now st f))) = fst_invoke_endpoint (fn_status f)"
  by (simp_all add: managed_observed_def Let_def status_simps)

lemma unready_phases [status_simps]:
  "fst_phase (fn_status (invalid_managed K now m f)) = FunctionPhaseError"
  "fst_phase (fn_status (managed_unconfigured K now f)) = FunctionPhasePending"
  "fst_phase (fn_status (managed_failed K now e f)) = FunctionPhaseError"
  "fst_phase (fn_status (reconcile_existing_delete_policy_error K now f)) = FunctionPhaseError"
  by (simp_all add: invalid_managed_def managed_unconfigured_def managed_failed_def
      reconcile_existing_delete_policy_error_def status_simps)

context lifecycle_contract begin

text \<open>A desired object that is ready has an OCID and an endpoint.\<close>

lemma by_mode_ready:
  assumes run: "reconcile_by_mode R f app now d s = ((p, d'), s')"
    and M: "\<And>M'. fr_manager R = Some M' \<Longrightarrow> M' = M"
    and ready: "fst_phase (fn_status d') = FunctionPhaseReady"
  shows "fst_function_id (fn_status d') \<noteq> [] \<and> trim_space (fst_invoke_endpoint (fn_status d')) \<noteq> []"
proof (cases "resolved_function_mode f")
  case FunctionModeUnset
  with run ready show ?thesis by (auto simp: reconcile_by_mode_def status_simps)
next
  case FunctionModeExisting
  with run ready existing_ready [of "fr_lib R" now d] show ?thesis
    by (auto simp: reconcile_by_mode_def Let_def status_simps split: if_splits option.splits)
next
  case FunctionModeManaged
  show ?thesis
  proof (cases app)
    case None
    from run None FunctionModeManaged
    have r: "reconcile_managed_function_status R d now s = ((p, d'), s')" by (simp add: reconcile_by_mode_def)
    from r ready obtain c st where c: "fs_config (fn_spec d) = Some c" "fr_manager R = Some M"
      "call_ensure_function R M (desired_function_from_config c) s = ((st, None), s')"
      "d' = snd (managed_observed (fr_lib R) now st (with_function_state (fns_application_id st) st d))"
      by (auto simp: reconcile_managed_function_status_def Let_def status_simps dest: M
          split: option.splits prod.splits)
    from c(4) ready have "fns_ready st" by (simp add: managed_observed_ready)
    with call_ensure_function_trace(2) [OF c(3)] ready_function c(4) show ?thesis
      by (auto simp: managed_observed_ready status_simps)
  next
    case (Some a)
    from run Some FunctionModeManaged
    have r: "reconcile_managed_with_application_ref R d a now s = ((p, d'), s')" by (simp add: reconcile_by_mode_def)
    from r ready obtain c st where c: "fs_config (fn_spec d) = Some c" "fr_manager R = Some M"
      "call_ensure_in_application R M (desired_function_in_application_from_config c a) s = ((st, None), s')"
      "d' = snd (managed_observed (fr_lib R) now st (with_function_state (ast_application_id (app_status a)) st d))"
      by (auto simp: reconcile_managed_with_application_ref_def Let_def status_simps dest: M
          split: option.splits prod.splits)
    from c(4) ready have "fns_ready st" by (simp add: managed_observed_ready)
    with call_ensure_in_application_trace(2) [OF c(3)] ready_function_in_application c(4) show ?thesis
      by (auto simp: managed_observed_ready status_simps)
  qed
qed

end

end
