(* ===== verification/OciErrorLemmas.thy ===== *)
theory OciErrorLemmas
  imports OciErrorText
begin

text \<open>
  What a sanitised error text does not depend on: the lines in which the SDK reports the operation, the time,
  the client, the endpoint and its advice, and the request id inside a line. The labels are listed here
  anew, from the form of the SDK's errors.
\<close>

section \<open>What varies between two reports of the same error\<close>

definition service_labels :: "string list" where
  "service_labels = [''operation name:'', ''timestamp:'', ''client version:'', ''request endpoint:'',
     ''troubleshooting tips:'', ''to get more info'', ''if you are unable'']"

definition service_line :: "string \<Rightarrow> bool" where
  "service_line l \<longleftrightarrow> (\<exists>p \<in> set service_labels. \<exists>rest. to_lower l = p @ rest)"

definition lasting_lines :: "string \<Rightarrow> string list" where
  "lasting_lines v =
     filter (\<lambda>l. l \<noteq> [] \<and> \<not> service_line l) (map trim_space (split_char (CHR 0x0A) (crlf_to_lf v)))"

definition id_labels :: "string list" where
  "id_labels = [''opc request id:'', ''opc-request-id:'', ''opc-request-id='', ''request id:'', ''ocirequestid='']"

definition holds_id_label :: "string \<Rightarrow> bool" where
  "holds_id_label s \<longleftrightarrow> (\<exists>k \<in> set id_labels. \<exists>x y. to_lower s = x @ k @ y)"

text \<open>An id has no punctuation; it ends with the line or at a mark.\<close>

definition request_id :: "string \<Rightarrow> bool" where
  "request_id i \<longleftrightarrow> i \<noteq> [] \<and> (\<forall>c \<in> set i. c \<notin> set ''.;,:='')"

inductive same_but_request_id :: "string \<Rightarrow> string \<Rightarrow> bool" where
  other_id: "\<lbrakk>to_lower m \<in> set id_labels; \<not> holds_id_label (a @ butlast m); \<not> holds_id_label b;
      b = [] \<or> hd b \<in> set ''.;,''; request_id i; request_id i'\<rbrakk> \<Longrightarrow>
    same_but_request_id (a @ m @ i @ b) (a @ m @ i' @ b)"

definition same_report :: "string \<Rightarrow> string \<Rightarrow> bool" where
  "same_report v w \<longleftrightarrow> list_all2 (\<lambda>l l'. l = l' \<or> same_but_request_id l l') (lasting_lines v) (lasting_lines w)"

section \<open>Occurrences\<close>

lemma to_lower_append [simp]: "to_lower (x @ y) = to_lower x @ to_lower y"
  by (simp add: to_lower_def)

lemma index_of_none: "index_of s sub = None \<Longrightarrow> s \<noteq> x @ sub @ y"
proof (induction s sub arbitrary: x rule: index_of.induct)
  case (2 c cs sub)
  then show ?case by (cases x) (auto simp: has_prefix_def split: if_splits)
qed (auto split: if_splits)

lemma index_of_here: "has_prefix s sub \<Longrightarrow> index_of s sub = Some 0"
  by (cases s) (simp_all add: has_prefix_def)

lemma index_of_only:
  assumes "s = x @ sub @ y" "\<And>x' y'. s = x' @ sub @ y' \<Longrightarrow> length x' = length x"
  shows "index_of s sub = Some (length x)"
proof (cases "index_of s sub")
  case None
  with index_of_none assms(1) show ?thesis by blast
next
  case (Some n)
  then obtain t where t: "drop n s = sub @ t" "n \<le> length s"
    using index_of_Some [OF Some] by (auto simp: has_prefix_iff)
  then have "s = take n s @ sub @ t" by (metis append_take_drop_id)
  from assms(2) [OF this] t(2) Some show ?thesis by simp
qed

lemma index_of_absent: "(\<And>x y. s \<noteq> x @ sub @ y) \<Longrightarrow> index_of s sub = None"
proof (rule ccontr)
  assume no: "\<And>x y. s \<noteq> x @ sub @ y" and "index_of s sub \<noteq> None"
  then obtain n where "index_of s sub = Some n" by blast
  then obtain t where "drop n s = sub @ t" using index_of_Some [of s sub n] by (auto simp: has_prefix_iff)
  then have "s = take n s @ sub @ t" by (metis append_take_drop_id)
  with no show False by blast
qed

lemma index_of_skip:
  "d \<noteq> [] \<Longrightarrow> hd d \<notin> set i \<Longrightarrow> index_of (i @ b) d = map_option ((+) (length i)) (index_of b d)"
proof (induction i)
  case Nil
  then show ?case by (cases "index_of b d") auto
next
  case (Cons c i)
  then have "\<not> has_prefix (c # i @ b) d" by (cases d) (auto simp: has_prefix_def)
  with Cons show ?case by (cases "index_of b d") auto
qed

lemma first_delimiter_skip:
  "list_all (\<lambda>d. d \<noteq> [] \<and> hd d \<notin> set i) ds \<Longrightarrow>
    first_delimiter ds (i @ b) = map_option ((+) (length i)) (first_delimiter ds b)"
  by (induction ds) (auto simp: index_of_skip split: option.splits)

section \<open>A line with a request id\<close>

lemma lower_mark: "lower_char c \<in> set ''.;,:='' \<longleftrightarrow> c \<in> set ''.;,:=''"
proof (cases "65 \<le> (of_char c :: nat) \<and> (of_char c :: nat) \<le> 90")
  case True
  then have n: "(of_char c :: nat) \<notin> {46, 59, 44, 58, 61}" "(of_char c :: nat) + 32 \<notin> {46, 59, 44, 58, 61}"
    "(of_char c :: nat) + 32 < 256" by auto
  have marks: "x \<in> set ''.;,:='' \<longleftrightarrow> (of_char x :: nat) \<in> {46, 59, 44, 58, 61}" for x
  proof -
    have "(of_char x :: nat) = of_char y \<longleftrightarrow> x = y" for y by (rule of_char_eq_iff)
    from this [of "CHR ''.''"] this [of "CHR '';''"] this [of "CHR '',''"] this [of "CHR '':''"] this [of "CHR ''=''"]
    show ?thesis by auto
  qed
  have "(of_char (lower_char c) :: nat) = of_char c + 32"
    using True n(3) by (simp add: lower_char_def Let_def of_char_of)
  with n show ?thesis unfolding marks by simp
next
  case False
  then show ?thesis by (auto simp: lower_char_def Let_def)
qed

lemma id_label_form:
  assumes "k \<in> set id_labels"
  obtains n z where "k = n @ [z]" "z \<in> {CHR '':'', CHR ''=''}" "\<forall>c \<in> set k. c \<notin> set ''.;,''"
proof -
  have "list_all (\<lambda>k. k \<noteq> [] \<and> last k \<in> {CHR '':'', CHR ''=''} \<and> (\<forall>c \<in> set k. c \<notin> set ''.;,'')) id_labels" by code_simp
  with assms have "k \<noteq> []" "last k \<in> {CHR '':'', CHR ''=''}" "\<forall>c \<in> set k. c \<notin> set ''.;,''"
    by (auto simp: list_all_iff)
  then show thesis using that [of "butlast k" "last k"] by simp
qed

lemma label_ends_at_id:
  assumes k: "k \<in> set id_labels" and split: "to_lower (c @ i @ b) = x @ k @ y"
    and c: "c = a @ [z]" "\<not> holds_id_label a" and b: "\<not> holds_id_label b" "b = [] \<or> hd b \<in> set ''.;,''"
    and i: "request_id i"
  shows "to_lower c = x @ k"
proof -
  from id_label_form [OF k] obtain n e where e: "k = n @ [e]" "e \<in> set '':=''" "\<forall>d \<in> set k. d \<notin> set ''.;,''" by auto
  have id_free: "d \<notin> set ''.;,:=''" if "d \<in> set (to_lower i)" for d
    using that i lower_mark by (auto simp: to_lower_def request_id_def)
  have start: "d \<in> set ''.;,''" if "to_lower b = d # r" for d r
  proof -
    from that b(2) obtain f where "d = lower_char f" "f \<in> set ''.;,''" by (cases b) (auto simp: to_lower_def)
    then show ?thesis by (auto simp: lower_char_def)
  qed
  from split consider (inside) us where "to_lower c = (x @ k) @ us" "us @ to_lower (i @ b) = y"
    | (beyond) us where "x @ k = to_lower c @ us" "us \<noteq> []" "to_lower i @ to_lower b = us @ y"
    using append_eq_append_conv2 [of "to_lower c" "to_lower (i @ b)" "x @ k" y] by fastforce
  then show ?thesis
  proof cases
    case inside
    show ?thesis
    proof (cases us rule: rev_cases)
      case Nil
      with inside show ?thesis by simp
    next
      case (snoc vs v)
      with inside(1) c(1) have "to_lower a = x @ k @ vs" by (simp add: to_lower_def)
      with k c(2) show ?thesis unfolding holds_id_label_def by blast
    qed
  next
    case beyond
    have last: "last us = e" using beyond(1,2) e(1) by (metis last_appendR append_is_Nil_conv last_snoc not_Cons_self2)
    from beyond(3) consider (id) vs where "to_lower i = us @ vs" | (tail) vs where "us = to_lower i @ vs" "to_lower b = vs @ y"
      using append_eq_append_conv2 [of "to_lower i" "to_lower b" us y] by blast
    then have False
    proof cases
      case id
      then have "e \<in> set (to_lower i)" using last beyond(2) last_in_set by fastforce
      with id_free e(2) show False by auto
    next
      case tail
      have vs: "vs \<noteq> []"
      proof
        assume "vs = []"
        then have "e \<in> set (to_lower i)" using tail(1) last beyond(2) last_in_set by fastforce
        with id_free e(2) show False by auto
      qed
      from beyond(1) tail(1) have "x @ k = (to_lower c @ to_lower i) @ vs" by simp
      then consider w where "x = (to_lower c @ to_lower i) @ w" "w @ k = vs" | w where "k = w @ vs"
        using append_eq_append_conv2 [of x k "to_lower c @ to_lower i" vs] by blast
      then show False
      proof cases
        case 1
        with tail(2) have "to_lower b = w @ k @ y" by simp
        with k b(1) show False unfolding holds_id_label_def by blast
      next
        case 2
        with vs tail(2) start e(3) show False by (cases vs) auto
      qed
    qed
    then show ?thesis ..
  qed
qed

text \<open>Removing a label and its id leaves the same text whatever the id is.\<close>

lemma remove_request_id:
  assumes k: "to_lower k \<in> set id_labels"
    and c: "c = a @ [z]" "\<not> holds_id_label a" and b: "\<not> holds_id_label b" "b = [] \<or> hd b \<in> set ''.;,''"
    and i: "request_id i"
  shows "remove_field_once k (c @ i @ b) =
    (if \<exists>x. to_lower c = x @ to_lower k then
       Some (trim_space (take (length c - length k) c @
         (case first_delimiter field_delimiters b of None \<Rightarrow> [] | Some n \<Rightarrow> drop n b)))
     else None)"
proof (cases "\<exists>x. to_lower c = x @ to_lower k")
  case True
  then obtain x where x: "to_lower c = x @ to_lower k" by blast
  have len: "length x + length k = length c" using x by (metis length_append length_to_lower)
  have "index_of (to_lower (c @ i @ b)) (to_lower k) = Some (length x)"
  proof (rule index_of_only)
    show "to_lower (c @ i @ b) = x @ to_lower k @ to_lower (i @ b)" using x by simp
    fix x' y' assume "to_lower (c @ i @ b) = x' @ to_lower k @ y'"
    from label_ends_at_id [OF k this c b i] x show "length x' = length x" by simp
  qed
  then have rest: "substring_after_ci (c @ i @ b) k = i @ b" using len by (simp add: substring_after_ci_def)
  have ne: "i \<noteq> []" using i by (simp add: request_id_def)
  have "list_all (\<lambda>d. d \<noteq> [] \<and> hd d \<notin> set i) field_delimiters"
    using i by (auto simp: field_delimiters_def request_id_def)
  note del = first_delimiter_skip [OF this, of b]
  show ?thesis
    using True rest ne len del by (cases "first_delimiter field_delimiters b") (auto simp: remove_field_once_def Let_def)
next
  case False
  have "index_of (to_lower (c @ i @ b)) (to_lower k) = None"
  proof (rule index_of_absent)
    fix x y show "to_lower (c @ i @ b) \<noteq> x @ to_lower k @ y"
      using label_ends_at_id [OF k _ c b i] False by blast
  qed
  with False show ?thesis by (simp add: remove_field_once_def substring_after_ci_def)
qed

lemma remove_inline_step:
  "remove_field_once k v = None \<Longrightarrow> remove_inline_field k v = v"
  "remove_field_once k v = Some u \<Longrightarrow> remove_inline_field k v = remove_inline_field k u"
  by (subst remove_inline_field.simps, simp)+

lemma remove_fields_same:
  assumes ks: "list_all (\<lambda>k. to_lower k \<in> set id_labels) ks"
    and c: "c = a @ [z]" "\<not> holds_id_label a" and b: "\<not> holds_id_label b" "b = [] \<or> hd b \<in> set ''.;,''"
    and i: "request_id i" "request_id i'" and found: "\<exists>k \<in> set ks. \<exists>x. to_lower c = x @ to_lower k"
  shows "fold remove_inline_field ks (c @ i @ b) = fold remove_inline_field ks (c @ i' @ b)"
  using ks found
proof (induction ks)
  case (Cons k ks)
  then have k: "to_lower k \<in> set id_labels" by simp
  note once = remove_request_id [OF k c b i(1)] remove_request_id [OF k c b i(2)]
  show ?case
  proof (cases "\<exists>x. to_lower c = x @ to_lower k")
    case True
    with once obtain u where u: "remove_field_once k (c @ i @ b) = Some u" "remove_field_once k (c @ i' @ b) = Some u"
      by (simp only: if_True)
    show ?thesis by (simp add: remove_inline_step(2) [OF u(1)] remove_inline_step(2) [OF u(2)])
  next
    case False
    with once have none: "remove_field_once k (c @ i @ b) = None" "remove_field_once k (c @ i' @ b) = None"
      by (simp_all only: if_False)
    have "fold remove_inline_field ks (c @ i @ b) = fold remove_inline_field ks (c @ i' @ b)"
      using Cons False by auto
    then show ?thesis by (simp add: remove_inline_step(1) [OF none(1)] remove_inline_step(1) [OF none(2)])
  qed
qed simp

section \<open>The text\<close>

lemma inline_marker_labels:
  "list_all (\<lambda>k. to_lower k \<in> set id_labels) inline_markers"
  "list_all (\<lambda>m. m \<in> to_lower ` set inline_markers) id_labels"
  by code_simp+

lemma request_id_removed:
  assumes "same_but_request_id l l'"
  shows "fold remove_inline_field inline_markers l = fold remove_inline_field inline_markers l'"
  using assms
proof cases
  case (other_id m a b i i')
  have "[] \<notin> set id_labels" by (simp add: id_labels_def)
  with other_id(3) have "m \<noteq> []" by (cases m) (simp_all add: to_lower_def)
  then have c: "a @ m = (a @ butlast m) @ [last m]" by simp
  from other_id(3) inline_marker_labels(2) have "\<exists>k \<in> set inline_markers. to_lower m = to_lower k"
    by (auto simp: list_all_iff)
  then have "\<exists>k \<in> set inline_markers. \<exists>x. to_lower (a @ m) = x @ to_lower k" by auto
  from remove_fields_same [OF inline_marker_labels(1) c other_id(4-8) this] other_id(1,2) show ?thesis by simp
qed

lemma volatile_service_line: "is_volatile_line l \<longleftrightarrow> service_line l"
  by (simp add: is_volatile_line_def service_line_def volatile_prefixes_def service_labels_def has_prefix_iff)

lemma sanitize_same_report:
  assumes "same_report v w"
  shows "sanitize_oci_error_text v = sanitize_oci_error_text w"
proof -
  have kept: "sanitize_line l = sanitize_line l'"
    if "l = l' \<or> same_but_request_id l l'" "l = trim_space l" "l' = trim_space l'" "l \<noteq> []" "l' \<noteq> []"
      "\<not> service_line l" "\<not> service_line l'" for l l'
    using that request_id_removed [of l l'] by (auto simp: sanitize_line_def Let_def volatile_service_line)
  have line: "l = trim_space l \<and> l \<noteq> [] \<and> \<not> service_line l" if "l \<in> set (lasting_lines u)" for l u
    using that by (auto simp: lasting_lines_def)
  from assms have "list_all2 (\<lambda>l l'. sanitize_line l = sanitize_line l') (lasting_lines v) (lasting_lines w)"
    unfolding same_report_def list_all2_conv_all_nth using kept line by (metis nth_mem)
  then have "map sanitize_line (lasting_lines v) = map sanitize_line (lasting_lines w)"
    by (simp add: list_all2_map1 list_all2_map2 list.rel_eq [symmetric])
  then show ?thesis
    using concat_sanitize [of "split_char (CHR 0x0A) (crlf_to_lf v)"]
      concat_sanitize [of "split_char (CHR 0x0A) (crlf_to_lf w)"]
    by (simp only: sanitize_oci_error_text_def Let_def lasting_lines_def volatile_service_line)
qed

text \<open>Evaluation.\<close>

lemma holds_id_label_search: "holds_id_label s \<longleftrightarrow> list_ex (\<lambda>k. index_of (to_lower s) k \<noteq> None) id_labels"
proof -
  have "index_of (to_lower s) k \<noteq> None \<longleftrightarrow> (\<exists>x y. to_lower s = x @ k @ y)" for k
    using index_of_none [of "to_lower s" k] index_of_absent [of "to_lower s" k] by metis
  then show ?thesis by (simp add: holds_id_label_def list_ex_iff)
qed

lemma service_line_search: "service_line l = list_ex (has_prefix (to_lower l)) service_labels"
  by (auto simp: service_line_def list_ex_iff has_prefix_iff)

end
