(* ===== verification/FunctionProperties.thy ===== *)
theory FunctionProperties
  imports FunctionReconcile JobSamples OciErrorLemmas
begin

text \<open>
  The properties of the \<open>Function\<close> reconciler and of the error texts it shares with the trigger
  reconciler, with witnesses on a sample managed function.
\<close>

section \<open>Samples\<close>

definition sample_config :: function_config where
  "sample_config = \<lparr>fc_region = ''us-ashburn-1'', fc_compartment_id = ''ocid1.c'', fc_application_name = ''app'',
     fc_subnet_ids = [''ocid1.subnet''], fc_nsg_ids = None, fc_application_ocid = [], fc_display_name = ''fn'',
     fc_image = ''img'', fc_memory_in_mbs = 0, fc_memory_in_mb = 0, fc_timeout_in_seconds = 0,
     fc_config = [], fc_environment = [], fc_freeform_tags = []\<rparr>"

definition sample_managed :: "string list \<Rightarrow> time option \<Rightarrow> oci_function" where
  "sample_managed finalizers deleted = (sample_function CondTrue)\<lparr>
     fn_meta := (sample_meta ''f'')\<lparr>om_finalizers := finalizers, om_deletion_timestamp := deleted\<rparr>,
     fn_spec := \<lparr>fs_mode = FunctionModeManaged, fs_function_id = [], fs_existing_function_ocid = [],
       fs_invoke_endpoint = [], fs_config = Some sample_config, fs_application_ref = None,
       fs_deletion_policy = DeletionPolicyDelete\<rparr>\<rparr>"

definition sample_manager :: "go_error option \<Rightarrow> unit lifecycle_manager" where
  "sample_manager err = \<lparr>
     lm_ensure_function = (\<lambda>d w. ((empty_function_state, err), w)),
     lm_ensure_function_in_application = (\<lambda>d w. ((empty_function_state, err), w)),
     lm_delete_managed_function = (\<lambda>t w. ((empty_function_deletion, err), w)),
     lm_ensure_application = (\<lambda>d w. ((empty_application_state, err), w)),
     lm_delete_application = (\<lambda>t w. ((empty_application_deletion, err), w))\<rparr>"

definition sample_functions :: "unit lifecycle_manager option \<Rightarrow> time \<Rightarrow> unit function_reconciler" where
  "sample_functions M now = \<lparr>fr_client = sample_client NotFound, fr_lib = sample_lib, fr_manager = M,
     fr_recorder = True, fr_clock = (\<lambda>w. now)\<rparr>"

definition function_start :: "unit function_io" where
  "function_start = start_io"

lemma sample_functions_lib: "kube_lib_ok (fr_lib (sample_functions M now))"
  by (simp add: sample_functions_def sample_lib_ok)

section \<open>Deletion\<close>

text \<open>
  C17: an OCI function is deleted only when its resource is being deleted, still carries the operator's
  finalizer, is managed, and asks for deletion; and only the function its own status and spec
  identify. A recent failure holds the next attempt back.
\<close>

theorem function_delete_authorised:
  assumes "kube_lib_ok (fr_lib R)"
  shows "\<exists>t. io_trace (snd (reconcile_found_function R f s)) = io_trace s @ t \<and>
    (\<forall>target st err. DeletedFunction target st err \<in> set (calls t) \<longrightarrow>
       om_deletion_timestamp (fn_meta f) \<noteq> None \<and> has_function_finalizer (fr_lib R) f \<and>
       resolved_function_mode f = FunctionModeManaged \<and> function_deletion_policy f = DeletionPolicyDelete \<and>
       function_deletion_backoff f (fr_clock R (io_world s)) = None \<and>
       target = managed_function_delete_target f)"
proof (cases "om_deletion_timestamp (fn_meta f) = None")
  case True
  obtain out s' where run: "reconcile_live_function R f s = (out, s')" by (metis prod.exhaust)
  have "\<exists>t. io_trace s' = io_trace s @ t \<and> list_all ensure_call (calls t)"
    using assms run
  proof (cases rule: reconcile_live_cases)
    case (waiting d')
    from waiting(4) show ?thesis by (rule finish_function_effects) auto
  next
    case (by_mode app p d' s1 t)
    from by_mode(8) show ?thesis by (rule finish_function_effects) (use by_mode in auto)
  qed auto
  with True run show ?thesis
    by (auto simp: reconcile_found_function_def list_all_iff ensure_call_def split: function_call.splits)
next
  case del: False
  obtain out s' where run: "reconcile_function_delete R f s = (out, s')" by (metis prod.exhaust)
  from run have "\<exists>t. io_trace s' = io_trace s @ t \<and>
    (\<forall>target st err. DeletedFunction target st err \<in> set (calls t) \<longrightarrow>
       has_function_finalizer (fr_lib R) f \<and>
       resolved_function_mode f = FunctionModeManaged \<and> function_deletion_policy f = DeletionPolicyDelete \<and>
       function_deletion_backoff f (fr_clock R (io_world s)) = None \<and>
       target = managed_function_delete_target f)"
  proof (cases rule: reconcile_delete_cases)
    case (unconfigured)
    from unconfigured(2) show ?thesis by (rule report_delete_failure_effects) auto
  next
    case (deleting M f' t s1)
    from deleting(11) show ?thesis
      by (rule delete_managed_effects) (use deleting in auto)
  qed (auto simp: quiet_def)
  with del run show ?thesis by (simp add: reconcile_found_function_def)
qed

theorem function_delete_authorised_witness:
  "length (calls (io_trace (snd (reconcile_found_function (sample_functions (Some (sample_manager None)) 5)
     (sample_managed [function_finalizer] (Some 1)) function_start)))) = 1 \<and>
   (\<exists>t. io_trace (snd (reconcile_found_function (sample_functions (Some (sample_manager None)) 5)
     (sample_managed [function_finalizer] (Some 1)) function_start)) = io_trace function_start @ t \<and>
    (\<forall>target st err. DeletedFunction target st err \<in> set (calls t) \<longrightarrow>
       om_deletion_timestamp (fn_meta (sample_managed [function_finalizer] (Some 1))) \<noteq> None \<and>
       has_function_finalizer (fr_lib (sample_functions (Some (sample_manager None)) 5)) (sample_managed [function_finalizer] (Some 1)) \<and>
       resolved_function_mode (sample_managed [function_finalizer] (Some 1)) = FunctionModeManaged \<and>
       function_deletion_policy (sample_managed [function_finalizer] (Some 1)) = DeletionPolicyDelete \<and>
       function_deletion_backoff (sample_managed [function_finalizer] (Some 1))
         (fr_clock (sample_functions (Some (sample_manager None)) 5) (io_world function_start)) = None \<and>
       target = managed_function_delete_target (sample_managed [function_finalizer] (Some 1))))"
proof
  show "length (calls (io_trace (snd (reconcile_found_function (sample_functions (Some (sample_manager None)) 5)
     (sample_managed [function_finalizer] (Some 1)) function_start)))) = 1" by code_simp
qed (rule function_delete_authorised [OF sample_functions_lib])

text \<open>A trace of status writes holds no update of the object; one with a deletion holds it only behind the call.\<close>

lemma status_writes_no_update:
  "\<forall>e \<in> set (writes t). \<exists>h. e = StatusUpdate h \<and> P h \<Longrightarrow> ObjectUpdate g \<notin> set t"
  for t :: "function_effect list"
  by (induction t rule: writes.induct) auto

lemma update_behind_deletion:
  assumes "ObjectUpdate g \<in> set (t @ Called (DeletedFunction x st err) # u)" "ObjectUpdate g \<notin> set t"
    and "\<forall>g. ObjectUpdate g \<in> set u \<longrightarrow> err = None \<and> P g"
  shows "\<exists>pre st' post. t @ Called (DeletedFunction x st err) # u = pre @ Called (DeletedFunction x st' None) # post \<and>
    ObjectUpdate g \<notin> set pre \<and> ObjectUpdate g \<in> set post"
  using assms by (intro exI [of _ t] exI [of _ st] exI [of _ u]) auto

text \<open>
  C10: the finalizer of a managed function with policy \<open>Delete\<close> is released only after the manager
  has reported, in the same reconciliation, that the OCI function is deleted (or was already gone):
  every whole-object write comes after a deletion call without error for this function.
\<close>

theorem function_finalizer_released_after_delete:
  assumes "om_deletion_timestamp (fn_meta f) \<noteq> None"
    and "resolved_function_mode f = FunctionModeManaged" "function_deletion_policy f = DeletionPolicyDelete"
  shows "\<exists>t. io_trace (snd (reconcile_found_function R f s)) = io_trace s @ t \<and>
    (\<forall>g. ObjectUpdate g \<in> set t \<longrightarrow>
       (\<exists>pre st post. t = pre @ Called (DeletedFunction (managed_function_delete_target f) st None) # post \<and>
          ObjectUpdate g \<notin> set pre \<and> ObjectUpdate g \<in> set post))"
proof -
  obtain out s' where run: "reconcile_function_delete R f s = (out, s')" by (metis prod.exhaust)
  from run have "\<exists>t. io_trace s' = io_trace s @ t \<and>
    (\<forall>g. ObjectUpdate g \<in> set t \<longrightarrow>
       (\<exists>pre st post. t = pre @ Called (DeletedFunction (managed_function_delete_target f) st None) # post \<and>
          ObjectUpdate g \<notin> set pre \<and> ObjectUpdate g \<in> set post))"
  proof (cases rule: reconcile_delete_cases)
    case (retained t err)
    with assms show ?thesis by simp
  next
    case unconfigured
    from unconfigured(2) show ?thesis
    proof (rule report_delete_failure_effects)
      fix t
      assume t: "io_trace s' = io_trace s @ t"
        "\<forall>e \<in> set (writes t). \<exists>g. e = StatusUpdate g \<and> om_finalizers (fn_meta g) = om_finalizers (fn_meta f)"
      from status_writes_no_update [OF t(2)] t(1) show ?thesis by (intro exI [of _ t]) simp
    qed
  next
    case (deleting M f' t s1)
    from deleting(11) obtain st err u where u:
      "io_trace s' = io_trace s1 @ Called (DeletedFunction (managed_function_delete_target f') st err) # u"
      "\<forall>g. ObjectUpdate g \<in> set u \<longrightarrow> err = None \<and> g = remove_function_finalizer (fr_lib R) f'"
      by (rule delete_managed_effects)
    show ?thesis
    proof (rule exI [of _ "t @ Called (DeletedFunction (managed_function_delete_target f) st err) # u"],
        intro conjI allI impI)
      show "io_trace s' = io_trace s @ t @ Called (DeletedFunction (managed_function_delete_target f) st err) # u"
        using u(1) deleting by simp
      fix g
      assume "ObjectUpdate g \<in> set (t @ Called (DeletedFunction (managed_function_delete_target f) st err) # u)"
      then show "\<exists>pre st' post.
          t @ Called (DeletedFunction (managed_function_delete_target f) st err) # u =
            pre @ Called (DeletedFunction (managed_function_delete_target f) st' None) # post \<and>
          ObjectUpdate g \<notin> set pre \<and> ObjectUpdate g \<in> set post"
        by (rule update_behind_deletion [OF _ _ u(2)]) (use deleting(8) in auto)
    qed
  next
    case no_finalizer
    then show ?thesis by simp
  next
    case (backoff d)
    then show ?thesis by simp
  next
    case (marking t e)
    then show ?thesis by blast
  qed
  with assms(1) run show ?thesis by (simp add: reconcile_found_function_def)
qed

theorem function_finalizer_released_after_delete_witness:
  "\<exists>t. io_trace (snd (reconcile_found_function (sample_functions (Some (sample_manager None)) 5)
     (sample_managed [function_finalizer] (Some 1)) function_start)) = io_trace function_start @ t \<and>
    (\<forall>g. ObjectUpdate g \<in> set t \<longrightarrow>
       (\<exists>pre st post. t = pre @ Called (DeletedFunction
            (managed_function_delete_target (sample_managed [function_finalizer] (Some 1))) st None) # post \<and>
          ObjectUpdate g \<notin> set pre \<and> ObjectUpdate g \<in> set post))"
  by (rule function_finalizer_released_after_delete)
    (simp_all add: sample_managed_def resolved_function_mode_def function_deletion_policy_def)

text \<open>
  A failed deletion is not repeated for 30 seconds. From the time the failure was recorded until
  30 seconds later, a reconciliation does nothing but ask to be called again when they have passed;
  the wait it asks for is positive and at most 30 seconds.
\<close>

theorem function_deletion_backs_off:
  fixes f :: oci_function
  assumes "om_deletion_timestamp (fn_meta f) \<noteq> None" "has_function_finalizer (fr_lib R) f"
    and "resolved_function_mode f = FunctionModeManaged" "function_deletion_policy f = DeletionPolicyDelete"
    and reason: "reason = ''ManagedFunctionDeleteFailed'' \<or> reason = ''LifecycleManagerNotConfigured''"
    and failed: "fn_status f = (deletion_error_status g now reason m)\<lparr>fst_last_sync_time := Some t\<rparr>"
    and later: "t \<le> fr_clock R (io_world s)" "fr_clock R (io_world s) < t + 30 * second"
  shows "\<exists>d. reconcile_found_function R f s = (Returned (requeue_in d) None, s) \<and>
    d = t + 30 * second - fr_clock R (io_world s) \<and> 0 < d \<and> d \<le> 30 * second"
proof -
  let ?c = "\<lparr>c_type = function_condition_ready, c_status = CondFalse, c_reason = reason, c_message = m,
     c_observed_generation = om_generation (fn_meta g), c_last_transition = now\<rparr>"
  have "is_function_delete_failure f"
    using failed reason
    by (simp add: is_function_delete_failure_def deletion_error_status_def set_function_ready_condition_def
        ready_list.lookup_set)
  moreover have "fst_last_sync_time (fn_status f) = Some t" using failed by simp
  ultimately have "function_deletion_backoff f (fr_clock R (io_world s)) =
      Some (t + 30 * second - fr_clock R (io_world s))"
    using later by (simp add: function_deletion_backoff_def function_delete_requeue_def)
  with assms(1-4) later show ?thesis
    by (simp add: reconcile_found_function_def reconcile_function_delete_def Let_def)
qed

definition sample_failed :: oci_function where
  "sample_failed = (sample_managed [function_finalizer] (Some 1))\<lparr>fn_status :=
     (deletion_error_status (sample_managed [function_finalizer] (Some 1)) 5 ''ManagedFunctionDeleteFailed'' ''m'')
       \<lparr>fst_last_sync_time := Some 5\<rparr>\<rparr>"

theorem function_deletion_backs_off_witness:
  "\<exists>d. reconcile_found_function (sample_functions (Some (sample_manager None)) (5 + second)) sample_failed function_start
     = (Returned (requeue_in d) None, function_start) \<and>
    d = 5 + 30 * second - fr_clock (sample_functions (Some (sample_manager None)) (5 + second)) (io_world function_start) \<and>
    0 < d \<and> d \<le> 30 * second"
  by (rule function_deletion_backs_off [where reason = "''ManagedFunctionDeleteFailed''" and now = 5 and m = "''m''"
        and g = "sample_managed [function_finalizer] (Some 1)"])
    (simp_all add: sample_failed_def sample_managed_def resolved_function_mode_def function_deletion_policy_def
      sample_functions_def second_def has_function_finalizer_def sample_lib_def)

section \<open>The status of a live function\<close>

text \<open>
  C26: every status written for a live function is of its current generation and has a \<open>Ready\<close>
  condition that is true exactly in the phase \<open>Ready\<close>; metadata and spec are those of the object read.
\<close>

theorem function_status_agrees:
  assumes K: "kube_lib_ok (fr_lib R)" and live: "om_deletion_timestamp (fn_meta f) = None"
  shows "\<exists>t. io_trace (snd (reconcile_found_function R f s)) = io_trace s @ t \<and>
    (\<forall>g. StatusUpdate g \<in> set (writes t) \<longrightarrow> fn_meta g = fn_meta f \<and> fn_spec g = fn_spec f \<and>
       fst_observed_generation (fn_status g) = om_generation (fn_meta f) \<and> function_agrees g)"
proof -
  obtain out s' where run: "reconcile_live_function R f s = (out, s')" by (metis prod.exhaust)
  have finish: "\<exists>u. io_trace s' = io_trace s1 @ u \<and>
      (\<forall>g. StatusUpdate g \<in> set (writes u) \<longrightarrow> fn_meta g = fn_meta f \<and> fn_spec g = fn_spec f \<and>
         fst_observed_generation (fn_status g) = om_generation (fn_meta f) \<and> function_agrees g)"
    if "finish_function R f d' r s1 = (out, s')" "settled now (fresh_desired f) d'" for d' r s1 now
    using that(1)
  proof (rule finish_function_effects)
    fix t
    assume t: "io_trace s' = io_trace s1 @ t"
      "\<forall>e \<in> set (writes t). \<exists>g. e = StatusUpdate g \<and> fn_meta g = fn_meta f \<and> fn_spec g = fn_spec f \<and>
        without_sync (fn_status g) = without_sync (fn_status d')"
    show ?thesis
    proof (intro exI [of _ t] conjI allI impI)
      fix g
      assume "StatusUpdate g \<in> set (writes t)"
      with t(2) have g: "fn_meta g = fn_meta f" "fn_spec g = fn_spec f"
        "without_sync (fn_status g) = without_sync (fn_status d')" by blast+
      then show "fn_meta g = fn_meta f" "fn_spec g = fn_spec f" by blast+
      from that(2) without_sync_fields [OF g(3)] without_sync_agrees [OF g(3)]
      show "fst_observed_generation (fn_status g) = om_generation (fn_meta f)" "function_agrees g"
        by (simp_all add: settled_def)
    qed (rule t(1))
  qed
  have "\<exists>t. io_trace s' = io_trace s @ t \<and>
    (\<forall>g. StatusUpdate g \<in> set (writes t) \<longrightarrow> fn_meta g = fn_meta f \<and> fn_spec g = fn_spec f \<and>
       fst_observed_generation (fn_status g) = om_generation (fn_meta f) \<and> function_agrees g)"
    using K run
  proof (cases rule: reconcile_live_cases)
    case (waiting d')
    from finish [OF waiting(4,3)] show ?thesis .
  next
    case (by_mode app p d' s1 t)
    from finish [OF by_mode(8,4)] obtain u where "io_trace s' = io_trace s1 @ u"
      "\<forall>g. StatusUpdate g \<in> set (writes u) \<longrightarrow> fn_meta g = fn_meta f \<and> fn_spec g = fn_spec f \<and>
         fst_observed_generation (fn_status g) = om_generation (fn_meta f) \<and> function_agrees g" by blast
    with by_mode(5,6) show ?thesis by (intro exI [of _ "t @ u"]) auto
  qed auto
  with live run show ?thesis by (simp add: reconcile_found_function_def)
qed

theorem function_status_agrees_witness:
  "length (writes (io_trace (snd (reconcile_found_function (sample_functions (Some (sample_manager None)) 5)
     (sample_managed [function_finalizer] None) function_start)))) = 1 \<and>
   (\<exists>t. io_trace (snd (reconcile_found_function (sample_functions (Some (sample_manager None)) 5)
     (sample_managed [function_finalizer] None) function_start)) = io_trace function_start @ t \<and>
    (\<forall>g. StatusUpdate g \<in> set (writes t) \<longrightarrow> fn_meta g = fn_meta (sample_managed [function_finalizer] None) \<and>
       fn_spec g = fn_spec (sample_managed [function_finalizer] None) \<and>
       fst_observed_generation (fn_status g) = om_generation (fn_meta (sample_managed [function_finalizer] None)) \<and>
       function_agrees g))"
proof
  show "length (writes (io_trace (snd (reconcile_found_function (sample_functions (Some (sample_manager None)) 5)
     (sample_managed [function_finalizer] None) function_start)))) = 1" by code_simp
qed (rule function_status_agrees [OF sample_functions_lib], simp add: sample_managed_def)

text \<open>
  The finalizer settles in one step. A live reconciliation that writes the object itself leaves it
  with the finalizer exactly when it is managed with policy \<open>Delete\<close>; reconciling what was
  written never writes the object again.
\<close>

theorem function_finalizer_settles:
  assumes K: "kube_lib_ok (fr_lib R)" and live: "om_deletion_timestamp (fn_meta f) = None"
    and written: "io_trace (snd (reconcile_found_function R f s)) = io_trace s @ t" "ObjectUpdate g \<in> set t"
  shows "has_function_finalizer (fr_lib R) g =
      should_have_function_finalizer g (resolved_function_mode g) \<and>
    (\<exists>u. io_trace (snd (reconcile_found_function R g s')) = io_trace s' @ u \<and> (\<forall>h. ObjectUpdate h \<notin> set u))"
proof -
  let ?K = "fr_lib R"
  have no_update: "\<forall>e \<in> set (writes t). \<exists>h. e = StatusUpdate h \<and> P h \<Longrightarrow> ObjectUpdate g \<notin> set t"
    for t :: "function_effect list" and g P
    by (induction t rule: writes.induct) auto
  have no_writes: "writes t = [] \<Longrightarrow> ObjectUpdate g \<notin> set t" for t :: "function_effect list" and g
    by (induction t rule: writes.induct) auto
  have settled_run: "\<exists>u. io_trace s2 = io_trace s1 @ u \<and> (\<forall>h. ObjectUpdate h \<notin> set u)"
    if run: "reconcile_live_function R h s1 = (out, s2)" and settled: "finalizer_settled ?K h" for h s1 out s2
    using K run
  proof (cases rule: reconcile_live_cases)
    case (waiting d')
    from waiting(4) show ?thesis by (rule finish_function_effects) (use no_update in blast)
  next
    case (by_mode app p d' s3 v)
    from by_mode(8) show ?thesis
    proof (rule finish_function_effects)
      fix u
      assume u: "io_trace s2 = io_trace s3 @ u"
        "\<forall>e \<in> set (writes u). \<exists>g. e = StatusUpdate g \<and> fn_meta g = fn_meta h \<and> fn_spec g = fn_spec h \<and>
          without_sync (fn_status g) = without_sync (fn_status d')"
      from no_update [OF u(2)] no_writes [OF by_mode(6)] u(1) by_mode(5) show ?thesis
        by (intro exI [of _ "v @ u"]) auto
    qed
  qed (use settled in \<open>auto simp: finalizer_settled_def\<close>)
  obtain out s1 where run: "reconcile_live_function R f s = (out, s1)" by (metis prod.exhaust)
  with live written have t: "io_trace s1 = io_trace s @ t" by (simp add: reconcile_found_function_def)
  have same: "resolved_function_mode (fn_meta_update m f) = resolved_function_mode f"
    "function_deletion_policy (fn_meta_update m f) = function_deletion_policy f" for m
    by (simp_all add: resolved_function_mode_def resolved_spec_function_id_def function_deletion_policy_def
        cong: function_mode.case_cong)
  have g: "finalizer_settled ?K g \<and> om_deletion_timestamp (fn_meta g) = None"
    using K run
  proof (cases rule: reconcile_live_cases)
    case add
    with t have "t = [ObjectUpdate (add_function_finalizer ?K f)]" by simp
    with written(2) have "g = add_function_finalizer ?K f" by simp
    with add live show ?thesis
      by (simp add: finalizer_settled_def has_function_finalizer_def add_function_finalizer_def same
          should_have_function_finalizer_def kube_finalizers [OF K])
  next
    case remove
    with t have "t = [ObjectUpdate (remove_function_finalizer ?K f)]" by simp
    with written(2) have "g = remove_function_finalizer ?K f" by simp
    with remove live show ?thesis
      by (simp add: finalizer_settled_def has_function_finalizer_def remove_function_finalizer_def same
          should_have_function_finalizer_def kube_finalizers [OF K])
  next
    case (lookup_failed e d')
    with t written show ?thesis by simp
  next
    case (waiting d')
    from settled_run [OF run waiting(1)] t written(2) show ?thesis by auto
  next
    case (by_mode app p d' s1 t)
    from settled_run [OF run by_mode(1)] \<open>io_trace s1 = io_trace s @ t\<close> t written(2) show ?thesis by auto
  qed
  obtain out2 s2 where run2: "reconcile_live_function R g s' = (out2, s2)" by (metis prod.exhaust)
  from settled_run [OF run2] g run2 show ?thesis
    by (simp add: finalizer_settled_def reconcile_found_function_def)
qed

theorem function_finalizer_settles_witness:
  "has_function_finalizer sample_lib (add_function_finalizer sample_lib (sample_managed [] None))"
proof -
  let ?R = "sample_functions None 5" and ?f = "sample_managed [] None"
  have "io_trace (snd (reconcile_found_function ?R ?f function_start)) = io_trace function_start @
      [ObjectUpdate (add_function_finalizer sample_lib ?f)]"
    by code_simp
  from function_finalizer_settles [OF sample_functions_lib _ this] show ?thesis
    by (simp add: sample_functions_def sample_managed_def add_function_finalizer_def
        should_have_function_finalizer_def resolved_function_mode_def function_deletion_policy_def)
qed

text \<open>
  A live function's status is written again by every reconciliation at a later time, even when
  nothing changed: the desired status starts from no conditions, so the transition time of \<open>Ready\<close>
  is always the time of the reconciliation, and the comparison that should suppress the write never
  succeeds. (The controller watches its own objects, so each write triggers the next one.)
\<close>

theorem function_status_always_rewritten:
  assumes K: "kube_lib_ok (fr_lib R)" and live: "om_deletion_timestamp (fn_meta f) = None"
    and settled: "has_function_finalizer (fr_lib R) f = should_have_function_finalizer f (resolved_function_mode f)"
    and no_ref: "application_ref_name f = []"
    and written: "set_at t0 f" and later: "t0 \<noteq> fr_clock R (io_world s)"
  shows "\<exists>t g. io_trace (snd (reconcile_found_function R f s)) = io_trace s @ t \<and> StatusUpdate g \<in> set (writes t)"
proof -
  let ?now = "fr_clock R (io_world s)"
  obtain out s' where run: "reconcile_live_function R f s = (out, s')" by (metis prod.exhaust)
  have finish: "\<exists>u g. io_trace s' = io_trace s1 @ u \<and> StatusUpdate g \<in> set (writes u)"
    if fin: "finish_function R f d' r s1 = (out, s')" and st: "settled ?now (fresh_desired f) d'" for d' r s1
    using fin
  proof (rule finish_function_effects)
    fix t
    assume t: "io_trace s' = io_trace s1 @ t" "calls t = []"
      "\<forall>e \<in> set (writes t). \<exists>g. e = StatusUpdate g \<and> fn_meta g = fn_meta f \<and> fn_spec g = fn_spec f \<and>
        without_sync (fn_status g) = without_sync (fn_status d')"
      "t = [] \<longleftrightarrow> without_sync (fn_status f) = without_sync (fn_status d')"
    have "fst_conditions (fn_status f) \<noteq> fst_conditions (fn_status d')"
      using written later st by (auto simp: settled_def set_at_def split: option.splits)
    then have changed: "without_sync (fn_status f) \<noteq> without_sync (fn_status d')"
      using without_sync_fields(2) by blast
    obtain f' patched err s2 where upd:
      "update_function_status_if_changed R f (fn_status d') True s1 = ((f', patched, err), s2)"
      by (metis prod.exhaust)
    with fin have "s2 = s'" by (auto simp: finish_function_def split: option.splits)
    with upd changed have "io_trace s' = io_trace s1 @ [StatusUpdate f']"
      by (auto elim: update_status_trace)
    then show ?thesis by auto
  qed
  have "\<exists>t g. io_trace s' = io_trace s @ t \<and> StatusUpdate g \<in> set (writes t)"
    using K run
  proof (cases rule: reconcile_live_cases)
    case (waiting d')
    with no_ref show ?thesis by (simp add: resolve_function_application_ref_def)
  next
    case (lookup_failed e d')
    with no_ref show ?thesis by (simp add: resolve_function_application_ref_def)
  next
    case (by_mode app p d' s1 t)
    from finish [OF by_mode(8,4)] obtain u g where "io_trace s' = io_trace s1 @ u" "StatusUpdate g \<in> set (writes u)"
      by blast
    with by_mode(5) show ?thesis by (intro exI [of _ "t @ u"] exI [of _ g]) simp
  qed (use settled in simp_all)
  with live run show ?thesis by (simp add: reconcile_found_function_def)
qed

theorem function_status_always_rewritten_witness:
  "\<exists>t g. io_trace (snd (reconcile_found_function (sample_functions None 9) (sample_function CondTrue) function_start))
     = io_trace function_start @ t \<and> StatusUpdate g \<in> set (writes t)"
  by (rule function_status_always_rewritten [OF sample_functions_lib, of _ None 9 0])
    (simp_all add: sample_function_def sample_meta_def sample_functions_def has_function_finalizer_def sample_lib_def
      should_have_function_finalizer_def resolved_function_mode_def application_ref_name_def set_at_def
      lookup_condition_def sample_condition_def)

section \<open>Error texts\<close>

text \<open>
  C37: the message that \<open>normalizeFunctionLifecycleError\<close> makes of an error (for a failed deletion of a function
  or an application and for a failed call for an application; other failures of functions are stored as they
  are) depends neither on the lines in which the SDK reports the operation, the time, the client version,
  the endpoint and its advice, nor on blank lines, nor on the request id inside a line. It is never empty and
  ends as a sentence.
\<close>

theorem lifecycle_error_stable:
  assumes "same_report (err_text e) (err_text e')"
  shows "normalize_function_lifecycle_error operation (Some e) = normalize_function_lifecycle_error operation (Some e') \<and>
    normalize_function_lifecycle_error operation (Some e) \<noteq> [] \<and>
    last (normalize_function_lifecycle_error operation (Some e)) \<in> set ''.!?''"
proof -
  have "trim_space (operation @ '' failed: '' @ m) \<noteq> []" for m
    by (auto simp: trim_space_eq_Nil is_space_def)
  then have "ensure_sentence (operation @ '' failed: '' @ m) \<noteq> [] \<and>
      last (ensure_sentence (operation @ '' failed: '' @ m)) \<in> set ''.!?''" for m
    using ensure_sentence_shape [of "operation @ '' failed: '' @ m"] by blast
  with sanitize_same_report [OF assms] show ?thesis
    unfolding normalize_function_lifecycle_error.simps Let_def by simp
qed

text \<open>Two reports of one conflict, as the SDK prints them.\<close>

definition sdk_conflict :: "string \<Rightarrow> string \<Rightarrow> go_error" where
  "sdk_conflict i at = ErrorText (''Error returned by Functions Service. Http Status Code: 409. Error Code: Conflict. '' @
     ''Opc request id: '' @ i @ ''. Message: still in use'' @ newline @ ''Timestamp: '' @ at @ newline)"

theorem lifecycle_error_stable_witness:
  "normalize_function_lifecycle_error ''Delete managed OCI Function'' (Some (sdk_conflict ''A1/B2'' ''10:00'')) =
   normalize_function_lifecycle_error ''Delete managed OCI Function'' (Some (sdk_conflict ''C3/D4'' ''10:01''))"
proof -
  let ?a = "''Error returned by Functions Service. Http Status Code: 409. Error Code: Conflict. ''"
  let ?m = "''Opc request id:''" and ?b = "''. Message: still in use''"
  have lines: "lasting_lines (err_text (sdk_conflict ''A1/B2'' ''10:00'')) = [?a @ ?m @ '' A1/B2'' @ ?b]"
    "lasting_lines (err_text (sdk_conflict ''C3/D4'' ''10:01'')) = [?a @ ?m @ '' C3/D4'' @ ?b]"
    by (simp_all add: lasting_lines_def service_line_search, code_simp+)
  have "same_but_request_id (?a @ ?m @ '' A1/B2'' @ ?b) (?a @ ?m @ '' C3/D4'' @ ?b)"
    by (rule other_id; (unfold holds_id_label_search)?; code_simp)
  then have "same_report (err_text (sdk_conflict ''A1/B2'' ''10:00'')) (err_text (sdk_conflict ''C3/D4'' ''10:01''))"
    unfolding same_report_def lines by simp
  from lifecycle_error_stable [OF this] show ?thesis by blast
qed

end
