(* ===== verification/OciLifecycle.thy ===== *)
theory OciLifecycle
  imports Lifecycle "HOL-Library.Multiset"
begin

text \<open>
  \<open>internal/lifecycle/oci.go\<close>: the lifecycle manager over the OCI SDK. The two SDK clients (Functions
  management and Logging management) are parameter records over the world; an SDK operation returns an
  error or its response and may change the world. Everything the operator itself decides (which
  application or function it adopts, what it updates, when it refuses to delete) is modelled.
  \<open>SetRegion\<close> changes the client, so it changes the world too.
\<close>

section \<open>The SDK as a parameter\<close>

text \<open>Pointers are options, lifecycle states the strings of the SDK's enumerations.\<close>

record sdk_application =
  ap_id :: "string option"
  ap_display_name :: "string option"
  ap_lifecycle_state :: string
  ap_subnet_ids :: "string list"
  ap_nsg_ids :: "string list"
  ap_config :: "go_map option"
  ap_logging :: "string option"

record sdk_function =
  fu_id :: "string option"
  fu_display_name :: "string option"
  fu_lifecycle_state :: string
  fu_image :: "string option"
  fu_memory_in_mbs :: "int option"
  fu_timeout_in_seconds :: "int option"
  fu_config :: "go_map option"
  fu_invoke_endpoint :: "string option"

datatype log_source =
    OciServiceSource "string option" "string option" "string option"
  | OtherLogSource string

record sdk_log =
  lo_id :: "string option"
  lo_log_group_id :: "string option"
  lo_display_name :: "string option"
  lo_log_type :: string
  lo_is_enabled :: "bool option"
  lo_lifecycle_state :: string
  lo_configuration :: "log_source option"

record create_application_details =
  ca_compartment_id :: string
  ca_display_name :: string
  ca_subnet_ids :: "string list option"
  ca_nsg_ids :: "string list option"
  ca_config :: "go_map option"
  ca_logging :: "string option"
  ca_freeform_tags :: "go_map option"

record update_application_details =
  ua_nsg_ids :: "string list option"
  ua_config :: "go_map option"
  ua_logging :: "string option"

record create_function_details =
  cf_application_id :: string
  cf_display_name :: string
  cf_image :: string
  cf_memory_in_mbs :: int
  cf_timeout_in_seconds :: int
  cf_config :: "go_map option"
  cf_freeform_tags :: "go_map option"

record update_function_details =
  uf_image :: string
  uf_memory_in_mbs :: int
  uf_timeout_in_seconds :: int
  uf_config :: "go_map option"
  uf_freeform_tags :: "go_map option"

record create_log_details =
  cl_display_name :: string
  cl_is_enabled :: bool
  cl_compartment_id :: string
  cl_service :: string
  cl_resource :: string
  cl_category :: string

record update_log_details =
  ul_display_name :: "string option"
  ul_is_enabled :: "bool option"

text \<open>A service call: an error or the response, and the world after it.\<close>

type_synonym ('a, 'w) service = "'w \<Rightarrow> (go_error + 'a) \<times> 'w"

record 'w functions_client =
  sdk_set_region :: "string \<Rightarrow> 'w \<Rightarrow> 'w"
  sdk_list_applications :: "string \<Rightarrow> string \<Rightarrow> (sdk_application list, 'w) service"
  sdk_create_application :: "create_application_details \<Rightarrow> (sdk_application, 'w) service"
  sdk_get_application :: "string \<Rightarrow> (sdk_application, 'w) service"
  sdk_update_application :: "string \<Rightarrow> update_application_details \<Rightarrow> (sdk_application, 'w) service"
  sdk_delete_application :: "string \<Rightarrow> (unit, 'w) service"
  sdk_list_functions :: "string \<Rightarrow> string option \<Rightarrow> (sdk_function list \<times> string option, 'w) service"
  sdk_create_function :: "create_function_details \<Rightarrow> (sdk_function, 'w) service"
  sdk_get_function :: "string \<Rightarrow> (sdk_function, 'w) service"
  sdk_update_function :: "string \<Rightarrow> update_function_details \<Rightarrow> (sdk_function, 'w) service"
  sdk_delete_function :: "string \<Rightarrow> (unit, 'w) service"

record 'w logging_client =
  log_set_region :: "string \<Rightarrow> 'w \<Rightarrow> 'w"
  log_list :: "string \<Rightarrow> string option \<Rightarrow> (sdk_log list \<times> string option, 'w) service"
  log_create :: "string \<Rightarrow> create_log_details \<Rightarrow> (unit, 'w) service"
  log_update :: "string \<Rightarrow> string \<Rightarrow> update_log_details \<Rightarrow> (unit, 'w) service"

text \<open>
  The manager value; \<open>ol_page_bound\<close> bounds the pages of logs followed (the code's loop has no bound;
  a listing that ends within the bound does not depend on it, \<open>list_logs_enough\<close>).
\<close>

record 'w oci_manager =
  ol_configured :: bool
  ol_client :: "'w functions_client"
  ol_logging :: "'w logging_client option"
  ol_page_bound :: nat

section \<open>Small conversions\<close>

definition string_value :: "string option \<Rightarrow> string" where
  "string_value v = (case v of None \<Rightarrow> [] | Some s \<Rightarrow> s)"

definition bool_value :: "bool option \<Rightarrow> bool" where
  "bool_value v = (case v of None \<Rightarrow> False | Some b \<Rightarrow> b)"

definition int_value :: "int option \<Rightarrow> int" where
  "int_value v = (case v of None \<Rightarrow> 0 | Some i \<Rightarrow> i)"

definition copy_map :: "go_map option \<Rightarrow> go_map option" where
  "copy_map m = (case m of None \<Rightarrow> None | Some kvs \<Rightarrow> copy_string_map kvs)"

definition copy_string_slice :: "string list option \<Rightarrow> string list option" where
  "copy_string_slice v = (case v of None \<Rightarrow> None | Some xs \<Rightarrow> if xs = [] then None else Some xs)"

definition nil_to_empty_map :: "go_map option \<Rightarrow> go_map" where
  "nil_to_empty_map m = (case m of None \<Rightarrow> [] | Some kvs \<Rightarrow> kvs)"

definition nil_to_empty_slice :: "string list option \<Rightarrow> string list" where
  "nil_to_empty_slice v = (case v of None \<Rightarrow> [] | Some xs \<Rightarrow> xs)"

fun seen_all :: "(string \<Rightarrow> nat) \<Rightarrow> string list \<Rightarrow> bool" where
  "seen_all seen [] = True"
| "seen_all seen (v # vs) = (if seen v = 0 then False else seen_all (seen(v := seen v - 1)) vs)"

definition same_string_set :: "string list \<Rightarrow> string list \<Rightarrow> bool" where
  "same_string_set a b \<longleftrightarrow> (if length a \<noteq> length b then False else seen_all (count_list a) b)"

definition format_string_list :: "string list \<Rightarrow> string" where
  "format_string_list vs = (if vs = [] then ''[]'' else ''['' @ join vs '', '' @ '']'')"

definition has_empty_string :: "string list \<Rightarrow> bool" where
  "has_empty_string vs = list_ex (\<lambda>v. trim_space v = []) vs"

definition state_active :: string where "state_active = ''ACTIVE''"
definition state_failed :: string where "state_failed = ''FAILED''"

definition gone_state :: "string \<Rightarrow> bool" where
  "gone_state s \<longleftrightarrow> s = ''DELETED'' \<or> s = ''DELETING''"

definition service_not_found :: "go_error \<Rightarrow> bool" where
  "service_not_found e = has_service_status e 404"

definition service_conflict :: "go_error \<Rightarrow> bool" where
  "service_conflict e = has_service_status e 409"

definition region_of_ocid :: "string \<Rightarrow> string \<Rightarrow> string" where
  "region_of_ocid kind ocid =
     (case split_char (CHR ''.'') (trim_space ocid) of
        p0 # p1 # p2 # p3 # p4 # ps \<Rightarrow> if p0 = ''ocid1'' \<and> p1 = kind then p3 else []
      | _ \<Rightarrow> [])"

definition effective_application_region :: "string \<Rightarrow> string \<Rightarrow> string" where
  "effective_application_region region ocid =
     (if trim_space region \<noteq> [] then trim_space region else region_of_ocid ''fnapp'' ocid)"

definition effective_function_region :: "string \<Rightarrow> string \<Rightarrow> string" where
  "effective_function_region region ocid =
     (if trim_space region \<noteq> [] then trim_space region else region_of_ocid ''fnfunc'' ocid)"

section \<open>Invocation log settings\<close>

definition invocation_logging_enabled :: "application_logging option \<Rightarrow> bool" where
  "invocation_logging_enabled lg = (case lg of None \<Rightarrow> False
     | Some l \<Rightarrow> (case lg_invocation_logs l of None \<Rightarrow> False | Some logs \<Rightarrow> log_enabled logs))"

definition effective_log_display_name :: "string \<Rightarrow> invocation_logs \<Rightarrow> string" where
  "effective_log_display_name app_name logs =
     (if trim_space (log_display_name logs) \<noteq> [] then trim_space (log_display_name logs)
      else if trim_space app_name = [] then ''function-application-invocation''
      else trim_space app_name @ ''-invocation'')"

definition effective_log_service :: "invocation_logs \<Rightarrow> string" where
  "effective_log_service logs =
     (if trim_space (log_service logs) \<noteq> [] then trim_space (log_service logs) else ''functions'')"

definition effective_log_category :: "invocation_logs \<Rightarrow> string" where
  "effective_log_category logs =
     (if trim_space (log_category logs) \<noteq> [] then trim_space (log_category logs) else ''invoke'')"

definition effective_log_line_format :: "application_logging option \<Rightarrow> string" where
  "effective_log_line_format lg = (case lg of None \<Rightarrow> ''JSON''
     | Some l \<Rightarrow> (case lg_invocation_logs l of None \<Rightarrow> ''JSON''
        | Some logs \<Rightarrow> if trim_space (log_line_format logs) = [] then ''JSON'' else trim_space (log_line_format logs)))"

definition application_logging_config :: "application_logging option \<Rightarrow> string option" where
  "application_logging_config lg =
     (if \<not> invocation_logging_enabled lg then None else Some (effective_log_line_format lg))"

definition same_application_logging :: "string option \<Rightarrow> application_logging option \<Rightarrow> bool" where
  "same_application_logging actual desired =
     (if \<not> invocation_logging_enabled desired then True
      else case actual of None \<Rightarrow> False | Some fmt \<Rightarrow> fmt = effective_log_line_format desired)"

definition log_summary_matches :: "string \<Rightarrow> string \<Rightarrow> string \<Rightarrow> string \<Rightarrow> sdk_log \<Rightarrow> bool" where
  "log_summary_matches grp app_id service category l =
     (if string_value (lo_log_group_id l) \<noteq> grp \<or> lo_log_type l \<noteq> ''SERVICE'' then False
      else case lo_configuration l of
        Some (OciServiceSource sv rs ct) \<Rightarrow>
          string_value sv = service \<and> string_value rs = app_id \<and> string_value ct = category
      | _ \<Rightarrow> False)"

definition log_name_conflict :: "sdk_log list \<Rightarrow> string \<Rightarrow> string \<Rightarrow> string \<Rightarrow> sdk_log option" where
  "log_name_conflict logs grp display_name allowed =
     find (\<lambda>l. string_value (lo_log_group_id l) = grp \<and> string_value (lo_display_name l) = display_name \<and>
       string_value (lo_id l) \<noteq> allowed) logs"

definition manageable_log_state :: "string \<Rightarrow> bool" where
  "manageable_log_state s \<longleftrightarrow> s = [] \<or> s = ''ACTIVE'' \<or> s = ''INACTIVE''"

definition pending_log_state :: "string \<Rightarrow> bool" where
  "pending_log_state s \<longleftrightarrow> s = ''CREATING'' \<or> s = ''UPDATING'' \<or> s = ''DELETING''"

definition log_source_description :: "sdk_log \<Rightarrow> string" where
  "log_source_description l = (case lo_configuration l of
     None \<Rightarrow> ''<unknown>''
   | Some (OtherLogSource t) \<Rightarrow> t
   | Some (OciServiceSource sv rs ct) \<Rightarrow>
       string_value sv @ ''/'' @ string_value rs @ ''/'' @ string_value ct)"

definition pending_log_message :: "go_error \<Rightarrow> string option" where
  "pending_log_message e = (case e of PendingLogError m \<Rightarrow> Some m | _ \<Rightarrow> None)"

section \<open>Validation\<close>

definition validate_sizes :: "string \<Rightarrow> string \<Rightarrow> int \<Rightarrow> int \<Rightarrow> go_error option" where
  "validate_sizes display_name img memory timeout =
     (if trim_space display_name = [] then Some (ErrorText ''managed Function requires spec.config.displayName'')
      else if trim_space img = [] then Some (ErrorText ''managed Function requires spec.config.image'')
      else if memory \<le> 0 then Some (ErrorText ''managed Function requires spec.config.memoryInMBs'')
      else if timeout \<le> 0 then Some (ErrorText ''managed Function requires spec.config.timeoutInSeconds'')
      else None)"

definition validate_desired_function :: "desired_function \<Rightarrow> go_error option" where
  "validate_desired_function d =
     (if trim_space (df_region d) = [] then Some (ErrorText ''managed Function requires spec.config.region'')
      else if trim_space (df_compartment_id d) = [] then
        Some (ErrorText ''managed Function requires spec.config.compartmentId'')
      else if trim_space (df_application_name d) = [] then
        Some (ErrorText ''managed Function requires spec.config.applicationName'')
      else if df_subnet_ids d = [] then Some (ErrorText ''managed Function requires spec.config.subnetIds'')
      else if df_manage_application_nsg_ids d \<and> has_empty_string (nil_to_empty_slice (df_application_nsg_ids d)) then
        Some (ErrorText ''managed Function requires spec.config.nsgIds entries to be non-empty'')
      else validate_sizes (df_display_name d) (df_image d) (df_memory_in_mbs d) (df_timeout_in_seconds d))"

definition validate_desired_function_in_application :: "desired_function_in_application \<Rightarrow> go_error option" where
  "validate_desired_function_in_application d =
     (if trim_space (dfa_region d) = [] then
        Some (ErrorText ''managed Function with applicationRef requires referenced FunctionApplication status.region'')
      else if trim_space (dfa_application_id d) = [] then
        Some (ErrorText ''managed Function with applicationRef requires referenced FunctionApplication status.applicationId'')
      else validate_sizes (dfa_display_name d) (dfa_image d) (dfa_memory_in_mbs d) (dfa_timeout_in_seconds d))"

definition enabled_logs :: "application_logging option \<Rightarrow> invocation_logs option" where
  "enabled_logs lg = (if invocation_logging_enabled lg then Option.bind lg lg_invocation_logs else None)"

definition validate_logs :: "invocation_logs option \<Rightarrow> go_error option" where
  "validate_logs lg = (case lg of
     None \<Rightarrow> None
   | Some logs \<Rightarrow>
       if trim_space (log_group_id logs) = [] then
         Some (ErrorText ''FunctionApplication logging.invocationLogs.logGroupId is required when invocation logs are enabled'')
       else if trim_space (effective_log_service logs) = [] then
         Some (ErrorText ''FunctionApplication logging.invocationLogs.service must be non-empty'')
       else if trim_space (effective_log_category logs) = [] then
         Some (ErrorText ''FunctionApplication logging.invocationLogs.category must be non-empty'')
       else None)"

definition validate_desired_application :: "desired_application \<Rightarrow> go_error option" where
  "validate_desired_application d =
     (let existing = trim_space (da_existing_application_id d) in
      if trim_space (effective_application_region (da_region d) (da_existing_application_id d)) = [] then
        Some (ErrorText ''FunctionApplication requires spec.region unless spec.existingApplicationId contains a region'')
      else if da_mode d = ApplicationModeUnset then Some (ErrorText ''FunctionApplication requires mode'')
      else if existing = [] \<and> trim_space (da_compartment_id d) = [] then
        Some (ErrorText ''FunctionApplication requires spec.compartmentId when spec.existingApplicationId is empty'')
      else if existing = [] \<and> trim_space (da_display_name d) = [] then
        Some (ErrorText ''FunctionApplication requires spec.displayName when spec.existingApplicationId is empty'')
      else if da_mode d = ApplicationModeManaged \<and> existing = [] \<and> da_subnet_ids d = [] then
        Some (ErrorText ''managed FunctionApplication requires spec.subnetIds'')
      else if da_manage_application_nsg_ids d \<and> has_empty_string (nil_to_empty_slice (da_application_nsg_ids d)) then
        Some (ErrorText ''FunctionApplication requires spec.nsgIds entries to be non-empty'')
      else validate_logs (enabled_logs (da_logging d)))"

section \<open>Applications\<close>

definition desired_application_from_function :: "desired_function \<Rightarrow> desired_application" where
  "desired_application_from_function d =
     \<lparr>da_mode = ApplicationModeManaged, da_region = df_region d, da_compartment_id = df_compartment_id d,
      da_display_name = df_application_name d, da_subnet_ids = df_subnet_ids d,
      da_application_nsg_ids = df_application_nsg_ids d,
      da_manage_application_nsg_ids = df_manage_application_nsg_ids d, da_config = None,
      da_freeform_tags = copy_map (df_freeform_tags d), da_logging = None, da_existing_application_id = [],
      da_manage_application_configuration = False, da_manage_application_logging = False\<rparr>"

definition empty_application :: sdk_application where
  "empty_application = \<lparr>ap_id = None, ap_display_name = None, ap_lifecycle_state = [], ap_subnet_ids = [],
     ap_nsg_ids = [], ap_config = None, ap_logging = None\<rparr>"

definition get_oci_application :: "'w functions_client \<Rightarrow> string \<Rightarrow> (sdk_application, 'w) service" where
  "get_oci_application C i w =
     (if i = [] then (Inl (ErrorText ''OCI application lookup returned an empty application OCID''), w)
      else case sdk_get_application C i w of
        (Inl e, w1) \<Rightarrow> (Inl (WrapError (''get OCI Functions application '' @ i) e), w1)
      | (Inr app, w1) \<Rightarrow> (Inr app, w1))"

definition lifecycle_normal :: "string \<Rightarrow> string \<Rightarrow> lifecycle_event" where
  "lifecycle_normal reason message = \<lparr>le_type = LifecycleEventNormal, le_reason = reason, le_message = message\<rparr>"

definition lifecycle_warning :: "string \<Rightarrow> string \<Rightarrow> lifecycle_event" where
  "lifecycle_warning reason message = \<lparr>le_type = LifecycleEventWarning, le_reason = reason, le_message = message\<rparr>"

text \<open>What an update of an application would send, and which parts it concerns.\<close>

definition nsg_update_needed :: "desired_application \<Rightarrow> sdk_application \<Rightarrow> bool" where
  "nsg_update_needed d app \<longleftrightarrow> da_manage_application_nsg_ids d \<and>
     \<not> same_string_set (ap_nsg_ids app) (nil_to_empty_slice (da_application_nsg_ids d))"

definition config_update_needed :: "desired_application \<Rightarrow> sdk_application \<Rightarrow> bool" where
  "config_update_needed d app \<longleftrightarrow> da_manage_application_configuration d \<and>
     \<not> same_map (nil_to_empty_map (ap_config app)) (nil_to_empty_map (da_config d))"

definition logging_update_needed :: "desired_application \<Rightarrow> sdk_application \<Rightarrow> bool" where
  "logging_update_needed d app \<longleftrightarrow> da_manage_application_logging d \<and>
     \<not> same_application_logging (ap_logging app) (da_logging d) \<and> invocation_logging_enabled (da_logging d)"

definition application_update_details :: "desired_application \<Rightarrow> sdk_application \<Rightarrow> update_application_details" where
  "application_update_details d app =
     \<lparr>ua_nsg_ids = (if nsg_update_needed d app then copy_string_slice (da_application_nsg_ids d) else None),
      ua_config = (if config_update_needed d app then copy_map (da_config d) else None),
      ua_logging = (if logging_update_needed d app then application_logging_config (da_logging d) else None)\<rparr>"

definition application_update_failure ::
    "desired_application \<Rightarrow> sdk_application \<Rightarrow> go_error \<Rightarrow> lifecycle_event \<times> go_error" where
  "application_update_failure d app e =
     (let i = string_value (ap_id app); name = go_quote (da_display_name d); t = err_text e in
      if nsg_update_needed d app then
        (lifecycle_warning ''ApplicationNSGUpdateFailed''
           (''Failed to update OCI Functions application '' @ name @ '' NSG configuration to '' @
            format_string_list (nil_to_empty_slice (da_application_nsg_ids d)) @ '': '' @ t),
         ErrorText (''update OCI Functions application '' @ i @ '' NSG configuration: '' @ t))
      else if logging_update_needed d app then
        (lifecycle_warning ''ApplicationLoggingUpdateFailed''
           (''Failed to update OCI Functions application '' @ name @ '' invocation log configuration: '' @ t),
         ErrorText (''update OCI Functions application '' @ i @ '' invocation log configuration: '' @ t))
      else
        (lifecycle_warning ''ApplicationUpdateFailed''
           (''Failed to update OCI Functions application '' @ name @ '' configuration: '' @ t),
         ErrorText (''update OCI Functions application '' @ i @ '' configuration: '' @ t)))"

definition application_update_events :: "desired_application \<Rightarrow> sdk_application \<Rightarrow> lifecycle_event list" where
  "application_update_events d app =
     (if nsg_update_needed d app then
        [lifecycle_normal ''ApplicationNSGsUpdated''
          (''Updated OCI Functions application '' @ go_quote (da_display_name d) @ '' NSG configuration to '' @
           format_string_list (nil_to_empty_slice (da_application_nsg_ids d)) @ ''.'')] else []) @
     (if logging_update_needed d app then
        [lifecycle_normal ''ApplicationInvocationLogsUpdated''
          (''Updated OCI Functions application '' @ go_quote (da_display_name d) @ '' invocation logs to '' @
           effective_log_line_format (da_logging d) @ '' line format.'')] else [])"

type_synonym application_result = "(sdk_application \<times> lifecycle_event list) \<times> go_error option"

definition ensure_application_mutable_fields ::
    "'w functions_client \<Rightarrow> desired_application \<Rightarrow> sdk_application \<Rightarrow> 'w \<Rightarrow> application_result \<times> 'w" where
  "ensure_application_mutable_fields C d app w =
     (if trim_space (da_display_name d) \<noteq> [] \<and> string_value (ap_display_name app) \<noteq> da_display_name d then
        (((app, []), Some (ErrorText (''OCI Functions application displayName is '' @
           go_quote (string_value (ap_display_name app)) @ '' and cannot be updated to '' @
           go_quote (da_display_name d) @ '' by the OCI Functions API''))), w)
      else if da_subnet_ids d \<noteq> [] \<and> \<not> same_string_set (ap_subnet_ids app) (da_subnet_ids d) then
        (((app, []), Some (ErrorText (''OCI Functions application '' @ go_quote (da_display_name d) @
           '' subnetIds differ and cannot be updated by the OCI Functions API''))), w)
      else if \<not> nsg_update_needed d app \<and> \<not> config_update_needed d app \<and> \<not> logging_update_needed d app then
        (((app, []), None), w)
      else
        (case sdk_update_application C (string_value (ap_id app)) (application_update_details d app) w of
           (Inl e, w1) \<Rightarrow>
             (let (event, err) = application_update_failure d app e in (((app, [event]), Some err), w1))
         | (Inr updated, w1) \<Rightarrow> (((updated, application_update_events d app), None), w1)))"

definition create_events :: "desired_application \<Rightarrow> lifecycle_event list" where
  "create_events d =
     (if nil_to_empty_slice (da_application_nsg_ids d) \<noteq> [] then
        [lifecycle_normal ''ApplicationCreatedWithNSGs''
          (''Created OCI Functions application '' @ go_quote (da_display_name d) @ '' with NSGs '' @
           format_string_list (nil_to_empty_slice (da_application_nsg_ids d)) @ ''.'')] else []) @
     (if invocation_logging_enabled (da_logging d) then
        [lifecycle_normal ''ApplicationCreatedWithInvocationLogs''
          (''Created OCI Functions application '' @ go_quote (da_display_name d) @
           '' with invocation logs enabled using '' @ effective_log_line_format (da_logging d) @ '' line format.'')]
      else [])"

definition create_oci_application ::
    "'w functions_client \<Rightarrow> desired_application \<Rightarrow> 'w \<Rightarrow> application_result \<times> 'w" where
  "create_oci_application C d w =
     (case sdk_create_application C
             \<lparr>ca_compartment_id = da_compartment_id d, ca_display_name = da_display_name d,
              ca_subnet_ids = copy_string_slice (Some (da_subnet_ids d)),
              ca_nsg_ids = copy_string_slice (da_application_nsg_ids d),
              ca_config = copy_map (da_config d), ca_logging = application_logging_config (da_logging d),
              ca_freeform_tags = copy_map (da_freeform_tags d)\<rparr> w of
        (Inl e, w1) \<Rightarrow>
          (((empty_application, []), Some (WrapError (''create OCI Functions application '' @ go_quote (da_display_name d)) e)), w1)
      | (Inr app, w1) \<Rightarrow> (((app, create_events d), None), w1))"

text \<open>An application that was found: read in full, and in managed mode brought up to date.\<close>

definition adopt_application ::
    "'w functions_client \<Rightarrow> desired_application \<Rightarrow> string \<Rightarrow> 'w \<Rightarrow> application_result \<times> 'w" where
  "adopt_application C d i w =
     (case get_oci_application C i w of
        (Inl e, w1) \<Rightarrow> (((empty_application, []), Some e), w1)
      | (Inr app, w1) \<Rightarrow>
          if da_mode d = ApplicationModeExisting then (((app, []), None), w1)
          else ensure_application_mutable_fields C d app w1)"

definition adoptable_application :: "desired_application \<Rightarrow> sdk_application \<Rightarrow> bool" where
  "adoptable_application d item \<longleftrightarrow>
     string_value (ap_display_name item) = da_display_name d \<and> \<not> gone_state (ap_lifecycle_state item)"

definition ensure_oci_application ::
    "'w functions_client \<Rightarrow> desired_application \<Rightarrow> 'w \<Rightarrow> application_result \<times> 'w" where
  "ensure_oci_application C d w =
     (if trim_space (da_existing_application_id d) \<noteq> [] then
        adopt_application C d (trim_space (da_existing_application_id d)) w
      else
        (case sdk_list_applications C (da_compartment_id d) (da_display_name d) w of
           (Inl e, w1) \<Rightarrow>
             (((empty_application, []), Some (WrapError ''list OCI Functions applications'' e)), w1)
         | (Inr items, w1) \<Rightarrow>
             (case find (adoptable_application d) items of
                Some item \<Rightarrow> adopt_application C d (string_value (ap_id item)) w1
              | None \<Rightarrow>
                  if da_mode d = ApplicationModeExisting then
                    (((empty_application, []), Some (ErrorText (''resolve OCI Functions application '' @
                       go_quote (da_display_name d) @ '': not found''))), w1)
                  else create_oci_application C d w1)))"

section \<open>Functions\<close>

definition function_needs_update :: "sdk_function \<Rightarrow> desired_function \<Rightarrow> bool" where
  "function_needs_update f d =
     (if string_value (fu_image f) \<noteq> df_image d then True
      else if int_value (fu_memory_in_mbs f) \<noteq> df_memory_in_mbs d then True
      else if int_value (fu_timeout_in_seconds f) \<noteq> df_timeout_in_seconds d then True
      else \<not> same_map (nil_to_empty_map (fu_config f)) (nil_to_empty_map (df_config d)))"

definition get_oci_function :: "'w functions_client \<Rightarrow> string \<Rightarrow> (sdk_function, 'w) service" where
  "get_oci_function C i w =
     (if i = [] then (Inl (ErrorText ''OCI function lookup returned an empty function OCID''), w)
      else case sdk_get_function C i w of
        (Inl e, w1) \<Rightarrow> (Inl (WrapError (''get OCI Function '' @ i) e), w1)
      | (Inr f, w1) \<Rightarrow> (Inr f, w1))"

definition function_update_details :: "desired_function \<Rightarrow> update_function_details" where
  "function_update_details d =
     \<lparr>uf_image = df_image d, uf_memory_in_mbs = df_memory_in_mbs d,
      uf_timeout_in_seconds = df_timeout_in_seconds d, uf_config = copy_map (df_config d),
      uf_freeform_tags = copy_map (df_freeform_tags d)\<rparr>"

definition adopt_function :: "'w functions_client \<Rightarrow> desired_function \<Rightarrow> string \<Rightarrow> (sdk_function, 'w) service" where
  "adopt_function C d i w =
     (case get_oci_function C i w of
        (Inl e, w1) \<Rightarrow> (Inl e, w1)
      | (Inr f, w1) \<Rightarrow>
          if function_needs_update f d then
            (case sdk_update_function C (string_value (fu_id f)) (function_update_details d) w1 of
               (Inl e, w2) \<Rightarrow> (Inl (WrapError (''update OCI Function '' @ string_value (fu_id f)) e), w2)
             | (Inr updated, w2) \<Rightarrow> (Inr updated, w2))
          else (Inr f, w1))"

definition adoptable_function :: "string \<Rightarrow> sdk_function \<Rightarrow> bool" where
  "adoptable_function name item \<longleftrightarrow>
     string_value (fu_display_name item) = name \<and> \<not> gone_state (fu_lifecycle_state item)"

definition ensure_oci_function ::
    "'w functions_client \<Rightarrow> desired_function \<Rightarrow> string \<Rightarrow> (sdk_function, 'w) service" where
  "ensure_oci_function C d application_id w =
     (case sdk_list_functions C application_id (Some (df_display_name d)) w of
        (Inl e, w1) \<Rightarrow> (Inl (WrapError (''list OCI Functions in application '' @ application_id) e), w1)
      | (Inr (items, next_page), w1) \<Rightarrow>
          (case find (adoptable_function (df_display_name d)) items of
             Some item \<Rightarrow> adopt_function C d (string_value (fu_id item)) w1
           | None \<Rightarrow>
               (case sdk_create_function C
                       \<lparr>cf_application_id = application_id, cf_display_name = df_display_name d,
                        cf_image = df_image d, cf_memory_in_mbs = df_memory_in_mbs d,
                        cf_timeout_in_seconds = df_timeout_in_seconds d, cf_config = copy_map (df_config d),
                        cf_freeform_tags = copy_map (df_freeform_tags d)\<rparr> w1 of
                  (Inl e, w2) \<Rightarrow> (Inl (WrapError (''create OCI Function '' @ go_quote (df_display_name d)) e), w2)
                | (Inr f, w2) \<Rightarrow> (Inr f, w2))))"

text \<open>The state reported for a function that was ensured.\<close>

definition function_outcome :: "string \<Rightarrow> sdk_function \<Rightarrow> function_state \<Rightarrow> function_state" where
  "function_outcome display_name f st0 =
     (let st = st0\<lparr>fns_function_id := string_value (fu_id f),
                   fns_invoke_endpoint := trim_space (string_value (fu_invoke_endpoint f))\<rparr>
      in if fu_lifecycle_state f \<noteq> [] \<and> fu_lifecycle_state f \<noteq> state_active then
           st\<lparr>fns_message := ''OCI function '' @ go_quote display_name @ '' is '' @ fu_lifecycle_state f @ ''.''\<rparr>
         else if fns_function_id st = [] \<or> fns_invoke_endpoint st = [] then
           st\<lparr>fns_message := ''OCI function exists but invoke endpoint is not available yet.''\<rparr>
         else st\<lparr>fns_ready := True, fns_message := ''Managed OCI Function is ready.''\<rparr>)"

definition not_configured_error :: go_error where
  "not_configured_error = ErrorText ''oci lifecycle manager is not configured''"

definition oci_ensure_function ::
    "'w oci_manager \<Rightarrow> desired_function \<Rightarrow> 'w \<Rightarrow> (function_state \<times> go_error option) \<times> 'w" where
  "oci_ensure_function I d w =
     (if \<not> ol_configured I then ((empty_function_state, Some not_configured_error), w)
      else case validate_desired_function d of
        Some e \<Rightarrow> ((empty_function_state, Some e), w)
      | None \<Rightarrow>
          (let C = ol_client I;
               (((app, events), err), w1) =
                 ensure_oci_application C (desired_application_from_function d) (sdk_set_region C (df_region d) w);
               st = empty_function_state\<lparr>fns_application_id := string_value (ap_id app), fns_events := events\<rparr>
           in case err of
                Some e \<Rightarrow> ((st, Some e), w1)
              | None \<Rightarrow>
                  if ap_lifecycle_state app \<noteq> [] \<and> ap_lifecycle_state app \<noteq> state_active then
                    ((st\<lparr>fns_message := ''OCI application '' @ go_quote (df_application_name d) @ '' is '' @
                        ap_lifecycle_state app @ ''.''\<rparr>, None), w1)
                  else
                    (case ensure_oci_function C d (fns_application_id st) w1 of
                       (Inl e, w2) \<Rightarrow> ((st, Some e), w2)
                     | (Inr f, w2) \<Rightarrow> ((function_outcome (df_display_name d) f st, None), w2))))"

definition function_of_application :: "desired_function_in_application \<Rightarrow> desired_function" where
  "function_of_application d =
     \<lparr>df_region = [], df_compartment_id = [], df_application_name = [], df_subnet_ids = [],
      df_application_nsg_ids = None, df_manage_application_nsg_ids = False,
      df_display_name = dfa_display_name d, df_image = dfa_image d, df_memory_in_mbs = dfa_memory_in_mbs d,
      df_timeout_in_seconds = dfa_timeout_in_seconds d, df_config = dfa_config d,
      df_freeform_tags = dfa_freeform_tags d\<rparr>"

definition oci_ensure_function_in_application ::
    "'w oci_manager \<Rightarrow> desired_function_in_application \<Rightarrow> 'w \<Rightarrow> (function_state \<times> go_error option) \<times> 'w" where
  "oci_ensure_function_in_application I d w =
     (if \<not> ol_configured I then ((empty_function_state, Some not_configured_error), w)
      else case validate_desired_function_in_application d of
        Some e \<Rightarrow> ((empty_function_state, Some e), w)
      | None \<Rightarrow>
          (let C = ol_client I; st = empty_function_state\<lparr>fns_application_id := dfa_application_id d\<rparr> in
           case ensure_oci_function C (function_of_application d) (dfa_application_id d)
                  (sdk_set_region C (dfa_region d) w) of
             (Inl e, w1) \<Rightarrow> ((st, Some e), w1)
           | (Inr f, w1) \<Rightarrow> ((function_outcome (dfa_display_name d) f st, None), w1)))"

section \<open>Deleting\<close>

definition delete_function_by_id :: "'w functions_client \<Rightarrow> string \<Rightarrow> 'w \<Rightarrow> go_error option \<times> 'w" where
  "delete_function_by_id C i w =
     (if trim_space i = [] then
        (Some (ErrorText ''managed Function deletion requires an OCI Function OCID''), w)
      else case sdk_delete_function C i w of
        (Inl e, w1) \<Rightarrow>
          if service_not_found e then (None, w1) else (Some (WrapError (''delete OCI Function '' @ i) e), w1)
      | (Inr u, w1) \<Rightarrow> (None, w1))"

text \<open>The OCIDs of the listed items that match a name and are not on their way out.\<close>

definition live_ids :: "('a \<Rightarrow> bool) \<Rightarrow> ('a \<Rightarrow> string option) \<Rightarrow> 'a list \<Rightarrow> string list" where
  "live_ids keep ident items =
     filter (\<lambda>i. i \<noteq> []) (map (\<lambda>x. trim_space (string_value (ident x))) (filter keep items))"

definition resolve_application_for_delete ::
    "'w functions_client \<Rightarrow> function_delete_target \<Rightarrow> 'w \<Rightarrow> (go_error + string) \<times> 'w" where
  "resolve_application_for_delete C t w =
     (let name = trim_space (fdt_application_name t) in
      case sdk_list_applications C (trim_space (fdt_compartment_id t)) name w of
        (Inl e, w1) \<Rightarrow> (Inl (WrapError ''list OCI Functions applications for managed Function deletion'' e), w1)
      | (Inr items, w1) \<Rightarrow>
          (case live_ids (\<lambda>a. string_value (ap_display_name a) = name \<and> \<not> gone_state (ap_lifecycle_state a)) ap_id items of
             [] \<Rightarrow> (Inr [], w1)
           | [i] \<Rightarrow> (Inr i, w1)
           | _ \<Rightarrow> (Inl (ErrorText (''managed Function deletion cannot safely resolve application '' @ go_quote name @
                '': multiple matching applications found'')), w1)))"

definition resolve_function_in_application ::
    "'w functions_client \<Rightarrow> function_delete_target \<Rightarrow> string \<Rightarrow> 'w \<Rightarrow> (go_error + string) \<times> 'w" where
  "resolve_function_in_application C t application_id w =
     (let name = trim_space (fdt_display_name t) in
      case sdk_list_functions C application_id (Some name) w of
        (Inl e, w1) \<Rightarrow> (Inl (WrapError (''list OCI Functions for managed Function deletion in application '' @
            application_id) e), w1)
      | (Inr (items, next_page), w1) \<Rightarrow>
          (case live_ids (\<lambda>f. string_value (fu_display_name f) = name \<and> \<not> gone_state (fu_lifecycle_state f)) fu_id items of
             [] \<Rightarrow> (Inr [], w1)
           | [i] \<Rightarrow> (Inr i, w1)
           | _ \<Rightarrow> (Inl (ErrorText (''managed Function deletion cannot safely resolve function '' @ go_quote name @
                '' in application '' @ go_quote (trim_space (fdt_application_name t)) @
                '': multiple matching functions found'')), w1)))"

text \<open>\<open>resolveFunctionForDelete\<close>: the application OCID and the function OCID, either may stay empty.\<close>

definition resolve_function_for_delete ::
    "'w functions_client \<Rightarrow> function_delete_target \<Rightarrow> 'w \<Rightarrow> (go_error + string \<times> string) \<times> 'w" where
  "resolve_function_for_delete C t w =
     (let app = trim_space (fdt_application_id t) in
      if app = [] \<and> trim_space (fdt_compartment_id t) = [] then
        (Inl (ErrorText ''managed Function deletion requires spec.config.compartmentId when status.functionId is empty''), w)
      else if app = [] \<and> trim_space (fdt_application_name t) = [] then
        (Inl (ErrorText ''managed Function deletion requires spec.config.applicationName when status.functionId is empty''), w)
      else if trim_space (fdt_display_name t) = [] then
        (Inl (ErrorText ''managed Function deletion requires spec.config.displayName when status.functionId is empty''), w)
      else
        (case (if app \<noteq> [] then (Inr app, w) else resolve_application_for_delete C t w) of
           (Inl e, w1) \<Rightarrow> (Inl e, w1)
         | (Inr app_id, w1) \<Rightarrow>
             if app_id = [] then (Inr ([], []), w1)
             else (case resolve_function_in_application C t app_id w1 of
                (Inl e, w2) \<Rightarrow> (Inl e, w2)
              | (Inr i, w2) \<Rightarrow> (Inr (app_id, i), w2))))"

definition delete_region :: "function_delete_target \<Rightarrow> string" where
  "delete_region t =
     (let r = effective_function_region (fdt_region t) (fdt_function_id t) in
      if trim_space r = [] then effective_application_region [] (fdt_application_id t) else r)"

text \<open>The deletion of a function whose OCID is known.\<close>

definition delete_known_function ::
    "'w functions_client \<Rightarrow> function_deletion_state \<Rightarrow> 'w \<Rightarrow> (function_deletion_state \<times> go_error option) \<times> 'w" where
  "delete_known_function C st w =
     (case delete_function_by_id C (fds_function_id st) w of
        (Some e, w1) \<Rightarrow> ((st, Some e), w1)
      | (None, w1) \<Rightarrow>
          (let message = ''Deleted managed OCI Function '' @ fds_function_id st @
                 ''. OCI Functions application retained.''
           in ((st\<lparr>fds_deleted := True, fds_message := message,
                   fds_events := [lifecycle_normal ''ManagedFunctionDeleted'' message]\<rparr>, None), w1)))"

definition oci_delete_managed_function ::
    "'w oci_manager \<Rightarrow> function_delete_target \<Rightarrow> 'w \<Rightarrow> (function_deletion_state \<times> go_error option) \<times> 'w" where
  "oci_delete_managed_function I t w =
     (if \<not> ol_configured I then ((empty_function_deletion, Some not_configured_error), w)
      else if trim_space (delete_region t) = [] then
        ((empty_function_deletion, Some (ErrorText
          ''managed Function deletion requires spec.config.region or status.functionId with a region'')), w)
      else
        (let C = ol_client I; w1 = sdk_set_region C (delete_region t) w; i = trim_space (fdt_function_id t);
             st = empty_function_deletion\<lparr>fds_function_id := i\<rparr>
         in if i \<noteq> [] then delete_known_function C st w1
            else (case resolve_function_for_delete C t w1 of
                (Inl e, w2) \<Rightarrow> ((st, Some e), w2)
              | (Inr (app_id, j), w2) \<Rightarrow>
                  (let st2 = st\<lparr>fds_application_id := app_id, fds_function_id := j\<rparr> in
                   if j = [] then
                     (let message = ''Managed OCI Function was not found; nothing to delete. OCI Functions application retained.''
                      in ((st2\<lparr>fds_message := message,
                            fds_events := [lifecycle_normal ''ManagedFunctionAlreadyDeleted'' message]\<rparr>, None), w2))
                   else delete_known_function C st2 w2))))"

definition active_function_count :: "sdk_function list \<Rightarrow> string option \<Rightarrow> nat" where
  "active_function_count items next_page =
     (if string_value next_page \<noteq> [] then 1 else 0) +
     length (filter (\<lambda>f. \<not> gone_state (fu_lifecycle_state f)) items)"

definition oci_delete_application ::
    "'w oci_manager \<Rightarrow> application_delete_target \<Rightarrow> 'w \<Rightarrow> (application_deletion_state \<times> go_error option) \<times> 'w" where
  "oci_delete_application I t w =
     (let region = effective_application_region (adt_region t) (adt_application_id t);
          i = trim_space (adt_application_id t); st = empty_application_deletion\<lparr>ads_application_id := i\<rparr>;
          C = ol_client I
      in if \<not> ol_configured I then ((empty_application_deletion, Some not_configured_error), w)
         else if trim_space region = [] then
           ((empty_application_deletion, Some (ErrorText
             ''FunctionApplication deletion requires spec.region or status.applicationId with a region'')), w)
         else if i = [] then
           ((empty_application_deletion, Some (ErrorText ''FunctionApplication deletion requires status.applicationId'')), w)
         else
           (case sdk_list_functions C i None (sdk_set_region C region w) of
              (Inl e, w1) \<Rightarrow>
                ((st, Some (WrapError (''list OCI Functions before deleting application '' @ i) e)), w1)
            | (Inr (items, next_page), w1) \<Rightarrow>
                (let n = active_function_count items next_page in
                 if 0 < n then
                   (let message = ''Retained OCI Functions application '' @ i @ '' because '' @ show_nat n @
                          '' function(s) remain in it.''
                    in ((st\<lparr>ads_blocked := True, ads_message := message,
                          ads_events := [lifecycle_warning ''ApplicationDeleteBlocked'' message]\<rparr>, None), w1))
                 else
                   (case sdk_delete_application C i w1 of
                      (Inl e, w2) \<Rightarrow>
                        if service_not_found e then
                          (let message = ''OCI Functions application was not found; nothing to delete.''
                           in ((st\<lparr>ads_deleted := True, ads_message := message,
                                 ads_events := [lifecycle_normal ''ApplicationAlreadyDeleted'' message]\<rparr>, None), w2))
                        else ((st, Some (WrapError (''delete OCI Functions application '' @ i) e)), w2)
                    | (Inr u, w2) \<Rightarrow>
                        (let message = ''Deleted OCI Functions application '' @ i @ ''.''
                         in ((st\<lparr>ads_deleted := True, ads_message := message,
                               ads_events := [lifecycle_normal ''ApplicationDeleted'' message]\<rparr>, None), w2))))))"

section \<open>The invocation log of an application\<close>

definition page_bound_error :: go_error where
  "page_bound_error = ErrorText ''page bound reached''"

definition last_page :: "string option \<Rightarrow> bool" where
  "last_page p = (case p of None \<Rightarrow> True | Some s \<Rightarrow> trim_space s = [])"

fun list_logs :: "nat \<Rightarrow> 'w logging_client \<Rightarrow> string \<Rightarrow> string option \<Rightarrow> (sdk_log list, 'w) service" where
  "list_logs 0 C grp page w = (Inl page_bound_error, w)"
| "list_logs (Suc n) C grp page w =
     (case log_list C grp page w of
        (Inl e, w1) \<Rightarrow> (Inl e, w1)
      | (Inr (items, next_page), w1) \<Rightarrow>
          if last_page next_page then (Inr items, w1)
          else (case list_logs n C grp next_page w1 of
             (Inl e, w2) \<Rightarrow> (Inl e, w2)
           | (Inr rest, w2) \<Rightarrow> (Inr (items @ rest), w2)))"

definition log_conflict_error :: "string \<Rightarrow> string \<Rightarrow> sdk_log \<Rightarrow> go_error" where
  "log_conflict_error display_name grp c =
     ErrorText (''OCI Logging service log displayName '' @ go_quote display_name @ '' is already used in log group '' @
       grp @ '' by log '' @ string_value (lo_id c) @ '' in lifecycle state '' @ lo_lifecycle_state c @
       '' with source '' @ log_source_description c)"

definition create_invocation_log ::
    "'w logging_client \<Rightarrow> desired_application \<Rightarrow> invocation_logs \<Rightarrow> string \<Rightarrow> sdk_log list \<Rightarrow> 'w \<Rightarrow>
     (lifecycle_event list \<times> go_error option) \<times> 'w" where
  "create_invocation_log C d logs app_id all_logs w =
     (let grp = trim_space (log_group_id logs);
          display_name = effective_log_display_name (da_display_name d) logs
      in case log_name_conflict all_logs grp display_name [] of
           Some c \<Rightarrow> (([], Some (log_conflict_error display_name grp c)), w)
         | None \<Rightarrow>
             (case log_create C grp \<lparr>cl_display_name = display_name, cl_is_enabled = log_enabled logs,
                     cl_compartment_id = trim_space (da_compartment_id d), cl_service = effective_log_service logs,
                     cl_resource = app_id, cl_category = effective_log_category logs\<rparr> w of
                (Inl e, w1) \<Rightarrow>
                  (([], Some (if service_conflict e then
                     WrapError (''create OCI Logging service log '' @ go_quote display_name @
                       '' for Functions application '' @ app_id @ '' in log group '' @ grp @
                       '' conflicted; a log with that displayName or service source may still exist or still be deleting'') e
                   else WrapError (''create OCI Logging service log for Functions application '' @ app_id @
                       '' in log group '' @ grp) e)), w1)
              | (Inr u, w1) \<Rightarrow>
                  (([lifecycle_normal ''ApplicationInvocationLogCreated''
                      (''Created OCI Logging service log '' @ go_quote display_name @ '' for Functions application '' @
                       go_quote (da_display_name d) @ '' in log group '' @ grp @ ''.'')], None), w1)))"

definition update_invocation_log ::
    "'w logging_client \<Rightarrow> desired_application \<Rightarrow> invocation_logs \<Rightarrow> string \<Rightarrow> sdk_log list \<Rightarrow> sdk_log \<Rightarrow> 'w \<Rightarrow>
     (lifecycle_event list \<times> go_error option) \<times> 'w" where
  "update_invocation_log C d logs app_id all_logs l w =
     (let grp = trim_space (log_group_id logs);
          display_name = effective_log_display_name (da_display_name d) logs;
          rename = (string_value (lo_display_name l) \<noteq> display_name);
          conflict = (if rename then log_name_conflict all_logs grp display_name (string_value (lo_id l)) else None);
          toggle = (bool_value (lo_is_enabled l) \<noteq> log_enabled logs)
      in case conflict of
           Some c \<Rightarrow> (([], Some (log_conflict_error display_name grp c)), w)
         | None \<Rightarrow>
             if \<not> rename \<and> \<not> toggle then (([], None), w)
             else
               (case log_update C grp (string_value (lo_id l))
                       \<lparr>ul_display_name = (if rename then Some display_name else None),
                        ul_is_enabled = (if toggle then Some (log_enabled logs) else None)\<rparr> w of
                  (Inl e, w1) \<Rightarrow>
                    (([], Some (WrapError (''update OCI Logging service log '' @ string_value (lo_id l) @
                       '' for Functions application '' @ app_id) e)), w1)
                | (Inr u, w1) \<Rightarrow>
                    (([lifecycle_normal ''ApplicationInvocationLogUpdated''
                        (''Updated OCI Logging service log '' @ go_quote display_name @ '' for Functions application '' @
                         go_quote (da_display_name d) @ ''.'')], None), w1)))"

definition unsettled_log_message :: "sdk_log \<Rightarrow> string \<Rightarrow> string \<Rightarrow> string" where
  "unsettled_log_message l app_id grp =
     ''OCI Logging service log '' @ string_value (lo_id l) @ '' for Functions application '' @ app_id @
     '' in log group '' @ grp @ '' is '' @ lo_lifecycle_state l @
     ''; wait for the log lifecycle to settle before reconciling invocation logs''"

definition ensure_invocation_log ::
    "'w oci_manager \<Rightarrow> desired_application \<Rightarrow> invocation_logs \<Rightarrow> string \<Rightarrow> string \<Rightarrow> 'w \<Rightarrow>
     (lifecycle_event list \<times> go_error option) \<times> 'w" where
  "ensure_invocation_log I d logs app_id region w =
     (case ol_logging I of
        None \<Rightarrow> (([], Some (ErrorText ''OCI Logging management client is not configured'')), w)
      | Some C \<Rightarrow>
          (let grp = trim_space (log_group_id logs); service = effective_log_service logs;
               category = effective_log_category logs
           in case list_logs (ol_page_bound I) C grp None (log_set_region C region w) of
                (Inl e, w1) \<Rightarrow>
                  (([], Some (WrapError (''list OCI Logging service logs in log group '' @ grp @
                     '' for Functions application '' @ app_id) e)), w1)
              | (Inr all_logs, w1) \<Rightarrow>
                  (case filter (log_summary_matches grp app_id service category) all_logs of
                     [] \<Rightarrow> create_invocation_log C d logs app_id all_logs w1
                   | [l] \<Rightarrow>
                       if \<not> manageable_log_state (lo_lifecycle_state l) then
                         (([], Some ((if pending_log_state (lo_lifecycle_state l) then PendingLogError else ErrorText)
                            (unsettled_log_message l app_id grp))), w1)
                       else update_invocation_log C d logs app_id all_logs l w1
                   | _ \<Rightarrow>
                       (([], Some (ErrorText (''multiple OCI Logging service logs found for Functions application '' @
                          app_id @ '' in log group '' @ grp @ '' with service '' @ go_quote service @
                          '' and category '' @ go_quote category))), w1))))"

section \<open>EnsureApplication\<close>

definition application_outcome :: "sdk_application \<Rightarrow> application_state \<Rightarrow> application_state" where
  "application_outcome app st =
     (let st1 =
        (if ap_lifecycle_state app = [] \<or> ap_lifecycle_state app = state_active then
           st\<lparr>aps_ready := (aps_application_id st \<noteq> []), aps_message := ''OCI Functions application is ready.''\<rparr>
         else if ap_lifecycle_state app = state_failed then
           st\<lparr>aps_message := ''OCI Functions application '' @ go_quote (aps_display_name st) @ '' is FAILED.''\<rparr>
         else st\<lparr>aps_message := ''OCI Functions application '' @ go_quote (aps_display_name st) @ '' is '' @
                ap_lifecycle_state app @ ''.''\<rparr>)
      in if aps_application_id st1 = [] then
           st1\<lparr>aps_message := ''OCI Functions application exists but OCID is not available yet.''\<rparr>
         else st1)"

definition oci_ensure_application ::
    "'w oci_manager \<Rightarrow> desired_application \<Rightarrow> 'w \<Rightarrow> (application_state \<times> go_error option) \<times> 'w" where
  "oci_ensure_application I d w =
     (if \<not> ol_configured I then ((empty_application_state, Some not_configured_error), w)
      else case validate_desired_application d of
        Some e \<Rightarrow> ((empty_application_state, Some e), w)
      | None \<Rightarrow>
          (let C = ol_client I;
               region = effective_application_region (da_region d) (da_existing_application_id d);
               (((app, events), err), w1) = ensure_oci_application C d (sdk_set_region C region w);
               st = \<lparr>aps_application_id = string_value (ap_id app),
                     aps_display_name = string_value (ap_display_name app), aps_region = region,
                     aps_ready = False, aps_message = [], aps_events = events\<rparr>
           in case err of
                Some e \<Rightarrow> ((st, Some e), w1)
              | None \<Rightarrow>
                  (case enabled_logs (da_logging d) of
                     None \<Rightarrow> ((application_outcome app st, None), w1)
                   | Some logs \<Rightarrow>
                       (let ((log_events, log_err), w2) =
                          ensure_invocation_log I d logs (string_value (ap_id app)) region w1;
                            st' = st\<lparr>aps_events := events @ log_events\<rparr>
                        in case log_err of
                             Some e \<Rightarrow>
                               (case pending_log_message e of
                                  Some m \<Rightarrow> ((st'\<lparr>aps_message := m\<rparr>, None), w2)
                                | None \<Rightarrow> ((st', Some e), w2))
                           | None \<Rightarrow> ((application_outcome app st', None), w2)))))"

definition oci_lifecycle :: "'w oci_manager \<Rightarrow> 'w lifecycle_manager" where
  "oci_lifecycle I =
     \<lparr>lm_ensure_function = oci_ensure_function I,
      lm_ensure_function_in_application = oci_ensure_function_in_application I,
      lm_delete_managed_function = oci_delete_managed_function I,
      lm_ensure_application = oci_ensure_application I,
      lm_delete_application = oci_delete_application I\<rparr>"

end
