(* ===== verification/OciLifecycleLemmas.thy ===== *)
theory OciLifecycleLemmas
  imports OciLifecycle
begin

text \<open>
  Facts about the OCI lifecycle manager: the comparison of string sets, paging, what a ready state
  holds, the interpretation of the lifecycle contract, and what a deletion may touch.
\<close>

section \<open>Comparing string sets\<close>

lemma seen_all_count: "seen_all s vs \<longleftrightarrow> (\<forall>v. count_list vs v \<le> s v)"
proof (induction vs arbitrary: s)
  case (Cons x xs)
  show ?case
  proof (cases "s x = 0")
    case True
    then have "\<not> count_list (x # xs) x \<le> s x" by simp
    with True show ?thesis by (metis seen_all.simps(2))
  next
    case False
    have "(\<forall>v. count_list xs v \<le> (s(x := s x - 1)) v) \<longleftrightarrow> (\<forall>v. count_list (x # xs) v \<le> s v)"
    proof (intro iff_allI)
      fix v
      show "count_list xs v \<le> (s(x := s x - 1)) v \<longleftrightarrow> count_list (x # xs) v \<le> s v"
        using False by (cases "v = x") auto
    qed
    with False show ?thesis by (simp add: Cons.IH del: count_list.simps fun_upd_apply)
  qed
qed simp

lemma same_string_set_iff: "same_string_set a b \<longleftrightarrow> mset a = mset b"
proof
  assume same: "same_string_set a b"
  then have len: "length a = length b" and "seen_all (count_list a) b"
    by (auto simp: same_string_set_def split: if_splits)
  then have "mset b \<subseteq># mset a"
    by (auto simp: seen_all_count subseteq_mset_def count_mset)
  with len show "mset a = mset b" by (metis size_mset mset_subset_size subset_mset.le_less less_irrefl)
next
  assume eq: "mset a = mset b"
  then have "length a = length b" by (metis size_mset)
  moreover have "count_list a v = count_list b v" for v using eq by (metis count_mset)
  ultimately show "same_string_set a b" by (simp add: same_string_set_def seen_all_count)
qed

section \<open>Paging\<close>

lemma list_logs_mono:
  "list_logs n C g p w = (Inr ls, w') \<Longrightarrow> n \<le> m \<Longrightarrow> list_logs m C g p w = (Inr ls, w')"
proof (induction n arbitrary: m p w ls)
  case (Suc n)
  then obtain k where m: "m = Suc k" "n \<le> k" by (metis Suc_le_D Suc_le_mono)
  from Suc.prems(1) obtain items nxt w1 where l: "log_list C g p w = (Inr (items, nxt), w1)"
    by (auto split: prod.splits sum.splits)
  show ?case
  proof (cases "last_page nxt")
    case True
    with Suc.prems(1) l m show ?thesis by simp
  next
    case False
    with Suc.prems(1) l obtain rest where r: "list_logs n C g nxt w1 = (Inr rest, w')" "ls = items @ rest"
      by (auto split: prod.splits sum.splits)
    from Suc.IH [OF r(1) m(2)] False l m r(2) show ?thesis by simp
  qed
qed simp

text \<open>A listing whose pages end: \<open>pages\<close> is the sequence of calls that reads it.\<close>

inductive log_pages :: "'w logging_client \<Rightarrow> string \<Rightarrow> string option \<Rightarrow> 'w \<Rightarrow> nat \<Rightarrow> sdk_log list \<Rightarrow> 'w \<Rightarrow> bool"
  for C g where
  final_page: "log_list C g p w = (Inr (items, nxt), w1) \<Longrightarrow> last_page nxt \<Longrightarrow> log_pages C g p w 1 items w1"
| more_pages: "log_list C g p w = (Inr (items, nxt), w1) \<Longrightarrow> \<not> last_page nxt \<Longrightarrow>
    log_pages C g nxt w1 n rest w2 \<Longrightarrow> log_pages C g p w (Suc n) (items @ rest) w2"

lemma list_logs_enough: "log_pages C g p w n ls w' \<Longrightarrow> n \<le> bound \<Longrightarrow> list_logs bound C g p w = (Inr ls, w')"
proof (induction arbitrary: bound rule: log_pages.induct)
  case (final_page p w items nxt w1)
  then show ?case by (cases bound) auto
next
  case (more_pages p w items nxt w1 n rest w2)
  then obtain k where "bound = Suc k" "n \<le> k" by (metis Suc_le_D Suc_le_mono)
  with more_pages show ?case by simp
qed

section \<open>Ready states\<close>

lemma function_outcome_ready:
  "\<not> fns_ready st \<Longrightarrow> fns_ready (function_outcome n f st) \<Longrightarrow>
     fns_function_id (function_outcome n f st) \<noteq> [] \<and>
     trim_space (fns_invoke_endpoint (function_outcome n f st)) \<noteq> []"
  by (auto simp: function_outcome_def Let_def split: if_splits)

lemma empty_function_state_not_ready [simp]: "\<not> fns_ready empty_function_state"
  by (simp add: empty_function_state_def)

lemma oci_ensure_function_ready:
  assumes "oci_ensure_function I d w = ((st, None), w')" "fns_ready st"
  shows "fns_function_id st \<noteq> [] \<and> trim_space (fns_invoke_endpoint st) \<noteq> []"
  using assms
  by (auto simp: oci_ensure_function_def Let_def split: if_splits option.splits prod.splits sum.splits
      dest: function_outcome_ready [rotated])

lemma oci_ensure_in_application_ready:
  assumes "oci_ensure_function_in_application I d w = ((st, None), w')" "fns_ready st"
  shows "fns_function_id st \<noteq> [] \<and> trim_space (fns_invoke_endpoint st) \<noteq> []"
  using assms
  by (auto simp: oci_ensure_function_in_application_def Let_def split: if_splits option.splits prod.splits sum.splits
      dest: function_outcome_ready [rotated])

lemma application_outcome_facts:
  "aps_region (application_outcome app st) = aps_region st"
  "aps_application_id (application_outcome app st) = aps_application_id st"
  "\<not> aps_ready st \<Longrightarrow> aps_ready (application_outcome app st) \<Longrightarrow> aps_application_id st \<noteq> []"
  by (auto simp: application_outcome_def Let_def split: if_splits)

lemma validated_region:
  "validate_desired_application d = None \<Longrightarrow>
     trim_space (effective_application_region (da_region d) (da_existing_application_id d)) \<noteq> []"
  by (auto simp: validate_desired_application_def Let_def split: if_splits)

lemma oci_ensure_application_ready:
  assumes "oci_ensure_application I d w = ((st, None), w')" "aps_ready st"
  shows "aps_application_id st \<noteq> [] \<and> trim_space (aps_region st) \<noteq> []"
proof -
  from assms have valid: "validate_desired_application d = None"
    by (auto simp: oci_ensure_application_def split: if_splits option.splits)
  let ?region = "effective_application_region (da_region d) (da_existing_application_id d)"
  from assms have "\<exists>app st0. st = application_outcome app st0 \<and> \<not> aps_ready st0 \<and> aps_region st0 = ?region"
    by (auto simp: oci_ensure_application_def Let_def split: if_splits option.splits prod.splits)
      (metis application_state.select_convs(3,4))+
  with assms(2) validated_region [OF valid] show ?thesis
    by (auto simp: application_outcome_facts dest: application_outcome_facts(3))
qed

lemma oci_delete_blocked:
  "oci_delete_application I t w = ((st, None), w') \<Longrightarrow> ads_blocked st \<Longrightarrow> \<not> ads_deleted st"
  by (auto simp: oci_delete_application_def empty_application_deletion_def Let_def
      split: if_splits prod.splits sum.splits)

interpretation oci_lifecycle: lifecycle_contract "oci_lifecycle I" for I :: "'w oci_manager"
proof
  fix d d' da t w w' st ast dst
  show "lm_ensure_function (oci_lifecycle I) d w = ((st, None), w') \<Longrightarrow> fns_ready st \<Longrightarrow>
      fns_function_id st \<noteq> [] \<and> trim_space (fns_invoke_endpoint st) \<noteq> []"
    by (simp add: oci_lifecycle_def oci_ensure_function_ready)
  show "lm_ensure_function_in_application (oci_lifecycle I) d' w = ((st, None), w') \<Longrightarrow> fns_ready st \<Longrightarrow>
      fns_function_id st \<noteq> [] \<and> trim_space (fns_invoke_endpoint st) \<noteq> []"
    by (simp add: oci_lifecycle_def oci_ensure_in_application_ready)
  show "lm_ensure_application (oci_lifecycle I) da w = ((ast, None), w') \<Longrightarrow> aps_ready ast \<Longrightarrow>
      aps_application_id ast \<noteq> [] \<and> trim_space (aps_region ast) \<noteq> []"
    by (simp add: oci_lifecycle_def oci_ensure_application_ready)
  show "lm_delete_application (oci_lifecycle I) t w = ((dst, None), w') \<Longrightarrow> ads_blocked dst \<Longrightarrow> \<not> ads_deleted dst"
    by (simp add: oci_lifecycle_def oci_delete_blocked)
qed

section \<open>Region names in OCIDs\<close>

lemma split_char_single: "c \<notin> set p \<Longrightarrow> split_char c p = [p]"
  by (induction p) auto

lemma split_char_append: "c \<notin> set p \<Longrightarrow> split_char c (p @ c # s) = p # split_char c s"
  by (induction p) auto

lemma split_char_join:
  "ps \<noteq> [] \<Longrightarrow> list_all (\<lambda>p. c \<notin> set p) ps \<Longrightarrow> split_char c (join ps [c]) = ps"
  by (induction ps "[c]" rule: join.induct) (simp_all add: split_char_single split_char_append)

section \<open>Convergence of a function update\<close>

text \<open>
  What the documentation of \<open>UpdateFunction\<close> promises: the fields of the request that are set
  replace those of the function, the others stay.
\<close>

definition update_applied :: "update_function_details \<Rightarrow> sdk_function \<Rightarrow> sdk_function \<Rightarrow> bool" where
  "update_applied u f f' \<longleftrightarrow> fu_image f' = Some (uf_image u) \<and>
     fu_memory_in_mbs f' = Some (uf_memory_in_mbs u) \<and>
     fu_timeout_in_seconds f' = Some (uf_timeout_in_seconds u) \<and>
     fu_config f' = (case uf_config u of None \<Rightarrow> fu_config f | Some m \<Rightarrow> Some m)"

lemma copy_map_None: "copy_map m = None \<longleftrightarrow> nil_to_empty_map m = []"
  by (auto simp: copy_map_def nil_to_empty_map_def copy_string_map_def split: option.splits)

lemma copy_map_Some: "copy_map m = Some kvs \<Longrightarrow> nil_to_empty_map m = kvs"
  by (auto simp: copy_map_def nil_to_empty_map_def copy_string_map_def split: option.splits if_splits)

lemma update_converges:
  assumes "update_applied (function_update_details d) f f'"
  shows "function_needs_update f' d \<longleftrightarrow>
    nil_to_empty_map (df_config d) = [] \<and> nil_to_empty_map (fu_config f) \<noteq> []"
proof (cases "copy_map (df_config d)")
  case None
  have same: "same_map m [] \<longleftrightarrow> m = []" for m
    by (cases m) (auto simp: same_map_def)
  have "nil_to_empty_map (df_config d) = []" using None by (simp only: copy_map_None)
  moreover have "fu_config f' = fu_config f"
    using assms None by (simp add: update_applied_def function_update_details_def)
  ultimately show ?thesis
    using assms by (simp add: update_applied_def function_update_details_def function_needs_update_def
        string_value_def int_value_def same)
next
  case (Some m)
  then show ?thesis
    using assms copy_map_Some [OF Some] copy_map_None [of "df_config d"]
    by (simp add: update_applied_def function_update_details_def function_needs_update_def
        string_value_def int_value_def nil_to_empty_map_def)
qed

end
