(* ===== verification/LifecycleProperties.thy ===== *)
theory LifecycleProperties
  imports FunctionReconcile FunctionProperties OciLifecycleLemmas
begin

text \<open>
  The properties of the OCI lifecycle manager, and of the \<open>Function\<close> reconciler running with it, with
  witnesses over a sample SDK.
\<close>

section \<open>Samples\<close>

definition sample_sdk_function :: "string \<Rightarrow> string \<Rightarrow> sdk_function" where
  "sample_sdk_function ident name = \<lparr>fu_id = Some ident, fu_display_name = Some name,
     fu_lifecycle_state = ''ACTIVE'', fu_image = Some ''img'', fu_memory_in_mbs = Some 128,
     fu_timeout_in_seconds = Some 30, fu_config = None, fu_invoke_endpoint = Some ''https://fn.example''\<rparr>"

definition sample_sdk_application :: sdk_application where
  "sample_sdk_application = \<lparr>ap_id = Some ''ocid1.fnapp.oc1.iad.a'', ap_display_name = Some ''app'',
     ap_lifecycle_state = ''ACTIVE'', ap_subnet_ids = [''ocid1.subnet''], ap_nsg_ids = [],
     ap_config = None, ap_logging = None\<rparr>"

text \<open>An SDK that lists the given functions in its one application and accepts every change.\<close>

definition sample_sdk :: "sdk_function list \<Rightarrow> string option \<Rightarrow> unit functions_client" where
  "sample_sdk functions next_page = \<lparr>
     sdk_set_region = (\<lambda>r w. w),
     sdk_list_applications = (\<lambda>c n w. (Inr [sample_sdk_application], w)),
     sdk_create_application = (\<lambda>d w. (Inr sample_sdk_application, w)),
     sdk_get_application = (\<lambda>i w. (Inr sample_sdk_application, w)),
     sdk_update_application = (\<lambda>i d w. (Inr sample_sdk_application, w)),
     sdk_delete_application = (\<lambda>i w. (Inr (), w)),
     sdk_list_functions = (\<lambda>a n w. (Inr (functions, next_page), w)),
     sdk_create_function = (\<lambda>d w. (Inr (sample_sdk_function ''ocid1.fnfunc.oc1.iad.n'' (cf_display_name d)), w)),
     sdk_get_function = (\<lambda>i w. (Inr (sample_sdk_function i ''fn''), w)),
     sdk_update_function = (\<lambda>i d w. (Inr (sample_sdk_function i ''fn''), w)),
     sdk_delete_function = (\<lambda>i w. (Inr (), w))\<rparr>"

definition sample_oci :: "sdk_function list \<Rightarrow> string option \<Rightarrow> unit oci_manager" where
  "sample_oci functions next_page = \<lparr>ol_configured = True, ol_client = sample_sdk functions next_page,
     ol_logging = None, ol_page_bound = 10\<rparr>"

section \<open>A ready function can be invoked\<close>

lemmas oci_by_mode_ready = lifecycle_contract.by_mode_ready [OF oci_lifecycle.lifecycle_contract_axioms]

lemma live_ready_status:
  fixes R :: "'w function_reconciler" and I :: "'w oci_manager"
  assumes K: "kube_lib_ok (fr_lib R)"
    and manager: "\<And>M. fr_manager R = Some M \<Longrightarrow> M = oci_lifecycle I"
    and run: "reconcile_live_function R f s = (out, s')"
  shows "\<exists>t. io_trace s' = io_trace s @ t \<and> (\<forall>g. StatusUpdate g \<in> set (writes t) \<longrightarrow>
    function_agrees g \<and> (fst_phase (fn_status g) = FunctionPhaseReady \<longrightarrow>
       fst_function_id (fn_status g) \<noteq> [] \<and> trim_space (fst_invoke_endpoint (fn_status g)) \<noteq> []))"
proof -
  let ?ok = "\<lambda>g. function_agrees g \<and> (fst_phase (fn_status g) = FunctionPhaseReady \<longrightarrow>
       fst_function_id (fn_status g) \<noteq> [] \<and> trim_space (fst_invoke_endpoint (fn_status g)) \<noteq> [])"
  have finish: "\<exists>u. io_trace s' = io_trace s1 @ u \<and> (\<forall>g. StatusUpdate g \<in> set (writes u) \<longrightarrow> ?ok g)"
    if fin: "finish_function R f d r s1 = (out, s')" and d: "?ok d" for d r s1
    using fin
  proof (rule finish_function_effects)
    fix t
    assume t: "io_trace s' = io_trace s1 @ t"
      "\<forall>e \<in> set (writes t). \<exists>g. e = StatusUpdate g \<and> fn_meta g = fn_meta f \<and> fn_spec g = fn_spec f \<and>
        without_sync (fn_status g) = without_sync (fn_status d)"
    have "?ok g" if "StatusUpdate g \<in> set (writes t)" for g
    proof -
      from that t(2) have g: "without_sync (fn_status g) = without_sync (fn_status d)" by blast
      with d show ?thesis using without_sync_fields [OF g] without_sync_agrees [OF g] by simp
    qed
    with t(1) show ?thesis by blast
  qed
  show ?thesis
    using K run
  proof (cases rule: reconcile_live_cases)
    case (waiting d')
    have "fst_phase (fn_status d') \<noteq> FunctionPhaseReady"
      using waiting(2) by (auto simp: resolve_function_application_ref_def waiting_on_application_def Let_def
          status_simps split: if_splits get_result.splits)
    with waiting(3) have "?ok d'" by (simp add: settled_def)
    from finish [OF waiting(4) this] show ?thesis .
  next
    case (by_mode app p d' s1 t)
    have "?ok d'"
      using by_mode(4) oci_by_mode_ready [OF by_mode(3) manager] by (auto simp: settled_def)
    from finish [OF by_mode(8) this] obtain u where "io_trace s' = io_trace s1 @ u"
      "\<forall>g. StatusUpdate g \<in> set (writes u) \<longrightarrow> ?ok g" by blast
    with by_mode(5,6) show ?thesis by (intro exI [of _ "t @ u"]) auto
  qed auto
qed

text \<open>
  C6: a function the operator reports as ready can be invoked. With the OCI lifecycle manager (or none),
  whenever a live reconciliation writes the phase \<open>Ready\<close>, the status written holds an OCID and an
  endpoint, and unless the service handed out a blank OCID, the jobs and events that read the status back
  take it for ready and target exactly that OCID and endpoint.
\<close>

theorem function_ready_invocable:
  assumes K: "kube_lib_ok (fr_lib R)" and live: "om_deletion_timestamp (fn_meta f) = None"
    and manager: "\<And>M. fr_manager R = Some M \<Longrightarrow> M = oci_lifecycle I"
  shows "\<exists>t. io_trace (snd (reconcile_found_function R f s)) = io_trace s @ t \<and>
    (\<forall>g. StatusUpdate g \<in> set (writes t) \<longrightarrow> fst_phase (fn_status g) = FunctionPhaseReady \<longrightarrow>
       fst_function_id (fn_status g) \<noteq> [] \<and>
       (trim_space (fst_function_id (fn_status g)) \<noteq> [] \<longrightarrow>
          tg_function_ocid (invocation_target_for_function g) = trim_space (fst_function_id (fn_status g)) \<and>
          tg_invoke_endpoint (invocation_target_for_function g) = trim_space (fst_invoke_endpoint (fn_status g)) \<and>
          function_ready_for_invocation (fr_lib R) g (invocation_target_for_function g)))"
proof -
  obtain out s' where run: "reconcile_live_function R f s = (out, s')" by (metis prod.exhaust)
  from live_ready_status [OF K manager run] obtain t where t: "io_trace s' = io_trace s @ t"
    "\<And>g. StatusUpdate g \<in> set (writes t) \<Longrightarrow>
      function_agrees g \<and> (fst_phase (fn_status g) = FunctionPhaseReady \<longrightarrow>
       fst_function_id (fn_status g) \<noteq> [] \<and> trim_space (fst_invoke_endpoint (fn_status g)) \<noteq> [])" by blast
  show ?thesis
  proof (intro exI [of _ t] conjI allI impI)
    show "io_trace (snd (reconcile_found_function R f s)) = io_trace s @ t"
      using live run t(1) by (simp add: reconcile_found_function_def)
    fix g
    assume g: "StatusUpdate g \<in> set (writes t)" "fst_phase (fn_status g) = FunctionPhaseReady"
    with t(2) have ready: "function_agrees g" "fst_function_id (fn_status g) \<noteq> []"
      "trim_space (fst_invoke_endpoint (fn_status g)) \<noteq> []" by blast+
    then show "fst_function_id (fn_status g) \<noteq> []" by blast
    assume "trim_space (fst_function_id (fn_status g)) \<noteq> []"
    with ready(3) show
      "tg_function_ocid (invocation_target_for_function g) = trim_space (fst_function_id (fn_status g))"
      "tg_invoke_endpoint (invocation_target_for_function g) = trim_space (fst_invoke_endpoint (fn_status g))"
      by (simp_all add: invocation_target_for_function_def Let_def)
    with ready g(2) K \<open>trim_space (fst_function_id (fn_status g)) \<noteq> []\<close>
    show "function_ready_for_invocation (fr_lib R) g (invocation_target_for_function g)"
      by (simp add: function_ready_for_invocation_def function_is_ready_def kube_is_true function_agrees_def
          function_condition_status_def truth_def)
  qed
qed

definition wrote_ready :: "function_effect list \<Rightarrow> bool" where
  "wrote_ready t = list_ex (\<lambda>e. case e of
     StatusUpdate g \<Rightarrow> fst_phase (fn_status g) = FunctionPhaseReady \<and> trim_space (fst_function_id (fn_status g)) \<noteq> []
   | _ \<Rightarrow> False) t"

theorem function_ready_invocable_witness:
  "wrote_ready (io_trace (snd (reconcile_found_function (sample_functions (Some (oci_lifecycle (sample_oci [] None))) 5)
     (sample_managed [function_finalizer] None) function_start))) \<and>
   (\<exists>t. io_trace (snd (reconcile_found_function (sample_functions (Some (oci_lifecycle (sample_oci [] None))) 5)
     (sample_managed [function_finalizer] None) function_start)) = io_trace function_start @ t \<and>
    (\<forall>g. StatusUpdate g \<in> set (writes t) \<longrightarrow> fst_phase (fn_status g) = FunctionPhaseReady \<longrightarrow>
       fst_function_id (fn_status g) \<noteq> []))"
proof
  show "wrote_ready (io_trace (snd (reconcile_found_function (sample_functions (Some (oci_lifecycle (sample_oci [] None))) 5)
     (sample_managed [function_finalizer] None) function_start)))" by code_simp
next
  show "\<exists>t. io_trace (snd (reconcile_found_function (sample_functions (Some (oci_lifecycle (sample_oci [] None))) 5)
     (sample_managed [function_finalizer] None) function_start)) = io_trace function_start @ t \<and>
    (\<forall>g. StatusUpdate g \<in> set (writes t) \<longrightarrow> fst_phase (fn_status g) = FunctionPhaseReady \<longrightarrow>
       fst_function_id (fn_status g) \<noteq> [])"
  using function_ready_invocable [OF sample_functions_lib, of "sample_managed [function_finalizer] None"
      "Some (oci_lifecycle (sample_oci [] None))" 5 "sample_oci [] None" function_start]
  by (auto simp: sample_functions_def sample_managed_def)
qed

section \<open>Deletion\<close>

text \<open>The functions a deletion by name may mean: of that name, not going away or gone, with an OCID.\<close>

definition named_candidate :: "string \<Rightarrow> sdk_function \<Rightarrow> bool" where
  "named_candidate name f \<longleftrightarrow> string_value (fu_display_name f) = name \<and>
     fu_lifecycle_state f \<notin> {''DELETED'', ''DELETING''} \<and> trim_space (string_value (fu_id f)) \<noteq> []"

text \<open>
  C18: deleting a managed function by name, when its OCID is not recorded but that of its application is, goes
  by the one page of the listing that is read. A page with exactly one candidate of the name has that
  candidate deleted and no other; without a candidate nothing is deleted and no error is reported; with
  several nothing is deleted, an error is reported, and nothing is called after the listing. This holds
  whether or not there is a next page, which is not asked for: candidates on it are not considered.
\<close>

theorem delete_by_name_on_page:
  assumes "ol_configured I" "trim_space (delete_region t) \<noteq> []" "trim_space (fdt_function_id t) = []"
    and "trim_space (fdt_application_id t) \<noteq> []" "trim_space (fdt_display_name t) \<noteq> []"
    and listed: "sdk_list_functions (ol_client I) (trim_space (fdt_application_id t)) (Some (trim_space (fdt_display_name t)))
      (sdk_set_region (ol_client I) (delete_region t) w) = (Inr (items, next_page), w1)"
  shows "case filter (named_candidate (trim_space (fdt_display_name t))) items of
      [] \<Rightarrow> \<exists>st. oci_delete_managed_function I t w = ((st, None), w1) \<and> \<not> fds_deleted st
    | [f] \<Rightarrow> (case delete_function_by_id (ol_client I) (trim_space (string_value (fu_id f))) w1 of
          (err, w2) \<Rightarrow> \<exists>st. oci_delete_managed_function I t w = ((st, err), w2) \<and>
            fds_function_id st = trim_space (string_value (fu_id f)) \<and> (fds_deleted st \<longleftrightarrow> err = None))
    | f # g # fs \<Rightarrow> \<exists>st e. oci_delete_managed_function I t w = ((st, Some e), w1) \<and> \<not> fds_deleted st"
proof -
  let ?name = "trim_space (fdt_display_name t)"
  have ids: "live_ids (\<lambda>f. string_value (fu_display_name f) = ?name \<and> \<not> gone_state (fu_lifecycle_state f)) fu_id items =
      map (\<lambda>f. trim_space (string_value (fu_id f))) (filter (named_candidate ?name) items)"
    by (induction items) (auto simp: live_ids_def named_candidate_def gone_state_def)
  have some: "trim_space (string_value (fu_id f)) \<noteq> []" if "filter (named_candidate ?name) items = [f]" for f
    using arg_cong [OF that, of set] by (auto simp: named_candidate_def)
  note run = oci_delete_managed_function_def resolve_function_for_delete_def resolve_function_in_application_def
    empty_function_deletion_def
  show ?thesis
  proof (cases "filter (named_candidate ?name) items")
    case Nil
    with assms ids show ?thesis by (simp add: run Let_def)
  next
    case (Cons f fs)
    show ?thesis
    proof (cases fs)
      case Nil
      obtain err w2 where "delete_function_by_id (ol_client I) (trim_space (string_value (fu_id f))) w1 = (err, w2)"
        by (metis prod.exhaust)
      with Cons Nil assms ids some show ?thesis
        by (cases err) (simp_all add: run Let_def delete_known_function_def)
    next
      case (Cons g gs)
      with \<open>filter (named_candidate ?name) items = f # fs\<close> assms ids show ?thesis by (simp add: run Let_def)
    qed
  qed
qed

text \<open>Two candidates on the page; and one candidate with a next page, which is deleted.\<close>

definition named_target :: function_delete_target where
  "named_target = \<lparr>fdt_region = ''r'', fdt_compartment_id = [], fdt_application_name = [], fdt_application_id = ''ocid1.app'',
     fdt_display_name = ''fn'', fdt_function_id = []\<rparr>"

theorem delete_by_name_on_page_witness:
  "(\<exists>st e. oci_delete_managed_function (sample_oci [sample_sdk_function ''ocid1.f'' ''fn'', sample_sdk_function ''ocid1.g'' ''fn''] None)
      named_target () = ((st, Some e), ()) \<and> \<not> fds_deleted st) \<and>
   (\<exists>st. oci_delete_managed_function (sample_oci [sample_sdk_function ''ocid1.f'' ''fn''] (Some ''page2'')) named_target () =
      ((st, None), ()) \<and> fds_function_id st = ''ocid1.f'' \<and> fds_deleted st)"
proof
  have t: "trim_space (delete_region named_target) \<noteq> []" "trim_space (fdt_function_id named_target) = []"
    "trim_space (fdt_application_id named_target) \<noteq> []" "trim_space (fdt_display_name named_target) = ''fn''" by code_simp+
  have "named_candidate ''fn'' (sample_sdk_function ''ocid1.f'' ''fn'')" "named_candidate ''fn'' (sample_sdk_function ''ocid1.g'' ''fn'')"
    by code_simp+
  then have two: "filter (named_candidate ''fn'') [sample_sdk_function ''ocid1.f'' ''fn'', sample_sdk_function ''ocid1.g'' ''fn''] =
      [sample_sdk_function ''ocid1.f'' ''fn'', sample_sdk_function ''ocid1.g'' ''fn'']"
    and one: "filter (named_candidate ''fn'') [sample_sdk_function ''ocid1.f'' ''fn''] = [sample_sdk_function ''ocid1.f'' ''fn'']"
    by simp_all
  note deletes = delete_by_name_on_page [where t = named_target and w = "()" and ?w1.0 = "()", unfolded t(4)]
  show "\<exists>st e. oci_delete_managed_function (sample_oci [sample_sdk_function ''ocid1.f'' ''fn'', sample_sdk_function ''ocid1.g'' ''fn''] None)
      named_target () = ((st, Some e), ()) \<and> \<not> fds_deleted st"
    using deletes [OF _ t(1-3) _, of "sample_oci [sample_sdk_function ''ocid1.f'' ''fn'', sample_sdk_function ''ocid1.g'' ''fn''] None"
      "[sample_sdk_function ''ocid1.f'' ''fn'', sample_sdk_function ''ocid1.g'' ''fn'']" None]
    unfolding two by (simp add: sample_oci_def sample_sdk_def)
  show "\<exists>st. oci_delete_managed_function (sample_oci [sample_sdk_function ''ocid1.f'' ''fn''] (Some ''page2'')) named_target () =
      ((st, None), ()) \<and> fds_function_id st = ''ocid1.f'' \<and> fds_deleted st"
    (is "\<exists>st. oci_delete_managed_function ?I _ _ = _ \<and> _ st \<and> _ st")
  proof -
    have conf: "ol_configured ?I" and listed: "sdk_list_functions (ol_client ?I) (trim_space (fdt_application_id named_target))
        (Some ''fn'') (sdk_set_region (ol_client ?I) (delete_region named_target) ()) =
        (Inr ([sample_sdk_function ''ocid1.f'' ''fn''], Some ''page2''), ())"
      by (simp_all add: sample_oci_def sample_sdk_def)
    have "delete_function_by_id (ol_client ?I) ''ocid1.f'' () = (None, ())"
      "trim_space (string_value (fu_id (sample_sdk_function ''ocid1.f'' ''fn''))) = ''ocid1.f''" by code_simp+
    with deletes [OF conf t(1-3) _ listed, unfolded one] show ?thesis by simp
  qed
qed

text \<open>
  An OCI application that still has functions is never deleted. If the listing made for the deletion
  shows a function that is not already going away, or is incomplete (there is a next page), the deletion
  is reported as blocked and not done, and nothing is called after the listing.
\<close>

theorem application_delete_blocked:
  assumes "ol_configured I"
    and "trim_space (effective_application_region (adt_region t) (adt_application_id t)) \<noteq> []"
    and "trim_space (adt_application_id t) \<noteq> []"
    and listed: "sdk_list_functions (ol_client I) (trim_space (adt_application_id t)) None
      (sdk_set_region (ol_client I) (effective_application_region (adt_region t) (adt_application_id t)) w)
        = (Inr (items, next_page), w1)"
    and busy: "string_value next_page \<noteq> [] \<or> (\<exists>f \<in> set items. \<not> gone_state (fu_lifecycle_state f))"
  shows "\<exists>st. oci_delete_application I t w = ((st, None), w1) \<and> ads_blocked st \<and> \<not> ads_deleted st \<and>
    ads_application_id st = trim_space (adt_application_id t)"
proof -
  have "0 < active_function_count items next_page"
    using busy by (auto simp: active_function_count_def filter_empty_conv)
  with assms show ?thesis
    by (simp add: oci_delete_application_def Let_def empty_application_deletion_def)
qed

theorem application_delete_blocked_witness:
  "\<exists>st. oci_delete_application (sample_oci [sample_sdk_function ''ocid1.f'' ''fn''] None)
      \<lparr>adt_region = ''r'', adt_application_id = ''a'', adt_display_name = [], adt_compartment_id = []\<rparr> () =
      ((st, None), ()) \<and> ads_blocked st \<and> \<not> ads_deleted st"
proof -
  have "trim_space (effective_application_region ''r'' ''a'') \<noteq> []" "trim_space ''a'' \<noteq> []" by code_simp+
  with application_delete_blocked [of "sample_oci [sample_sdk_function ''ocid1.f'' ''fn''] None"
      "\<lparr>adt_region = ''r'', adt_application_id = ''a'', adt_display_name = [], adt_compartment_id = []\<rparr>" "()"
      "[sample_sdk_function ''ocid1.f'' ''fn'']" None "()"]
  show ?thesis by (auto simp: sample_oci_def sample_sdk_def sample_sdk_function_def gone_state_def)
qed

section \<open>What an update converges to\<close>

text \<open>
  C38: updating a function converges except for a configuration that is to be emptied. When the service
  applies an update as documented (the fields that are set replace the old ones), the function it leaves
  needs another update exactly if the wanted configuration is empty and the present one is not: an empty
  configuration is sent as no configuration at all.
\<close>

theorem function_update_converges:
  assumes "update_applied (function_update_details d) f f'"
  shows "function_needs_update f' d \<longleftrightarrow>
    nil_to_empty_map (df_config d) = [] \<and> nil_to_empty_map (fu_config f) \<noteq> []"
  using assms by (rule update_converges)

theorem function_update_converges_witness:
  "function_needs_update ((sample_sdk_function ''i'' ''fn'')\<lparr>fu_config := Some [(''k'', ''v'')]\<rparr>)
     (desired_function_from_config sample_config)"
proof -
  let ?f = "(sample_sdk_function ''i'' ''fn'')\<lparr>fu_config := Some [(''k'', ''v'')]\<rparr>"
  let ?d = "desired_function_from_config sample_config"
  have "update_applied (function_update_details ?d) ?f ?f" by code_simp
  moreover have "nil_to_empty_map (df_config ?d) = [] \<and> nil_to_empty_map (fu_config ?f) \<noteq> []" by code_simp
  ultimately show ?thesis using function_update_converges by blast
qed

text \<open>
  An application's network settings are compared as multisets: no update is sent for subnets or NSGs
  that are merely listed in another order, and any other difference is seen.
\<close>

theorem nsg_update_iff_multiset:
  "nsg_update_needed d app \<longleftrightarrow> da_manage_application_nsg_ids d \<and>
     mset (ap_nsg_ids app) \<noteq> mset (nil_to_empty_slice (da_application_nsg_ids d))"
  by (simp add: nsg_update_needed_def same_string_set_iff)

section \<open>Listing the logs\<close>

text \<open>
  Reading the logs of a group page by page returns all of them: when the listing ends after \<open>n\<close>
  pages, following up to \<open>n\<close> or more pages gives the concatenation of the pages.
\<close>

theorem list_logs_complete:
  assumes "log_pages C g p w n ls w'" "n \<le> bound"
  shows "list_logs bound C g p w = (Inr ls, w')"
  using assms by (rule list_logs_enough)

definition sample_logs :: "nat logging_client" where
  "sample_logs = \<lparr>log_set_region = (\<lambda>r w. w),
     log_list = (\<lambda>g p w. (Inr ([\<lparr>lo_id = p, lo_log_group_id = Some g, lo_display_name = None, lo_log_type = ''SERVICE'',
        lo_is_enabled = Some True, lo_lifecycle_state = ''ACTIVE'', lo_configuration = None\<rparr>],
        if p = None then Some ''2'' else None), Suc w)),
     log_create = (\<lambda>g d w. (Inr (), w)), log_update = (\<lambda>g i d w. (Inr (), w))\<rparr>"

theorem list_logs_complete_witness:
  "\<exists>ls. list_logs 2 sample_logs ''g'' None 0 = (Inr ls, 2) \<and> length ls = 2"
proof -
  let ?log = "\<lambda>p. \<lparr>lo_id = p, lo_log_group_id = Some ''g'', lo_display_name = None, lo_log_type = ''SERVICE'',
        lo_is_enabled = Some True, lo_lifecycle_state = ''ACTIVE'', lo_configuration = None\<rparr>"
  have "log_pages sample_logs ''g'' (Some ''2'') 1 1 [?log (Some ''2'')] 2"
    by (rule final_page [where nxt = None]) (simp_all add: sample_logs_def last_page_def)
  then have "log_pages sample_logs ''g'' None 0 (Suc 1) ([?log None] @ [?log (Some ''2'')]) 2"
    by (rule more_pages [rotated 2]) (simp_all add: sample_logs_def last_page_def trim_space_eq_Nil is_space_def)
  from list_logs_complete [OF this, of 2] show ?thesis by simp
qed

end
