(* ===== verification/ApplicationController.thy ===== *)
theory ApplicationController
  imports FunctionLemmas
begin

text \<open>
  \<open>internal/controller/functionapplication_controller.go\<close>: the \<open>FunctionApplication\<close> reconciler. It
  shares the event recorder, the in-place condition setter and the error normaliser with the \<open>Function\<close>
  reconciler.
\<close>

datatype application_call =
    EnsuredApplication desired_application application_state "go_error option"
  | DeletedApplication application_delete_target application_deletion_state "go_error option"

record 'w application_reconciler =
  ar_client :: "'w kube_client"
  ar_lib :: kube_lib
  ar_manager :: "'w lifecycle_manager option"
  ar_recorder :: bool
  ar_clock :: "'w \<Rightarrow> time"

type_synonym application_effect = "(function_application, application_call) effect"
type_synonym 'w application_io = "(application_effect, 'w) io"

definition application_finalizer :: string where
  "application_finalizer = ''functionapplications.functions.oci.oracle.com/finalizer''"

definition application_requeue :: duration where
  "application_requeue = 30 * second"

section \<open>Conditions\<close>

definition application_condition ::
    "string \<Rightarrow> condition_status \<Rightarrow> string \<Rightarrow> string \<Rightarrow> int \<Rightarrow> time \<Rightarrow> condition" where
  "application_condition t st reason message generation now =
     \<lparr>c_type = t, c_status = st, c_reason = reason, c_message = message,
      c_observed_generation = generation, c_last_transition = now\<rparr>"

definition set_application_condition :: "condition \<Rightarrow> application_status \<Rightarrow> application_status" where
  "set_application_condition c s = s\<lparr>ast_conditions := set_ready_condition_list (ast_conditions s) c\<rparr>"

definition application_condition_set ::
    "condition_status \<Rightarrow> string \<Rightarrow> string \<Rightarrow> int \<Rightarrow> time \<Rightarrow> condition list" where
  "application_condition_set st reason message generation now =
     map (\<lambda>t. application_condition t st reason message generation now)
       [application_condition_ready, application_condition_resolved, application_condition_application_ready]"

definition set_application_conditions ::
    "int \<Rightarrow> time \<Rightarrow> condition_status \<Rightarrow> string \<Rightarrow> string \<Rightarrow> application_status \<Rightarrow> application_status" where
  "set_application_conditions generation now st reason message s =
     fold set_application_condition (application_condition_set st reason message generation now) s"

text \<open>
  The deletion path works on \<open>status := application.Status\<close>, which shares its conditions with the
  object: the updates in place show in the object too, until the first append moves the copy to an
  array of its own (the object was deep-copied from the cache, so its slice is exactly full).
\<close>

fun shared_conditions :: "condition list \<Rightarrow> condition list \<Rightarrow> condition list" where
  "shared_conditions cs [] = cs"
| "shared_conditions cs (c # rest) =
     (if list_ex (\<lambda>d. c_type d = c_type c) cs then shared_conditions (set_ready_condition_list cs c) rest else cs)"

section \<open>Desired state from the spec\<close>

definition should_have_application_finalizer :: "function_application \<Rightarrow> bool" where
  "should_have_application_finalizer a \<longleftrightarrow>
     effective_application_mode a = ApplicationModeManaged \<and> application_deletion_policy a = DeletionPolicyDelete"

definition invocation_logging_enabled_from_spec :: "bool option \<Rightarrow> bool" where
  "invocation_logging_enabled_from_spec enabled = (case enabled of None \<Rightarrow> True | Some b \<Rightarrow> b)"

definition application_logging_from_spec :: "application_logging_spec option \<Rightarrow> application_logging option" where
  "application_logging_from_spec spec =
     (case Option.bind spec ls_invocation_logs of
        None \<Rightarrow> None
      | Some logs \<Rightarrow>
          (let fmt = trim_space (il_line_format logs) in
           Some \<lparr>lg_invocation_logs = Some
             \<lparr>log_enabled = invocation_logging_enabled_from_spec (il_enabled logs),
              log_group_id = trim_space (il_log_group_id logs),
              log_display_name = trim_space (il_log_display_name logs),
              log_service = trim_space (il_service logs),
              log_category = trim_space (il_category logs),
              log_line_format = (if fmt = [] then ''JSON'' else fmt)\<rparr>\<rparr>))"

definition desired_application_from_spec :: "function_application \<Rightarrow> desired_application" where
  "desired_application_from_spec a =
     (let s = app_spec a in
      \<lparr>da_mode = effective_application_mode a, da_region = trim_space (as_region s),
       da_compartment_id = trim_space (as_compartment_id s), da_display_name = trim_space (as_display_name s),
       da_subnet_ids = trim_string_slice (as_subnet_ids s),
       da_application_nsg_ids = map_option trim_string_slice (as_nsg_ids s),
       da_manage_application_nsg_ids = (as_nsg_ids s \<noteq> None),
       da_config = Option.bind (as_config s) copy_string_map, da_freeform_tags = None,
       da_logging = application_logging_from_spec (as_logging s),
       da_existing_application_id = trim_space (as_existing_application_id s),
       da_manage_application_configuration = (as_config s \<noteq> None),
       da_manage_application_logging = (Option.bind (as_logging s) ls_invocation_logs \<noteq> None)\<rparr>)"

definition application_delete_target_of :: "function_application \<Rightarrow> application_delete_target" where
  "application_delete_target_of a =
     (let i = trim_space (ast_application_id (app_status a)); r = trim_space (ast_region (app_status a)) in
      \<lparr>adt_region = (if r = [] then trim_space (as_region (app_spec a)) else r),
       adt_application_id = (if i = [] then trim_space (as_existing_application_id (app_spec a)) else i),
       adt_display_name = trim_space (as_display_name (app_spec a)),
       adt_compartment_id = trim_space (as_compartment_id (app_spec a))\<rparr>)"

section \<open>Status update\<close>

definition application_without_sync :: "application_status \<Rightarrow> application_status" where
  "application_without_sync s = s\<lparr>ast_last_sync_time := None\<rparr>"

definition update_application_status_if_changed ::
    "'w application_reconciler \<Rightarrow> function_application \<Rightarrow> application_status \<Rightarrow> bool \<Rightarrow> 'w application_io \<Rightarrow>
     (function_application \<times> bool \<times> go_error option) \<times> 'w application_io" where
  "update_application_status_if_changed R a desired update_last_sync s =
     (if application_without_sync (app_status a) = application_without_sync desired then ((a, False, None), s)
      else
        (let d = (if update_last_sync
                  then desired\<lparr>ast_last_sync_time := Some (ar_clock R (io_world s))\<rparr> else desired);
             a' = a\<lparr>app_status := d\<rparr>;
             (err, s') = perform (StatusUpdate a') (status_update_application (ar_client R) a') s
         in ((a', err = None, err), s')))"

definition update_application_object ::
    "'w application_reconciler \<Rightarrow> function_application \<Rightarrow> 'w application_io \<Rightarrow> go_error option \<times> 'w application_io" where
  "update_application_object R a s = perform (ObjectUpdate a) (update_application (ar_client R) a) s"

definition has_application_finalizer :: "kube_lib \<Rightarrow> function_application \<Rightarrow> bool" where
  "has_application_finalizer K a = contains_finalizer K (om_finalizers (app_meta a)) application_finalizer"

definition add_application_finalizer :: "kube_lib \<Rightarrow> function_application \<Rightarrow> function_application" where
  "add_application_finalizer K a =
     app_meta_update (om_finalizers_update (\<lambda>fs. add_finalizer K fs application_finalizer)) a"

definition remove_application_finalizer :: "kube_lib \<Rightarrow> function_application \<Rightarrow> function_application" where
  "remove_application_finalizer K a =
     app_meta_update (om_finalizers_update (\<lambda>fs. remove_finalizer K fs application_finalizer)) a"

section \<open>Deletion\<close>

definition application_deletion_error_status ::
    "function_application \<Rightarrow> time \<Rightarrow> string \<Rightarrow> string \<Rightarrow> application_status" where
  "application_deletion_error_status a now reason message =
     set_application_conditions (om_generation (app_meta a)) now CondFalse reason message
       ((app_status a)\<lparr>ast_observed_generation := om_generation (app_meta a),
          ast_phase := ApplicationPhaseError, ast_message := message\<rparr>)"

definition share_application_conditions ::
    "function_application \<Rightarrow> time \<Rightarrow> string \<Rightarrow> string \<Rightarrow> function_application" where
  "share_application_conditions a now reason message =
     app_status_update (\<lambda>s. s\<lparr>ast_conditions := shared_conditions (ast_conditions s)
       (application_condition_set CondFalse reason message (om_generation (app_meta a)) now)\<rparr>) a"

definition report_application_delete_failure ::
    "'w application_reconciler \<Rightarrow> function_application \<Rightarrow> time \<Rightarrow> string \<Rightarrow> string \<Rightarrow> string \<Rightarrow> 'w application_io \<Rightarrow>
     reconcile_end \<times> 'w application_io" where
  "report_application_delete_failure R a now reason event message s =
     (let desired = application_deletion_error_status a now reason message in
      case update_application_status_if_changed R (share_application_conditions a now reason message) desired True s of
        ((a', patched, Some e), s') \<Rightarrow> (Returned no_requeue (Some e), s')
      | ((a', patched, None), s') \<Rightarrow>
          (Returned (requeue_in application_requeue) None,
           (if patched then record_event (ar_recorder R) EventWarning event message s' else s')))"

definition call_delete_application ::
    "'w application_reconciler \<Rightarrow> 'w lifecycle_manager \<Rightarrow> application_delete_target \<Rightarrow> 'w application_io \<Rightarrow>
     (application_deletion_state \<times> go_error option) \<times> 'w application_io" where
  "call_delete_application R M t s =
     (let ((state, err), w) = lm_delete_application M t (io_world s)
      in ((state, err), record_lifecycle_events (ar_recorder R) (ads_events state)
            (emit (Called (DeletedApplication t state err)) (s\<lparr>io_world := w\<rparr>))))"

definition delete_managed_application ::
    "'w application_reconciler \<Rightarrow> 'w lifecycle_manager \<Rightarrow> function_application \<Rightarrow> time \<Rightarrow> 'w application_io \<Rightarrow>
     reconcile_end \<times> 'w application_io" where
  "delete_managed_application R M a now s =
     (case call_delete_application R M (application_delete_target_of a) s of
        ((state, Some e), s1) \<Rightarrow>
          report_application_delete_failure R a now ''ApplicationDeleteFailed'' ''ApplicationDeleteFailed''
            (normalize_function_lifecycle_error ''Delete OCI Functions application'' (Some e)) s1
      | ((state, None), s1) \<Rightarrow>
          if ads_blocked state then
            report_application_delete_failure R a now ''ApplicationDeleteBlocked'' ''ApplicationDeleteBlocked''
              (ads_message state) s1
          else
            (case update_application_object R (remove_application_finalizer (ar_lib R) a) s1 of
               (Some e, s2) \<Rightarrow> (Returned no_requeue (Some e), s2)
             | (None, s2) \<Rightarrow>
                 (Returned no_requeue None,
                  (if ads_message state \<noteq> [] then
                     record_event (ar_recorder R) EventNormal ''ApplicationDeleted'' (ads_message state) s2
                   else s2))))"

definition reconcile_application_delete ::
    "'w application_reconciler \<Rightarrow> function_application \<Rightarrow> 'w application_io \<Rightarrow> reconcile_end \<times> 'w application_io" where
  "reconcile_application_delete R a s =
     (if \<not> has_application_finalizer (ar_lib R) a then (Returned no_requeue None, s)
      else if effective_application_mode a \<noteq> ApplicationModeManaged \<or>
              application_deletion_policy a \<noteq> DeletionPolicyDelete then
        (case update_application_object R (remove_application_finalizer (ar_lib R) a)
                (record_event (ar_recorder R) EventNormal ''ApplicationRetained''
                   ''Retained OCI Functions application.'' s) of
           (err, s') \<Rightarrow> (Returned no_requeue err, s'))
      else
        (let now = ar_clock R (io_world s) in
         case ar_manager R of
           None \<Rightarrow> report_application_delete_failure R a now ''LifecycleManagerNotConfigured'' ''ApplicationDeleteFailed''
             ''Cannot delete OCI Functions application because the lifecycle manager is not configured.'' s
         | Some M \<Rightarrow> delete_managed_application R M a now s))"

section \<open>Reconcile\<close>

definition fresh_application_status :: "int \<Rightarrow> application_status" where
  "fresh_application_status generation = \<lparr>ast_observed_generation = generation, ast_phase = ApplicationPhaseUnset,
     ast_application_id = [], ast_display_name = [], ast_region = [], ast_message = [],
     ast_last_sync_time = None, ast_conditions = []\<rparr>"

definition mark_application ::
    "int \<Rightarrow> time \<Rightarrow> application_phase \<Rightarrow> condition_status \<Rightarrow> string \<Rightarrow> string \<Rightarrow> application_status \<Rightarrow> application_status" where
  "mark_application generation now phase st reason message s =
     set_application_conditions generation now st reason message (s\<lparr>ast_phase := phase, ast_message := message\<rparr>)"

definition with_application_state :: "application_state \<Rightarrow> application_status \<Rightarrow> application_status" where
  "with_application_state state s =
     s\<lparr>ast_application_id := aps_application_id state, ast_display_name := aps_display_name state,
       ast_region := aps_region state\<rparr>"

definition or_default :: "string \<Rightarrow> string \<Rightarrow> string" where
  "or_default message other = (if message = [] then other else message)"

definition call_ensure_application ::
    "'w application_reconciler \<Rightarrow> 'w lifecycle_manager \<Rightarrow> desired_application \<Rightarrow> 'w application_io \<Rightarrow>
     (application_state \<times> go_error option) \<times> 'w application_io" where
  "call_ensure_application R M d s =
     (let ((state, err), w) = lm_ensure_application M d (io_world s)
      in ((state, err), record_lifecycle_events (ar_recorder R) (aps_events state)
            (emit (Called (EnsuredApplication d state err)) (s\<lparr>io_world := w\<rparr>))))"

text \<open>The desired status and the result of a live reconciliation.\<close>

definition observed_application ::
    "int \<Rightarrow> time \<Rightarrow> application_state \<Rightarrow> go_error option \<Rightarrow> application_status \<times> ctrl_result" where
  "observed_application generation now state err =
     (let s = with_application_state state (fresh_application_status generation) in
      case err of
        Some e \<Rightarrow>
          (mark_application generation now ApplicationPhaseError CondFalse ''FunctionApplicationError''
             (normalize_function_lifecycle_error ''Reconcile FunctionApplication'' (Some e)) s,
           requeue_in application_requeue)
      | None \<Rightarrow>
          if aps_ready state then
            (mark_application generation now ApplicationPhaseReady CondTrue ''FunctionApplicationReady''
               (or_default (aps_message state) ''OCI Functions application is ready.'') s, no_requeue)
          else
            (mark_application generation now ApplicationPhasePending CondFalse ''FunctionApplicationPending''
               (or_default (aps_message state) ''OCI Functions application is reconciling.'') s,
             requeue_in application_requeue))"

definition unconfigured_application :: "int \<Rightarrow> time \<Rightarrow> application_status" where
  "unconfigured_application generation now =
     mark_application generation now ApplicationPhasePending CondFalse ''LifecycleManagerNotConfigured''
       ''FunctionApplication lifecycle manager is not configured; run the manager with INVOKER_MODE=oci.''
       (fresh_application_status generation)"

definition finish_application ::
    "'w application_reconciler \<Rightarrow> function_application \<Rightarrow> application_status \<Rightarrow> ctrl_result \<Rightarrow> 'w application_io \<Rightarrow>
     reconcile_end \<times> 'w application_io" where
  "finish_application R a desired result s =
     (case update_application_status_if_changed R a desired True s of
        ((a', patched, Some e), s') \<Rightarrow> (Returned no_requeue (Some e), s')
      | ((a', patched, None), s') \<Rightarrow> (Returned result None, s'))"

definition reconcile_live_application ::
    "'w application_reconciler \<Rightarrow> function_application \<Rightarrow> 'w application_io \<Rightarrow> reconcile_end \<times> 'w application_io" where
  "reconcile_live_application R a s =
     (let K = ar_lib R; wanted = should_have_application_finalizer a in
      if wanted \<and> \<not> has_application_finalizer K a then
        (case update_application_object R (add_application_finalizer K a) s of
           (Some e, s') \<Rightarrow> (Returned no_requeue (Some e), s')
         | (None, s') \<Rightarrow> (Returned requeue_now None, s'))
      else if \<not> wanted \<and> has_application_finalizer K a then
        (case update_application_object R (remove_application_finalizer K a) s of
           (Some e, s') \<Rightarrow> (Returned no_requeue (Some e), s')
         | (None, s') \<Rightarrow> (Returned requeue_now None, s'))
      else
        (let now = ar_clock R (io_world s); generation = om_generation (app_meta a) in
         case ar_manager R of
           None \<Rightarrow> finish_application R a (unconfigured_application generation now) (requeue_in application_requeue) s
         | Some M \<Rightarrow>
             (case call_ensure_application R M (desired_application_from_spec a) s of
                ((state, err), s1) \<Rightarrow>
                  (case observed_application generation now state err of
                     (desired, result) \<Rightarrow> finish_application R a desired result s1))))"

definition reconcile_found_application ::
    "'w application_reconciler \<Rightarrow> function_application \<Rightarrow> 'w application_io \<Rightarrow> reconcile_end \<times> 'w application_io" where
  "reconcile_found_application R a s =
     (if om_deletion_timestamp (app_meta a) \<noteq> None then reconcile_application_delete R a s
      else reconcile_live_application R a s)"

definition reconcile_application ::
    "'w application_reconciler \<Rightarrow> string \<Rightarrow> string \<Rightarrow> 'w application_io \<Rightarrow> reconcile_end \<times> 'w application_io" where
  "reconcile_application R namespace name s =
     (case get_application (ar_client R) namespace name (io_world s) of
        NotFound \<Rightarrow> (Returned no_requeue None, s)
      | GetFailed e \<Rightarrow> (Returned no_requeue (Some e), s)
      | Got a \<Rightarrow> reconcile_found_application R a s)"

end
