(* ===== verification/ApplicationLemmas.thy ===== *)
theory ApplicationLemmas
  imports ApplicationController FunctionReconcile
begin

text \<open>
  The library of facts about the \<open>FunctionApplication\<close> reconciler: the three conditions, what each
  step writes and calls, and the ways a reconciliation can go.
\<close>

section \<open>Conditions\<close>

definition application_condition_types :: "string list" where
  "application_condition_types =
     [application_condition_ready, application_condition_resolved, application_condition_application_ready]"

lemma application_types_distinct [simp]:
  "application_condition_resolved \<noteq> application_condition_ready"
  "application_condition_application_ready \<noteq> application_condition_ready"
  "application_condition_application_ready \<noteq> application_condition_resolved"
  by (simp_all add: application_condition_ready_def application_condition_resolved_def
      application_condition_application_ready_def)

text \<open>All three conditions are present, and true exactly in the phase \<open>Ready\<close>.\<close>

definition application_agrees :: "application_status \<Rightarrow> bool" where
  "application_agrees s \<longleftrightarrow> (\<forall>t \<in> set application_condition_types.
     condition_status_of (ast_conditions s) t = Some (truth (ast_phase s = ApplicationPhaseReady)))"

lemma set_application_conditions_status:
  assumes "t \<in> set application_condition_types"
  shows "condition_status_of (ast_conditions (set_application_conditions g now st r m s)) t = Some st"
  using assms
  by (auto simp: application_condition_types_def set_application_conditions_def application_condition_set_def
      application_condition_def set_application_condition_def ready_list.status_set)

lemma set_application_conditions_frame [status_simps]:
  "ast_phase (set_application_conditions g now st r m s) = ast_phase s"
  "ast_message (set_application_conditions g now st r m s) = ast_message s"
  "ast_application_id (set_application_conditions g now st r m s) = ast_application_id s"
  "ast_region (set_application_conditions g now st r m s) = ast_region s"
  "ast_observed_generation (set_application_conditions g now st r m s) = ast_observed_generation s"
  by (simp_all add: set_application_conditions_def application_condition_set_def set_application_condition_def)

lemma mark_application_agrees:
  "st = truth (ph = ApplicationPhaseReady) \<Longrightarrow> application_agrees (mark_application g now ph st r m s)"
  by (simp add: application_agrees_def mark_application_def set_application_conditions_status status_simps)

lemma mark_application_frame [status_simps]:
  "ast_phase (mark_application g now ph st r m s) = ph"
  "ast_application_id (mark_application g now ph st r m s) = ast_application_id s"
  "ast_region (mark_application g now ph st r m s) = ast_region s"
  "ast_observed_generation (mark_application g now ph st r m s) = ast_observed_generation s"
  by (simp_all add: mark_application_def status_simps)

lemma fresh_application_status_simps [simp]:
  "ast_observed_generation (fresh_application_status g) = g"
  "ast_conditions (fresh_application_status g) = []"
  by (simp_all add: fresh_application_status_def)

lemma with_application_state_simps [status_simps]:
  "ast_application_id (with_application_state st s) = aps_application_id st"
  "ast_region (with_application_state st s) = aps_region st"
  "ast_observed_generation (with_application_state st s) = ast_observed_generation s"
  by (simp_all add: with_application_state_def)

text \<open>The status a live reconciliation wants, with the result it returns.\<close>

lemma observed_application_facts:
  assumes "observed_application g now st err = (d, r)"
  shows "application_agrees d" "ast_observed_generation d = g"
    "ast_phase d = ApplicationPhaseReady \<longleftrightarrow> err = None \<and> aps_ready st"
    "r = (if ast_phase d = ApplicationPhaseReady then no_requeue else requeue_in application_requeue)"
    "ast_application_id d = aps_application_id st" "ast_region d = aps_region st"
  using assms
  by (auto simp: observed_application_def Let_def status_simps truth_def intro!: mark_application_agrees
      split: option.splits if_splits)

lemma unconfigured_application_facts:
  "application_agrees (unconfigured_application g now)"
  "ast_observed_generation (unconfigured_application g now) = g"
  "ast_phase (unconfigured_application g now) = ApplicationPhasePending"
  by (auto simp: unconfigured_application_def status_simps truth_def intro!: mark_application_agrees)

section \<open>Traces\<close>

declare mem_writes [simp] mem_calls [simp]

lemma call_ensure_application_trace:
  assumes "call_ensure_application R M d s = ((st, err), s')"
  shows "\<exists>t. io_trace s' = io_trace s @ Called (EnsuredApplication d st err) # t \<and> quiet t"
    and "\<exists>w'. lm_ensure_application M d (io_world s) = ((st, err), w')"
proof -
  from assms obtain w where s': "s' = record_lifecycle_events (ar_recorder R) (aps_events st)
      (emit (Called (EnsuredApplication d st err)) (s\<lparr>io_world := w\<rparr>))"
    and w: "lm_ensure_application M d (io_world s) = ((st, err), w)"
    by (auto simp: call_ensure_application_def split: prod.splits)
  then show "\<exists>w'. lm_ensure_application M d (io_world s) = ((st, err), w')" by blast
  show "\<exists>t. io_trace s' = io_trace s @ Called (EnsuredApplication d st err) # t \<and> quiet t"
    unfolding s' using record_lifecycle_events_quiet [of "ar_recorder R" "aps_events st"
        "emit (Called (EnsuredApplication d st err)) (s\<lparr>io_world := w\<rparr>)"] by auto
qed

lemma call_delete_application_trace:
  assumes "call_delete_application R M d s = ((st, err), s')"
  shows "\<exists>t. io_trace s' = io_trace s @ Called (DeletedApplication d st err) # t \<and> quiet t"
    and "\<exists>w'. lm_delete_application M d (io_world s) = ((st, err), w')"
proof -
  from assms obtain w where s': "s' = record_lifecycle_events (ar_recorder R) (ads_events st)
      (emit (Called (DeletedApplication d st err)) (s\<lparr>io_world := w\<rparr>))"
    and w: "lm_delete_application M d (io_world s) = ((st, err), w)"
    by (auto simp: call_delete_application_def split: prod.splits)
  then show "\<exists>w'. lm_delete_application M d (io_world s) = ((st, err), w')" by blast
  show "\<exists>t. io_trace s' = io_trace s @ Called (DeletedApplication d st err) # t \<and> quiet t"
    unfolding s' using record_lifecycle_events_quiet [of "ar_recorder R" "ads_events st"
        "emit (Called (DeletedApplication d st err)) (s\<lparr>io_world := w\<rparr>)"] by auto
qed

lemma update_application_status_trace:
  assumes "update_application_status_if_changed R a d sync s = ((a', patched, err), s')"
  obtains (unchanged) "application_without_sync (app_status a) = application_without_sync d" "s' = s" "err = None"
    | (changed) "io_trace s' = io_trace s @ [StatusUpdate a']" "app_meta a' = app_meta a" "app_spec a' = app_spec a"
      "application_without_sync (app_status a') = application_without_sync d"
  using assms
  by (cases "application_without_sync (app_status a) = application_without_sync d")
    (auto simp: update_application_status_if_changed_def perform_simps application_without_sync_def Let_def
      split: if_splits)

lemma application_without_sync_fields:
  assumes "application_without_sync a = application_without_sync b"
  shows "ast_phase a = ast_phase b" "ast_conditions a = ast_conditions b"
    "ast_application_id a = ast_application_id b" "ast_region a = ast_region b"
    "ast_observed_generation a = ast_observed_generation b"
  using assms by (cases a, cases b, simp add: application_without_sync_def)+

lemma application_without_sync_agrees:
  assumes "application_without_sync a = application_without_sync b"
  shows "application_agrees a \<longleftrightarrow> application_agrees b"
  using application_without_sync_fields [OF assms] by (simp add: application_agrees_def)

lemma update_application_object_trace:
  "update_application_object R a s = (err, s') \<Longrightarrow> io_trace s' = io_trace s @ [ObjectUpdate a]"
  by (auto simp: update_application_object_def perform_simps)

section \<open>A live application\<close>

lemma finish_application_effects:
  assumes "finish_application R a d result s = (out, s')"
  obtains t where "io_trace s' = io_trace s @ t" "\<forall>x. ObjectUpdate x \<notin> set t" "\<forall>c. Called c \<notin> set t"
    and "\<forall>x. StatusUpdate x \<in> set t \<longrightarrow> app_meta x = app_meta a \<and> app_spec x = app_spec a \<and>
      application_without_sync (app_status x) = application_without_sync d"
    and "out = Returned result None \<or> (\<exists>e. out = Returned no_requeue (Some e))"
proof -
  obtain a' patched err s1 where upd:
    "update_application_status_if_changed R a d True s = ((a', patched, err), s1)"
    by (metis prod.exhaust)
  with assms have s1: "s1 = s'" "out = Returned result None \<or> (\<exists>e. out = Returned no_requeue (Some e))"
    by (auto simp: finish_application_def split: option.splits)
  from upd show ?thesis
    by (cases rule: update_application_status_trace) (use s1 in \<open>auto intro: that [of "[]"] that [of "[StatusUpdate a']"]\<close>)
qed

definition application_finalizer_settled :: "kube_lib \<Rightarrow> function_application \<Rightarrow> bool" where
  "application_finalizer_settled K a = (has_application_finalizer K a = should_have_application_finalizer a)"

lemma reconcile_live_application_cases:
  assumes run: "reconcile_live_application R a s = (out, s')"
  obtains (finalizer) x where "\<not> application_finalizer_settled (ar_lib R) a"
      "io_trace s' = io_trace s @ [ObjectUpdate x]"
      "x = (if should_have_application_finalizer a then add_application_finalizer (ar_lib R) a
        else remove_application_finalizer (ar_lib R) a)"
    | (unconfigured) "application_finalizer_settled (ar_lib R) a" "ar_manager R = None"
      "finish_application R a (unconfigured_application (om_generation (app_meta a)) (ar_clock R (io_world s)))
         (requeue_in application_requeue) s = (out, s')"
    | (ensured) M st err s1 d r where "application_finalizer_settled (ar_lib R) a" "ar_manager R = Some M"
      "call_ensure_application R M (desired_application_from_spec a) s = ((st, err), s1)"
      "observed_application (om_generation (app_meta a)) (ar_clock R (io_world s)) st err = (d, r)"
      "finish_application R a d r s1 = (out, s')"
proof (cases "application_finalizer_settled (ar_lib R) a")
  case False
  then show ?thesis using run
    by (auto simp: reconcile_live_application_def Let_def application_finalizer_settled_def
        split: if_splits prod.splits option.splits dest: update_application_object_trace intro: finalizer)
next
  case settled: True
  then have run': "(case ar_manager R of
           None \<Rightarrow> finish_application R a
             (unconfigured_application (om_generation (app_meta a)) (ar_clock R (io_world s))) (requeue_in application_requeue) s
         | Some M \<Rightarrow>
             (case call_ensure_application R M (desired_application_from_spec a) s of
                ((state, err), s1) \<Rightarrow>
                  (case observed_application (om_generation (app_meta a)) (ar_clock R (io_world s)) state err of
                     (desired, result) \<Rightarrow> finish_application R a desired result s1))) = (out, s')"
    using run by (simp add: reconcile_live_application_def application_finalizer_settled_def Let_def)
  show ?thesis
  proof (cases "ar_manager R")
    case None
    with settled run' show ?thesis by (intro unconfigured) simp_all
  next
    case (Some M)
    obtain st err s1 where call: "call_ensure_application R M (desired_application_from_spec a) s = ((st, err), s1)"
      by (metis prod.exhaust)
    obtain d r where d: "observed_application (om_generation (app_meta a)) (ar_clock R (io_world s)) st err = (d, r)"
      by (metis prod.exhaust)
    from settled Some call d run' show ?thesis by (intro ensured [OF _ _ call d]) simp_all
  qed
qed

section \<open>An application being deleted\<close>

lemma report_application_failure_effects:
  assumes "report_application_delete_failure R a now reason ev m s = (out, s')"
  obtains t where "io_trace s' = io_trace s @ t" "\<forall>x. ObjectUpdate x \<notin> set t" "\<forall>c. Called c \<notin> set t"
    and "out = Returned (requeue_in application_requeue) None \<or> (\<exists>e. out = Returned no_requeue (Some e))"
proof -
  let ?d = "application_deletion_error_status a now reason m"
  obtain a' patched err s1 where upd:
    "update_application_status_if_changed R (share_application_conditions a now reason m) ?d True s = ((a', patched, err), s1)"
    by (metis prod.exhaust)
  have "\<exists>t. io_trace s1 = io_trace s @ t \<and> (\<forall>x. ObjectUpdate x \<notin> set t) \<and> (\<forall>c. Called c \<notin> set t)"
    using upd by (cases rule: update_application_status_trace) auto
  then obtain t where t: "io_trace s1 = io_trace s @ t" "\<forall>x. ObjectUpdate x \<notin> set t" "\<forall>c. Called c \<notin> set t"
    by blast
  obtain u where u: "io_trace (record_event (ar_recorder R) EventWarning ev m s1) = io_trace s1 @ u" "quiet u"
    using record_event_quiet by blast
  have "(s' = s1 \<or> s' = record_event (ar_recorder R) EventWarning ev m s1) \<and>
    (out = Returned (requeue_in application_requeue) None \<or> (\<exists>e. out = Returned no_requeue (Some e)))"
    using assms upd by (auto simp: report_application_delete_failure_def Let_def split: option.splits if_splits)
  then have s': "io_trace s' = io_trace s @ t \<or> io_trace s' = io_trace s @ (t @ u)"
    and out: "out = Returned (requeue_in application_requeue) None \<or> (\<exists>e. out = Returned no_requeue (Some e))"
    using t(1) u(1) by auto
  have "\<forall>x. ObjectUpdate x \<notin> set (t @ u)" "\<forall>c. Called c \<notin> set (t @ u)"
    using t quiet_mem(2,3) [OF u(2)] by simp_all
  with s' t that [OF _ _ _ out] show ?thesis by blast
qed

text \<open>The deletion of a managed application: the call, and the finalizer only when it was not blocked.\<close>

lemma delete_managed_application_effects:
  assumes run: "delete_managed_application R M a now s = (out, s')"
  obtains st err w' t where "lm_delete_application M (application_delete_target_of a) (io_world s) = ((st, err), w')"
    and "io_trace s' = io_trace s @ Called (DeletedApplication (application_delete_target_of a) st err) # t"
    and "\<forall>c. Called c \<notin> set t"
    and "\<forall>x. ObjectUpdate x \<in> set t \<longrightarrow> err = None \<and> \<not> ads_blocked st \<and> x = remove_application_finalizer (ar_lib R) a"
    and "err \<noteq> None \<or> ads_blocked st \<Longrightarrow>
      out = Returned (requeue_in application_requeue) None \<or> (\<exists>e. out = Returned no_requeue (Some e))"
proof -
  obtain st err s1 where call: "call_delete_application R M (application_delete_target_of a) s = ((st, err), s1)"
    by (metis prod.exhaust)
  from call_delete_application_trace [OF call] obtain t w' where t: "quiet t"
    "io_trace s1 = io_trace s @ Called (DeletedApplication (application_delete_target_of a) st err) # t"
    and w': "lm_delete_application M (application_delete_target_of a) (io_world s) = ((st, err), w')" by blast
  show ?thesis
  proof (cases "err \<noteq> None \<or> ads_blocked st")
    case True
    with run call obtain r ev m where "report_application_delete_failure R a now r ev m s1 = (out, s')"
      by (auto simp: delete_managed_application_def split: option.splits)
    then show ?thesis
      by (rule report_application_failure_effects)
        (use t w' quiet_mem [OF t(1)] in \<open>auto intro!: that [OF w']\<close>)
  next
    case False
    let ?x = "remove_application_finalizer (ar_lib R) a"
    obtain err2 s2 where upd: "update_application_object R ?x s1 = (err2, s2)" by (metis prod.exhaust)
    obtain u where u: "io_trace (record_event (ar_recorder R) EventNormal ''ApplicationDeleted'' (ads_message st) s2)
        = io_trace s2 @ u" "quiet u" using record_event_quiet by blast
    have "s' = s2 \<or> s' = record_event (ar_recorder R) EventNormal ''ApplicationDeleted'' (ads_message st) s2"
      using run call upd False by (auto simp: delete_managed_application_def split: option.splits if_splits)
    then obtain v where "io_trace s' = io_trace s2 @ v" "quiet v"
      using u by (metis append_Nil2 quiet_simps(1))
    with update_application_object_trace [OF upd] t have
      "io_trace s' = io_trace s @ Called (DeletedApplication (application_delete_target_of a) st err) # (t @ [ObjectUpdate ?x] @ v)"
      by simp
    then show ?thesis
      by (rule that [OF w']) (use False quiet_mem [OF t(1)] quiet_mem [OF \<open>quiet v\<close>] in auto)
  qed
qed

lemma reconcile_application_delete_cases:
  assumes run: "reconcile_application_delete R a s = (out, s')"
  obtains (no_finalizer) "\<not> has_application_finalizer (ar_lib R) a" "s' = s"
    | (retained) t where
      "effective_application_mode a \<noteq> ApplicationModeManaged \<or> application_deletion_policy a \<noteq> DeletionPolicyDelete"
      "io_trace s' = io_trace s @ t @ [ObjectUpdate (remove_application_finalizer (ar_lib R) a)]" "quiet t"
    | (unconfigured) "ar_manager R = None"
      "report_application_delete_failure R a (ar_clock R (io_world s)) ''LifecycleManagerNotConfigured'' ''ApplicationDeleteFailed''
         ''Cannot delete OCI Functions application because the lifecycle manager is not configured.'' s = (out, s')"
    | (deleting) M where "has_application_finalizer (ar_lib R) a"
      "effective_application_mode a = ApplicationModeManaged" "application_deletion_policy a = DeletionPolicyDelete"
      "ar_manager R = Some M"
      "delete_managed_application R M a (ar_clock R (io_world s)) s = (out, s')"
proof (cases "has_application_finalizer (ar_lib R) a")
  case False
  with run show ?thesis by (intro no_finalizer) (simp_all add: reconcile_application_delete_def)
next
  case has: True
  show ?thesis
  proof (cases "effective_application_mode a \<noteq> ApplicationModeManaged \<or> application_deletion_policy a \<noteq> DeletionPolicyDelete")
    case True
    let ?s = "record_event (ar_recorder R) EventNormal ''ApplicationRetained'' ''Retained OCI Functions application.'' s"
    obtain u where u: "io_trace ?s = io_trace s @ u" "quiet u" using record_event_quiet by blast
    obtain err s2 where upd: "update_application_object R (remove_application_finalizer (ar_lib R) a) ?s = (err, s2)"
      by (metis prod.exhaust)
    with run has True have "s' = s2" by (auto simp: reconcile_application_delete_def)
    with True u update_application_object_trace [OF upd] show ?thesis by (intro retained [of u]) simp_all
  next
    case managed: False
    show ?thesis
    proof (cases "ar_manager R")
      case None
      with run has managed show ?thesis
        by (intro unconfigured) (simp_all add: reconcile_application_delete_def Let_def)
    next
      case (Some M)
      with run has managed show ?thesis
        by (intro deleting [of M]) (simp_all add: reconcile_application_delete_def Let_def)
    qed
  qed
qed

end
