(* ===== verification/ApplicationProperties.thy ===== *)
theory ApplicationProperties
  imports ApplicationLemmas LifecycleProperties
begin

text \<open>
  The properties of the \<open>FunctionApplication\<close> reconciler, alone and with the OCI lifecycle manager and
  the functions that refer to the application, with witnesses on a sample managed application.
\<close>

section \<open>Samples\<close>

definition sample_application :: "string list \<Rightarrow> time option \<Rightarrow> string \<Rightarrow> function_application" where
  "sample_application finalizers deleted ident = \<lparr>
     app_meta = (sample_meta ''a'')\<lparr>om_finalizers := finalizers, om_deletion_timestamp := deleted\<rparr>,
     app_spec = \<lparr>as_mode = ApplicationModeManaged, as_compartment_id = ''ocid1.c'',
       as_display_name = ''app'', as_region = ''us-ashburn-1'', as_subnet_ids = [''ocid1.subnet''], as_nsg_ids = None, as_config = None,
       as_logging = None, as_existing_application_id = [], as_deletion_policy = DeletionPolicyDelete\<rparr>,
     app_status = (fresh_application_status 1)\<lparr>ast_application_id := ident\<rparr>\<rparr>"

definition sample_applications :: "unit oci_manager \<Rightarrow> unit application_reconciler" where
  "sample_applications I = \<lparr>ar_client = sample_client NotFound, ar_lib = sample_lib,
     ar_manager = Some (oci_lifecycle I), ar_recorder = True, ar_clock = (\<lambda>w. 5)\<rparr>"

definition application_start :: "unit application_io" where
  "application_start = start_io"

section \<open>Deletion\<close>

text \<open>
  The manager is asked to delete an OCI application only for a resource that is being deleted,
  carries the operator's finalizer, is managed and asks for deletion (never for one in existing mode or
  with policy \<open>Retain\<close>), and only the application its status (or spec) identifies; and it is never asked
  to create or update one for a resource being deleted.
\<close>

theorem application_delete_authorised:
  "\<exists>t. io_trace (snd (reconcile_found_application R a s)) = io_trace s @ t \<and>
    (\<forall>target st err. Called (DeletedApplication target st err) \<in> set t \<longrightarrow>
       om_deletion_timestamp (app_meta a) \<noteq> None \<and> has_application_finalizer (ar_lib R) a \<and>
       as_mode (app_spec a) \<noteq> ApplicationModeExisting \<and> as_deletion_policy (app_spec a) = DeletionPolicyDelete \<and>
       target = application_delete_target_of a) \<and>
    (\<forall>d st err. Called (EnsuredApplication d st err) \<in> set t \<longrightarrow>
       om_deletion_timestamp (app_meta a) = None \<and> d = desired_application_from_spec a)"
proof (cases "om_deletion_timestamp (app_meta a) = None")
  case live: True
  obtain out s' where run: "reconcile_live_application R a s = (out, s')" by (metis prod.exhaust)
  then have "\<exists>t. io_trace s' = io_trace s @ t \<and>
    (\<forall>c. Called c \<in> set t \<longrightarrow> (\<exists>st err. c = EnsuredApplication (desired_application_from_spec a) st err))"
  proof (cases rule: reconcile_live_application_cases)
    case unconfigured
    from unconfigured(3) show ?thesis by (rule finish_application_effects) blast
  next
    case (ensured M st err s1 d r)
    from call_ensure_application_trace(1) [OF ensured(3)] obtain t where t: "quiet t"
      "io_trace s1 = io_trace s @ Called (EnsuredApplication (desired_application_from_spec a) st err) # t" by blast
    from ensured(5) obtain u where u: "io_trace s' = io_trace s1 @ u" "\<forall>c. Called c \<notin> set u"
      by (rule finish_application_effects)
    from t u quiet_mem(3) [OF t(1)] show ?thesis
      by (intro exI [of _ "Called (EnsuredApplication (desired_application_from_spec a) st err) # t @ u"]) auto
  qed auto
  with live run show ?thesis by (fastforce simp: reconcile_found_application_def)
next
  case del: False
  obtain out s' where run: "reconcile_application_delete R a s = (out, s')" by (metis prod.exhaust)
  then have "\<exists>t. io_trace s' = io_trace s @ t \<and>
    (\<forall>c. Called c \<in> set t \<longrightarrow> (\<exists>st err. c = DeletedApplication (application_delete_target_of a) st err) \<and>
      has_application_finalizer (ar_lib R) a \<and>
      as_mode (app_spec a) \<noteq> ApplicationModeExisting \<and> as_deletion_policy (app_spec a) = DeletionPolicyDelete)"
  proof (cases rule: reconcile_application_delete_cases)
    case (retained t)
    with quiet_mem(3) [OF retained(3)] show ?thesis
      by (intro exI [of _ "t @ [ObjectUpdate (remove_application_finalizer (ar_lib R) a)]"]) auto
  next
    case unconfigured
    from unconfigured(2) show ?thesis by (rule report_application_failure_effects) blast
  next
    case (deleting M)
    then have "as_mode (app_spec a) \<noteq> ApplicationModeExisting" "as_deletion_policy (app_spec a) = DeletionPolicyDelete"
      by (auto simp: effective_application_mode_def application_deletion_policy_def split: if_splits)
    from deleting(5) show ?thesis
      by (rule delete_managed_application_effects) (use deleting \<open>as_mode _ \<noteq> _\<close> \<open>as_deletion_policy _ = _\<close> in auto)
  qed auto
  with del run show ?thesis by (fastforce simp: reconcile_found_application_def)
qed

theorem application_delete_authorised_witness:
  "length (calls (io_trace (snd (reconcile_found_application (sample_applications (sample_oci [] None))
     (sample_application [application_finalizer] (Some 1) ''ocid1.a'') application_start)))) = 1 \<and>
   (\<exists>t. io_trace (snd (reconcile_found_application (sample_applications (sample_oci [] None))
     (sample_application [application_finalizer] (Some 1) ''ocid1.a'') application_start)) = io_trace application_start @ t \<and>
    (\<forall>d st err. Called (EnsuredApplication d st err) \<notin> set t))"
proof
  show "length (calls (io_trace (snd (reconcile_found_application (sample_applications (sample_oci [] None))
     (sample_application [application_finalizer] (Some 1) ''ocid1.a'') application_start)))) = 1" by code_simp
next
  show "\<exists>t. io_trace (snd (reconcile_found_application (sample_applications (sample_oci [] None))
     (sample_application [application_finalizer] (Some 1) ''ocid1.a'') application_start)) = io_trace application_start @ t \<and>
    (\<forall>d st err. Called (EnsuredApplication d st err) \<notin> set t)"
    using application_delete_authorised [of "sample_applications (sample_oci [] None)"
      "sample_application [application_finalizer] (Some 1) ''ocid1.a''" application_start]
    by (fastforce simp: sample_application_def)
qed

text \<open>
  C11: an application resource outlives its functions. With the OCI lifecycle manager, while the service
  still lists a function that is not going away (or the listing is incomplete), a managed application
  with policy \<open>Delete\<close> keeps its finalizer: the reconciliation writes at most a status, and asks to be
  called again in 30 seconds.
\<close>

theorem application_kept_while_functions_remain:
  assumes del: "om_deletion_timestamp (app_meta a) \<noteq> None"
    and managed: "effective_application_mode a = ApplicationModeManaged"
      "application_deletion_policy a = DeletionPolicyDelete" "has_application_finalizer (ar_lib R) a"
    and manager: "ar_manager R = Some (oci_lifecycle I)" "ol_configured I"
    and target: "target = application_delete_target_of a"
      "region = effective_application_region (adt_region target) (adt_application_id target)"
      "trim_space region \<noteq> []" "trim_space (adt_application_id target) \<noteq> []"
    and listed: "sdk_list_functions (ol_client I) (trim_space (adt_application_id target)) None
      (sdk_set_region (ol_client I) region (io_world s)) = (Inr (items, next_page), w1)"
    and busy: "string_value next_page \<noteq> [] \<or> (\<exists>f \<in> set items. \<not> gone_state (fu_lifecycle_state f))"
  shows "\<exists>t. io_trace (snd (reconcile_found_application R a s)) = io_trace s @ t \<and>
    (\<forall>x. ObjectUpdate x \<notin> set t) \<and>
    (fst (reconcile_found_application R a s) = Returned (requeue_in application_requeue) None \<or>
     (\<exists>e. fst (reconcile_found_application R a s) = Returned no_requeue (Some e)))"
proof -
  have n: "0 < active_function_count items next_page"
    using busy by (auto simp: active_function_count_def filter_empty_conv)
  then obtain st where st: "lm_delete_application (oci_lifecycle I) target (io_world s) = ((st, None), w1)" "ads_blocked st"
    using manager(2) target listed
    by (simp add: oci_lifecycle_def oci_delete_application_def Let_def empty_application_deletion_def)
  obtain out s' where run: "reconcile_application_delete R a s = (out, s')" by (metis prod.exhaust)
  then have "\<exists>t. io_trace s' = io_trace s @ t \<and> (\<forall>x. ObjectUpdate x \<notin> set t) \<and>
    (out = Returned (requeue_in application_requeue) None \<or> (\<exists>e. out = Returned no_requeue (Some e)))"
  proof (cases rule: reconcile_application_delete_cases)
    case (deleting M)
    with manager(1) have M: "M = oci_lifecycle I" by simp
    from deleting(5) show ?thesis
    proof (rule delete_managed_application_effects)
      fix st' err w' t
      assume call: "lm_delete_application M (application_delete_target_of a) (io_world s) = ((st', err), w')"
        and t: "io_trace s' = io_trace s @ Called (DeletedApplication (application_delete_target_of a) st' err) # t"
        "\<forall>x. ObjectUpdate x \<in> set t \<longrightarrow> err = None \<and> \<not> ads_blocked st' \<and> x = remove_application_finalizer (ar_lib R) a"
        and out: "err \<noteq> None \<or> ads_blocked st' \<Longrightarrow>
          out = Returned (requeue_in application_requeue) None \<or> (\<exists>e. out = Returned no_requeue (Some e))"
      from call st M target(1) have "ads_blocked st'" by simp
      with t out show ?thesis
        by (intro exI [of _ "Called (DeletedApplication (application_delete_target_of a) st' err) # t"]) auto
    qed
  qed (use managed manager in simp_all)
  with del run show ?thesis by (simp add: reconcile_found_application_def)
qed

theorem application_kept_while_functions_remain_witness:
  "\<exists>t. io_trace (snd (reconcile_found_application (sample_applications (sample_oci [sample_sdk_function ''f'' ''fn''] None))
     (sample_application [application_finalizer] (Some 1) ''ocid1.a'') application_start)) = io_trace application_start @ t \<and>
    (\<forall>x. ObjectUpdate x \<notin> set t)"
proof -
  let ?a = "sample_application [application_finalizer] (Some 1) ''ocid1.a''"
  let ?t = "application_delete_target_of ?a"
  let ?region = "effective_application_region (adt_region ?t) (adt_application_id ?t)"
  have ids: "trim_space ?region \<noteq> []" "trim_space (adt_application_id ?t) \<noteq> []" by code_simp+
  have meta: "effective_application_mode ?a = ApplicationModeManaged" "application_deletion_policy ?a = DeletionPolicyDelete"
    by code_simp+
  from application_kept_while_functions_remain [OF _ meta _ _ _ refl refl ids, of
      "sample_applications (sample_oci [sample_sdk_function ''f'' ''fn''] None)"
      "sample_oci [sample_sdk_function ''f'' ''fn''] None" application_start "[sample_sdk_function ''f'' ''fn'']" None "()"]
  show ?thesis
    by (auto simp: sample_applications_def sample_application_def has_application_finalizer_def sample_lib_def
        sample_oci_def sample_sdk_def sample_sdk_function_def gone_state_def)
qed

text \<open>
  A managed application with policy \<open>Delete\<close> whose OCI application was never created cannot be
  deleted: without an application OCID in status or spec every reconciliation of the deletion fails and
  keeps the finalizer, whatever the service answers.
\<close>

theorem application_without_id_stuck:
  assumes del: "om_deletion_timestamp (app_meta a) \<noteq> None"
    and managed: "effective_application_mode a = ApplicationModeManaged"
      "application_deletion_policy a = DeletionPolicyDelete" "has_application_finalizer (ar_lib R) a"
    and manager: "ar_manager R = Some (oci_lifecycle I)"
    and none: "trim_space (ast_application_id (app_status a)) = []"
      "trim_space (as_existing_application_id (app_spec a)) = []"
  shows "\<exists>t. io_trace (snd (reconcile_found_application R a s)) = io_trace s @ t \<and> (\<forall>x. ObjectUpdate x \<notin> set t)"
proof -
  have id: "trim_space (adt_application_id (application_delete_target_of a)) = []"
    using none by (simp add: application_delete_target_of_def Let_def)
  let ?target = "application_delete_target_of a"
  from id have "\<exists>st e. oci_delete_application I ?target (io_world s) = ((st, Some e), io_world s)"
    by (cases "ol_configured I"; cases "trim_space (effective_application_region (adt_region ?target)
        (adt_application_id ?target)) = []") (simp_all add: oci_delete_application_def Let_def)
  then obtain st e where st: "lm_delete_application (oci_lifecycle I) ?target (io_world s) = ((st, Some e), io_world s)"
    by (auto simp: oci_lifecycle_def)
  obtain out s' where run: "reconcile_application_delete R a s = (out, s')" by (metis prod.exhaust)
  then have "\<exists>t. io_trace s' = io_trace s @ t \<and> (\<forall>x. ObjectUpdate x \<notin> set t)"
  proof (cases rule: reconcile_application_delete_cases)
    case (deleting M)
    with manager have M: "M = oci_lifecycle I" by simp
    from deleting(5) show ?thesis
      by (rule delete_managed_application_effects) (use st M in auto)
  qed (use managed manager in simp_all)
  with del run show ?thesis by (simp add: reconcile_found_application_def)
qed

theorem application_without_id_stuck_witness:
  "\<exists>t. io_trace (snd (reconcile_found_application (sample_applications (sample_oci [] None))
     (sample_application [application_finalizer] (Some 1) []) application_start)) = io_trace application_start @ t \<and>
    (\<forall>x. ObjectUpdate x \<notin> set t)"
  by (rule application_without_id_stuck [where I = "sample_oci [] None"])
    (simp_all add: sample_application_def sample_applications_def effective_application_mode_def
      application_deletion_policy_def has_application_finalizer_def sample_lib_def fresh_application_status_def)

section \<open>The status of a live application\<close>

lemma live_application_status:
  assumes run: "reconcile_live_application R a s = (out, s')"
  shows "\<exists>t. io_trace s' = io_trace s @ t \<and>
    (\<forall>x. StatusUpdate x \<in> set t \<longrightarrow> app_meta x = app_meta a \<and> app_spec x = app_spec a \<and>
       ast_observed_generation (app_status x) = om_generation (app_meta a) \<and> application_agrees (app_status x) \<and>
       (out = Returned (if ast_phase (app_status x) = ApplicationPhaseReady then no_requeue
          else requeue_in application_requeue) None \<or> (\<exists>e. out = Returned no_requeue (Some e))) \<and>
       (ast_phase (app_status x) = ApplicationPhaseReady \<longrightarrow> (\<exists>M st w w'. ar_manager R = Some M \<and>
          lm_ensure_application M (desired_application_from_spec a) w = ((st, None), w') \<and> aps_ready st \<and>
          ast_application_id (app_status x) = aps_application_id st \<and> ast_region (app_status x) = aps_region st)))"
  using run
proof (cases rule: reconcile_live_application_cases)
  case unconfigured
  from unconfigured(3) show ?thesis
  proof (rule finish_application_effects)
    fix t
    assume t: "io_trace s' = io_trace s @ t" and
      w: "\<forall>x. StatusUpdate x \<in> set t \<longrightarrow> app_meta x = app_meta a \<and> app_spec x = app_spec a \<and>
        application_without_sync (app_status x) = application_without_sync
          (unconfigured_application (om_generation (app_meta a)) (ar_clock R (io_world s)))"
      and out: "out = Returned (requeue_in application_requeue) None \<or> (\<exists>e. out = Returned no_requeue (Some e))"
    show ?thesis
    proof (rule exI [of _ t], intro conjI t allI impI)
      fix x
      assume "StatusUpdate x \<in> set t"
      with w have x: "app_meta x = app_meta a" "app_spec x = app_spec a"
        and same: "application_without_sync (app_status x) = application_without_sync
          (unconfigured_application (om_generation (app_meta a)) (ar_clock R (io_world s)))" by blast+
      note f = application_without_sync_fields [OF same] application_without_sync_agrees [OF same]
      show "app_meta x = app_meta a" "app_spec x = app_spec a" by (rule x)+
      show "ast_observed_generation (app_status x) = om_generation (app_meta a)"
        "application_agrees (app_status x)"
        using f by (simp_all add: unconfigured_application_facts)
      show "out = Returned (if ast_phase (app_status x) = ApplicationPhaseReady then no_requeue
          else requeue_in application_requeue) None \<or> (\<exists>e. out = Returned no_requeue (Some e))"
        using f(1) out by (simp add: unconfigured_application_facts)
      assume "ast_phase (app_status x) = ApplicationPhaseReady"
      with f(1) have False by (simp add: unconfigured_application_facts)
      then show "\<exists>M st w w'. ar_manager R = Some M \<and>
          lm_ensure_application M (desired_application_from_spec a) w = ((st, None), w') \<and> aps_ready st \<and>
          ast_application_id (app_status x) = aps_application_id st \<and> ast_region (app_status x) = aps_region st" ..
    qed
  qed
next
  case (ensured M st err s1 d r)
  note d = observed_application_facts [OF ensured(4)]
  from call_ensure_application_trace [OF ensured(3)] obtain t0 w' where t0: "quiet t0"
    "io_trace s1 = io_trace s @ Called (EnsuredApplication (desired_application_from_spec a) st err) # t0"
    and w': "lm_ensure_application M (desired_application_from_spec a) (io_world s) = ((st, err), w')" by blast
  from ensured(5) show ?thesis
  proof (rule finish_application_effects)
    fix t
    assume t: "io_trace s' = io_trace s1 @ t" and
      w: "\<forall>x. StatusUpdate x \<in> set t \<longrightarrow> app_meta x = app_meta a \<and> app_spec x = app_spec a \<and>
        application_without_sync (app_status x) = application_without_sync d"
      and out: "out = Returned r None \<or> (\<exists>e. out = Returned no_requeue (Some e))"
    let ?t = "Called (EnsuredApplication (desired_application_from_spec a) st err) # t0 @ t"
    show ?thesis
    proof (rule exI [of _ ?t], intro conjI allI impI)
      show "io_trace s' = io_trace s @ ?t" using t t0(2) by simp
      fix x
      assume "StatusUpdate x \<in> set ?t"
      with quiet_mem(1) [OF t0(1)] have "StatusUpdate x \<in> set t" by simp
      with w have x: "app_meta x = app_meta a" "app_spec x = app_spec a"
        and same: "application_without_sync (app_status x) = application_without_sync d" by blast+
      note f = application_without_sync_fields [OF same] application_without_sync_agrees [OF same]
      show "app_meta x = app_meta a" "app_spec x = app_spec a" by (rule x)+
      show "ast_observed_generation (app_status x) = om_generation (app_meta a)"
        "application_agrees (app_status x)"
        using f d by simp_all
      show "out = Returned (if ast_phase (app_status x) = ApplicationPhaseReady then no_requeue
          else requeue_in application_requeue) None \<or> (\<exists>e. out = Returned no_requeue (Some e))"
        using f(1) d(4) out by simp
      assume "ast_phase (app_status x) = ApplicationPhaseReady"
      with f d have "err = None" "aps_ready st" by simp_all
      with ensured(2) w' f d show "\<exists>M st w w'. ar_manager R = Some M \<and>
          lm_ensure_application M (desired_application_from_spec a) w = ((st, None), w') \<and> aps_ready st \<and>
          ast_application_id (app_status x) = aps_application_id st \<and> ast_region (app_status x) = aps_region st"
        by auto
    qed
  qed
qed auto

text \<open>
  C27: every status written for a live application is of its current generation and has all three
  conditions, true exactly in the phase \<open>Ready\<close>; and unless the write fails, a status that is not
  \<open>Ready\<close> comes with a retry in 30 seconds and a ready one with none.
\<close>

theorem application_status_agrees:
  assumes "om_deletion_timestamp (app_meta a) = None"
  shows "\<exists>t. io_trace (snd (reconcile_found_application R a s)) = io_trace s @ t \<and>
    (\<forall>x. StatusUpdate x \<in> set t \<longrightarrow> app_meta x = app_meta a \<and> app_spec x = app_spec a \<and>
       ast_observed_generation (app_status x) = om_generation (app_meta a) \<and> application_agrees (app_status x) \<and>
       (fst (reconcile_found_application R a s) =
          Returned (if ast_phase (app_status x) = ApplicationPhaseReady then no_requeue
            else requeue_in application_requeue) None \<or>
        (\<exists>e. fst (reconcile_found_application R a s) = Returned no_requeue (Some e))))"
proof -
  obtain out s' where run: "reconcile_live_application R a s = (out, s')" by (metis prod.exhaust)
  with assms have found: "reconcile_found_application R a s = (out, s')" by (simp add: reconcile_found_application_def)
  from live_application_status [OF run] show ?thesis unfolding found fst_conv snd_conv by blast
qed

theorem application_status_agrees_witness:
  "length (writes (io_trace (snd (reconcile_found_application (sample_applications (sample_oci [] None))
     (sample_application [application_finalizer] None []) application_start)))) = 1 \<and>
   (\<exists>t. io_trace (snd (reconcile_found_application (sample_applications (sample_oci [] None))
     (sample_application [application_finalizer] None []) application_start)) = io_trace application_start @ t \<and>
    (\<forall>x. StatusUpdate x \<in> set t \<longrightarrow> application_agrees (app_status x)))"
proof
  show "length (writes (io_trace (snd (reconcile_found_application (sample_applications (sample_oci [] None))
     (sample_application [application_finalizer] None []) application_start)))) = 1" by code_simp
next
  have "om_deletion_timestamp (app_meta (sample_application [application_finalizer] None [])) = None"
    by (simp add: sample_application_def)
  from application_status_agrees [OF this, of "sample_applications (sample_oci [] None)" application_start]
  show "\<exists>t. io_trace (snd (reconcile_found_application (sample_applications (sample_oci [] None))
     (sample_application [application_finalizer] None []) application_start)) = io_trace application_start @ t \<and>
    (\<forall>x. StatusUpdate x \<in> set t \<longrightarrow> application_agrees (app_status x))"
    by blast
qed

text \<open>
  C15: a ready application serves the functions that refer to it. With the OCI lifecycle manager, once a
  live reconciliation has written the phase \<open>Ready\<close> with an OCID that is not blank, a function whose
  reference leads to the application written (and which has no application fields of its own) resolves
  it without waiting, and what the function controller then asks of the manager passes the manager's
  validation exactly when the function has a display name and an image.
\<close>

theorem ready_application_serves:
  fixes F :: "'v function_reconciler"
  assumes live: "om_deletion_timestamp (app_meta a) = None"
    and manager: "ar_manager R = Some (oci_lifecycle I)"
    and run: "io_trace (snd (reconcile_found_application R a s)) = io_trace s @ t"
    and written: "StatusUpdate x \<in> set t" "ast_phase (app_status x) = ApplicationPhaseReady"
      "trim_space (ast_application_id (app_status x)) \<noteq> []"
    and K: "kube_lib_ok (fr_lib F)"
    and ref: "application_ref_name f \<noteq> []" "\<not> has_legacy_application_fields (fs_config (fn_spec f))"
      "get_application (fr_client F) (om_namespace (fn_meta f)) (application_ref_name f) w = Got x"
  shows "resolve_function_application_ref F f d now w = (ApplicationResolution (Some x), d) \<and>
    (validate_desired_function_in_application (desired_function_in_application_from_config c x) = None \<longleftrightarrow>
      trim_space (fc_display_name c) \<noteq> [] \<and> trim_space (fc_image c) \<noteq> [])"
proof -
  obtain out s' where r: "reconcile_live_application R a s = (out, s')" by (metis prod.exhaust)
  with live run have "io_trace s' = io_trace s @ t" by (simp add: reconcile_found_application_def)
  with live_application_status [OF r] written obtain st v v' where
    x: "app_meta x = app_meta a" "application_agrees (app_status x)"
    and st: "lm_ensure_application (oci_lifecycle I) (desired_application_from_spec a) v = ((st, None), v')"
      "aps_ready st" "ast_region (app_status x) = aps_region st"
    using manager by fastforce
  from oci_lifecycle.ready_application [OF st(1,2)] st(3) have region: "trim_space (ast_region (app_status x)) \<noteq> []"
    by simp
  have "application_is_ready (fr_lib F) x"
    using x(2) written(2) K
    by (simp add: application_is_ready_def kube_is_true application_agrees_def application_condition_types_def truth_def)
  with x(1) live ref written(3)
  have resolved: "resolve_function_application_ref F f d now w = (ApplicationResolution (Some x), d)"
    by (simp add: resolve_function_application_ref_def Let_def)
  have "0 < desired_memory_in_mbs c" "0 < desired_timeout_in_seconds c"
    by (auto simp: desired_memory_in_mbs_def desired_timeout_in_seconds_def sless_sint)
  with region written(3)
  have "validate_desired_function_in_application (desired_function_in_application_from_config c x) = None \<longleftrightarrow>
      trim_space (fc_display_name c) \<noteq> [] \<and> trim_space (fc_image c) \<noteq> []"
    by (simp add: validate_desired_function_in_application_def desired_function_in_application_from_config_def
        validate_sizes_def)
  with resolved show ?thesis by blast
qed

text \<open>The application a sample reconciliation writes, and a function that refers to it.\<close>

definition written_application :: "application_effect list \<Rightarrow> function_application option" where
  "written_application t = (case find (\<lambda>e. case e of StatusUpdate x \<Rightarrow> True | _ \<Rightarrow> False) t of
     Some (StatusUpdate x) \<Rightarrow> Some x | _ \<Rightarrow> None)"

definition sample_trace :: "application_effect list" where
  "sample_trace = io_trace (snd (reconcile_found_application (sample_applications (sample_oci [] None))
     (sample_application [application_finalizer] None []) application_start))"

definition sample_written :: function_application where
  "sample_written = (case written_application sample_trace of
     Some x \<Rightarrow> x | None \<Rightarrow> sample_application [] None [])"

definition referring_function :: oci_function where
  "referring_function = (sample_managed [] None)\<lparr>fn_spec := (fn_spec (sample_managed [] None))\<lparr>
     fs_config := None, fs_application_ref := Some \<lparr>ar_name = ''a''\<rparr>\<rparr>\<rparr>"

definition referring_reconciler :: "unit function_reconciler" where
  "referring_reconciler = (sample_functions None 9)\<lparr>fr_client := (sample_client NotFound)\<lparr>
     get_application := (\<lambda>ns n w. Got sample_written)\<rparr>\<rparr>"

theorem ready_application_serves_witness:
  "resolve_function_application_ref referring_reconciler referring_function (sample_managed [] None) 9 () =
     (ApplicationResolution (Some sample_written), sample_managed [] None)"
proof -
  have live: "om_deletion_timestamp (app_meta (sample_application [application_finalizer] None [])) = None"
    by (simp add: sample_application_def)
  have manager: "ar_manager (sample_applications (sample_oci [] None)) = Some (oci_lifecycle (sample_oci [] None))"
    by (simp add: sample_applications_def)
  have run: "io_trace (snd (reconcile_found_application (sample_applications (sample_oci [] None))
     (sample_application [application_finalizer] None []) application_start)) = io_trace application_start @ sample_trace"
    by (simp add: sample_trace_def application_start_def start_io_def)
  have some: "written_application sample_trace = Some sample_written"
    unfolding sample_written_def by (cases "written_application sample_trace") (code_simp, simp)
  have written: "StatusUpdate sample_written \<in> set sample_trace"
    using some by (auto simp: written_application_def dest!: find_Some_member split: option.splits effect.splits)
  have phase: "ast_phase (app_status sample_written) = ApplicationPhaseReady"
    "trim_space (ast_application_id (app_status sample_written)) \<noteq> []" by code_simp+
  have K: "kube_lib_ok (fr_lib referring_reconciler)"
    by (simp add: referring_reconciler_def sample_functions_def sample_lib_ok)
  have ref: "application_ref_name referring_function \<noteq> []"
    "\<not> has_legacy_application_fields (fs_config (fn_spec referring_function))" by code_simp+
  have get: "get_application (fr_client referring_reconciler) (om_namespace (fn_meta referring_function))
      (application_ref_name referring_function) () = Got sample_written"
    by (simp add: referring_reconciler_def)
  from ready_application_serves [OF live manager run written phase K ref get] show ?thesis by blast
qed

end
