(* ===== verification/GoJson.thy ===== *)
theory GoJson
  imports GoStrings "HOL-Library.List_Lexorder" "HOL-Library.Char_ord"
begin

text \<open>
  What the operator uses of \<open>encoding/json\<close>: writing a Go string as a JSON string (with the escapes of
  \<open>json.Marshal\<close>, which also escapes \<open><\<close>, \<open>>\<close>, \<open>&\<close>, the two Unicode line separators and replaces bytes that
  are not UTF-8), parsing bytes as JSON, and compacting a raw message. A parser returns what it read and the rest of
  the input; its fuel is taken from the length.
\<close>

section \<open>UTF-8\<close>

definition byte_in :: "nat \<Rightarrow> nat \<Rightarrow> char \<Rightarrow> bool" where
  "byte_in lo hi c \<longleftrightarrow> lo \<le> (of_char c :: nat) \<and> of_char c \<le> hi"

definition starts_with_bytes :: "(nat \<times> nat) list \<Rightarrow> string \<Rightarrow> bool" where
  "starts_with_bytes ranges s \<longleftrightarrow>
     length ranges \<le> length s \<and> list_all (\<lambda>((lo, hi), c). byte_in lo hi c) (zip ranges s)"

definition utf8_forms :: "(nat \<times> nat) list list" where
  "utf8_forms =
     [[(0x00, 0x7F)],
      [(0xC2, 0xDF), (0x80, 0xBF)],
      [(0xE0, 0xE0), (0xA0, 0xBF), (0x80, 0xBF)],
      [(0xE1, 0xEC), (0x80, 0xBF), (0x80, 0xBF)],
      [(0xED, 0xED), (0x80, 0x9F), (0x80, 0xBF)],
      [(0xEE, 0xEF), (0x80, 0xBF), (0x80, 0xBF)],
      [(0xF0, 0xF0), (0x90, 0xBF), (0x80, 0xBF), (0x80, 0xBF)],
      [(0xF1, 0xF3), (0x80, 0xBF), (0x80, 0xBF), (0x80, 0xBF)],
      [(0xF4, 0xF4), (0x80, 0x8F), (0x80, 0xBF), (0x80, 0xBF)]]"

text \<open>The length of the character at the head, \<open>0\<close> where the bytes are not UTF-8.\<close>

definition rune_length :: "string \<Rightarrow> nat" where
  "rune_length s = (case find (\<lambda>f. starts_with_bytes f s) utf8_forms of None \<Rightarrow> 0 | Some f \<Rightarrow> length f)"

section \<open>Strings\<close>

definition backslash :: char where "backslash = CHR 0x5C"
definition dquote :: char where "dquote = CHR 0x22"

definition unicode_escape :: "nat \<Rightarrow> string" where
  "unicode_escape n = backslash # CHR ''u'' # map (\<lambda>k. hex_digit ((n div 16 ^ k) mod 16)) [3, 2, 1, 0]"

definition escape_ascii :: "char \<Rightarrow> string" where
  "escape_ascii c =
     (if c = backslash \<or> c = dquote then [backslash, c]
      else if c = CHR 0x08 then [backslash, CHR ''b'']
      else if c = CHR 0x0C then [backslash, CHR ''f'']
      else if c = CHR 0x0A then [backslash, CHR ''n'']
      else if c = CHR 0x0D then [backslash, CHR ''r'']
      else if c = CHR 0x09 then [backslash, CHR ''t'']
      else if (of_char c :: nat) < 0x20 \<or> c = CHR ''<'' \<or> c = CHR ''>'' \<or> c = CHR ''&'' then unicode_escape (of_char c)
      else [c])"

text \<open>U+2028 and U+2029 as bytes; the result is the code point.\<close>

definition line_separator :: "string \<Rightarrow> nat option" where
  "line_separator s =
     (if take 3 s = [CHR 0xE2, CHR 0x80, CHR 0xA8] then Some 0x2028
      else if take 3 s = [CHR 0xE2, CHR 0x80, CHR 0xA9] then Some 0x2029
      else None)"

fun json_escape :: "string \<Rightarrow> string" where
  "json_escape [] = []"
| "json_escape (c # cs) =
     (case line_separator (c # cs) of
        Some n \<Rightarrow> unicode_escape n @ json_escape (drop 2 cs)
      | None \<Rightarrow>
          (let k = rune_length (c # cs) in
           if k = 0 then unicode_escape 0xFFFD @ json_escape cs
           else if k = 1 then escape_ascii c @ json_escape cs
           else take k (c # cs) @ json_escape (drop (k - 1) cs)))"

definition json_string :: "string \<Rightarrow> string" where
  "json_string s = dquote # json_escape s @ [dquote]"

section \<open>Values and parsing\<close>

text \<open>
  Numbers keep their literal. An object is the association list of its members in the order of the text;
  \<open>json.Unmarshal\<close> into a map keeps the last member of a key.
\<close>

datatype json =
    JNull
  | JBool bool
  | JNumber string
  | JString string
  | JArray "json list"
  | JObject "(string \<times> json) list"

definition json_space :: "char \<Rightarrow> bool" where
  "json_space c \<longleftrightarrow> c = CHR '' '' \<or> c = CHR 0x09 \<or> c = CHR 0x0D \<or> c = CHR 0x0A"

definition skip_ws :: "string \<Rightarrow> string" where
  "skip_ws s = dropWhile json_space s"

definition is_digit :: "char \<Rightarrow> bool" where
  "is_digit c \<longleftrightarrow> byte_in 48 57 c"

definition hex_value :: "char \<Rightarrow> nat option" where
  "hex_value c = (let n = (of_char c :: nat) in
     if 48 \<le> n \<and> n \<le> 57 then Some (n - 48)
     else if 65 \<le> n \<and> n \<le> 70 then Some (n - 55)
     else if 97 \<le> n \<and> n \<le> 102 then Some (n - 87)
     else None)"

text \<open>Four hexadecimal digits at the head: their value and the rest.\<close>

definition hex4 :: "string \<Rightarrow> (nat \<times> string) option" where
  "hex4 s = (case s of
     a # b # c # d # r \<Rightarrow>
       (case (hex_value a, hex_value b, hex_value c, hex_value d) of
          (Some w, Some x, Some y, Some z) \<Rightarrow> Some (((w * 16 + x) * 16 + y) * 16 + z, r)
        | _ \<Rightarrow> None)
   | _ \<Rightarrow> None)"

definition utf8_encode :: "nat \<Rightarrow> string" where
  "utf8_encode n =
     (if n < 0x80 then [char_of n]
      else if n < 0x800 then [char_of (0xC0 + n div 64), char_of (0x80 + n mod 64)]
      else if n < 0x10000 then
        [char_of (0xE0 + n div 4096), char_of (0x80 + n div 64 mod 64), char_of (0x80 + n mod 64)]
      else
        [char_of (0xF0 + n div 262144), char_of (0x80 + n div 4096 mod 64),
         char_of (0x80 + n div 64 mod 64), char_of (0x80 + n mod 64)])"

definition replacement_char :: string where
  "replacement_char = utf8_encode 0xFFFD"

text \<open>
  An escaped UTF-16 unit: a surrogate joins with the escape after it if that completes a pair, and is
  replaced otherwise. The result is the text and the rest.
\<close>

definition decode_unit :: "nat \<Rightarrow> string \<Rightarrow> string \<times> string" where
  "decode_unit u r =
     (if 0xD800 \<le> u \<and> u < 0xE000 then
        (let second = (case r of c # d # r' \<Rightarrow> if c = backslash \<and> d = CHR ''u'' then hex4 r' else None | _ \<Rightarrow> None) in
         case second of
           Some (v, r') \<Rightarrow>
             if u < 0xDC00 \<and> 0xDC00 \<le> v \<and> v < 0xE000
             then (utf8_encode ((u - 0xD800) * 1024 + (v - 0xDC00) + 0x10000), r')
             else (replacement_char, r)
         | None \<Rightarrow> (replacement_char, r))
      else (utf8_encode u, r))"

definition simple_escape :: "char \<Rightarrow> char option" where
  "simple_escape c = map_of [(dquote, dquote), (backslash, backslash), (CHR ''/'', CHR ''/''),
     (CHR ''b'', CHR 0x08), (CHR ''f'', CHR 0x0C), (CHR ''n'', CHR 0x0A), (CHR ''r'', CHR 0x0D),
     (CHR ''t'', CHR 0x09)] c"

lemma hex4_shorter: "hex4 s = Some (n, r) \<Longrightarrow> length r < length s"
  by (auto simp: hex4_def split: list.splits option.splits prod.splits)

lemma decode_unit_shorter: "decode_unit u r = (t, r') \<Longrightarrow> length r' \<le> length r"
  by (auto simp: decode_unit_def Let_def split: if_splits list.splits option.splits prod.splits
      dest!: hex4_shorter)

text \<open>The content of a string literal after its opening quote, and the rest after the closing one.\<close>

function parse_string :: "string \<Rightarrow> (string \<times> string) option" where
  "parse_string s = (case s of
     [] \<Rightarrow> None
   | c # cs \<Rightarrow>
       if c = dquote then Some ([], cs)
       else if c = backslash then
         (case cs of
            [] \<Rightarrow> None
          | d # ds \<Rightarrow>
              if d = CHR ''u'' then
                (case hex4 ds of
                   None \<Rightarrow> None
                 | Some (u, r) \<Rightarrow>
                     (case decode_unit u r of (t, r') \<Rightarrow> map_option (apfst (append t)) (parse_string r')))
              else (case simple_escape d of
                 None \<Rightarrow> None
               | Some e \<Rightarrow> map_option (apfst (Cons e)) (parse_string ds)))
       else if (of_char c :: nat) < 0x20 then None
       else
         (let k = rune_length s in
          if k = 0 then map_option (apfst (append replacement_char)) (parse_string cs)
          else map_option (apfst (append (take k s))) (parse_string (drop k s))))"
  by pat_completeness auto

termination parse_string
  by (relation "measure length") (auto dest!: hex4_shorter decode_unit_shorter dest: sym)

declare parse_string.simps [simp del]

text \<open>A number literal: the literal and the rest.\<close>

definition span_digits :: "string \<Rightarrow> (string \<times> string) option" where
  "span_digits s = (case s of [] \<Rightarrow> None
     | c # cs \<Rightarrow> if is_digit c then Some (c # takeWhile is_digit cs, dropWhile is_digit cs) else None)"

definition parse_integer :: "string \<Rightarrow> (string \<times> string) option" where
  "parse_integer s = (case s of [] \<Rightarrow> None | c # cs \<Rightarrow> if c = CHR ''0'' then Some ([c], cs) else span_digits s)"

definition parse_fraction :: "string \<Rightarrow> (string \<times> string) option" where
  "parse_fraction s = (case s of
     [] \<Rightarrow> Some ([], [])
   | c # cs \<Rightarrow> if c = CHR ''.'' then map_option (apfst (Cons c)) (span_digits cs) else Some ([], s))"

definition parse_exponent :: "string \<Rightarrow> (string \<times> string) option" where
  "parse_exponent s = (case s of
     [] \<Rightarrow> Some ([], [])
   | c # cs \<Rightarrow>
       if c = CHR ''e'' \<or> c = CHR ''E'' then
         (case cs of
            [] \<Rightarrow> None
          | d # ds \<Rightarrow>
              if d = CHR ''+'' \<or> d = CHR ''-'' then map_option (apfst (\<lambda>t. c # d # t)) (span_digits ds)
              else map_option (apfst (Cons c)) (span_digits cs))
       else Some ([], s))"

definition parse_number :: "string \<Rightarrow> (string \<times> string) option" where
  "parse_number s =
     (let sign = (if has_prefix s ''-'' then ''-'' else []) in
      case parse_integer (trim_prefix s ''-'') of
        None \<Rightarrow> None
      | Some (i, r) \<Rightarrow>
          (case parse_fraction r of
             None \<Rightarrow> None
           | Some (f, r') \<Rightarrow>
               (case parse_exponent r' of
                  None \<Rightarrow> None
                | Some (e, r'') \<Rightarrow> Some (sign @ i @ f @ e, r''))))"

text \<open>\<open>expect c s\<close>: the rest after white space and the character \<open>c\<close>.\<close>

definition expect :: "char \<Rightarrow> string \<Rightarrow> string option" where
  "expect c s = (case skip_ws s of [] \<Rightarrow> None | d # ds \<Rightarrow> if d = c then Some ds else None)"

definition parse_key :: "string \<Rightarrow> (string \<times> string) option" where
  "parse_key s = (case Option.bind (expect dquote s) parse_string of
     None \<Rightarrow> None
   | Some (k, r) \<Rightarrow> map_option (Pair k) (expect (CHR '':'') r))"

fun parse_value :: "nat \<Rightarrow> string \<Rightarrow> (json \<times> string) option"
  and parse_elements :: "nat \<Rightarrow> string \<Rightarrow> (json list \<times> string) option"
  and parse_members :: "nat \<Rightarrow> string \<Rightarrow> ((string \<times> json) list \<times> string) option" where
  "parse_value 0 s = None"
| "parse_value (Suc n) s =
     (case skip_ws s of
        [] \<Rightarrow> None
      | c # cs \<Rightarrow>
          if c = CHR ''{'' then
            (case expect (CHR ''}'') cs of
               Some r \<Rightarrow> Some (JObject [], r)
             | None \<Rightarrow> map_option (apfst JObject) (parse_members n cs))
          else if c = CHR ''['' then
            (case expect (CHR '']'') cs of
               Some r \<Rightarrow> Some (JArray [], r)
             | None \<Rightarrow> map_option (apfst JArray) (parse_elements n cs))
          else if c = dquote then map_option (apfst JString) (parse_string cs)
          else if has_prefix (c # cs) ''true'' then Some (JBool True, drop 4 (c # cs))
          else if has_prefix (c # cs) ''false'' then Some (JBool False, drop 5 (c # cs))
          else if has_prefix (c # cs) ''null'' then Some (JNull, drop 4 (c # cs))
          else map_option (apfst JNumber) (parse_number (c # cs)))"
| "parse_elements 0 s = None"
| "parse_elements (Suc n) s =
     (case parse_value n s of
        None \<Rightarrow> None
      | Some (v, r) \<Rightarrow>
          (case expect (CHR '','') r of
             Some r' \<Rightarrow> map_option (apfst (Cons v)) (parse_elements n r')
           | None \<Rightarrow> map_option (Pair [v]) (expect (CHR '']'') r)))"
| "parse_members 0 s = None"
| "parse_members (Suc n) s =
     (case parse_key s of
        None \<Rightarrow> None
      | Some (k, r0) \<Rightarrow>
          (case parse_value n r0 of
             None \<Rightarrow> None
           | Some (v, r) \<Rightarrow>
               (case expect (CHR '','') r of
                  Some r' \<Rightarrow> map_option (apfst (Cons (k, v))) (parse_members n r')
                | None \<Rightarrow> map_option (Pair [(k, v)]) (expect (CHR ''}'') r))))"

text \<open>
  The fuel is spent on each level of nesting and each element; twice the length is more than any input
  can use (\<open>parse_value_enough\<close>).
\<close>

definition parse_json :: "string \<Rightarrow> json option" where
  "parse_json s = (case parse_value (2 * length s + 2) s of
     None \<Rightarrow> None | Some (v, r) \<Rightarrow> if skip_ws r = [] then Some v else None)"

definition valid_json :: "string \<Rightarrow> bool" where
  "valid_json s \<longleftrightarrow> parse_json s \<noteq> None"

section \<open>Decoding into Go values and rendering\<close>

text \<open>
  \<open>json.Unmarshal\<close> into an \<open>interface{}\<close>: numbers become \<open>float64\<close> values, which \<open>json.Marshal\<close> writes in
  its own format; the two steps on one literal are the parameter \<open>num\<close>, \<open>None\<close> for a number out of range.
  Objects become maps: the last member of a key counts, and they are written with sorted keys.
\<close>

definition last_members :: "(string \<times> 'a) list \<Rightarrow> (string \<times> 'a) list" where
  "last_members ms = map (\<lambda>k. (k, the (map_of (rev ms) k))) (sort (remdups (map fst ms)))"

fun json_decode :: "(string \<Rightarrow> string option) \<Rightarrow> json \<Rightarrow> json option"
  and decode_list :: "(string \<Rightarrow> string option) \<Rightarrow> json list \<Rightarrow> json list option"
  and decode_members :: "(string \<Rightarrow> string option) \<Rightarrow> (string \<times> json) list \<Rightarrow> (string \<times> json) list option" where
  "json_decode num (JNumber n) = map_option JNumber (num n)"
| "json_decode num (JArray vs) = map_option JArray (decode_list num vs)"
| "json_decode num (JObject ms) = map_option (\<lambda>ms'. JObject (last_members ms')) (decode_members num ms)"
| "json_decode num v = Some v"
| "decode_list num [] = Some []"
| "decode_list num (v # vs) =
     (case json_decode num v of None \<Rightarrow> None | Some v' \<Rightarrow> map_option (Cons v') (decode_list num vs))"
| "decode_members num [] = Some []"
| "decode_members num ((k, v) # ms) =
     (case json_decode num v of None \<Rightarrow> None | Some v' \<Rightarrow> map_option (Cons (k, v')) (decode_members num ms))"

definition json_unmarshal :: "(string \<Rightarrow> string option) \<Rightarrow> string \<Rightarrow> json option" where
  "json_unmarshal num s = Option.bind (parse_json s) (json_decode num)"

fun json_render :: "json \<Rightarrow> string"
  and render_list :: "json list \<Rightarrow> string"
  and render_members :: "(string \<times> json) list \<Rightarrow> string" where
  "json_render JNull = ''null''"
| "json_render (JBool b) = (if b then ''true'' else ''false'')"
| "json_render (JNumber n) = n"
| "json_render (JString s) = json_string s"
| "json_render (JArray vs) = ''['' @ render_list vs @ '']''"
| "json_render (JObject ms) = ''{'' @ render_members ms @ ''}''"
| "render_list [] = []"
| "render_list [v] = json_render v"
| "render_list (v # w # vs) = json_render v @ '','' @ render_list (w # vs)"
| "render_members [] = []"
| "render_members [(k, v)] = json_string k @ '':'' @ json_render v"
| "render_members ((k, v) # m # ms) = json_string k @ '':'' @ json_render v @ '','' @ render_members (m # ms)"

section \<open>Compacting\<close>

text \<open>
  White space outside strings is dropped, and the characters that \<open>json.Marshal\<close> never leaves in a
  string are escaped; \<open>inside\<close> tells whether the position is in a string.
\<close>

fun json_compact :: "bool \<Rightarrow> string \<Rightarrow> string" where
  "json_compact inside [] = []"
| "json_compact inside (c # cs) =
     (if \<not> inside then
        (if json_space c then json_compact False cs
         else c # json_compact (c = dquote) cs)
      else if c = dquote then c # json_compact False cs
      else if c = backslash then
        (case cs of [] \<Rightarrow> [c] | d # ds \<Rightarrow> c # d # json_compact True ds)
      else if c = CHR ''<'' \<or> c = CHR ''>'' \<or> c = CHR ''&'' then unicode_escape (of_char c) @ json_compact True cs
      else (case line_separator (c # cs) of
              Some n \<Rightarrow> unicode_escape n @ json_compact True (drop 2 cs)
            | None \<Rightarrow> c # json_compact True cs))"

text \<open>\<open>json.Marshal\<close> of a raw message.\<close>

definition marshal_raw :: "string \<Rightarrow> string option" where
  "marshal_raw raw = (if valid_json raw then Some (json_compact False raw) else None)"

section \<open>Objects\<close>

text \<open>The members of an object, in the order of the struct's fields; the values are already encoded.\<close>

definition json_member :: "string \<times> string \<Rightarrow> string" where
  "json_member m = json_string (fst m) @ '':'' @ snd m"

definition json_object :: "(string \<times> string) list \<Rightarrow> string" where
  "json_object ms = ''{'' @ join (map json_member ms) '','' @ ''}''"

end
