(* ===== verification/EventController.thy ===== *)
theory EventController
  imports InvocationTarget OciErrorText GoJson
begin

text \<open>
  \<open>internal/controller/functionevent_controller.go\<close>: the \<open>FunctionEvent\<close> reconciler. An event is
  routed to the enabled triggers of its namespace with its type, each trigger's function is invoked with
  the JSON envelope of the event, and the per-trigger statuses are summarised. The text of
  \<open>encoding/json\<close>'s error for a payload that is not JSON is the parameter \<open>er_json_error\<close>.
\<close>

record 'w event_reconciler =
  er_client :: "'w kube_client"
  er_lib :: kube_lib
  er_invoker :: "'w invoker option"
  er_recorder :: bool
  er_clock :: "'w \<Rightarrow> time"
  er_json_error :: "bytes \<Rightarrow> string"

type_synonym event_effect = "(function_event, invoke_call) effect"
type_synonym 'w event_io = "(event_effect, 'w) io"

definition event_type_prefix :: string where
  "event_type_prefix = ''functionevent.''"

definition event_retry_limit :: int32 where
  "event_retry_limit = 3"

definition event_retry_backoff :: duration where
  "event_retry_backoff = 30 * second"

section \<open>Event types and triggers\<close>

datatype trigger_mode = TriggerModeOCI | TriggerModeFunctionEvent | TriggerModeMixed

definition is_function_event_type :: "string \<Rightarrow> bool" where
  "is_function_event_type event_type = has_prefix (trim_space event_type) event_type_prefix"

definition classify_trigger :: "event_trigger \<Rightarrow> trigger_mode" where
  "classify_trigger t =
     (let types = ec_event_type (ts_condition (tr_spec t));
          has_function_event = list_ex is_function_event_type types;
          has_oci = list_ex (\<lambda>e. \<not> is_function_event_type e \<and> trim_space e \<noteq> []) types
      in if has_function_event \<and> has_oci then TriggerModeMixed
         else if has_function_event then TriggerModeFunctionEvent
         else TriggerModeOCI)"

definition trigger_matches_event :: "event_trigger \<Rightarrow> string \<Rightarrow> bool" where
  "trigger_matches_event t event_type =
     (if classify_trigger t \<noteq> TriggerModeFunctionEvent then False
      else list_ex (\<lambda>e. trim_space e = trim_space event_type) (ec_event_type (ts_condition (tr_spec t))))"

definition trigger_name :: "event_trigger \<Rightarrow> string" where
  "trigger_name t = om_name (tr_meta t)"

text \<open>\<open>sort.Slice\<close> by name; names are unique in a namespace, so stability does not matter.\<close>

definition routed_triggers :: "event_trigger list \<Rightarrow> string \<Rightarrow> event_trigger list" where
  "routed_triggers triggers event_type =
     sort_key trigger_name (filter (\<lambda>t. rule_enabled t \<and> classify_trigger t = TriggerModeFunctionEvent \<and>
       trigger_matches_event t event_type) triggers)"

definition matching_triggers ::
    "'w event_reconciler \<Rightarrow> function_event \<Rightarrow> 'w \<Rightarrow> go_error + event_trigger list" where
  "matching_triggers R e w =
     (case list_triggers (er_client R) (om_namespace (ev_meta e)) w of
        Inl err \<Rightarrow> Inl err
      | Inr triggers \<Rightarrow> Inr (routed_triggers triggers (es_event_type (ev_spec e))))"

section \<open>Conditions\<close>

definition set_event_condition ::
    "kube_lib \<Rightarrow> time \<Rightarrow> string \<Rightarrow> condition_state \<Rightarrow> function_event \<Rightarrow> function_event" where
  "set_event_condition K now t c e =
     (let keep = (case find_status_condition K (est_conditions (ev_status e)) t of
            None \<Rightarrow> None
          | Some d \<Rightarrow>
              if c_status d = cs_status c \<and> c_reason d = cs_reason c \<and> c_message d = cs_message c \<and>
                 c_observed_generation d = om_generation (ev_meta e)
              then Some (c_last_transition d) else None);
          transition = (case keep of None \<Rightarrow> now | Some t \<Rightarrow> t)
      in set_event_status_condition K
           \<lparr>c_type = t, c_status = cs_status c, c_reason = cs_reason c, c_message = cs_message c,
            c_observed_generation = om_generation (ev_meta e), c_last_transition = transition\<rparr> e)"

definition set_event_conditions ::
    "kube_lib \<Rightarrow> time \<Rightarrow> condition_state \<Rightarrow> condition_state \<Rightarrow> function_event \<Rightarrow> function_event" where
  "set_event_conditions K now processed failed e =
     set_event_condition K now event_condition_failed failed
       (set_event_condition K now event_condition_processed processed e)"

definition with_event_phase :: "event_phase \<Rightarrow> string \<Rightarrow> function_event \<Rightarrow> function_event" where
  "with_event_phase phase message e =
     ev_status_update (\<lambda>s. s\<lparr>est_phase := phase, est_message := message\<rparr>) e"

definition event_cond :: "condition_status \<Rightarrow> string \<Rightarrow> string \<Rightarrow> condition_state" where
  "event_cond st reason message = \<lparr>cs_status = st, cs_reason = reason, cs_message = message\<rparr>"

definition mark_event_processed :: "kube_lib \<Rightarrow> time \<Rightarrow> string \<Rightarrow> string \<Rightarrow> function_event \<Rightarrow> function_event" where
  "mark_event_processed K now reason message e =
     set_event_conditions K now (event_cond CondTrue reason message)
       (event_cond CondFalse ''NoFailedInvocations'' ''No permanent invocation failures were observed.'')
       (with_event_phase EventPhaseProcessed message e)"

definition mark_event_processing :: "kube_lib \<Rightarrow> time \<Rightarrow> string \<Rightarrow> string \<Rightarrow> function_event \<Rightarrow> function_event" where
  "mark_event_processing K now reason message e =
     set_event_conditions K now
       (event_cond CondFalse reason ''FunctionEvent has not completed processing.'')
       (event_cond CondFalse reason ''FunctionEvent has not failed.'')
       (with_event_phase EventPhaseProcessing message e)"

definition mark_event_failed :: "kube_lib \<Rightarrow> time \<Rightarrow> string \<Rightarrow> string \<Rightarrow> function_event \<Rightarrow> function_event" where
  "mark_event_failed K now reason message e =
     set_event_conditions K now
       (event_cond CondFalse reason ''FunctionEvent did not complete successfully.'')
       (event_cond CondTrue reason message)
       (with_event_phase EventPhaseFailed message e)"

section \<open>Per-trigger statuses\<close>

text \<open>The map \<open>existing\<close> keeps the last status of a trigger name; a missing key gives the zero value.\<close>

definition empty_event_invocation :: event_invocation where
  "empty_event_invocation = \<lparr>ei_trigger_name = [], ei_function_name = [], ei_phase = EventInvocationUnset,
     ei_attempts = 0, ei_last_attempt = None, ei_message = []\<rparr>"

definition existing_event_invocation :: "event_invocation list \<Rightarrow> string \<Rightarrow> event_invocation" where
  "existing_event_invocation invs name =
     (case find (\<lambda>i. ei_trigger_name i = name) (rev invs) of None \<Rightarrow> empty_event_invocation | Some i \<Rightarrow> i)"

definition ensure_event_invocation :: "event_invocation list \<Rightarrow> event_trigger \<Rightarrow> event_invocation" where
  "ensure_event_invocation invs t =
     (let i0 = existing_event_invocation invs (trigger_name t);
          i1 = (if ei_trigger_name i0 = []
                then i0\<lparr>ei_trigger_name := trigger_name t, ei_phase := EventInvocationPending\<rparr> else i0);
          i2 = i1\<lparr>ei_function_name := fr_name (ts_function_ref (tr_spec t))\<rparr>
      in if ei_phase i2 = EventInvocationUnset then i2\<lparr>ei_phase := EventInvocationPending\<rparr> else i2)"

definition ensure_event_invocations :: "event_trigger list \<Rightarrow> event_status \<Rightarrow> event_status" where
  "ensure_event_invocations triggers s =
     s\<lparr>est_invocations := map (ensure_event_invocation (est_invocations s)) triggers\<rparr>"

text \<open>\<open>functionEventInvocationStatusIndexes\<close>: the last index of a name, \<open>0\<close> for a missing one.\<close>

fun index_from :: "nat \<Rightarrow> event_invocation list \<Rightarrow> (string \<Rightarrow> nat) \<Rightarrow> string \<Rightarrow> nat" where
  "index_from n [] m = m"
| "index_from n (i # invs) m = index_from (Suc n) invs (m(ei_trigger_name i := n))"

definition event_invocation_indexes :: "event_invocation list \<Rightarrow> string \<Rightarrow> nat" where
  "event_invocation_indexes invs = index_from 0 invs (\<lambda>name. 0)"

definition is_settled_invocation :: "event_invocation \<Rightarrow> bool" where
  "is_settled_invocation i \<longleftrightarrow> ei_phase i = EventInvocationSucceeded \<or>
     (ei_phase i = EventInvocationFailed \<and> event_retry_limit \<le>s ei_attempts i)"

definition wait_invocation :: "string \<Rightarrow> event_invocation \<Rightarrow> event_invocation" where
  "wait_invocation message i = i\<lparr>ei_phase := EventInvocationPending, ei_message := message\<rparr>"

section \<open>The envelope\<close>

definition event_envelope_id :: "function_event \<Rightarrow> string" where
  "event_envelope_id e =
     (let i0 = trim_space (es_id (ev_spec e)); i1 = (if i0 = [] then om_uid (ev_meta e) else i0)
      in if i1 = [] then om_namespace (ev_meta e) @ ''/'' @ om_name (ev_meta e) else i1)"

definition event_payload :: "function_event \<Rightarrow> string" where
  "event_payload e = (case Option.bind (es_payload (ev_spec e)) id of None \<Rightarrow> [] | Some raw \<Rightarrow> raw)"

definition optional_member :: "string \<Rightarrow> string \<Rightarrow> (string \<times> string) list" where
  "optional_member key v = (if v = [] then [] else [(key, json_string v)])"

definition event_invocation_body :: "'w event_reconciler \<Rightarrow> function_event \<Rightarrow> go_error + bytes" where
  "event_invocation_body R e =
     (let payload = event_payload e;
          members = [(''id'', json_string (event_envelope_id e)),
                     (''eventType'', json_string (trim_space (es_event_type (ev_spec e))))] @
                    optional_member ''source'' (trim_space (es_source (ev_spec e))) @
                    optional_member ''subject'' (trim_space (es_subject (ev_spec e)))
      in if payload = [] then Inr (json_object members)
         else case marshal_raw payload of
           None \<Rightarrow> Inl (ErrorText (er_json_error R payload))
         | Some p \<Rightarrow> Inr (json_object (members @ [(''payload'', p)])))"

section \<open>Invoking\<close>

definition invocation_success_message :: "invoke_response \<Rightarrow> string" where
  "invocation_success_message rsp =
     join ([''Invocation succeeded.''] @
       (if rsp_status_code rsp \<noteq> 0 then [''status='' @ show_int (sint (rsp_status_code rsp))] else []) @
       (if rsp_invocation_id rsp \<noteq> [] then [''invocationId='' @ rsp_invocation_id rsp] else [])) '' ''"

definition normalize_event_invocation_error :: "go_error option \<Rightarrow> string" where
  "normalize_event_invocation_error e = (case e of
     None \<Rightarrow> []
   | Some x \<Rightarrow>
       (let m = sanitize_oci_error_text (err_text x)
        in ensure_sentence (if m = [] then ''function invocation failed'' else m)))"

text \<open>The status after an attempt; the flag asks for the retry backoff.\<close>

definition note_event_attempt ::
    "time \<Rightarrow> invoke_response \<Rightarrow> go_error option \<Rightarrow> event_invocation \<Rightarrow> event_invocation \<times> bool" where
  "note_event_attempt now rsp err i0 =
     (let i = i0\<lparr>ei_attempts := ei_attempts i0 + 1, ei_last_attempt := Some now\<rparr> in
      if err = None then
        (i\<lparr>ei_phase := EventInvocationSucceeded, ei_message := invocation_success_message rsp\<rparr>, False)
      else
        (let j = i\<lparr>ei_message := normalize_event_invocation_error err\<rparr> in
         if event_retry_limit \<le>s ei_attempts j then (j\<lparr>ei_phase := EventInvocationFailed\<rparr>, False)
         else (j\<lparr>ei_phase := EventInvocationPending\<rparr>, True)))"

text \<open>One trigger of the loop: its status after the turn, whether to retry, or the error that ends the loop.\<close>

datatype trigger_turn = TurnDone event_invocation bool | TurnSkipped | TurnError go_error

definition invoke_trigger ::
    "'w event_reconciler \<Rightarrow> 'w invoker \<Rightarrow> function_event \<Rightarrow> bytes \<Rightarrow> time \<Rightarrow> nat \<Rightarrow> event_trigger \<Rightarrow>
     event_invocation \<Rightarrow> 'w event_io \<Rightarrow> trigger_turn \<times> 'w event_io" where
  "invoke_trigger R I e body now k t i s =
     (if is_settled_invocation i then (TurnSkipped, s)
      else
        (let name = fr_name (ts_function_ref (tr_spec t)) in
         case get_function (er_client R) (om_namespace (ev_meta e)) name (io_world s) of
           GetFailed err \<Rightarrow> (TurnError err, s)
         | NotFound \<Rightarrow>
             (TurnDone (wait_invocation (''Waiting for Function '' @ go_quote name @ '' to exist.'') i) True, s)
         | Got f \<Rightarrow>
             (let target = invocation_target_for_function f in
              if \<not> function_ready_for_invocation (er_lib R) f target then
                (TurnDone (wait_invocation (function_not_ready_message (er_lib R) f target) i) True, s)
              else if requires_function_id I \<and> tg_function_ocid target = [] then
                (TurnDone (wait_invocation (''OCI mode requires referenced Function '' @ go_quote (om_name (fn_meta f)) @
                   '' to resolve status.functionId.'') i) True, s)
              else
                (case call_invoker I \<lparr>rq_target = target, rq_index = of_nat k, rq_body = Some body\<rparr> s of
                   ((rsp, err), s') \<Rightarrow>
                     if err_is_not_implemented err then (TurnError (the err), s')
                     else (let (i', retry) = note_event_attempt now rsp err i in (TurnDone i' retry, s'))))))"

text \<open>
  The loop over the triggers from the \<open>k\<close>-th on. The indexes are those of the statuses at its start; the
  result is the error that ended it, if any, the statuses and the requeue delay.
\<close>

fun invoke_triggers ::
    "'w event_reconciler \<Rightarrow> 'w invoker \<Rightarrow> function_event \<Rightarrow> bytes \<Rightarrow> time \<Rightarrow> (string \<Rightarrow> nat) \<Rightarrow> nat \<Rightarrow>
     event_trigger list \<Rightarrow> event_invocation list \<Rightarrow> duration \<Rightarrow> 'w event_io \<Rightarrow>
     (go_error option \<times> event_invocation list \<times> duration) \<times> 'w event_io" where
  "invoke_triggers R I e body now idx k [] invs delay s = ((None, invs, delay), s)"
| "invoke_triggers R I e body now idx k (t # ts) invs delay s =
     (let j = idx (trigger_name t) in
      case invoke_trigger R I e body now k t (invs ! j) s of
        (TurnSkipped, s') \<Rightarrow> invoke_triggers R I e body now idx (Suc k) ts invs delay s'
      | (TurnDone i retry, s') \<Rightarrow>
          invoke_triggers R I e body now idx (Suc k) ts (invs[j := i])
            (if retry then event_retry_backoff else delay) s'
      | (TurnError err, s') \<Rightarrow> ((Some err, invs, 0), s'))"

definition with_event_invocations :: "event_invocation list \<Rightarrow> function_event \<Rightarrow> function_event" where
  "with_event_invocations invs e = ev_status_update (\<lambda>s. s\<lparr>est_invocations := invs\<rparr>) e"

definition invoke_matched_triggers ::
    "'w event_reconciler \<Rightarrow> 'w invoker \<Rightarrow> function_event \<Rightarrow> function_event \<Rightarrow> event_trigger list \<Rightarrow> time \<Rightarrow>
     'w event_io \<Rightarrow> (go_error option \<times> function_event \<times> duration) \<times> 'w event_io" where
  "invoke_matched_triggers R I original desired triggers now s =
     (let invs = est_invocations (ev_status desired) in
      case event_invocation_body R original of
        Inl err \<Rightarrow>
          ((None, mark_event_failed (er_lib R) now ''InvalidPayload''
              (''FunctionEvent payload could not be rendered as invocation JSON: '' @ err_text err) desired, 0), s)
      | Inr body \<Rightarrow>
          (case invoke_triggers R I original body now (event_invocation_indexes invs) 0 triggers invs 0 s of
             ((err, invs', delay), s') \<Rightarrow> ((err, with_event_invocations invs' desired, delay), s')))"

section \<open>Summary\<close>

definition count_phase :: "event_invocation_phase \<Rightarrow> event_invocation list \<Rightarrow> nat" where
  "count_phase p invs = length (filter (\<lambda>i. ei_phase i = p) invs)"

definition summarize_event :: "kube_lib \<Rightarrow> time \<Rightarrow> function_event \<Rightarrow> function_event" where
  "summarize_event K now e =
     (let invs = est_invocations (ev_status e);
          succeeded = count_phase EventInvocationSucceeded invs;
          failed = count_phase EventInvocationFailed invs;
          pending = length (filter (\<lambda>i. ei_phase i \<notin> {EventInvocationSucceeded, EventInvocationFailed}) invs)
      in if invs = [] then mark_event_processed K now ''NoMatchingTriggers'' ''No matching triggers'' e
         else if 0 < failed then
           mark_event_failed K now ''InvocationFailed'' ''One or more FunctionEvent trigger invocations failed.'' e
         else if pending = 0 \<and> succeeded = length invs then
           mark_event_processed K now ''AllInvocationsSucceeded'' ''All matching trigger invocations succeeded.'' e
         else
           mark_event_processing K now ''InvocationsPending'' ''FunctionEvent is processing matching trigger invocations.'' e)"

section \<open>Time to live\<close>

definition event_ttl :: "function_event \<Rightarrow> duration option" where
  "event_ttl e = map_option (\<lambda>n. sint n * second) (es_ttl_seconds (ev_spec e))"

definition requeue_after_ttl :: "function_event \<Rightarrow> reconcile_end" where
  "requeue_after_ttl e = (case event_ttl e of
     None \<Rightarrow> Returned no_requeue None
   | Some ttl \<Rightarrow> Returned (requeue_in (if ttl \<le> 0 then second else ttl)) None)"

definition reconcile_processed_ttl ::
    "'w event_reconciler \<Rightarrow> function_event \<Rightarrow> 'w event_io \<Rightarrow> reconcile_end \<times> 'w event_io" where
  "reconcile_processed_ttl R e s =
     (case event_ttl e of
        None \<Rightarrow> (Returned no_requeue None, s)
      | Some ttl \<Rightarrow>
          (case find_status_condition (er_lib R) (est_conditions (ev_status e)) event_condition_processed of
             None \<Rightarrow> (Returned (requeue_in second) None, s)
           | Some c \<Rightarrow>
               if c_status c \<noteq> CondTrue then (Returned (requeue_in second) None, s)
               else
                 (let delete_after = c_last_transition c + ttl; now = er_clock R (io_world s) in
                  if now < delete_after then (Returned (requeue_in (delete_after - now)) None, s)
                  else
                    (case perform (ObjectDelete e) (delete_event (er_client R) e) s of
                       (DeleteFailed err, s') \<Rightarrow> (Returned no_requeue (Some err), s')
                     | (_, s') \<Rightarrow> (Returned no_requeue None, s')))))"

section \<open>Reconcile\<close>

definition update_event_status ::
    "'w event_reconciler \<Rightarrow> function_event \<Rightarrow> event_status \<Rightarrow> 'w event_io \<Rightarrow> go_error option \<times> 'w event_io" where
  "update_event_status R e desired s =
     (if ev_status e = desired then (None, s)
      else (let e' = e\<lparr>ev_status := desired\<rparr> in
            perform (StatusUpdate e') (status_update_event (er_client R) e') s))"

definition start_event :: "function_event \<Rightarrow> function_event" where
  "start_event e = ev_status_update (\<lambda>s. s\<lparr>est_observed_generation := om_generation (ev_meta e)\<rparr>) e"

definition event_observed :: "function_event \<Rightarrow> event_phase \<Rightarrow> bool" where
  "event_observed e phase \<longleftrightarrow> est_observed_generation (ev_status e) = om_generation (ev_meta e) \<and>
     est_phase (ev_status e) = phase"

text \<open>The event recorded when an event that was not terminal becomes so.\<close>

definition record_event_end ::
    "'w event_reconciler \<Rightarrow> function_event \<Rightarrow> function_event \<Rightarrow> 'w event_io \<Rightarrow> 'w event_io" where
  "record_event_end R original desired s =
     (if \<not> event_is_terminal original \<and> event_is_terminal desired then
        (if est_phase (ev_status desired) = EventPhaseProcessed then
           record_event (er_recorder R) EventNormal ''Processed''
             ''FunctionEvent processed: all matching trigger invocations succeeded.'' s
         else record_event (er_recorder R) EventWarning ''Failed'' (est_message (ev_status desired)) s)
      else s)"

text \<open>The end of a reconciliation with triggers: summary, event, status, result.\<close>

definition finish_event ::
    "'w event_reconciler \<Rightarrow> function_event \<Rightarrow> time \<Rightarrow> function_event \<Rightarrow> duration \<Rightarrow> 'w event_io \<Rightarrow>
     reconcile_end \<times> 'w event_io" where
  "finish_event R e now desired0 delay s =
     (let desired = (if est_phase (ev_status desired0) \<in> {EventPhaseUnset, EventPhasePending, EventPhaseProcessing}
                     then summarize_event (er_lib R) now desired0 else desired0)
      in case update_event_status R e (ev_status desired) (record_event_end R e desired s) of
           (Some err, s') \<Rightarrow> (Returned no_requeue (Some err), s')
         | (None, s') \<Rightarrow>
             (if est_phase (ev_status desired) = EventPhaseProcessed then requeue_after_ttl desired
              else if 0 < delay then Returned (requeue_in delay) None
              else Returned no_requeue None, s'))"

definition pend_invocations :: "function_event \<Rightarrow> function_event" where
  "pend_invocations e = ev_status_update (\<lambda>s. s\<lparr>est_invocations :=
     map (wait_invocation ''invoker is not configured'') (est_invocations s)\<rparr>) e"

text \<open>The part of \<open>Reconcile\<close> with at least one matching trigger.\<close>

definition route_event ::
    "'w event_reconciler \<Rightarrow> function_event \<Rightarrow> time \<Rightarrow> event_trigger list \<Rightarrow> 'w event_io \<Rightarrow>
     reconcile_end \<times> 'w event_io" where
  "route_event R e now triggers s =
     (let K = er_lib R;
          desired = ev_status_update (\<lambda>st. ensure_event_invocations triggers
            (st\<lparr>est_matched_triggers := map trigger_name triggers\<rparr>)) (start_event e)
      in case er_invoker R of
           None \<Rightarrow>
             finish_event R e now (mark_event_processing K now ''InvokerNotConfigured''
               ''FunctionEvent is waiting for an invoker.'' (pend_invocations desired)) event_retry_backoff s
         | Some I \<Rightarrow>
             (case invoke_matched_triggers R I e desired triggers now s of
                ((None, desired', delay), s') \<Rightarrow> finish_event R e now desired' delay s'
              | ((Some err, desired', delay), s') \<Rightarrow>
                  if is_not_implemented err then
                    finish_event R e now (mark_event_processing K now ''InvokerNotConfigured''
                      ''FunctionEvent is waiting for an implemented invoker.'' desired') event_retry_backoff s'
                  else (Returned no_requeue (Some err), s')))"

definition reconcile_found_event ::
    "'w event_reconciler \<Rightarrow> function_event \<Rightarrow> 'w event_io \<Rightarrow> reconcile_end \<times> 'w event_io" where
  "reconcile_found_event R e s =
     (if event_observed e EventPhaseProcessed then reconcile_processed_ttl R e s
      else if event_observed e EventPhaseFailed then (Returned no_requeue None, s)
      else
        (let K = er_lib R; now = er_clock R (io_world s); desired = start_event e;
             event_type = es_event_type (ev_spec e)
         in if \<not> is_function_event_type event_type then
              (let message = ''FunctionEvent spec.eventType '' @ go_quote event_type @ '' must start with '' @
                     go_quote event_type_prefix @ ''.'';
                   d = mark_event_failed K now ''InvalidEventType'' message desired;
                   (err, s') = update_event_status R e (ev_status d)
                     (record_event (er_recorder R) EventWarning ''Failed'' message s)
               in (Returned no_requeue err, s'))
            else
              (case matching_triggers R e (io_world s) of
                 Inl err \<Rightarrow> (Returned no_requeue (Some err), s)
               | Inr [] \<Rightarrow>
                   (let d = mark_event_processed K now ''NoMatchingTriggers'' ''No matching triggers''
                          (ev_status_update (\<lambda>st. st\<lparr>est_matched_triggers := [], est_invocations := []\<rparr>) desired)
                    in case update_event_status R e (ev_status d)
                         (record_event (er_recorder R) EventNormal ''Processed''
                            ''FunctionEvent processed: no matching triggers.'' s) of
                         (Some err, s') \<Rightarrow> (Returned no_requeue (Some err), s')
                       | (None, s') \<Rightarrow> (requeue_after_ttl d, s'))
               | Inr triggers \<Rightarrow> route_event R e now triggers s)))"

definition reconcile_event ::
    "'w event_reconciler \<Rightarrow> string \<Rightarrow> string \<Rightarrow> 'w event_io \<Rightarrow> reconcile_end \<times> 'w event_io" where
  "reconcile_event R namespace name s =
     (case get_event (er_client R) namespace name (io_world s) of
        NotFound \<Rightarrow> (Returned no_requeue None, s)
      | GetFailed err \<Rightarrow> (Returned no_requeue (Some err), s)
      | Got e \<Rightarrow> reconcile_found_event R e s)"

end
