(* ===== verification/EventLemmas.thy ===== *)
theory EventLemmas
  imports EventController
begin

text \<open>
  The library of facts about the \<open>FunctionEvent\<close> reconciler: its conditions, the per-trigger statuses and
  their indexes, one turn of the loop over the triggers, the pass over all of them, and the ways a
  reconciliation can go.
\<close>

section \<open>Conditions\<close>

lemma set_event_condition_frame [status_simps]:
  "ev_meta (set_event_condition K now t c e) = ev_meta e"
  "ev_spec (set_event_condition K now t c e) = ev_spec e"
  "est_phase (ev_status (set_event_condition K now t c e)) = est_phase (ev_status e)"
  "est_message (ev_status (set_event_condition K now t c e)) = est_message (ev_status e)"
  "est_invocations (ev_status (set_event_condition K now t c e)) = est_invocations (ev_status e)"
  "est_matched_triggers (ev_status (set_event_condition K now t c e)) = est_matched_triggers (ev_status e)"
  "est_observed_generation (ev_status (set_event_condition K now t c e)) = est_observed_generation (ev_status e)"
  by (simp_all add: set_event_condition_def set_event_status_condition_def Let_def)

lemma set_event_conditions_frame [status_simps]:
  "ev_meta (set_event_conditions K now p f e) = ev_meta e"
  "ev_spec (set_event_conditions K now p f e) = ev_spec e"
  "est_phase (ev_status (set_event_conditions K now p f e)) = est_phase (ev_status e)"
  "est_message (ev_status (set_event_conditions K now p f e)) = est_message (ev_status e)"
  "est_invocations (ev_status (set_event_conditions K now p f e)) = est_invocations (ev_status e)"
  "est_matched_triggers (ev_status (set_event_conditions K now p f e)) = est_matched_triggers (ev_status e)"
  "est_observed_generation (ev_status (set_event_conditions K now p f e)) = est_observed_generation (ev_status e)"
  by (simp_all add: set_event_conditions_def status_simps)

definition event_condition_status :: "function_event \<Rightarrow> string \<Rightarrow> condition_status option" where
  "event_condition_status e t = condition_status_of (est_conditions (ev_status e)) t"

lemma set_event_condition_status:
  assumes "kube_lib_ok K"
  shows "event_condition_status (set_event_condition K now t c e) u =
    (if u = t then Some (cs_status c) else event_condition_status e u)"
  by (simp add: event_condition_status_def set_event_condition_def set_event_status_condition_def Let_def
      kube_status_set [OF assms])

text \<open>Both conditions are present and say what the phase says.\<close>

definition event_agrees :: "function_event \<Rightarrow> bool" where
  "event_agrees e \<longleftrightarrow>
     event_condition_status e event_condition_processed = Some (truth (est_phase (ev_status e) = EventPhaseProcessed)) \<and>
     event_condition_status e event_condition_failed = Some (truth (est_phase (ev_status e) = EventPhaseFailed))"

lemma event_cond_status [simp]: "cs_status (event_cond st r m) = st"
  by (simp add: event_cond_def)

lemma with_event_phase_frame [status_simps]:
  "ev_meta (with_event_phase ph m e) = ev_meta e"
  "ev_spec (with_event_phase ph m e) = ev_spec e"
  "est_phase (ev_status (with_event_phase ph m e)) = ph"
  "est_message (ev_status (with_event_phase ph m e)) = m"
  "est_invocations (ev_status (with_event_phase ph m e)) = est_invocations (ev_status e)"
  "est_matched_triggers (ev_status (with_event_phase ph m e)) = est_matched_triggers (ev_status e)"
  "est_observed_generation (ev_status (with_event_phase ph m e)) = est_observed_generation (ev_status e)"
  by (simp_all add: with_event_phase_def)

lemmas mark_event_defs = mark_event_processed_def mark_event_processing_def mark_event_failed_def

lemma mark_event_frame [status_simps]:
  "ev_meta (mark_event_processed K now r m e) = ev_meta e"
  "ev_meta (mark_event_processing K now r m e) = ev_meta e"
  "ev_meta (mark_event_failed K now r m e) = ev_meta e"
  "ev_spec (mark_event_processed K now r m e) = ev_spec e"
  "ev_spec (mark_event_processing K now r m e) = ev_spec e"
  "ev_spec (mark_event_failed K now r m e) = ev_spec e"
  "est_phase (ev_status (mark_event_processed K now r m e)) = EventPhaseProcessed"
  "est_phase (ev_status (mark_event_processing K now r m e)) = EventPhaseProcessing"
  "est_phase (ev_status (mark_event_failed K now r m e)) = EventPhaseFailed"
  "est_invocations (ev_status (mark_event_processed K now r m e)) = est_invocations (ev_status e)"
  "est_invocations (ev_status (mark_event_processing K now r m e)) = est_invocations (ev_status e)"
  "est_invocations (ev_status (mark_event_failed K now r m e)) = est_invocations (ev_status e)"
  "est_matched_triggers (ev_status (mark_event_processed K now r m e)) = est_matched_triggers (ev_status e)"
  "est_matched_triggers (ev_status (mark_event_processing K now r m e)) = est_matched_triggers (ev_status e)"
  "est_matched_triggers (ev_status (mark_event_failed K now r m e)) = est_matched_triggers (ev_status e)"
  "est_observed_generation (ev_status (mark_event_processed K now r m e)) = est_observed_generation (ev_status e)"
  "est_observed_generation (ev_status (mark_event_processing K now r m e)) = est_observed_generation (ev_status e)"
  "est_observed_generation (ev_status (mark_event_failed K now r m e)) = est_observed_generation (ev_status e)"
  by (simp_all add: mark_event_defs status_simps)

lemma mark_event_agrees:
  assumes "kube_lib_ok K"
  shows "event_agrees (mark_event_processed K now r m e)"
    and "event_agrees (mark_event_processing K now r m e)"
    and "event_agrees (mark_event_failed K now r m e)"
  by (simp_all add: event_agrees_def status_simps)
    (simp_all add: mark_event_defs set_event_conditions_def set_event_condition_status [OF assms] truth_def)

section \<open>The summary\<close>

lemma summarize_event_frame [status_simps]:
  "ev_meta (summarize_event K now e) = ev_meta e"
  "ev_spec (summarize_event K now e) = ev_spec e"
  "est_invocations (ev_status (summarize_event K now e)) = est_invocations (ev_status e)"
  "est_matched_triggers (ev_status (summarize_event K now e)) = est_matched_triggers (ev_status e)"
  "est_observed_generation (ev_status (summarize_event K now e)) = est_observed_generation (ev_status e)"
  by (simp_all add: summarize_event_def Let_def status_simps)

lemma summarize_event_agrees: "kube_lib_ok K \<Longrightarrow> event_agrees (summarize_event K now e)"
  by (simp add: summarize_event_def Let_def mark_event_agrees)

definition some_failed :: "event_invocation list \<Rightarrow> bool" where
  "some_failed invs \<longleftrightarrow> (\<exists>i \<in> set invs. ei_phase i = EventInvocationFailed)"

definition all_succeeded :: "event_invocation list \<Rightarrow> bool" where
  "all_succeeded invs \<longleftrightarrow> (\<forall>i \<in> set invs. ei_phase i = EventInvocationSucceeded)"

lemma count_phase_pos: "0 < count_phase p invs \<longleftrightarrow> (\<exists>i \<in> set invs. ei_phase i = p)"
  by (auto simp: count_phase_def filter_empty_conv)

lemma count_phase_all: "count_phase p invs = length invs \<longleftrightarrow> (\<forall>i \<in> set invs. ei_phase i = p)"
proof -
  have "length (filter P xs) = length xs \<longleftrightarrow> list_all P xs" for P :: "event_invocation \<Rightarrow> bool" and xs
  proof (induction xs)
    case (Cons x xs)
    have "length (filter P xs) < Suc (length xs)" by (simp add: le_imp_less_Suc)
    with Cons show ?case by auto
  qed simp
  then show ?thesis by (simp add: count_phase_def list_all_iff)
qed

lemma summarize_event_phase:
  "est_phase (ev_status (summarize_event K now e)) =
     (if some_failed (est_invocations (ev_status e)) then EventPhaseFailed
      else if all_succeeded (est_invocations (ev_status e)) then EventPhaseProcessed
      else EventPhaseProcessing)"
proof -
  let ?invs = "est_invocations (ev_status e)"
  have "length (filter (\<lambda>i. ei_phase i \<notin> {EventInvocationSucceeded, EventInvocationFailed}) ?invs) = 0"
    if "all_succeeded ?invs"
    using that by (auto simp: all_succeeded_def)
  moreover have "?invs = [] \<Longrightarrow> \<not> some_failed ?invs \<and> all_succeeded ?invs"
    by (simp add: some_failed_def all_succeeded_def)
  moreover have "0 < count_phase EventInvocationFailed ?invs \<longleftrightarrow> some_failed ?invs"
    by (simp add: count_phase_pos some_failed_def)
  moreover have "count_phase EventInvocationSucceeded ?invs = length ?invs \<longleftrightarrow> all_succeeded ?invs"
    by (simp add: count_phase_all all_succeeded_def)
  ultimately show ?thesis
    unfolding summarize_event_def Let_def by (simp add: status_simps)
qed

section \<open>Statuses and their indexes\<close>

lemma index_from_other: "name \<notin> set (map ei_trigger_name invs) \<Longrightarrow> index_from n invs m name = m name"
  by (induction invs arbitrary: n m) auto

lemma index_from_nth:
  "distinct (map ei_trigger_name invs) \<Longrightarrow> k < length invs \<Longrightarrow>
     index_from n invs m (ei_trigger_name (invs ! k)) = n + k"
proof (induction invs arbitrary: n m k)
  case (Cons i invs)
  then show ?case
    by (cases k) (simp_all add: index_from_other)
qed simp

lemma event_invocation_indexes_nth:
  "distinct (map ei_trigger_name invs) \<Longrightarrow> k < length invs \<Longrightarrow>
     event_invocation_indexes invs (ei_trigger_name (invs ! k)) = k"
  by (simp add: event_invocation_indexes_def index_from_nth)

lemma existing_event_invocation_name:
  "ei_trigger_name (existing_event_invocation invs name) = [] \<or>
   ei_trigger_name (existing_event_invocation invs name) = name \<and> existing_event_invocation invs name \<in> set invs"
  by (auto simp: existing_event_invocation_def empty_event_invocation_def split: option.splits
      dest!: find_Some_member)

lemma existing_event_invocation_nth:
  assumes "distinct (map ei_trigger_name invs)" "k < length invs"
  shows "existing_event_invocation invs (ei_trigger_name (invs ! k)) = invs ! k"
proof -
  have mem: "invs ! k \<in> set (rev invs)" using assms(2) by simp
  then have "find (\<lambda>i. ei_trigger_name i = ei_trigger_name (invs ! k)) (rev invs) \<noteq> None"
    by (auto simp: find_None_all)
  then obtain i where i: "find (\<lambda>i. ei_trigger_name i = ei_trigger_name (invs ! k)) (rev invs) = Some i" by blast
  then have "i \<in> set invs" "ei_trigger_name i = ei_trigger_name (invs ! k)" by (auto dest: find_Some_member)
  with assms have "i = invs ! k" by (metis distinct_map inj_onD nth_mem)
  with i show ?thesis by (simp add: existing_event_invocation_def)
qed

lemma ensure_event_invocation_fields:
  "trigger_name t \<noteq> [] \<Longrightarrow> ei_trigger_name (ensure_event_invocation invs t) = trigger_name t"
  "ei_phase (ensure_event_invocation invs t) \<noteq> EventInvocationUnset"
  using existing_event_invocation_name [of invs "trigger_name t"]
  by (auto simp: ensure_event_invocation_def Let_def)

text \<open>The limits every status keeps: at most three attempts, three exactly when it is settled by them.\<close>

definition attempts_ok :: "event_invocation \<Rightarrow> bool" where
  "attempts_ok i \<longleftrightarrow> 0 \<le> sint (ei_attempts i) \<and> sint (ei_attempts i) \<le> 3 \<and>
     (sint (ei_attempts i) = 3 \<longrightarrow> ei_phase i \<in> {EventInvocationSucceeded, EventInvocationFailed}) \<and>
     (ei_phase i = EventInvocationFailed \<longrightarrow> sint (ei_attempts i) = 3)"

lemma sint_three: "sint (3 :: int32) = 3" and sint_zero: "sint (0 :: int32) = 0"
  by simp_all

lemma retry_limit_sle: "event_retry_limit \<le>s a \<longleftrightarrow> 3 \<le> sint a"
  by (simp add: event_retry_limit_def sle_sint)

lemma ensure_event_invocation_ok:
  assumes "list_all attempts_ok invs" "trigger_name t \<noteq> []"
  shows "attempts_ok (ensure_event_invocation invs t)"
  using existing_event_invocation_name [of invs "trigger_name t"] assms
  by (auto simp: ensure_event_invocation_def Let_def attempts_ok_def list_all_iff existing_event_invocation_def
      empty_event_invocation_def split: option.splits dest!: find_Some_member)

lemma settled_iff: "attempts_ok i \<Longrightarrow>
    is_settled_invocation i \<longleftrightarrow> ei_phase i = EventInvocationSucceeded \<or> ei_phase i = EventInvocationFailed"
  by (auto simp: is_settled_invocation_def attempts_ok_def retry_limit_sle)

lemma unsettled_attempts: "attempts_ok i \<Longrightarrow> \<not> is_settled_invocation i \<Longrightarrow> sint (ei_attempts i) < 3"
  by (auto simp: is_settled_invocation_def attempts_ok_def retry_limit_sle)

section \<open>One turn\<close>

text \<open>The object a call of the loop is made for: a ready function, and the target read from it.\<close>

definition call_target_ok :: "'w event_reconciler \<Rightarrow> function_event \<Rightarrow> event_trigger \<Rightarrow> invoke_request \<Rightarrow> bool" where
  "call_target_ok R e t rq \<longleftrightarrow> (\<exists>w f.
     get_function (er_client R) (om_namespace (ev_meta e)) (fr_name (ts_function_ref (tr_spec t))) w = Got f \<and>
     rq_target rq = invocation_target_for_function f \<and>
     function_ready_for_invocation (er_lib R) f (rq_target rq))"

lemma note_event_attempt_facts:
  assumes "note_event_attempt now rsp err i = (i', retry)" "attempts_ok i" "\<not> is_settled_invocation i"
  shows "attempts_ok i'" "ei_trigger_name i' = ei_trigger_name i" "ei_phase i' \<noteq> EventInvocationUnset"
    "sint (ei_attempts i') = sint (ei_attempts i) + 1"
    "retry \<longleftrightarrow> ei_phase i' = EventInvocationPending"
    "ei_phase i' = EventInvocationSucceeded \<longleftrightarrow> err = None"
proof -
  have below: "sint (ei_attempts i) < 3" by (rule unsettled_attempts [OF assms(2,3)])
  then have "ei_attempts i <s 3" by (simp add: sless_sint)
  from sint_Suc_below [OF this] have inc: "sint (ei_attempts i + 1) = sint (ei_attempts i) + 1" .
  have "0 \<le> sint (ei_attempts i)" using assms(2) by (simp add: attempts_ok_def)
  with assms(1) below inc show "attempts_ok i'" "ei_trigger_name i' = ei_trigger_name i"
    "ei_phase i' \<noteq> EventInvocationUnset" "sint (ei_attempts i') = sint (ei_attempts i) + 1"
    "retry \<longleftrightarrow> ei_phase i' = EventInvocationPending" "ei_phase i' = EventInvocationSucceeded \<longleftrightarrow> err = None"
    by (auto simp: note_event_attempt_def Let_def attempts_ok_def retry_limit_sle split: if_splits)
qed

lemma wait_invocation_facts:
  assumes "attempts_ok i" "\<not> is_settled_invocation i"
  shows "attempts_ok (wait_invocation m i)"
  using unsettled_attempts [OF assms] assms(1) by (auto simp: wait_invocation_def attempts_ok_def)

lemma wait_invocation_simps [simp]:
  "ei_trigger_name (wait_invocation m i) = ei_trigger_name i"
  "ei_phase (wait_invocation m i) = EventInvocationPending"
  "ei_attempts (wait_invocation m i) = ei_attempts i"
  by (simp_all add: wait_invocation_def)

lemma invoke_trigger_cases:
  assumes turn: "invoke_trigger R I e body now k t i s = (r, s')" and ok: "attempts_ok i"
  obtains (skipped) "r = TurnSkipped" "s' = s" "is_settled_invocation i"
    | (failed) err where "r = TurnError err" "s' = s" "\<not> is_settled_invocation i"
      "\<exists>w. get_function (er_client R) (om_namespace (ev_meta e)) (fr_name (ts_function_ref (tr_spec t))) w = GetFailed err"
    | (waiting) m where "r = TurnDone (wait_invocation m i) True" "s' = s" "\<not> is_settled_invocation i"
    | (unimplemented) rq rsp err where "r = TurnError err" "is_not_implemented err" "\<not> is_settled_invocation i"
      "io_trace s' = io_trace s @ [Called (rq, rsp, Some err)]" "rq_index rq = of_nat k" "rq_body rq = Some body"
      "call_target_ok R e t rq" "\<exists>w w'. inv_invoke I rq w = ((rsp, Some err), w')"
    | (called) rq rsp err i' where "r = TurnDone i' (ei_phase i' = EventInvocationPending)"
      "\<not> is_settled_invocation i" "attempts_ok i'" "ei_trigger_name i' = ei_trigger_name i"
      "ei_phase i' \<noteq> EventInvocationUnset"
      "sint (ei_attempts i') = sint (ei_attempts i) + 1"
      "ei_phase i' = EventInvocationSucceeded \<longleftrightarrow> err = None"
      "io_trace s' = io_trace s @ [Called (rq, rsp, err)]" "rq_index rq = of_nat k" "rq_body rq = Some body"
      "call_target_ok R e t rq"
proof (cases "is_settled_invocation i")
  case True
  with turn show ?thesis by (intro skipped) (simp_all add: invoke_trigger_def)
next
  case unsettled: False
  let ?name = "fr_name (ts_function_ref (tr_spec t))"
  show ?thesis
  proof (cases "get_function (er_client R) (om_namespace (ev_meta e)) ?name (io_world s)")
    case NotFound
    with turn unsettled show ?thesis
      by (intro waiting [of "''Waiting for Function '' @ go_quote ?name @ '' to exist.''"])
        (simp_all add: invoke_trigger_def Let_def)
  next
    case (GetFailed err)
    with turn unsettled show ?thesis by (intro failed [of err]) (auto simp: invoke_trigger_def Let_def)
  next
    case (Got f)
    let ?target = "invocation_target_for_function f"
    let ?rq = "\<lparr>rq_target = ?target, rq_index = of_nat k, rq_body = Some body\<rparr>"
    show ?thesis
    proof (cases "function_ready_for_invocation (er_lib R) f ?target")
      case False
      with turn unsettled Got show ?thesis
        by (intro waiting [of "function_not_ready_message (er_lib R) f ?target"])
          (simp_all add: invoke_trigger_def Let_def)
    next
      case ready: True
      then have id: "tg_function_ocid ?target \<noteq> []" using ready_for_invocation_target by blast
      obtain rsp err s1 where call: "call_invoker I ?rq s = ((rsp, err), s1)" by (metis prod.exhaust)
      have trace: "io_trace s1 = io_trace s @ [Called (?rq, rsp, err)]"
        and inv: "inv_invoke I ?rq (io_world s) = ((rsp, err), io_world s1)"
        using call_invoker_trace [OF call] by simp_all
      have target: "call_target_ok R e t ?rq" using Got ready by (auto simp: call_target_ok_def)
      show ?thesis
      proof (cases "err_is_not_implemented err")
        case True
        then obtain x where x: "err = Some x" by (cases err) simp_all
        with True turn unsettled Got ready id call have "r = TurnError x" "s' = s1"
          by (simp_all add: invoke_trigger_def Let_def)
        with x True unsettled trace inv target show ?thesis
          by (intro unimplemented [of x ?rq rsp]) auto
      next
        case False
        obtain i' retry where n: "note_event_attempt now rsp err i = (i', retry)" by (metis prod.exhaust)
        with False turn unsettled Got ready id call have "r = TurnDone i' retry" "s' = s1"
          by (simp_all add: invoke_trigger_def Let_def)
        with note_event_attempt_facts [OF n ok unsettled] unsettled trace target show ?thesis
          by (intro called [of i' err ?rq rsp]) simp_all
      qed
    qed
  qed
qed

section \<open>The pass over the triggers\<close>

text \<open>
  The loop, read per trigger: \<open>k\<close> is the position of the first trigger, the statuses are those of the
  triggers in order, the last three arguments the error that ended the pass, the statuses and the state.
\<close>

inductive event_pass ::
    "'w event_reconciler \<Rightarrow> 'w invoker \<Rightarrow> function_event \<Rightarrow> bytes \<Rightarrow> time \<Rightarrow> nat \<Rightarrow> event_trigger list \<Rightarrow>
     event_invocation list \<Rightarrow> 'w event_io \<Rightarrow> go_error option \<Rightarrow> event_invocation list \<Rightarrow> 'w event_io \<Rightarrow> bool"
  for R I e body now where
  pass_done: "event_pass R I e body now k [] [] s None [] s"
| pass_skip: "invoke_trigger R I e body now k t i s = (TurnSkipped, s1) \<Longrightarrow>
    event_pass R I e body now (Suc k) ts invs s1 err invs' s' \<Longrightarrow>
    event_pass R I e body now k (t # ts) (i # invs) s err (i # invs') s'"
| pass_turn: "invoke_trigger R I e body now k t i s = (TurnDone i' retry, s1) \<Longrightarrow>
    event_pass R I e body now (Suc k) ts invs s1 err invs' s' \<Longrightarrow>
    event_pass R I e body now k (t # ts) (i # invs) s err (i' # invs') s'"
| pass_error: "invoke_trigger R I e body now k t i s = (TurnError x, s1) \<Longrightarrow>
    event_pass R I e body now k (t # ts) (i # invs) s (Some x) (i # invs) s1"

inductive_cases event_pass_ConsE: "event_pass R I e body now k (t # ts) (i # invs) s err invs' s'"

text \<open>The delay is the backoff once some trigger is left pending.\<close>

lemma invoke_triggers_pass:
  assumes "invoke_triggers R I e body now idx k ts (pre @ invs) delay s = ((err, res, delay'), s')"
    and "length pre = k" "length invs = length ts" "list_all attempts_ok invs"
    and "\<And>j. j < length ts \<Longrightarrow> idx (trigger_name (ts ! j)) = k + j"
  shows "\<exists>invs'. res = pre @ invs' \<and> event_pass R I e body now k ts invs s err invs' s' \<and>
    (err = None \<longrightarrow> delay' = event_retry_backoff \<or> delay' = delay \<and> (\<forall>i \<in> set invs'. is_settled_invocation i))"
  using assms
proof (induction ts arbitrary: k pre invs delay s)
  case Nil
  then show ?case by (auto intro: pass_done)
next
  case (Cons t ts)
  obtain i invs0 where invs: "invs = i # invs0" "length invs0 = length ts" using Cons.prems(3)
    by (cases invs) simp_all
  have idx: "idx (trigger_name t) = k" using Cons.prems(5) [of 0] by simp
  have idx': "idx (trigger_name (ts ! j)) = Suc k + j" if "j < length ts" for j
    using Cons.prems(5) [of "Suc j"] that by simp
  have nth: "(pre @ invs) ! k = i" and upd: "(pre @ invs)[k := x] = (pre @ [x]) @ invs0" for x
    using invs Cons.prems(2) by auto
  obtain r s1 where turn: "invoke_trigger R I e body now k t i s = (r, s1)" by (metis prod.exhaust)
  from Cons.prems(4) invs have ok: "attempts_ok i" "list_all attempts_ok invs0" by simp_all
  show ?case
  proof (cases r)
    case TurnSkipped
    with Cons.prems(1) turn idx nth have
      "invoke_triggers R I e body now idx (Suc k) ts ((pre @ [i]) @ invs0) delay s1 = ((err, res, delay'), s')"
      by (simp add: Let_def invs)
    from Cons.IH [OF this _ invs(2) ok(2) idx'] Cons.prems(2) obtain invs' where
      "res = (pre @ [i]) @ invs'" "event_pass R I e body now (Suc k) ts invs0 s1 err invs' s'"
      "err = None \<longrightarrow> delay' = event_retry_backoff \<or> delay' = delay \<and> (\<forall>i \<in> set invs'. is_settled_invocation i)"
      by auto
    moreover have "is_settled_invocation i"
      using turn ok(1) by (cases rule: invoke_trigger_cases) (use TurnSkipped in auto)
    ultimately show ?thesis using turn TurnSkipped invs(1)
      by (intro exI [of _ "i # invs'"]) (auto intro: pass_skip)
  next
    case (TurnDone i' retry)
    with Cons.prems(1) turn idx nth have
      "invoke_triggers R I e body now idx (Suc k) ts ((pre @ [i']) @ invs0)
         (if retry then event_retry_backoff else delay) s1 = ((err, res, delay'), s')"
      by (simp add: Let_def upd del: append_assoc)
    from Cons.IH [OF this _ invs(2) ok(2) idx'] Cons.prems(2) obtain invs' where
      i': "res = (pre @ [i']) @ invs'" "event_pass R I e body now (Suc k) ts invs0 s1 err invs' s'"
      "err = None \<longrightarrow> delay' = event_retry_backoff \<or>
        delay' = (if retry then event_retry_backoff else delay) \<and> (\<forall>i \<in> set invs'. is_settled_invocation i)"
      by auto
    have "retry \<or> is_settled_invocation i'"
      using turn ok(1)
    proof (cases rule: invoke_trigger_cases)
      case (called rq rsp err i2)
      with TurnDone have i2: "i2 = i'" "retry \<longleftrightarrow> ei_phase i' = EventInvocationPending" by auto
      have "attempts_ok i'" "ei_phase i' \<noteq> EventInvocationUnset" using called(3,5) i2(1) by simp_all
      with i2(2) show ?thesis by (cases "ei_phase i'") (simp_all add: settled_iff)
    qed (use TurnDone in auto)
    with i' turn TurnDone invs(1) show ?thesis
      by (intro exI [of _ "i' # invs'"]) (auto intro: pass_turn)
  next
    case (TurnError x)
    with Cons.prems(1) turn idx nth invs(1) show ?thesis
      by (intro exI [of _ invs]) (auto simp: Let_def intro: pass_error)
  qed
qed

end
