(* ===== verification/EventReconcile.thy ===== *)
theory EventReconcile
  imports EventLemmas
begin

text \<open>
  The \<open>FunctionEvent\<close> reconciler as a whole: what a pass over the triggers calls and leaves in the
  statuses, what is written, and the rounds of repeated reconciliations.
\<close>

section \<open>What a pass calls\<close>

text \<open>
  The calls of a pass, each with the position of its trigger: in increasing order, only for triggers
  that are not settled, with the envelope as body, to the target of a ready function; a call without
  error leaves its trigger succeeded.
\<close>

definition pass_calls_ok ::
    "'w event_reconciler \<Rightarrow> function_event \<Rightarrow> bytes \<Rightarrow> nat \<Rightarrow> event_trigger list \<Rightarrow> event_invocation list \<Rightarrow>
     event_invocation list \<Rightarrow> (nat \<times> invoke_call) list \<Rightarrow> bool" where
  "pass_calls_ok R e body k ts invs invs' ps \<longleftrightarrow> sorted_wrt (<) (map fst ps) \<and>
     (\<forall>(j, rq, rsp, err) \<in> set ps. k \<le> j \<and> j < k + length ts \<and> rq_index rq = of_nat j \<and>
        rq_body rq = Some body \<and> call_target_ok R e (ts ! (j - k)) rq \<and>
        \<not> is_settled_invocation (invs ! (j - k)) \<and>
        (err = None \<longrightarrow> ei_phase (invs' ! (j - k)) = EventInvocationSucceeded))"

lemma pass_calls_Nil [simp]: "pass_calls_ok R e body k ts invs invs' []"
  by (simp add: pass_calls_ok_def)

lemma pass_calls_Cons:
  assumes "pass_calls_ok R e body (Suc k) ts invs invs' ps"
  shows "pass_calls_ok R e body k (t # ts) (i # invs) (i' # invs') ps"
  using assms unfolding pass_calls_ok_def
  by (auto simp: Suc_le_eq nth_Cons' split: prod.splits)

lemma pass_calls_add:
  assumes "pass_calls_ok R e body (Suc k) ts invs invs' ps"
    and "rq_index rq = of_nat k" "rq_body rq = Some body" "call_target_ok R e t rq" "\<not> is_settled_invocation i"
    and "err = None \<longrightarrow> ei_phase i' = EventInvocationSucceeded"
  shows "pass_calls_ok R e body k (t # ts) (i # invs) (i' # invs') ((k, rq, rsp, err) # ps)"
proof -
  have "\<forall>j \<in> set (map fst ps). k < j"
    using assms(1) by (force simp: pass_calls_ok_def Suc_le_eq)
  with pass_calls_Cons [OF assms(1)] assms(2-) show ?thesis
    by (auto simp: pass_calls_ok_def)
qed

lemma event_pass_facts:
  assumes "event_pass R I e body now k ts invs s err invs' s'" "list_all attempts_ok invs" "length invs = length ts"
  shows "map ei_trigger_name invs' = map ei_trigger_name invs \<and>
    list_all attempts_ok invs' \<and>
    (\<exists>t ps. io_trace s' = io_trace s @ t \<and> writes t = [] \<and> calls t = map snd ps \<and>
       pass_calls_ok R e body k ts invs invs' ps)"
  using assms
proof (induction rule: event_pass.induct)
  case (pass_done k s)
  then show ?case by (intro conjI exI [of _ "[]"]) simp_all
next
  case (pass_skip k t i s s1 ts invs err invs' s')
  from pass_skip.hyps(1) have "s1 = s"
    by (cases rule: invoke_trigger_cases) (use pass_skip.prems in simp_all)
  with pass_skip show ?case by (auto intro: pass_calls_Cons)
next
  case (pass_turn k t i s i' retry s1 ts invs err invs' s')
  from pass_turn obtain u ps where u: "io_trace s' = io_trace s1 @ u" "writes u = []" "calls u = map snd ps"
    "pass_calls_ok R e body (Suc k) ts invs invs' ps" and rest: "map ei_trigger_name invs' = map ei_trigger_name invs" "list_all attempts_ok invs'" by auto
  from pass_turn.prems have i: "attempts_ok i" by simp
  from pass_turn.hyps(1) i show ?case
  proof (cases rule: invoke_trigger_cases)
    case (waiting m)
    with u rest wait_invocation_facts [OF i] show ?thesis
      by (intro conjI exI [of _ u] exI [of _ ps]) (auto intro: pass_calls_Cons)
  next
    case (called rq rsp err0 i2)
    then have i2: "i2 = i'" by simp
    from called i2 u rest pass_calls_add [OF u(4) called(9,10,11,2), of err0 i' rsp] show ?thesis
      by (intro conjI exI [of _ "Called (rq, rsp, err0) # u"] exI [of _ "(k, rq, rsp, err0) # ps"]) auto
  qed simp_all
next
  case (pass_error k t i s x s1 ts invs)
  from pass_error.prems have i: "attempts_ok i" by simp
  from pass_error.hyps i show ?case
  proof (cases rule: invoke_trigger_cases)
    case (failed err)
    with pass_error.prems show ?thesis by (intro conjI exI [of _ "[]"]) simp_all
  next
    case (unimplemented rq rsp err)
    then have "pass_calls_ok R e body k (t # ts) (i # invs) (i # invs) [(k, rq, rsp, Some err)]"
      by (intro pass_calls_add) simp_all
    with unimplemented pass_error.prems show ?thesis
      by (intro conjI exI [of _ "[Called (rq, rsp, Some err)]"] exI [of _ "[(k, rq, rsp, Some err)]"]) simp_all
  qed simp_all
qed

text \<open>Settled triggers are left alone, and a pass without error makes progress on the others.\<close>

lemma event_pass_settled:
  assumes "event_pass R I e body now k ts invs s err invs' s'" "list_all attempts_ok invs"
    and "j < length invs" "is_settled_invocation (invs ! j)"
  shows "invs' ! j = invs ! j"
  using assms
proof (induction arbitrary: j rule: event_pass.induct)
  case (pass_turn k t i s i' retry s1 ts invs err invs' s')
  show ?case
  proof (cases j)
    case 0
    with pass_turn.prems have "is_settled_invocation i" by simp
    with pass_turn.hyps(1) show ?thesis by (simp add: invoke_trigger_def)
  next
    case (Suc m)
    with pass_turn show ?thesis by simp
  qed
qed (auto simp: nth_Cons split: nat.splits)

text \<open>
  A steady environment: every trigger's function can be read and is ready, whatever the state of the
  world, and the invoker never answers that it is not implemented.
\<close>

definition event_steady :: "'w event_reconciler \<Rightarrow> 'w invoker \<Rightarrow> string \<Rightarrow> event_trigger list \<Rightarrow> bool" where
  "event_steady R I ns ts \<longleftrightarrow>
     (\<forall>t \<in> set ts. \<forall>w. \<exists>f. get_function (er_client R) ns (fr_name (ts_function_ref (tr_spec t))) w = Got f \<and>
        function_ready_for_invocation (er_lib R) f (invocation_target_for_function f)) \<and>
     (\<forall>rq w rsp err w'. inv_invoke I rq w = ((rsp, err), w') \<longrightarrow> \<not> err_is_not_implemented err)"

lemma steady_turn:
  assumes steady: "event_steady R I (om_namespace (ev_meta e)) ts" and t: "t \<in> set ts"
    and ok: "attempts_ok i" and unsettled: "\<not> is_settled_invocation i"
  shows "\<exists>i' retry s1. invoke_trigger R I e body now k t i s = (TurnDone i' retry, s1) \<and>
    sint (ei_attempts i') = sint (ei_attempts i) + 1"
proof -
  from steady t obtain f where f: "get_function (er_client R) (om_namespace (ev_meta e))
      (fr_name (ts_function_ref (tr_spec t))) (io_world s) = Got f"
    and ready: "function_ready_for_invocation (er_lib R) f (invocation_target_for_function f)"
    unfolding event_steady_def by blast
  let ?rq = "\<lparr>rq_target = invocation_target_for_function f, rq_index = of_nat k, rq_body = Some body\<rparr>"
  obtain rsp err s1 where call: "call_invoker I ?rq s = ((rsp, err), s1)" by (metis prod.exhaust)
  from call_invoker_trace [OF call] steady have impl: "\<not> err_is_not_implemented err"
    unfolding event_steady_def by blast
  obtain i' retry where n: "note_event_attempt now rsp err i = (i', retry)" by (metis prod.exhaust)
  have "invoke_trigger R I e body now k t i s = (TurnDone i' retry, s1)"
    using f ready unsettled call impl n ready_for_invocation_target [OF ready]
    by (simp add: invoke_trigger_def Let_def)
  with note_event_attempt_facts(4) [OF n ok unsettled] show ?thesis by blast
qed

lemma event_pass_progress:
  assumes "event_pass R I e body now k ts invs s err invs' s'" "list_all attempts_ok invs" "length invs = length ts"
    and "event_steady R I (om_namespace (ev_meta e)) ts"
  shows "err = None \<and> (\<forall>j < length ts. is_settled_invocation (invs ! j) \<or>
    sint (ei_attempts (invs' ! j)) = sint (ei_attempts (invs ! j)) + 1)"
  using assms
proof (induction rule: event_pass.induct)
  case (pass_skip k t i s s1 ts invs err invs' s')
  then have "is_settled_invocation i" by (cases rule: invoke_trigger_cases [OF pass_skip.hyps(1)]) simp_all
  with pass_skip show ?case by (auto simp: nth_Cons event_steady_def split: nat.splits)
next
  case (pass_turn k t i s i' retry s1 ts invs err invs' s')
  have "is_settled_invocation i \<or> sint (ei_attempts i') = sint (ei_attempts i) + 1"
    using steady_turn [OF pass_turn.prems(3), of t i body now k s] pass_turn by auto
  with pass_turn show ?case by (auto simp: nth_Cons event_steady_def split: nat.splits)
next
  case (pass_error k t i s x s1 ts invs)
  have "is_settled_invocation i"
    using steady_turn [OF pass_error.prems(3), of t i body now k s] pass_error by auto
  with pass_error.hyps show ?case by (simp add: invoke_trigger_def)
qed simp

section \<open>Routing\<close>

text \<open>The API server keeps names unique in a namespace and not empty.\<close>

definition names_ok :: "event_trigger list \<Rightarrow> bool" where
  "names_ok triggers \<longleftrightarrow> distinct (map trigger_name triggers) \<and> [] \<notin> set (map trigger_name triggers)"

lemma routed_triggers_set:
  "t \<in> set (routed_triggers triggers ty) \<longleftrightarrow> t \<in> set triggers \<and> rule_enabled t \<and>
     classify_trigger t = TriggerModeFunctionEvent \<and> trigger_matches_event t ty"
  by (auto simp: routed_triggers_def)

lemma routed_triggers_names: "names_ok triggers \<Longrightarrow> names_ok (routed_triggers triggers ty)"
  by (auto simp: names_ok_def routed_triggers_def distinct_map intro: inj_on_subset)

lemma routed_triggers_sorted: "sorted (map trigger_name (routed_triggers triggers ty))"
  by (simp add: routed_triggers_def)

definition routed_desired :: "function_event \<Rightarrow> event_trigger list \<Rightarrow> function_event" where
  "routed_desired e triggers = ev_status_update (\<lambda>st. ensure_event_invocations triggers
     (st\<lparr>est_matched_triggers := map trigger_name triggers\<rparr>)) (start_event e)"

lemma routed_desired_simps [simp]:
  "ev_meta (routed_desired e ts) = ev_meta e" "ev_spec (routed_desired e ts) = ev_spec e"
  "est_invocations (ev_status (routed_desired e ts)) =
     map (ensure_event_invocation (est_invocations (ev_status e))) ts"
  "est_matched_triggers (ev_status (routed_desired e ts)) = map trigger_name ts"
  "est_phase (ev_status (routed_desired e ts)) = est_phase (ev_status e)"
  "est_observed_generation (ev_status (routed_desired e ts)) = om_generation (ev_meta e)"
  by (simp_all add: routed_desired_def start_event_def ensure_event_invocations_def)

lemma ensured_names: "names_ok ts \<Longrightarrow>
    map ei_trigger_name (map (ensure_event_invocation invs) ts) = map trigger_name ts"
  by (auto simp: names_ok_def intro!: ensure_event_invocation_fields(1)) (metis image_eqI)

lemma ensured_ok: "names_ok ts \<Longrightarrow> list_all attempts_ok invs \<Longrightarrow>
    list_all attempts_ok (map (ensure_event_invocation invs) ts)"
  unfolding list_all_iff names_ok_def by (auto intro!: ensure_event_invocation_ok) (auto simp: list_all_iff image_iff)

section \<open>What is written\<close>

text \<open>The event as stored after a reconciliation: the last status sent, else what was read.\<close>

definition stored_event :: "event_effect list \<Rightarrow> function_event \<Rightarrow> function_event" where
  "stored_event t e = fold (\<lambda>x acc. case x of StatusUpdate g \<Rightarrow> g | _ \<Rightarrow> acc) t e"

lemma stored_event_append [simp]: "stored_event (t @ u) e = stored_event u (stored_event t e)"
  by (simp add: stored_event_def)

lemma stored_event_writes: "writes t = [] \<Longrightarrow> stored_event t e = e"
  by (induction t arbitrary: e rule: writes.induct) (simp_all add: stored_event_def)

lemma stored_event_update [simp]: "stored_event [StatusUpdate g] e = g"
  by (simp add: stored_event_def)

definition finished_event :: "kube_lib \<Rightarrow> time \<Rightarrow> function_event \<Rightarrow> function_event" where
  "finished_event K now d = (if est_phase (ev_status d) \<in> {EventPhaseUnset, EventPhasePending, EventPhaseProcessing}
     then summarize_event K now d else d)"

lemma finished_event_frame [simp]:
  "ev_meta (finished_event K now d) = ev_meta d" "ev_spec (finished_event K now d) = ev_spec d"
  "est_invocations (ev_status (finished_event K now d)) = est_invocations (ev_status d)"
  "est_matched_triggers (ev_status (finished_event K now d)) = est_matched_triggers (ev_status d)"
  "est_observed_generation (ev_status (finished_event K now d)) = est_observed_generation (ev_status d)"
  by (simp_all add: finished_event_def status_simps)

lemma update_event_status_effects:
  assumes "update_event_status R e d s = (err, s')"
  obtains t where "io_trace s' = io_trace s @ t" "calls t = []" "stored_event t e = e\<lparr>ev_status := d\<rparr>"
    and "writes t = [] \<or> writes t = [StatusUpdate (e\<lparr>ev_status := d\<rparr>)]"
proof (cases "ev_status e = d")
  case True
  with assms have "s' = s" by (simp add: update_event_status_def)
  with True show ?thesis by (intro that [of "[]"]) (simp_all add: stored_event_writes)
next
  case False
  with assms show ?thesis
    by (intro that [of "[StatusUpdate (e\<lparr>ev_status := d\<rparr>)]"])
      (auto simp: update_event_status_def perform_simps Let_def)
qed

lemma record_event_end_quiet: "\<exists>t. io_trace (record_event_end R e d s) = io_trace s @ t \<and> quiet t"
  using record_event_quiet [of "er_recorder R" EventNormal] record_event_quiet [of "er_recorder R" EventWarning]
  by (auto simp: record_event_end_def)

lemma finish_event_effects:
  assumes "finish_event R e now d delay s = (out, s')"
  obtains t where "io_trace s' = io_trace s @ t" "calls t = []"
    and "stored_event t e = e\<lparr>ev_status := ev_status (finished_event (er_lib R) now d)\<rparr>"
    and "writes t = [] \<or> writes t = [StatusUpdate (e\<lparr>ev_status := ev_status (finished_event (er_lib R) now d)\<rparr>)]"
    and "(\<exists>err. out = Returned no_requeue (Some err)) \<or>
      out = (if est_phase (ev_status (finished_event (er_lib R) now d)) = EventPhaseProcessed
             then requeue_after_ttl (finished_event (er_lib R) now d)
             else if 0 < delay then Returned (requeue_in delay) None else Returned no_requeue None)"
proof -
  let ?d = "finished_event (er_lib R) now d"
  let ?s = "record_event_end R e ?d s"
  obtain u where u: "io_trace ?s = io_trace s @ u" "quiet u" using record_event_end_quiet by blast
  obtain err s1 where upd: "update_event_status R e (ev_status ?d) ?s = (err, s1)" by (metis prod.exhaust)
  have run: "s' = s1" "(\<exists>err. out = Returned no_requeue (Some err)) \<or>
      out = (if est_phase (ev_status ?d) = EventPhaseProcessed then requeue_after_ttl ?d
             else if 0 < delay then Returned (requeue_in delay) None else Returned no_requeue None)"
    using assms upd unfolding finish_event_def Let_def finished_event_def [symmetric]
    by (auto split: option.splits)
  from upd show ?thesis
  proof (rule update_event_status_effects)
    fix t
    assume "io_trace s1 = io_trace ?s @ t" "calls t = []" "stored_event t e = e\<lparr>ev_status := ev_status ?d\<rparr>"
      "writes t = [] \<or> writes t = [StatusUpdate (e\<lparr>ev_status := ev_status ?d\<rparr>)]"
    with u run show ?thesis
      by (intro that [of "u @ t"]) (auto simp: quiet_def stored_event_writes)
  qed
qed

section \<open>The ways a routed event can go\<close>

lemma route_event_cases:
  assumes run: "route_event R e now ts s = (out, s')" and I: "er_invoker R = Some I"
    and names: "names_ok ts" and ok: "list_all attempts_ok (est_invocations (ev_status e))"
  obtains (bad_payload) x m where "event_invocation_body R e = Inl x"
      "finish_event R e now (mark_event_failed (er_lib R) now ''InvalidPayload'' m (routed_desired e ts)) 0 s = (out, s')"
    | (lookup_failed) body err invs' where "event_invocation_body R e = Inr body"
      "event_pass R I e body now 0 ts (map (ensure_event_invocation (est_invocations (ev_status e))) ts) s (Some err) invs' s'"
      "out = Returned no_requeue (Some err)" "\<not> is_not_implemented err"
    | (unimplemented) body err invs' s1 m where "event_invocation_body R e = Inr body"
      "event_pass R I e body now 0 ts (map (ensure_event_invocation (est_invocations (ev_status e))) ts) s (Some err) invs' s1"
      "is_not_implemented err"
      "finish_event R e now (mark_event_processing (er_lib R) now ''InvokerNotConfigured'' m
         (with_event_invocations invs' (routed_desired e ts))) event_retry_backoff s1 = (out, s')"
    | (passed) body invs' s1 delay where "event_invocation_body R e = Inr body"
      "event_pass R I e body now 0 ts (map (ensure_event_invocation (est_invocations (ev_status e))) ts) s None invs' s1"
      "finish_event R e now (with_event_invocations invs' (routed_desired e ts)) delay s1 = (out, s')"
      "delay = event_retry_backoff \<or> (\<forall>i \<in> set invs'. is_settled_invocation i)"
proof -
  let ?invs = "map (ensure_event_invocation (est_invocations (ev_status e))) ts"
  let ?d = "routed_desired e ts"
  from run I have run': "(case invoke_matched_triggers R I e ?d ts now s of
      ((None, desired', delay), s') \<Rightarrow> finish_event R e now desired' delay s'
    | ((Some err, desired', delay), s') \<Rightarrow>
        if is_not_implemented err then
          finish_event R e now (mark_event_processing (er_lib R) now ''InvokerNotConfigured''
            ''FunctionEvent is waiting for an implemented invoker.'' desired') event_retry_backoff s'
        else (Returned no_requeue (Some err), s')) = (out, s')"
    by (simp add: route_event_def Let_def routed_desired_def)
  show ?thesis
  proof (cases "event_invocation_body R e")
    case (Inl x)
    with run' show ?thesis by (intro bad_payload [of x]) (simp_all add: invoke_matched_triggers_def Let_def)
  next
    case (Inr body)
    obtain err res delay s1 where loop: "invoke_triggers R I e body now (event_invocation_indexes ?invs) 0 ts ?invs 0 s
        = ((err, res, delay), s1)" by (metis prod.exhaust)
    have dist: "distinct (map ei_trigger_name ?invs)"
      using names unfolding ensured_names [OF names] by (simp add: names_ok_def)
    have idx: "event_invocation_indexes ?invs (trigger_name (ts ! j)) = 0 + j" if "j < length ts" for j
    proof -
      have "ei_trigger_name (?invs ! j) = trigger_name (ts ! j)"
        using ensured_names [OF names] that by (metis length_map nth_map)
      with event_invocation_indexes_nth [OF dist, of j] that show ?thesis by simp
    qed
    have allok: "list_all attempts_ok ?invs"
      by (rule ensured_ok [OF names ok])
    from loop have "invoke_triggers R I e body now (event_invocation_indexes ?invs) 0 ts ([] @ ?invs) 0 s
        = ((err, res, delay), s1)" by simp
    from invoke_triggers_pass [OF this _ _ allok idx]
    have pass: "event_pass R I e body now 0 ts ?invs s err res s1"
      and delay: "err = None \<longrightarrow> delay = event_retry_backoff \<or> (\<forall>i \<in> set res. is_settled_invocation i)"
      by simp_all blast
    from run' Inr loop have run2: "(case err of
        None \<Rightarrow> finish_event R e now (with_event_invocations res ?d) delay s1
      | Some x \<Rightarrow> if is_not_implemented x then
          finish_event R e now (mark_event_processing (er_lib R) now ''InvokerNotConfigured''
            ''FunctionEvent is waiting for an implemented invoker.'' (with_event_invocations res ?d)) event_retry_backoff s1
        else (Returned no_requeue (Some x), s1)) = (out, s')"
      by (auto simp: invoke_matched_triggers_def split: option.splits)
    show ?thesis
    proof (cases err)
      case None
      with Inr pass run2 delay show ?thesis by (intro passed [of body res s1 delay]) simp_all
    next
      case (Some x)
      show ?thesis
      proof (cases "is_not_implemented x")
        case True
        with Some Inr pass run2 show ?thesis by (intro unimplemented [of body x res s1]) simp_all
      next
        case False
        with Some Inr pass run2 show ?thesis by (intro lookup_failed [of body x res]) simp_all
      qed
    qed
  qed
qed

lemma reconcile_event_cases:
  assumes run: "reconcile_found_event R e s = (out, s')"
  obtains (processed) "event_observed e EventPhaseProcessed" "reconcile_processed_ttl R e s = (out, s')"
    | (failed) "event_observed e EventPhaseFailed" "out = Returned no_requeue None" "s' = s"
    | (invalid_type) m err s1 where "\<not> is_function_event_type (es_event_type (ev_spec e))"
      "io_trace s1 = io_trace s \<or> io_trace s1 = io_trace s @ [EventRecorded EventWarning ''Failed'' m]"
      "update_event_status R e (ev_status (mark_event_failed (er_lib R) (er_clock R (io_world s))
         ''InvalidEventType'' m (start_event e))) s1 = (err, s')"
      "out = Returned no_requeue err"
    | (list_failed) err where "list_triggers (er_client R) (om_namespace (ev_meta e)) (io_world s) = Inl err"
      "out = Returned no_requeue (Some err)" "s' = s"
    | (unrouted) all m err s1 d where "list_triggers (er_client R) (om_namespace (ev_meta e)) (io_world s) = Inr all"
      "routed_triggers all (es_event_type (ev_spec e)) = []"
      "io_trace s1 = io_trace s \<or> io_trace s1 = io_trace s @ [EventRecorded EventNormal ''Processed'' m]"
      "d = mark_event_processed (er_lib R) (er_clock R (io_world s)) ''NoMatchingTriggers'' ''No matching triggers''
         (ev_status_update (\<lambda>st. st\<lparr>est_matched_triggers := [], est_invocations := []\<rparr>) (start_event e))"
      "update_event_status R e (ev_status d) s1 = (err, s')"
      "out = (case err of Some x \<Rightarrow> Returned no_requeue (Some x) | None \<Rightarrow> requeue_after_ttl d)"
      "is_function_event_type (es_event_type (ev_spec e))"
    | (routed) all where "\<not> event_observed e EventPhaseProcessed" "\<not> event_observed e EventPhaseFailed"
      "list_triggers (er_client R) (om_namespace (ev_meta e)) (io_world s) = Inr all"
      "routed_triggers all (es_event_type (ev_spec e)) \<noteq> []"
      "route_event R e (er_clock R (io_world s)) (routed_triggers all (es_event_type (ev_spec e))) s = (out, s')"
      "is_function_event_type (es_event_type (ev_spec e))"
proof -
  let ?ty = "es_event_type (ev_spec e)"
  consider "event_observed e EventPhaseProcessed" | "event_observed e EventPhaseFailed" "\<not> event_observed e EventPhaseProcessed"
    | "\<not> event_observed e EventPhaseProcessed" "\<not> event_observed e EventPhaseFailed" "\<not> is_function_event_type ?ty"
    | "\<not> event_observed e EventPhaseProcessed" "\<not> event_observed e EventPhaseFailed" "is_function_event_type ?ty"
    by blast
  then show ?thesis
  proof cases
    case 1
    with run show ?thesis by (intro processed) (simp_all add: reconcile_found_event_def)
  next
    case 2
    with run show ?thesis by (intro failed) (simp_all add: reconcile_found_event_def)
  next
    case 3
    let ?m = "''FunctionEvent spec.eventType '' @ go_quote ?ty @ '' must start with '' @ go_quote event_type_prefix @ ''.''"
    let ?s = "record_event (er_recorder R) EventWarning ''Failed'' ?m s"
    obtain err s1 where "update_event_status R e (ev_status (mark_event_failed (er_lib R) (er_clock R (io_world s))
         ''InvalidEventType'' ?m (start_event e))) ?s = (err, s1)" by (metis prod.exhaust)
    with run 3 show ?thesis
      by (intro invalid_type [of ?s ?m err]) (auto simp: reconcile_found_event_def Let_def record_event_def)
  next
    case 4
    show ?thesis
    proof (cases "list_triggers (er_client R) (om_namespace (ev_meta e)) (io_world s)")
      case (Inl err)
      with run 4 show ?thesis
        by (intro list_failed [of err]) (auto simp: reconcile_found_event_def matching_triggers_def Let_def)
    next
      case (Inr all)
      show ?thesis
      proof (cases "routed_triggers all ?ty")
        case Nil
        let ?d = "mark_event_processed (er_lib R) (er_clock R (io_world s)) ''NoMatchingTriggers'' ''No matching triggers''
          (ev_status_update (\<lambda>st. st\<lparr>est_matched_triggers := [], est_invocations := []\<rparr>) (start_event e))"
        let ?m = "''FunctionEvent processed: no matching triggers.''"
        let ?s = "record_event (er_recorder R) EventNormal ''Processed'' ?m s"
        obtain err s1 where upd: "update_event_status R e (ev_status ?d) ?s = (err, s1)" by (metis prod.exhaust)
        with run 4 Inr Nil have "s' = s1" "out = (case err of Some x \<Rightarrow> Returned no_requeue (Some x) | None \<Rightarrow> requeue_after_ttl ?d)"
          by (auto simp: reconcile_found_event_def matching_triggers_def Let_def split: option.splits)
        with Inr Nil upd 4(3) show ?thesis
          by (intro unrouted [of all ?s ?m ?d err]) (auto simp: record_event_def)
      next
        case (Cons t ts)
        with run 4 Inr show ?thesis
          by (intro routed [of all]) (simp_all add: reconcile_found_event_def matching_triggers_def Let_def)
      qed
    qed
  qed
qed

end
