(* ===== verification/EventRounds.thy ===== *)
theory EventRounds
  imports EventReconcile
begin

text \<open>
  One \<open>FunctionEvent\<close> reconciliation seen from outside, with a summary of its calls and of the status it
  stores, and repeated reconciliations as a step relation on the stored event.
\<close>

section \<open>One round\<close>

text \<open>What every listing of the namespace gives: the API server keeps names unique.\<close>

definition listing_ok :: "'w event_reconciler \<Rightarrow> string \<Rightarrow> bool" where
  "listing_ok R ns \<longleftrightarrow> (\<forall>w ts. list_triggers (er_client R) ns w = Inr ts \<longrightarrow> names_ok ts)"

text \<open>The statuses a stored event may have: one per matched trigger, in order, within the limits.\<close>

definition event_wf :: "function_event \<Rightarrow> bool" where
  "event_wf e \<longleftrightarrow> list_all attempts_ok (est_invocations (ev_status e)) \<and>
     map ei_trigger_name (est_invocations (ev_status e)) = est_matched_triggers (ev_status e) \<and>
     sorted (est_matched_triggers (ev_status e)) \<and> distinct (est_matched_triggers (ev_status e))"

definition ensured_invocations :: "function_event \<Rightarrow> event_trigger list \<Rightarrow> event_invocation list" where
  "ensured_invocations e ts = map (ensure_event_invocation (est_invocations (ev_status e))) ts"

text \<open>A status written by a round: the event is otherwise unchanged, and its conditions say its phase.\<close>

definition event_written :: "kube_lib \<Rightarrow> function_event \<Rightarrow> function_event \<Rightarrow> bool" where
  "event_written K e g \<longleftrightarrow> ev_meta g = ev_meta e \<and> ev_spec g = ev_spec e \<and>
     est_observed_generation (ev_status g) = om_generation (ev_meta e)"

lemma names_sorted_wf:
  assumes "names_ok ts" "sorted (map trigger_name ts)" "list_all attempts_ok invs"
    "map ei_trigger_name invs = map trigger_name ts" "est_invocations (ev_status d) = invs"
    "est_matched_triggers (ev_status d) = map trigger_name ts"
  shows "event_wf d"
  using assms by (simp add: event_wf_def names_ok_def)

lemma written_only: "writes t = [] \<or> writes t = [StatusUpdate h] \<Longrightarrow> StatusUpdate g \<in> set t \<Longrightarrow> g = h"
  using mem_writes(1) [of g t] by auto

lemma unwritten: "writes t = [] \<Longrightarrow> StatusUpdate g \<notin> set t"
  using mem_writes(1) [of g t] by auto

lemma requeue_after_ttl_returns: "\<exists>r. requeue_after_ttl e = Returned r None"
  by (auto simp: requeue_after_ttl_def split: option.splits)

lemma reconcile_processed_ttl_effects:
  assumes "reconcile_processed_ttl R e s = (out, s')"
  obtains t where "io_trace s' = io_trace s @ t" "t = [] \<or> t = [ObjectDelete e]"
  using assms that [of "[]"] that [of "[ObjectDelete e]"]
  by (auto simp: reconcile_processed_ttl_def perform_def Let_def split: option.splits if_splits prod.splits delete_result.splits)

text \<open>The phase of an event that ends without a pass over triggers: for its type, for want of triggers, for its payload.\<close>

definition phase_without_pass :: "'w event_reconciler \<Rightarrow> function_event \<Rightarrow> 'w \<Rightarrow> event_phase \<Rightarrow> bool" where
  "phase_without_pass R e w phase \<longleftrightarrow>
     (if \<not> is_function_event_type (es_event_type (ev_spec e)) then phase = EventPhaseFailed
      else \<exists>all. list_triggers (er_client R) (om_namespace (ev_meta e)) w = Inr all \<and>
        (if routed_triggers all (es_event_type (ev_spec e)) = [] then phase = EventPhaseProcessed
         else phase = EventPhaseFailed \<and> (\<exists>x. event_invocation_body R e = Inl x)))"

text \<open>
  The ways a round can go: nothing is written; the event ends without an invocation; a function cannot
  be read, and nothing is written either; the pass is over and its statuses are summarised.
\<close>

lemma event_round_cases:
  assumes run: "reconcile_found_event R e s = (out, s')" and I: "er_invoker R = Some I"
    and listing: "listing_ok R (om_namespace (ev_meta e))" and wf: "event_wf e"
  obtains (idle) t where "io_trace s' = io_trace s @ t" "calls t = []" "stored_event t e = e" "\<And>g. StatusUpdate g \<notin> set t"
      "event_observed e EventPhaseProcessed \<or> event_observed e EventPhaseFailed \<or> (\<exists>err. out = Returned no_requeue (Some err))"
    | (ended) t d where "io_trace s' = io_trace s @ t" "calls t = []"
      "stored_event t e = e\<lparr>ev_status := ev_status d\<rparr>" "\<And>g. StatusUpdate g \<in> set t \<Longrightarrow> g = e\<lparr>ev_status := ev_status d\<rparr>"
      "event_wf d" "event_written (er_lib R) e d" "event_is_terminal d" "kube_lib_ok (er_lib R) \<Longrightarrow> event_agrees d"
      "est_phase (ev_status d) = EventPhaseProcessed \<Longrightarrow> est_invocations (ev_status d) = [] \<and>
         ((\<exists>err. out = Returned no_requeue (Some err)) \<or> out = requeue_after_ttl d)"
      "phase_without_pass R e (io_world s) (est_phase (ev_status d))"
    | (lookup_failed) t all body ps invs' err where "io_trace s' = io_trace s @ t" "calls t = map snd ps"
      "\<And>g. StatusUpdate g \<notin> set t" "out = Returned no_requeue (Some err)"
      "list_triggers (er_client R) (om_namespace (ev_meta e)) (io_world s) = Inr all"
      "event_invocation_body R e = Inr body"
      "pass_calls_ok R e body 0 (routed_triggers all (es_event_type (ev_spec e)))
         (ensured_invocations e (routed_triggers all (es_event_type (ev_spec e)))) invs' ps"
      "event_pass R I e body (er_clock R (io_world s)) 0 (routed_triggers all (es_event_type (ev_spec e)))
         (ensured_invocations e (routed_triggers all (es_event_type (ev_spec e)))) s (Some err) invs' s'"
    | (passed) t all body ps invs' err d s1 where "io_trace s' = io_trace s @ t" "calls t = map snd ps"
      "stored_event t e = e\<lparr>ev_status := ev_status (finished_event (er_lib R) (er_clock R (io_world s)) d)\<rparr>"
      "\<And>g. StatusUpdate g \<in> set t \<Longrightarrow> g = e\<lparr>ev_status := ev_status (finished_event (er_lib R) (er_clock R (io_world s)) d)\<rparr>"
      "list_triggers (er_client R) (om_namespace (ev_meta e)) (io_world s) = Inr all"
      "event_invocation_body R e = Inr body"
      "pass_calls_ok R e body 0 (routed_triggers all (es_event_type (ev_spec e)))
         (ensured_invocations e (routed_triggers all (es_event_type (ev_spec e)))) invs' ps"
      "event_pass R I e body (er_clock R (io_world s)) 0 (routed_triggers all (es_event_type (ev_spec e)))
         (ensured_invocations e (routed_triggers all (es_event_type (ev_spec e)))) s err invs' s1"
      "event_wf d" "event_written (er_lib R) e d" "est_invocations (ev_status d) = invs'"
      "err = None \<and> est_phase (ev_status d) = est_phase (ev_status e) \<or>
       err \<noteq> None \<and> est_phase (ev_status d) = EventPhaseProcessing"
      "est_phase (ev_status e) \<in> {EventPhaseUnset, EventPhasePending, EventPhaseProcessing} \<or>
         est_observed_generation (ev_status e) \<noteq> om_generation (ev_meta e)"
      "kube_lib_ok (er_lib R) \<Longrightarrow> event_is_terminal e \<longrightarrow> event_agrees e \<Longrightarrow>
         event_agrees (finished_event (er_lib R) (er_clock R (io_world s)) d)"
      "(\<exists>err. out = Returned no_requeue (Some err)) \<or>
         (let g = finished_event (er_lib R) (er_clock R (io_world s)) d in
          if est_phase (ev_status g) = EventPhaseProcessed then out = requeue_after_ttl g
          else (\<exists>i \<in> set invs'. \<not> is_settled_invocation i) \<longrightarrow> out = Returned (requeue_in event_retry_backoff) None)"
      "is_function_event_type (es_event_type (ev_spec e))" "routed_triggers all (es_event_type (ev_spec e)) \<noteq> []"
  using run
proof (cases rule: reconcile_event_cases)
  case processed
  from processed(2) obtain t where "io_trace s' = io_trace s @ t" "t = [] \<or> t = [ObjectDelete e]"
    by (rule reconcile_processed_ttl_effects)
  with processed(1) show ?thesis by (intro idle [of t]) (auto simp: stored_event_def)
next
  case failed
  then show ?thesis by (intro idle [of "[]"]) (simp_all add: stored_event_def)
next
  case (list_failed err)
  then show ?thesis by (intro idle [of "[]"]) (simp_all add: stored_event_def)
next
  case (invalid_type m err s1)
  let ?d = "mark_event_failed (er_lib R) (er_clock R (io_world s)) ''InvalidEventType'' m (start_event e)"
  from invalid_type(2) obtain u where u: "io_trace s1 = io_trace s @ u" "quiet u"
    by (auto simp: quiet_def)
  from invalid_type(3) obtain t where t: "io_trace s' = io_trace s1 @ t" "calls t = []"
    "stored_event t e = e\<lparr>ev_status := ev_status ?d\<rparr>" "writes t = [] \<or> writes t = [StatusUpdate (e\<lparr>ev_status := ev_status ?d\<rparr>)]"
    by (rule update_event_status_effects)
  show ?thesis
    using u t wf invalid_type(1) by (intro ended [of "u @ t" ?d])
      (auto simp: phase_without_pass_def quiet_def stored_event_writes quiet_mem event_wf_def event_written_def
        event_is_terminal_def status_simps start_event_def mark_event_agrees dest: written_only [OF t(4)])
next
  case (unrouted all m err s1 d)
  from unrouted(3) obtain u where u: "io_trace s1 = io_trace s @ u" "quiet u" by (auto simp: quiet_def)
  from unrouted(5) obtain t where t: "io_trace s' = io_trace s1 @ t" "calls t = []"
    "stored_event t e = e\<lparr>ev_status := ev_status d\<rparr>" "writes t = [] \<or> writes t = [StatusUpdate (e\<lparr>ev_status := ev_status d\<rparr>)]"
    by (rule update_event_status_effects)
  show ?thesis
    using u t wf unrouted(1,2,4,6,7) by (intro ended [of "u @ t" d])
      (auto simp: phase_without_pass_def quiet_def stored_event_writes quiet_mem event_wf_def event_written_def
        event_is_terminal_def status_simps start_event_def mark_event_agrees dest: written_only [OF t(4)]
        split: option.splits)
next
  case (routed all)
  let ?ts = "routed_triggers all (es_event_type (ev_spec e))"
  let ?now = "er_clock R (io_world s)"
  have names: "names_ok ?ts" using listing routed(3) by (auto simp: listing_ok_def intro: routed_triggers_names)
  have limits: "list_all attempts_ok (est_invocations (ev_status e))" using wf by (simp add: event_wf_def)
  note ens = ensured_ok [OF names limits] and named = ensured_names [OF names]
  have stale: "est_phase (ev_status e) \<in> {EventPhaseUnset, EventPhasePending, EventPhaseProcessing} \<or>
      est_observed_generation (ev_status e) \<noteq> om_generation (ev_meta e)"
    using routed(1,2) by (cases "est_phase (ev_status e)") (auto simp: event_observed_def)
  have backoff: "0 < event_retry_backoff" by (simp add: event_retry_backoff_def second_def)
  have pass_wf: "event_wf d"
    if "event_pass R I e body ?now 0 ?ts (ensured_invocations e ?ts) s err invs' s1"
      "est_invocations (ev_status d) = invs'" "est_matched_triggers (ev_status d) = map trigger_name ?ts" for body err invs' s1 d
    using event_pass_facts [OF that(1)] ens named that(2,3) routed_triggers_sorted
    by (intro names_sorted_wf [OF names]) (simp_all add: ensured_invocations_def)
  from routed(5) I names limits show ?thesis
  proof (cases rule: route_event_cases)
    case (bad_payload x m)
    let ?d = "mark_event_failed (er_lib R) ?now ''InvalidPayload'' m (routed_desired e ?ts)"
    have fin: "finished_event (er_lib R) ?now ?d = ?d" by (simp add: finished_event_def status_simps)
    from bad_payload(2) obtain t where t0: "io_trace s' = io_trace s @ t" "calls t = []"
      "stored_event t e = e\<lparr>ev_status := ev_status (finished_event (er_lib R) ?now ?d)\<rparr>"
      "writes t = [] \<or> writes t = [StatusUpdate (e\<lparr>ev_status := ev_status (finished_event (er_lib R) ?now ?d)\<rparr>)]"
      by (rule finish_event_effects)
    note t = t0 [unfolded fin]
    have "event_wf ?d"
      using names routed_triggers_sorted ens named by (intro names_sorted_wf [OF names]) (simp_all add: status_simps)
    with t bad_payload(1) routed(3,4,6) show ?thesis
      by (intro ended [of t ?d]) (auto simp: phase_without_pass_def event_written_def
        event_is_terminal_def status_simps mark_event_agrees dest: written_only [OF t(4)])
  next
    case (lookup_failed body err invs')
    then have pass: "event_pass R I e body ?now 0 ?ts (ensured_invocations e ?ts) s (Some err) invs' s'"
      by (simp add: ensured_invocations_def)
    from event_pass_facts [OF pass] ens obtain t ps where t: "io_trace s' = io_trace s @ t" "writes t = []"
      "calls t = map snd ps" "pass_calls_ok R e body 0 ?ts (ensured_invocations e ?ts) invs' ps"
      by (auto simp: ensured_invocations_def)
    show ?thesis
      by (rule that(3) [OF t(1,3) _ lookup_failed(3) routed(3) lookup_failed(1) t(4) pass])
        (rule unwritten [OF t(2)])
  next
    case (unimplemented body err invs' s1 m)
    let ?d = "mark_event_processing (er_lib R) ?now ''InvokerNotConfigured'' m (with_event_invocations invs' (routed_desired e ?ts))"
    from unimplemented(2) have pass: "event_pass R I e body ?now 0 ?ts (ensured_invocations e ?ts) s (Some err) invs' s1"
      by (simp add: ensured_invocations_def)
    from event_pass_facts [OF pass] ens obtain t ps where t: "io_trace s1 = io_trace s @ t" "writes t = []"
      "calls t = map snd ps" "pass_calls_ok R e body 0 ?ts (ensured_invocations e ?ts) invs' ps"
      by (auto simp: ensured_invocations_def)
    from unimplemented(4) obtain u where u: "io_trace s' = io_trace s1 @ u" "calls u = []"
      "stored_event u e = e\<lparr>ev_status := ev_status (finished_event (er_lib R) ?now ?d)\<rparr>"
      "writes u = [] \<or> writes u = [StatusUpdate (e\<lparr>ev_status := ev_status (finished_event (er_lib R) ?now ?d)\<rparr>)]"
      "(\<exists>err. out = Returned no_requeue (Some err)) \<or>
       out = (if est_phase (ev_status (finished_event (er_lib R) ?now ?d)) = EventPhaseProcessed
             then requeue_after_ttl (finished_event (er_lib R) ?now ?d)
             else if 0 < event_retry_backoff then Returned (requeue_in event_retry_backoff) None else Returned no_requeue None)"
      by (rule finish_event_effects)
    have d: "est_invocations (ev_status ?d) = invs'" "est_matched_triggers (ev_status ?d) = map trigger_name ?ts"
      "event_written (er_lib R) e ?d" "est_phase (ev_status ?d) = EventPhaseProcessing"
      by (simp_all add: with_event_invocations_def event_written_def status_simps)
    have w: "StatusUpdate g \<in> set (t @ u) \<Longrightarrow>
        g = e\<lparr>ev_status := ev_status (finished_event (er_lib R) ?now ?d)\<rparr>" for g
      using unwritten [OF t(2)] written_only [OF u(4)] by auto
    have tr: "io_trace s' = io_trace s @ t @ u" "calls (t @ u) = map snd ps"
      and st: "stored_event (t @ u) e = e\<lparr>ev_status := ev_status (finished_event (er_lib R) ?now ?d)\<rparr>"
      using t u(1-3) by (simp_all add: stored_event_writes)
    have res: "(\<exists>err. out = Returned no_requeue (Some err)) \<or>
        (let g = finished_event (er_lib R) ?now ?d in
          if est_phase (ev_status g) = EventPhaseProcessed then out = requeue_after_ttl g
          else (\<exists>i \<in> set invs'. \<not> is_settled_invocation i) \<longrightarrow> out = Returned (requeue_in event_retry_backoff) None)"
      using u(5) backoff by (simp only: Let_def if_True split: if_splits) blast+
    show ?thesis
      by (rule that(4) [OF tr st w routed(3) unimplemented(1) t(4) pass pass_wf [OF pass d(1,2)] d(3,1) _ stale _ res routed(6,4)])
        (simp_all add: d(4) finished_event_def summarize_event_agrees)
  next
    case (passed body invs' s1 delay)
    let ?d = "with_event_invocations invs' (routed_desired e ?ts)"
    from passed(2) have pass: "event_pass R I e body ?now 0 ?ts (ensured_invocations e ?ts) s None invs' s1"
      by (simp add: ensured_invocations_def)
    from event_pass_facts [OF pass] ens obtain t ps where t: "io_trace s1 = io_trace s @ t" "writes t = []"
      "calls t = map snd ps" "pass_calls_ok R e body 0 ?ts (ensured_invocations e ?ts) invs' ps"
      by (auto simp: ensured_invocations_def)
    from passed(3) obtain u where u: "io_trace s' = io_trace s1 @ u" "calls u = []"
      "stored_event u e = e\<lparr>ev_status := ev_status (finished_event (er_lib R) ?now ?d)\<rparr>"
      "writes u = [] \<or> writes u = [StatusUpdate (e\<lparr>ev_status := ev_status (finished_event (er_lib R) ?now ?d)\<rparr>)]"
      "(\<exists>err. out = Returned no_requeue (Some err)) \<or>
       out = (if est_phase (ev_status (finished_event (er_lib R) ?now ?d)) = EventPhaseProcessed
             then requeue_after_ttl (finished_event (er_lib R) ?now ?d)
             else if 0 < delay then Returned (requeue_in delay) None else Returned no_requeue None)"
      by (rule finish_event_effects)
    have d: "est_invocations (ev_status ?d) = invs'" "est_matched_triggers (ev_status ?d) = map trigger_name ?ts"
      "event_written (er_lib R) e ?d" "est_phase (ev_status ?d) = est_phase (ev_status e)"
      by (simp_all add: with_event_invocations_def event_written_def status_simps)
    have w: "StatusUpdate g \<in> set (t @ u) \<Longrightarrow>
        g = e\<lparr>ev_status := ev_status (finished_event (er_lib R) ?now ?d)\<rparr>" for g
      using unwritten [OF t(2)] written_only [OF u(4)] by auto
    have tr: "io_trace s' = io_trace s @ t @ u" "calls (t @ u) = map snd ps"
      and st: "stored_event (t @ u) e = e\<lparr>ev_status := ev_status (finished_event (er_lib R) ?now ?d)\<rparr>"
      using t u(1-3) by (simp_all add: stored_event_writes)
    have "est_conditions (ev_status ?d) = est_conditions (ev_status e)"
      by (simp add: with_event_invocations_def routed_desired_def start_event_def ensure_event_invocations_def)
    then have agrees: "event_agrees ?d = event_agrees e"
      by (simp add: event_agrees_def event_condition_status_def d(4))
    have kept: "event_agrees (finished_event (er_lib R) ?now ?d)"
      if "kube_lib_ok (er_lib R)" "event_is_terminal e \<longrightarrow> event_agrees e"
      using that by (cases "est_phase (ev_status e)")
        (simp_all add: finished_event_def summarize_event_agrees d(4) event_is_terminal_def agrees)
    have res: "(\<exists>err. out = Returned no_requeue (Some err)) \<or>
        (let g = finished_event (er_lib R) ?now ?d in
          if est_phase (ev_status g) = EventPhaseProcessed then out = requeue_after_ttl g
          else (\<exists>i \<in> set invs'. \<not> is_settled_invocation i) \<longrightarrow> out = Returned (requeue_in event_retry_backoff) None)"
    proof (cases "delay = event_retry_backoff")
      case True
      with u(5) backoff show ?thesis by (simp only: Let_def if_True split: if_splits) blast+
    next
      case False
      with passed(4) have "\<forall>i \<in> set invs'. is_settled_invocation i" by blast
      with u(5) show ?thesis by (simp only: Let_def split: if_splits) blast+
    qed
    show ?thesis
      by (rule that(4) [OF tr st w routed(3) passed(1) t(4) pass pass_wf [OF pass d(1,2)] d(3,1) _ stale _ res routed(6,4)])
        (simp_all add: d(4) kept)
  qed
qed

section \<open>Repeated rounds\<close>

text \<open>
  Rounds that end without an error, each reading back the status the one before stored; the world in
  between is arbitrary. The last argument is the trace of each round.
\<close>

inductive event_rounds ::
    "'w event_reconciler \<Rightarrow> function_event \<Rightarrow> function_event \<Rightarrow> event_effect list list \<Rightarrow> bool"
  for R e0 where
  rounds_start: "event_rounds R e0 e0 []"
| rounds_next: "event_rounds R e0 e us \<Longrightarrow> reconcile_found_event R e s = (Returned r None, s') \<Longrightarrow>
    io_trace s' = io_trace s @ t \<Longrightarrow> event_rounds R e0 (stored_event t e) (us @ [t])"

text \<open>The triggers of the namespace do not change.\<close>

definition fixed_listing :: "'w event_reconciler \<Rightarrow> string \<Rightarrow> event_trigger list \<Rightarrow> bool" where
  "fixed_listing R ns all \<longleftrightarrow> (\<forall>w. list_triggers (er_client R) ns w = Inr all) \<and> names_ok all"

lemma fixed_listing_ok: "fixed_listing R ns all \<Longrightarrow> listing_ok R ns"
  by (auto simp: fixed_listing_def listing_ok_def)

text \<open>The calls of a trigger that returned without an error.\<close>

definition trigger_successes :: "nat \<Rightarrow> event_effect list \<Rightarrow> nat" where
  "trigger_successes j t = length (filter (\<lambda>(rq, rsp, err). rq_index rq = of_nat j \<and> err = None) (calls t))"

lemma trigger_successes_append [simp]: "trigger_successes j (t @ u) = trigger_successes j t + trigger_successes j u"
  by (simp add: trigger_successes_def)

lemma trigger_successes_none: "calls t = [] \<Longrightarrow> trigger_successes j t = 0" "trigger_successes j [] = 0"
  by (simp_all add: trigger_successes_def)

lemma pass_successes:
  assumes ok: "pass_calls_ok R e body 0 ts invs invs' ps" and calls: "calls t = map snd ps"
    and bound: "length ts < 2 ^ 31" and j: "j < length ts"
  shows "trigger_successes j t \<le> 1"
    "0 < trigger_successes j t \<Longrightarrow> \<not> is_settled_invocation (invs ! j) \<and> ei_phase (invs' ! j) = EventInvocationSucceeded"
proof -
  let ?P = "\<lambda>(rq, rsp, err). rq_index rq = (of_nat j :: int32) \<and> err = None"
  have at: "fst x = j" if "x \<in> set ps" "?P (snd x)" for x
  proof -
    obtain k rq rsp err where x: "x = (k, rq, rsp, err)" by (cases x)
    with ok that have "k < length ts" "rq_index rq = of_nat k" unfolding pass_calls_ok_def by fastforce+
    with that(2) x bound j of_nat32_inject [of k j] show ?thesis by simp
  qed
  have sorted: "sorted_wrt (<) (map fst ps)" using ok by (simp add: pass_calls_ok_def)
  have "trigger_successes j t = length (filter (?P \<circ> snd) ps)"
    by (simp add: trigger_successes_def calls filter_map)
  also have "\<dots> \<le> length (filter (\<lambda>x. fst x = j) ps)"
    using at by (induction ps) (auto split: prod.splits)
  also have "\<dots> \<le> 1"
    using sorted
  proof (induction ps)
    case (Cons x ps)
    then have "filter (\<lambda>y. fst y = j) ps = []" if "fst x = j" using that by (auto simp: filter_empty_conv)
    with Cons show ?case by auto
  qed simp
  finally show "trigger_successes j t \<le> 1" .
  assume "0 < trigger_successes j t"
  then obtain rq rsp where "(rq, rsp, None) \<in> set (calls t)" "rq_index rq = of_nat j"
    by (auto simp: trigger_successes_def filter_empty_conv)
  with calls obtain x where x: "x \<in> set ps" "snd x = (rq, rsp, None)" by auto
  with at \<open>rq_index rq = of_nat j\<close> have "x = (j, rq, rsp, None)" by (cases x) force
  with ok x(1) show "\<not> is_settled_invocation (invs ! j) \<and> ei_phase (invs' ! j) = EventInvocationSucceeded"
    by (fastforce simp: pass_calls_ok_def)
qed

text \<open>Statuses that carry the names of the triggers are found again.\<close>

lemma ensured_again:
  assumes names: "names_ok ts" and invs: "map ei_trigger_name (est_invocations (ev_status e)) = map trigger_name ts"
    and j: "j < length ts"
  shows "ei_attempts (ensured_invocations e ts ! j) = ei_attempts (est_invocations (ev_status e) ! j)"
    "ei_phase (ensured_invocations e ts ! j) =
       (if ei_phase (est_invocations (ev_status e) ! j) = EventInvocationUnset then EventInvocationPending
        else ei_phase (est_invocations (ev_status e) ! j))"
proof -
  let ?invs = "est_invocations (ev_status e)"
  have len: "length ?invs = length ts" using invs by (metis length_map)
  have name: "ei_trigger_name (?invs ! j) = trigger_name (ts ! j)"
    using invs j len by (metis nth_map)
  have dist: "distinct (map ei_trigger_name ?invs)" using names unfolding invs by (simp add: names_ok_def)
  have old: "existing_event_invocation ?invs (trigger_name (ts ! j)) = ?invs ! j"
    using existing_event_invocation_nth [OF dist, of j] j len name by simp
  have "trigger_name (ts ! j) \<in> set (map trigger_name ts)" using j by simp
  with names have "trigger_name (ts ! j) \<noteq> []" unfolding names_ok_def by metis
  with old name j show "ei_attempts (ensured_invocations e ts ! j) = ei_attempts (?invs ! j)"
    "ei_phase (ensured_invocations e ts ! j) =
       (if ei_phase (?invs ! j) = EventInvocationUnset then EventInvocationPending else ei_phase (?invs ! j))"
    by (auto simp: ensured_invocations_def ensure_event_invocation_def Let_def)
qed

definition event_done :: "function_event \<Rightarrow> bool" where
  "event_done e \<longleftrightarrow> event_observed e EventPhaseProcessed \<or> event_observed e EventPhaseFailed"

lemma stored_done: "event_written K e d \<Longrightarrow> event_done (e\<lparr>ev_status := ev_status d\<rparr>) \<longleftrightarrow> event_is_terminal d"
  by (auto simp: event_done_def event_observed_def event_is_terminal_def event_written_def)

text \<open>
  One round without an error: it was already done and nothing changes; it ends without a call; or the
  pass succeeds and every trigger's status is what the pass left.
\<close>

lemma event_round_steps:
  assumes run: "reconcile_found_event R e s = (Returned r None, s')" and I: "er_invoker R = Some I"
    and listing: "fixed_listing R (om_namespace (ev_meta e)) all" and wf: "event_wf e"
    and trace: "io_trace s' = io_trace s @ t"
    and ts: "ts = routed_triggers all (es_event_type (ev_spec e))"
  obtains (still) "calls t = []" "stored_event t e = e" "event_done e"
  | (over) "calls t = []" "event_wf (stored_event t e)" "event_done (stored_event t e)"
      "ev_meta (stored_event t e) = ev_meta e" "ev_spec (stored_event t e) = ev_spec e"
  | (pass) body ps invs' err s1 where "event_wf (stored_event t e)"
      "ev_meta (stored_event t e) = ev_meta e" "ev_spec (stored_event t e) = ev_spec e"
      "calls t = map snd ps" "pass_calls_ok R e body 0 ts (ensured_invocations e ts) invs' ps"
      "event_pass R I e body (er_clock R (io_world s)) 0 ts (ensured_invocations e ts) s err invs' s1"
      "est_invocations (ev_status (stored_event t e)) = invs'"
      "map ei_trigger_name invs' = map trigger_name ts"
      "event_done (stored_event t e) \<or> (\<exists>i \<in> set invs'. \<not> is_settled_invocation i)"
proof -
  have names: "names_ok ts" using listing ts by (auto simp: fixed_listing_def intro: routed_triggers_names)
  from wf have limits: "list_all attempts_ok (est_invocations (ev_status e))" by (simp add: event_wf_def)
  have all: "list_triggers (er_client R) (om_namespace (ev_meta e)) w = Inr all" for w
    using listing by (simp add: fixed_listing_def)
  from run I fixed_listing_ok [OF listing] wf show ?thesis
  proof (cases rule: event_round_cases)
    case (idle u)
    with trace have "u = t" by simp
    with idle show ?thesis by (intro still) (auto simp: event_done_def)
  next
    case (ended u d)
    with trace have "u = t" by simp
    with ended stored_done [OF ended(6)] show ?thesis
      by (intro over) (simp_all add: event_wf_def event_written_def)
  next
    case (lookup_failed u all' body ps invs' err)
    then show ?thesis by simp
  next
    case (passed u all' body ps invs' err d s1)
    let ?g = "finished_event (er_lib R) (er_clock R (io_world s)) d"
    from passed trace have u: "u = t" by simp
    from passed(5) all have all': "all' = all" by simp
    note pass = passed(8) [unfolded all' ts [symmetric]]
    from event_pass_facts [OF pass] ensured_ok [OF names limits] ensured_names [OF names]
    have named: "map ei_trigger_name invs' = map trigger_name ts" and oks: "list_all attempts_ok invs'"
      by (simp_all add: ensured_invocations_def)
    have wr: "event_written (er_lib R) e ?g" using passed(10) by (simp add: event_written_def)
    have ends: "event_is_terminal ?g \<or> (\<exists>i \<in> set invs'. \<not> is_settled_invocation i)"
    proof (cases "est_phase (ev_status d) \<in> {EventPhaseUnset, EventPhasePending, EventPhaseProcessing}")
      case True
      then have "est_phase (ev_status ?g) = est_phase (ev_status (summarize_event (er_lib R) (er_clock R (io_world s)) d))"
        by (simp add: finished_event_def)
      moreover have "some_failed invs' \<or> all_succeeded invs'" if "\<forall>i \<in> set invs'. is_settled_invocation i"
        using that oks settled_iff by (auto simp: some_failed_def all_succeeded_def list_all_iff)
      ultimately show ?thesis by (auto simp: event_is_terminal_def summarize_event_phase passed(11))
    next
      case False
      then show ?thesis by (cases "est_phase (ev_status d)") (auto simp: finished_event_def event_is_terminal_def)
    qed
    show ?thesis
      by (rule that(3) [OF _ _ _ _ passed(7) [unfolded all' ts [symmetric]] pass])
        (use passed u wr ends stored_done [OF wr] named in \<open>auto simp: event_wf_def\<close>)
  qed
qed

lemma done_round:
  assumes "reconcile_found_event R e s = (Returned r None, s')" "io_trace s' = io_trace s @ t" "event_done e"
  shows "calls t = []" "stored_event t e = e"
proof -
  from assms obtain u where u: "io_trace s' = io_trace s @ u" "u = [] \<or> u = [ObjectDelete e]"
    by (auto simp: reconcile_found_event_def event_done_def split: if_splits elim!: reconcile_processed_ttl_effects)
  with assms(2) show "calls t = []" "stored_event t e = e" by (auto simp: stored_event_def)
qed

section \<open>Invariants of the rounds\<close>

text \<open>The event keeps its identity and the form of its statuses.\<close>

lemma event_rounds_wf:
  assumes "event_rounds R e0 e us" "er_invoker R = Some I" "fixed_listing R (om_namespace (ev_meta e0)) all" "event_wf e0"
  shows "event_wf e \<and> ev_meta e = ev_meta e0 \<and> ev_spec e = ev_spec e0"
  using assms
proof (induction rule: event_rounds.induct)
  case (rounds_next e us s r s' t)
  then have e: "event_wf e" "ev_meta e = ev_meta e0" "ev_spec e = ev_spec e0"
    and listing: "fixed_listing R (om_namespace (ev_meta e)) all" by simp_all
  from rounds_next.hyps(2) rounds_next.prems(1) listing e(1) rounds_next.hyps(3) refl show ?case
    by (cases rule: event_round_steps) (simp_all add: e)
qed simp

definition succeeded_at :: "function_event \<Rightarrow> event_trigger list \<Rightarrow> nat \<Rightarrow> bool" where
  "succeeded_at e ts j \<longleftrightarrow> ei_phase (ensured_invocations e ts ! j) = EventInvocationSucceeded"

text \<open>A success is remembered in the status of its trigger until the event is done.\<close>

lemma event_rounds_successes:
  assumes "event_rounds R e0 e us" "er_invoker R = Some I" "fixed_listing R (om_namespace (ev_meta e0)) all" "event_wf e0"
    and ts: "ts = routed_triggers all (es_event_type (ev_spec e0))" and bound: "length ts < 2 ^ 31" and j: "j < length ts"
  shows "trigger_successes j (concat us) \<le> 1 \<and>
    (event_done e \<or> trigger_successes j (concat us) = 0 \<or> succeeded_at e ts j)"
  using assms(1-4)
proof (induction rule: event_rounds.induct)
  case rounds_start
  then show ?case by (simp add: trigger_successes_none)
next
  case (rounds_next e us s r s' t)
  from event_rounds_wf [OF rounds_next.hyps(1) rounds_next.prems] have e: "event_wf e" "ev_meta e = ev_meta e0" "ev_spec e = ev_spec e0"
    by simp_all
  have listing: "fixed_listing R (om_namespace (ev_meta e)) all" using e(2) rounds_next.prems(2) by simp
  have names: "names_ok ts" using listing ts by (auto simp: fixed_listing_def intro: routed_triggers_names)
  have oks: "list_all attempts_ok (ensured_invocations e ts)"
    using e(1) by (auto simp: ensured_invocations_def event_wf_def intro!: ensured_ok [OF names])
  have IH: "trigger_successes j (concat us) \<le> 1"
    "event_done e \<or> trigger_successes j (concat us) = 0 \<or> succeeded_at e ts j"
    using rounds_next.IH rounds_next.prems by simp_all
  show ?case
  proof (cases "event_done e")
    case True
    with IH done_round [OF rounds_next.hyps(2,3) True] show ?thesis by (simp add: trigger_successes_none)
  next
    case False
    from rounds_next.hyps(2) rounds_next.prems(1) listing e(1) rounds_next.hyps(3) ts [folded e(3)] show ?thesis
    proof (cases rule: event_round_steps)
      case still
      with False show ?thesis by simp
    next
      case over
      with IH show ?thesis by (simp add: trigger_successes_none)
    next
      case (pass body ps invs' err s1)
      note count = pass_successes [OF pass(5,4) bound j]
      have len: "length (ensured_invocations e ts) = length ts" by (simp add: ensured_invocations_def)
      have kept: "invs' ! j = ensured_invocations e ts ! j" if "is_settled_invocation (ensured_invocations e ts ! j)"
        using event_pass_settled [OF pass(6) oks _ that] j len by simp
      have again: "succeeded_at (stored_event t e) ts j \<longleftrightarrow> ei_phase (invs' ! j) = EventInvocationSucceeded"
        using ensured_again(2) [OF names _ j, of "stored_event t e"] pass(7,8) by (simp add: succeeded_at_def)
      show ?thesis
      proof (cases "succeeded_at e ts j")
        case True
        then have settled: "is_settled_invocation (ensured_invocations e ts ! j)"
          by (simp add: is_settled_invocation_def succeeded_at_def)
        with count(2) have "trigger_successes j t = 0" by (metis neq0_conv)
        with kept [OF settled] again True IH show ?thesis by (simp add: succeeded_at_def)
      next
        case not: False
        with IH False have "trigger_successes j (concat us) = 0" by blast
        with count again show ?thesis by (cases "trigger_successes j t = 0") auto
      qed
    qed
  qed
qed

text \<open>In a steady environment every round without an end is an attempt of each trigger that is not settled.\<close>

definition tried :: "nat \<Rightarrow> function_event \<Rightarrow> event_trigger list \<Rightarrow> bool" where
  "tried n e ts \<longleftrightarrow> (\<forall>j < length ts. is_settled_invocation (ensured_invocations e ts ! j) \<or>
     int n \<le> sint (ei_attempts (ensured_invocations e ts ! j)))"

lemma event_rounds_tried:
  assumes "event_rounds R e0 e us" "er_invoker R = Some I" "fixed_listing R (om_namespace (ev_meta e0)) all" "event_wf e0"
    and ts: "ts = routed_triggers all (es_event_type (ev_spec e0))"
    and steady: "event_steady R I (om_namespace (ev_meta e0)) ts"
  shows "event_done e \<or> tried (length us) e ts \<and> length us < 3"
  using assms(1-4)
proof (induction rule: event_rounds.induct)
  case rounds_start
  have names: "names_ok ts" using rounds_start(2) ts by (auto simp: fixed_listing_def intro: routed_triggers_names)
  have "list_all attempts_ok (ensured_invocations e0 ts)"
    using rounds_start(3) by (auto simp: ensured_invocations_def event_wf_def intro!: ensured_ok [OF names])
  then show ?case by (auto simp: tried_def list_all_length ensured_invocations_def attempts_ok_def)
next
  case (rounds_next e us s r s' t)
  from event_rounds_wf [OF rounds_next.hyps(1) rounds_next.prems] have e: "event_wf e" "ev_meta e = ev_meta e0" "ev_spec e = ev_spec e0"
    by simp_all
  have listing: "fixed_listing R (om_namespace (ev_meta e)) all" using e(2) rounds_next.prems(2) by simp
  have names: "names_ok ts" using listing ts by (auto simp: fixed_listing_def intro: routed_triggers_names)
  have oks: "list_all attempts_ok (ensured_invocations e ts)"
    using e(1) by (auto simp: ensured_invocations_def event_wf_def intro!: ensured_ok [OF names])
  have len: "length (ensured_invocations e ts) = length ts" by (simp add: ensured_invocations_def)
  show ?case
  proof (cases "event_done e")
    case True
    with done_round [OF rounds_next.hyps(2,3) True] show ?thesis by simp
  next
    case False
    with rounds_next.IH rounds_next.prems have before: "tried (length us) e ts" "length us < 3" by simp_all
    from rounds_next.hyps(2) rounds_next.prems(1) listing e(1) rounds_next.hyps(3) ts [folded e(3)] show ?thesis
    proof (cases rule: event_round_steps)
      case (pass body ps invs' err s1)
      from event_pass_progress [OF pass(6) oks len] steady e(2)
      have step: "is_settled_invocation (ensured_invocations e ts ! j) \<or>
          sint (ei_attempts (invs' ! j)) = sint (ei_attempts (ensured_invocations e ts ! j)) + 1" if "j < length ts" for j
        using that by simp
      have oks': "list_all attempts_ok invs'" using pass(1,7) by (simp add: event_wf_def)
      have len': "length invs' = length ts" using pass(8) by (metis length_map)
      have now: "is_settled_invocation (invs' ! j) \<or> int (Suc (length us)) \<le> sint (ei_attempts (invs' ! j))"
        if "j < length ts" for j
      proof (cases "is_settled_invocation (ensured_invocations e ts ! j)")
        case True
        with event_pass_settled [OF pass(6) oks _ True] that len show ?thesis by simp
      next
        case False
        with before(1) step [OF that] that show ?thesis by (fastforce simp: tried_def)
      qed
      have "is_settled_invocation (invs' ! j)" if "2 \<le> length us" "j < length ts" for j
      proof (rule ccontr)
        assume "\<not> is_settled_invocation (invs' ! j)"
        moreover have "attempts_ok (invs' ! j)" using oks' len' that(2) by (simp add: list_all_length)
        ultimately show False using now [OF that(2)] that(1) unsettled_attempts [of "invs' ! j"] by simp
      qed
      then have ends: "event_done (stored_event t e) \<or> length us < 2"
        using pass(9) len' by (force simp: in_set_conv_nth)
      have "tried (Suc (length us)) (stored_event t e) ts"
        unfolding tried_def
      proof (intro allI impI)
        fix j
        assume j: "j < length ts"
        note again = ensured_again [OF names _ j, of "stored_event t e", unfolded pass(7), OF pass(8)]
        from now [OF j] show "is_settled_invocation (ensured_invocations (stored_event t e) ts ! j) \<or>
          int (Suc (length us)) \<le> sint (ei_attempts (ensured_invocations (stored_event t e) ts ! j))"
          by (auto simp: is_settled_invocation_def again)
      qed
      with ends show ?thesis by auto
    qed (use False in simp_all)
  qed
qed

end
