(* ===== verification/GoJsonLemmas.thy ===== *)
theory GoJsonLemmas
  imports GoJson
begin

text \<open>
  Facts about the JSON model: a written string is read back, the parser's fuel is enough, and a rendered
  value is parsed back to itself.
\<close>

section \<open>Escapes\<close>

lemma hex_value_digit: "n < 16 \<Longrightarrow> hex_value (hex_digit n) = Some n"
proof -
  assume n: "n < 16"
  then have "(of_char (hex_digit n) :: nat) = (if n < 10 then 48 + n else 87 + n)"
    by (simp add: hex_digit_def)
  with n show ?thesis by (simp add: hex_value_def Let_def)
qed

lemma hex4_escape:
  assumes "n < 65536"
  shows "hex4 (map (\<lambda>k. hex_digit ((n div 16 ^ k) mod 16)) [3, 2, 1, 0] @ r) = Some (n, r)"
proof -
  have parts: "n div 4096 = n div 256 div 16" "n div 256 = n div 16 div 16"
    by (simp_all flip: div_mult2_eq)
  have sum: "((n div 4096 * 16 + n div 256 mod 16) * 16 + n div 16 mod 16) * 16 + n mod 16 = n"
    unfolding parts by (simp only: div_mult_mod_eq)
  have top: "n div 4096 mod 16 = n div 4096" using assms by simp
  have digit: "hex_value (hex_digit (m mod 16)) = Some (m mod 16)" for m by (rule hex_value_digit) simp
  have "hex4 (map (\<lambda>k. hex_digit ((n div 16 ^ k) mod 16)) [3, 2, 1, 0] @ r) =
      Some (((n div 4096 mod 16 * 16 + n div 256 mod 16) * 16 + n div 16 mod 16) * 16 + n mod 16, r)"
    by (simp only: hex4_def list.map append_Cons append_Nil list.case digit prod.case option.case)
      (simp add: power3_eq_cube power2_eq_square)
  then show ?thesis unfolding top sum .
qed

lemma decode_unit_plain: "\<not> (0xD800 \<le> u \<and> u < 0xE000) \<Longrightarrow> decode_unit u r = (utf8_encode u, r)"
  unfolding decode_unit_def by (simp only: if_False)

lemma parse_string_unicode:
  assumes "n < 0xD800 \<or> 0xE000 \<le> n" "n < 65536"
  shows "parse_string (unicode_escape n @ r) = map_option (apfst (append (utf8_encode n))) (parse_string r)"
proof -
  have "unicode_escape n @ r = backslash # CHR ''u'' # (map (\<lambda>k. hex_digit ((n div 16 ^ k) mod 16)) [3, 2, 1, 0] @ r)"
    by (simp add: unicode_escape_def)
  then show ?thesis
    using hex4_escape [OF assms(2), of r] decode_unit_plain [of n r] assms(1)
    by (subst parse_string.simps) (auto simp: backslash_def dquote_def)
qed

lemma parse_string_simple:
  assumes "simple_escape d = Some e" "d \<noteq> CHR ''u''"
  shows "parse_string (backslash # d # r) = map_option (apfst (Cons e)) (parse_string r)"
  using assms by (subst parse_string.simps) (simp add: backslash_def dquote_def)

lemma parse_string_end: "parse_string (dquote # r) = Some ([], r)"
  by (subst parse_string.simps) simp

section \<open>Characters\<close>

lemma utf8_form_head:
  "f \<in> set utf8_forms \<Longrightarrow> g \<in> set utf8_forms \<Longrightarrow> starts_with_bytes f (c # s) \<Longrightarrow>
     starts_with_bytes g (c # t) \<Longrightarrow> f = g"
proof -
  have apart: "list_all (\<lambda>f. list_all (\<lambda>g. f = g \<or> snd (hd f) < fst (hd g) \<or> snd (hd g) < fst (hd f)) utf8_forms)
      utf8_forms" and cons: "list_all (\<lambda>f. f \<noteq> []) utf8_forms"
    by code_simp+
  have head: "byte_in (fst (hd h)) (snd (hd h)) c" if "h \<in> set utf8_forms" "starts_with_bytes h (c # u)" for h u
  proof -
    from that(1) cons have "h \<noteq> []" by (auto simp only: list_all_iff)
    with that(2) show ?thesis by (cases h) (auto simp: starts_with_bytes_def)
  qed
  assume f: "f \<in> set utf8_forms" and g: "g \<in> set utf8_forms"
  assume "starts_with_bytes f (c # s)" "starts_with_bytes g (c # t)"
  then have c: "byte_in (fst (hd f)) (snd (hd f)) c" "byte_in (fst (hd g)) (snd (hd g)) c"
    by (auto intro: head [OF f] head [OF g])
  from apart f g have "f = g \<or> snd (hd f) < fst (hd g) \<or> snd (hd g) < fst (hd f)"
    by (simp only: list_all_iff)
  with c show "f = g" unfolding byte_in_def by linarith
qed

lemma find_unique: "x \<in> set xs \<Longrightarrow> P x \<Longrightarrow> (\<And>y. y \<in> set xs \<Longrightarrow> P y \<Longrightarrow> y = x) \<Longrightarrow> find P xs = Some x"
  by (induction xs) (simp, metis find.simps(2) list.set_intros set_ConsD)

lemma rune_length_form:
  assumes "f \<in> set utf8_forms" "starts_with_bytes f (c # s)"
  shows "rune_length (c # s) = length f"
proof -
  have "find (\<lambda>f. starts_with_bytes f (c # s)) utf8_forms = Some f"
    using assms utf8_form_head by (intro find_unique) blast+
  then show ?thesis by (simp add: rune_length_def)
qed

lemma starts_with_take: "starts_with_bytes f s \<Longrightarrow> starts_with_bytes f (take (length f) s @ t)"
proof (induction f arbitrary: s)
  case (Cons p f)
  then show ?case by (cases s) (auto simp: starts_with_bytes_def)
qed (simp add: starts_with_bytes_def)

lemma rune_length_take:
  assumes "rune_length (c # s) = k" "0 < k"
  shows "rune_length (take k (c # s) @ t) = k" "k \<le> length (c # s)"
proof -
  from assms obtain f where f: "find (\<lambda>f. starts_with_bytes f (c # s)) utf8_forms = Some f" "length f = k"
    by (auto simp: rune_length_def split: option.splits)
  then have mem: "f \<in> set utf8_forms" "starts_with_bytes f (c # s)" by (auto dest: find_Some_member)
  from starts_with_take [OF mem(2), of t] f(2) assms(2) rune_length_form [OF mem(1)]
  show "rune_length (take k (c # s) @ t) = k" by (cases k) auto
  from mem(2) f(2) show "k \<le> length (c # s)" by (simp add: starts_with_bytes_def)
qed

lemma rune_length_ascii: "(of_char c :: nat) < 128 \<Longrightarrow> rune_length (c # s) = 1"
  using rune_length_form [of "[(0x00, 0x7F)]" c s]
  by (simp add: utf8_forms_def starts_with_bytes_def byte_in_def)

lemma rune_length_wide: "1 < rune_length (c # s) \<Longrightarrow> 128 \<le> (of_char c :: nat)"
  using rune_length_ascii [of c s] by linarith

lemma rune_length_one: "rune_length (c # s) = 1 \<Longrightarrow> (of_char c :: nat) < 128"
  by (auto simp: rune_length_def utf8_forms_def starts_with_bytes_def byte_in_def split: if_splits)

section \<open>Strings are read back\<close>

text \<open>What \<open>json.Marshal\<close> does to bytes that are not UTF-8; other strings are unchanged.\<close>

fun utf8_clean :: "string \<Rightarrow> string" where
  "utf8_clean [] = []"
| "utf8_clean (c # cs) =
     (let k = rune_length (c # cs) in
      if k = 0 then replacement_char @ utf8_clean cs
      else take k (c # cs) @ utf8_clean (drop (k - 1) cs))"

fun utf8_valid :: "string \<Rightarrow> bool" where
  "utf8_valid [] = True"
| "utf8_valid (c # cs) = (let k = rune_length (c # cs) in k \<noteq> 0 \<and> utf8_valid (drop (k - 1) cs))"

lemma utf8_clean_valid: "utf8_valid s \<Longrightarrow> utf8_clean s = s"
  by (induction s rule: utf8_clean.induct) (auto simp: Let_def take_Cons' split: if_splits)

lemma ascii_valid: "\<forall>c \<in> set s. (of_char c :: nat) < 128 \<Longrightarrow> utf8_valid s"
  by (induction s) (simp_all add: rune_length_ascii)

lemma line_separator_cases:
  assumes "line_separator (c # cs) = Some n"
  obtains r where "n = 0x2028" "c # cs = [CHR 0xE2, CHR 0x80, CHR 0xA8] @ r"
  | r where "n = 0x2029" "c # cs = [CHR 0xE2, CHR 0x80, CHR 0xA9] @ r"
proof -
  have split: "c # cs = take 3 (c # cs) @ drop 3 (c # cs)" by (simp only: append_take_drop_id)
  consider "n = 0x2028" "take 3 (c # cs) = [CHR 0xE2, CHR 0x80, CHR 0xA8]"
    | "n = 0x2029" "take 3 (c # cs) = [CHR 0xE2, CHR 0x80, CHR 0xA9]"
    using assms unfolding line_separator_def by (metis option.distinct(1) option.inject)
  then show ?thesis
    by cases (metis split that)+
qed

lemma line_separator_facts:
  assumes "line_separator (c # cs) = Some n"
  shows "rune_length (c # cs) = 3" "take 3 (c # cs) = utf8_encode n" "n = 0x2028 \<or> n = 0x2029"
proof -
  have form: "[(0xE1, 0xEC), (0x80, 0xBF), (0x80, 0xBF)] \<in> set utf8_forms" by (simp add: utf8_forms_def)
  have enc: "utf8_encode 0x2028 = [CHR 0xE2, CHR 0x80, CHR 0xA8]" "utf8_encode 0x2029 = [CHR 0xE2, CHR 0x80, CHR 0xA9]"
    by (simp_all add: utf8_encode_def char_of_def bit_iff_odd)
  have lead: "starts_with_bytes [(0xE1, 0xEC), (0x80, 0xBF), (0x80, 0xBF)] ([CHR 0xE2, CHR 0x80, CHR 0xA8] @ r)"
      "starts_with_bytes [(0xE1, 0xEC), (0x80, 0xBF), (0x80, 0xBF)] ([CHR 0xE2, CHR 0x80, CHR 0xA9] @ r)" for r
    by (simp_all add: starts_with_bytes_def byte_in_def)
  from assms show "rune_length (c # cs) = 3"
    by (rule line_separator_cases)
      (use rune_length_form [OF form] lead in \<open>simp_all add: eval_nat_numeral\<close>)
  from assms show "take 3 (c # cs) = utf8_encode n"
    by (rule line_separator_cases) (simp_all add: enc)
  from assms show "n = 0x2028 \<or> n = 0x2029"
    by (rule line_separator_cases) auto
qed

lemma parse_string_ascii:
  assumes "(of_char c :: nat) < 128"
  shows "parse_string (escape_ascii c @ r) = map_option (apfst (Cons c)) (parse_string r)"
proof (cases "escape_ascii c = [c] \<or> (\<exists>d. escape_ascii c = [backslash, d])")
  case False
  then have c: "escape_ascii c = unicode_escape (of_char c)"
    by (auto simp: escape_ascii_def split: if_splits)
  have "utf8_encode (of_char c) = [c]" using assms by (simp add: utf8_encode_def)
  moreover have "(@) [c] = (#) c" by auto
  ultimately show ?thesis
    using parse_string_unicode [of "of_char c" r] assms by (simp add: c)
next
  case True
  then consider "escape_ascii c = [c]" | d where "escape_ascii c = [backslash, d]" by blast
  then show ?thesis
  proof cases
    case 1
    then have "c \<noteq> dquote" "c \<noteq> backslash" "\<not> (of_char c :: nat) < 0x20"
      by (auto simp: escape_ascii_def unicode_escape_def split: if_splits)
    moreover have "rune_length (c # r) = 1" using assms by (rule rune_length_ascii)
    moreover have "(@) [c] = (#) c" by auto
    ultimately show ?thesis
      unfolding 1 by (subst parse_string.simps) (simp add: Let_def)
  next
    case (2 d)
    then have "simple_escape d = Some c" "d \<noteq> CHR ''u''"
      by (auto simp: escape_ascii_def unicode_escape_def simple_escape_def backslash_def dquote_def split: if_splits)
    then show ?thesis using parse_string_simple 2 by simp
  qed
qed

lemma parse_string_wide:
  assumes "rune_length (c # cs) = k" "1 < k"
  shows "parse_string (take k (c # cs) @ r) = map_option (apfst (append (take k (c # cs)))) (parse_string r)"
proof -
  obtain j where k: "k = Suc j" using assms(2) by (cases k) auto
  have wide: "128 \<le> (of_char c :: nat)" using rune_length_wide [of c cs] assms by simp
  then have c: "c \<noteq> dquote" "c \<noteq> backslash" "\<not> (of_char c :: nat) < 0x20"
    by (auto simp: dquote_def backslash_def)
  have "rune_length (take k (c # cs) @ r) = k" "k \<le> length (c # cs)"
    using rune_length_take [OF assms(1)] assms(2) by simp_all
  then show ?thesis
    using c assms(2) by (subst parse_string.simps) (simp add: k Let_def)
qed

lemma string_cut_read_back: "parse_string (json_escape s @ dquote # r) = Some (utf8_clean s, r)"
proof (induction s rule: json_escape.induct)
  case 1
  then show ?case by (simp add: parse_string_end)
next
  case (2 c cs)
  note IH = 2
  show ?case
  proof (cases "line_separator (c # cs)")
    case (Some n)
    note n = line_separator_facts [OF Some]
    have "parse_string (unicode_escape n @ t) = map_option (apfst (append (utf8_encode n))) (parse_string t)" for t
      using n(3) by (intro parse_string_unicode) auto
    then show ?thesis
      using IH(4) [OF Some] by (simp add: Some n(1) flip: n(2))
  next
    case None
    have drops: "drop (k - 1) cs = drop k (c # cs)" if "k \<noteq> 0" for k using that by (cases k) auto
    consider "rune_length (c # cs) = 0" | "rune_length (c # cs) = 1" | "1 < rune_length (c # cs)" by linarith
    then show ?thesis
    proof cases
      case 1
      then show ?thesis
        using IH(1) [OF None refl 1] by (simp add: None parse_string_unicode replacement_char_def)
    next
      case 2
      then show ?thesis
        using IH(2) [OF None refl] rune_length_one [of c cs] by (simp add: None parse_string_ascii)
    next
      case 3
      then show ?thesis
        using IH(3) [OF None refl] parse_string_wide [OF refl 3] by (simp add: None Let_def)
    qed
  qed
qed

section \<open>The fuel is enough\<close>

lemma skip_ws_le: "length (skip_ws s) \<le> length s"
  by (simp add: skip_ws_def length_dropWhile_le)

lemma expect_shorter: "expect c s = Some r \<Longrightarrow> length r < length s"
  using skip_ws_le [of s] by (auto simp: expect_def split: list.splits if_splits)

lemma parse_string_cases:
  assumes "parse_string s = Some (t, r)"
  obtains (closed) "s = dquote # r" "t = []"
  | (unit) ds u r1 t1 r2 t2 where "s = backslash # CHR ''u'' # ds" "hex4 ds = Some (u, r1)"
      "decode_unit u r1 = (t1, r2)" "parse_string r2 = Some (t2, r)" "t = t1 @ t2"
  | (simple) d ds e t2 where "s = backslash # d # ds" "d \<noteq> CHR ''u''" "simple_escape d = Some e"
      "parse_string ds = Some (t2, r)" "t = e # t2"
  | (broken) c cs t2 where "s = c # cs" "c \<noteq> dquote" "c \<noteq> backslash" "\<not> (of_char c :: nat) < 0x20"
      "rune_length s = 0" "parse_string cs = Some (t2, r)" "t = replacement_char @ t2"
  | (rune) c cs k t2 where "s = c # cs" "c \<noteq> dquote" "c \<noteq> backslash" "\<not> (of_char c :: nat) < 0x20"
      "rune_length s = k" "0 < k" "parse_string (drop k s) = Some (t2, r)" "t = take k s @ t2"
proof (cases s)
  case Nil
  with assms show ?thesis by (simp add: parse_string.simps)
next
  case (Cons c cs)
  consider "c = dquote" | "c \<noteq> dquote" "c = backslash" | "c \<noteq> dquote" "c \<noteq> backslash" by blast
  then show ?thesis
  proof cases
    case 1
    with assms Cons show ?thesis by (intro closed) (auto simp: parse_string_end)
  next
    case 2
    with assms Cons obtain d ds where ds: "cs = d # ds"
      by (subst (asm) parse_string.simps) (auto split: list.splits)
    show ?thesis
    proof (cases "d = CHR ''u''")
      case True
      with assms Cons 2 ds obtain u r1 t1 r2 t2 where
        "hex4 ds = Some (u, r1)" "decode_unit u r1 = (t1, r2)" "parse_string r2 = Some (t2, r)" "t = t1 @ t2"
        by (subst (asm) parse_string.simps) (auto split: option.splits prod.splits)
      with True Cons 2 ds show ?thesis by (intro unit [of ds u r1 t1 r2 t2]) simp_all
    next
      case False
      with assms Cons 2 ds obtain e t2 where
        "simple_escape d = Some e" "parse_string ds = Some (t2, r)" "t = e # t2"
        by (subst (asm) parse_string.simps) (auto split: option.splits)
      with False Cons 2 ds show ?thesis by (intro simple [of d ds e t2]) simp_all
    qed
  next
    case 3
    then have ctl: "\<not> (of_char c :: nat) < 0x20"
      using assms Cons by (subst (asm) parse_string.simps) (auto split: if_splits)
    show ?thesis
    proof (cases "rune_length s = 0")
      case True
      with assms Cons 3 ctl obtain t2 where "parse_string cs = Some (t2, r)" "t = replacement_char @ t2"
        by (subst (asm) parse_string.simps) (auto simp: Let_def)
      with True Cons 3 ctl show ?thesis by (intro broken [of c cs t2])
    next
      case False
      with assms Cons 3 ctl obtain t2 where "parse_string (drop (rune_length s) s) = Some (t2, r)"
        "t = take (rune_length s) s @ t2"
        by (subst (asm) parse_string.simps) (auto simp: Let_def)
      with False Cons 3 ctl show ?thesis by (intro rune [of c cs "rune_length s" t2]) simp_all
    qed
  qed
qed

lemma parse_string_shorter: "parse_string s = Some (t, r) \<Longrightarrow> length r < length s"
proof (induction s arbitrary: t rule: length_induct)
  case (1 s)
  from 1(2) show ?case
  proof (cases rule: parse_string_cases)
    case (unit ds u r1 t1 r2 t2)
    with 1(1) have "length r2 < length s \<Longrightarrow> length r < length r2" by blast
    with unit hex4_shorter [OF unit(2)] decode_unit_shorter [OF unit(3)] show ?thesis by simp
  next
    case (simple d ds e t2)
    with 1(1) have "length r < length ds" by simp
    with simple show ?thesis by simp
  next
    case (broken c cs t2)
    with 1(1) have "length r < length cs" by simp
    with broken show ?thesis by simp
  next
    case (rune c cs k t2)
    then have "length (drop k s) < length s" by simp
    with 1(1) rune(7) have "length r < length (drop k s)" by blast
    then show ?thesis by simp
  qed simp
qed

text \<open>Number literals: the parts, and that another text may follow as long as it starts like the first or with a delimiter.\<close>

definition stops :: "string \<Rightarrow> bool" where
  "stops r \<longleftrightarrow> r = [] \<or> hd r \<in> set '',]}''"

definition follows :: "string \<Rightarrow> string \<Rightarrow> bool" where
  "follows r r' \<longleftrightarrow> stops r' \<or> (r \<noteq> [] \<and> r' \<noteq> [] \<and> hd r' = hd r)"

lemma span_digits_split:
  assumes "span_digits s = Some (d, r)"
  shows "s = d @ r" "d \<noteq> []" "list_all is_digit d" "follows r r' \<Longrightarrow> span_digits (d @ r') = Some (d, r')"
proof -
  from assms obtain c cs where s: "s = c # cs" "is_digit c" "d = c # takeWhile is_digit cs" "r = dropWhile is_digit cs"
    by (auto simp: span_digits_def split: list.splits if_splits)
  then show "s = d @ r" "d \<noteq> []" "list_all is_digit d"
    by (auto simp: list_all_iff dest: set_takeWhileD)
  have stop: "r \<noteq> [] \<Longrightarrow> \<not> is_digit (hd r)" using s(4) hd_dropWhile [of is_digit cs] dropWhile_eq_Nil_conv [of is_digit cs] by metis
  assume "follows r r'"
  then have "r' = [] \<or> \<not> is_digit (hd r')"
    using stop by (auto simp: follows_def stops_def is_digit_def byte_in_def)
  then have "takeWhile is_digit (takeWhile is_digit cs @ r') = takeWhile is_digit cs"
    "dropWhile is_digit (takeWhile is_digit cs @ r') = r'"
    by (cases r'; force simp: takeWhile_append dropWhile_append dest: set_takeWhileD)+
  with s(2,3) show "span_digits (d @ r') = Some (d, r')" by (simp add: span_digits_def)
qed

lemma follows_char: "follows (c # r) r' \<Longrightarrow> r' \<noteq> [] \<Longrightarrow> hd r' = c \<or> hd r' \<in> set '',]}''"
  by (auto simp: follows_def stops_def)

lemma parse_integer_split:
  assumes "parse_integer s = Some (i, r)"
  shows "s = i @ r" "i \<noteq> []" "list_all is_digit i" "follows r r' \<Longrightarrow> parse_integer (i @ r') = Some (i, r')"
proof -
  from assms consider (zero) "s = CHR ''0'' # r" "i = ''0''"
    | (digits) "span_digits s = Some (i, r)" "s \<noteq> []" "hd s \<noteq> CHR ''0''"
    by (auto simp: parse_integer_def split: list.splits if_splits)
  then have "s = i @ r \<and> i \<noteq> [] \<and> list_all is_digit i \<and> (follows r r' \<longrightarrow> parse_integer (i @ r') = Some (i, r'))"
  proof cases
    case zero
    then show ?thesis by (simp add: parse_integer_def is_digit_def byte_in_def)
  next
    case digits
    note d = span_digits_split [OF digits(1)]
    from d(1,2) digits(3) obtain c cs where "i = c # cs" "c \<noteq> CHR ''0''" by (cases i) auto
    with d show ?thesis by (simp add: parse_integer_def)
  qed
  then show "s = i @ r" "i \<noteq> []" "list_all is_digit i" "follows r r' \<Longrightarrow> parse_integer (i @ r') = Some (i, r')"
    by blast+
qed

definition number_char :: "char \<Rightarrow> bool" where
  "number_char c \<longleftrightarrow> is_digit c \<or> c \<in> set ''+-.eE''"

lemma digits_number: "list_all is_digit d \<Longrightarrow> list_all number_char d"
  by (simp add: list_all_iff number_char_def)

lemma parse_fraction_split:
  assumes "parse_fraction s = Some (f, r)"
  shows "s = f @ r" "list_all number_char f" "follows r r' \<Longrightarrow> parse_fraction (f @ r') = Some (f, r')"
proof -
  have "s = f @ r \<and> list_all number_char f \<and> (follows r r' \<longrightarrow> parse_fraction (f @ r') = Some (f, r'))"
  proof (cases "\<exists>cs. s = CHR ''.'' # cs")
    case True
    with assms obtain cs d where "s = CHR ''.'' # cs" "span_digits cs = Some (d, r)" "f = CHR ''.'' # d"
      by (auto simp: parse_fraction_def)
    with span_digits_split [of cs d r] digits_number [of d] show ?thesis by (simp add: parse_fraction_def number_char_def)
  next
    case False
    with assms have fr: "f = []" "r = s" by (auto simp: parse_fraction_def split: list.splits if_splits)
    with False have "parse_fraction r' = Some ([], r')" if "follows r r'"
      using that by (cases r'; cases s) (auto simp: parse_fraction_def follows_def stops_def)
    with fr show ?thesis by simp
  qed
  then show "s = f @ r" "list_all number_char f" "follows r r' \<Longrightarrow> parse_fraction (f @ r') = Some (f, r')" by blast+
qed

lemma parse_exponent_split:
  assumes "parse_exponent s = Some (e, r)"
  shows "s = e @ r" "list_all number_char e" "follows r r' \<Longrightarrow> parse_exponent (e @ r') = Some (e, r')"
proof -
  consider (none) "s = []" | (other) c cs where "s = c # cs" "c \<noteq> CHR ''e''" "c \<noteq> CHR ''E''"
    | (mark) c cs where "s = c # cs" "c = CHR ''e'' \<or> c = CHR ''E''"
    by (cases s) auto
  then have "s = e @ r \<and> list_all number_char e \<and> (follows r r' \<longrightarrow> parse_exponent (e @ r') = Some (e, r'))"
  proof cases
    case none
    with assms show ?thesis by (cases r') (auto simp: parse_exponent_def follows_def stops_def)
  next
    case other
    with assms have "e = []" "r = s" by (simp_all add: parse_exponent_def)
    with other show ?thesis by (cases r') (auto simp: parse_exponent_def follows_def stops_def)
  next
    case (mark c cs)
    show ?thesis
    proof (cases "\<exists>d ds. cs = d # ds \<and> (d = CHR ''+'' \<or> d = CHR ''-'')")
      case True
      with assms mark obtain d ds t where "cs = d # ds" "d = CHR ''+'' \<or> d = CHR ''-''"
        "span_digits ds = Some (t, r)" "e = c # d # t"
        by (auto simp: parse_exponent_def)
      with mark span_digits_split [of ds t r] digits_number [of t] show ?thesis
        by (auto simp: parse_exponent_def number_char_def)
    next
      case False
      with assms mark obtain t where t: "span_digits cs = Some (t, r)" "e = c # t"
        by (auto simp: parse_exponent_def split: list.splits)
      note d = span_digits_split [OF t(1)]
      from d(1,2) obtain x xs where "t = x # xs" by (cases t) auto
      with t d mark False digits_number [of t] show ?thesis by (auto simp: parse_exponent_def number_char_def)
    qed
  qed
  then show "s = e @ r" "list_all number_char e" "follows r r' \<Longrightarrow> parse_exponent (e @ r') = Some (e, r')" by blast+
qed

lemma follows_append: "follows r r' \<Longrightarrow> follows (t @ r) (t @ r')"
  by (cases t) (auto simp: follows_def)

lemma parse_number_split:
  assumes "parse_number s = Some (t, r)"
  shows "s = t @ r" "t \<noteq> []" "list_all number_char t" "stops r' \<Longrightarrow> parse_number (t @ r') = Some (t, r')"
proof -
  define sign where "sign = (if has_prefix s ''-'' then ''-'' else [])"
  have s: "s = sign @ trim_prefix s ''-''"
    by (cases s) (auto simp: sign_def has_prefix_def trim_prefix_def)
  from assms obtain i r1 f r2 e where parts: "parse_integer (trim_prefix s ''-'') = Some (i, r1)"
    "parse_fraction r1 = Some (f, r2)" "parse_exponent r2 = Some (e, r)" "t = sign @ i @ f @ e"
    by (auto simp: parse_number_def sign_def Let_def split: option.splits)
  note i = parse_integer_split [OF parts(1)] and f = parse_fraction_split [OF parts(2)]
    and e = parse_exponent_split [OF parts(3)]
  show "s = t @ r" using s i(1) f(1) e(1) by (simp add: parts(4))
  show "t \<noteq> []" using i(2) by (simp add: parts(4))
  show "list_all number_char t"
    using digits_number [OF i(3)] f(2) e(2) by (simp add: parts(4) sign_def number_char_def)
  assume "stops r'"
  then have fol: "follows r r'" by (simp add: follows_def)
  have again: "parse_exponent (e @ r') = Some (e, r')" "parse_fraction (f @ e @ r') = Some (f, e @ r')"
    "parse_integer (i @ f @ e @ r') = Some (i, f @ e @ r')"
    using e(3) [OF fol] f(3) [of "e @ r'"] i(4) [of "f @ e @ r'"] fol e(1) f(1) by (simp_all add: follows_append)
  obtain c i' where c: "i = c # i'" "is_digit c" using i(2,3) by (cases i) auto
  then have "c \<noteq> CHR ''-''" by (auto simp: is_digit_def byte_in_def)
  then have "has_prefix (t @ r') ''-'' \<longleftrightarrow> sign \<noteq> []" "trim_prefix (t @ r') ''-'' = i @ f @ e @ r'"
    using c by (auto simp: parts(4) sign_def has_prefix_def trim_prefix_def)
  with again show "parse_number (t @ r') = Some (t, r')"
    by (auto simp: parse_number_def Let_def parts(4) sign_def)
qed

lemma parse_key_shorter:
  assumes "parse_key s = Some (k, r)"
  shows "length r < length s"
proof -
  from assms obtain s1 r1 where "expect dquote s = Some s1" "parse_string s1 = Some (k, r1)" "expect (CHR '':'') r1 = Some r"
    by (auto simp: parse_key_def split: option.splits bind_splits)
  then show ?thesis using expect_shorter [of dquote s s1] expect_shorter [of "CHR '':''" r1 r] parse_string_shorter [of s1 k r1]
    by simp
qed

text \<open>
  A result needs at most the fuel of twice the characters it read, one more for the elements of a
  container; any larger fuel gives the same result.
\<close>

definition value_enough :: "nat \<Rightarrow> bool" where
  "value_enough n \<longleftrightarrow> (\<forall>s v r. parse_value n s = Some (v, r) \<longrightarrow> length r < length s \<and>
     (\<forall>m. 2 * length s \<le> m + 2 * length r \<longrightarrow> parse_value m s = Some (v, r)))"

definition elements_enough :: "nat \<Rightarrow> bool" where
  "elements_enough n \<longleftrightarrow> (\<forall>s vs r. parse_elements n s = Some (vs, r) \<longrightarrow> length r < length s \<and>
     (\<forall>m. 2 * length s < m + 2 * length r \<longrightarrow> parse_elements m s = Some (vs, r)))"

definition members_enough :: "nat \<Rightarrow> bool" where
  "members_enough n \<longleftrightarrow> (\<forall>s vs r. parse_members n s = Some (vs, r) \<longrightarrow> length r < length s \<and>
     (\<forall>m. 2 * length s < m + 2 * length r \<longrightarrow> parse_members m s = Some (vs, r)))"

text \<open>The values that need no fuel below them: empty containers, strings, words and numbers.\<close>

definition parse_leaf :: "char \<Rightarrow> string \<Rightarrow> (json \<times> string) option" where
  "parse_leaf c cs =
     (if c = CHR ''{'' then map_option (Pair (JObject [])) (expect (CHR ''}'') cs)
      else if c = CHR ''['' then map_option (Pair (JArray [])) (expect (CHR '']'') cs)
      else if c = dquote then map_option (apfst JString) (parse_string cs)
      else if has_prefix (c # cs) ''true'' then Some (JBool True, drop 4 (c # cs))
      else if has_prefix (c # cs) ''false'' then Some (JBool False, drop 5 (c # cs))
      else if has_prefix (c # cs) ''null'' then Some (JNull, drop 4 (c # cs))
      else map_option (apfst JNumber) (parse_number (c # cs)))"

definition json_words :: "(string \<times> json) list" where
  "json_words = [(''true'', JBool True), (''false'', JBool False), (''null'', JNull)]"

lemma parse_value_cases:
  obtains (blank) "skip_ws s = []"
  | (object) cs where "skip_ws s = CHR ''{'' # cs" "expect (CHR ''}'') cs = None"
    "\<And>n. parse_value (Suc n) s = map_option (apfst JObject) (parse_members n cs)"
  | (array) cs where "skip_ws s = CHR ''['' # cs" "expect (CHR '']'') cs = None"
    "\<And>n. parse_value (Suc n) s = map_option (apfst JArray) (parse_elements n cs)"
  | (leaf) c cs where "skip_ws s = c # cs" "\<And>n. parse_value (Suc n) s = parse_leaf c cs"
proof (cases "skip_ws s")
  case Nil
  then show ?thesis by (rule blank)
next
  case (Cons c cs)
  consider (o) "c = CHR ''{''" "expect (CHR ''}'') cs = None" | (a) "c = CHR ''[''" "expect (CHR '']'') cs = None"
    | (l) "c \<noteq> CHR ''{'' \<or> expect (CHR ''}'') cs \<noteq> None" "c \<noteq> CHR ''['' \<or> expect (CHR '']'') cs \<noteq> None"
    by blast
  then show ?thesis
  proof cases
    case o
    with Cons show ?thesis by (intro object [of cs]) simp_all
  next
    case a
    with Cons show ?thesis by (intro array [of cs]) simp_all
  next
    case l
    then have "parse_value (Suc n) s = parse_leaf c cs" for n
      by (auto simp: Cons parse_leaf_def simp del: list.size)
    with Cons show ?thesis by (rule leaf)
  qed
qed

lemma has_prefix_drop: "has_prefix s t \<Longrightarrow> s = t @ drop (length t) s"
  unfolding has_prefix_def by (metis append_take_drop_id)

lemma parse_leaf_cases:
  assumes "parse_leaf c cs = Some (v, r)"
  obtains (empty_object) "c = CHR ''{''" "v = JObject []" "expect (CHR ''}'') cs = Some r"
  | (empty_array) "c = CHR ''[''" "v = JArray []" "expect (CHR '']'') cs = Some r"
  | (quoted) t where "c = dquote" "v = JString t" "parse_string cs = Some (t, r)"
  | (word) w where "(w, v) \<in> set json_words" "c # cs = w @ r"
  | (number) t where "v = JNumber t" "parse_number (c # cs) = Some (t, r)"
proof -
  let ?s = "c # cs"
  let ?plain = "c \<noteq> CHR ''{'' \<and> c \<noteq> CHR ''['' \<and> c \<noteq> dquote"
  consider (o) "c = CHR ''{''" | (a) "c = CHR ''[''" | (q) "c = dquote"
    | (t) ?plain "has_prefix ?s ''true''" | (f) ?plain "\<not> has_prefix ?s ''true''" "has_prefix ?s ''false''"
    | (n) ?plain "\<not> has_prefix ?s ''true''" "\<not> has_prefix ?s ''false''" "has_prefix ?s ''null''"
    | (d) ?plain "\<not> has_prefix ?s ''true''" "\<not> has_prefix ?s ''false''" "\<not> has_prefix ?s ''null''"
    by blast
  then show ?thesis
  proof cases
    case o
    with assms show ?thesis by (intro empty_object) (auto simp: parse_leaf_def)
  next
    case a
    with assms show ?thesis by (intro empty_array) (auto simp: parse_leaf_def)
  next
    case q
    with assms show ?thesis by (auto simp: parse_leaf_def dquote_def intro: quoted)
  next
    case t
    with assms has_prefix_drop [OF t(2)] show ?thesis
      by (intro word [of "''true''"]) (simp_all add: parse_leaf_def json_words_def eval_nat_numeral)
  next
    case f
    with assms has_prefix_drop [OF f(3)] show ?thesis
      by (intro word [of "''false''"]) (simp_all add: parse_leaf_def json_words_def eval_nat_numeral)
  next
    case n
    with assms has_prefix_drop [OF n(4)] show ?thesis
      by (intro word [of "''null''"]) (simp_all add: parse_leaf_def json_words_def eval_nat_numeral)
  next
    case d
    with assms show ?thesis by (auto simp: parse_leaf_def intro: number)
  qed
qed

lemma parse_leaf_shorter:
  assumes "parse_leaf c cs = Some (v, r)"
  shows "length r < length (c # cs)"
  using assms
proof (cases rule: parse_leaf_cases)
  case empty_object
  then show ?thesis using expect_shorter by fastforce
next
  case empty_array
  then show ?thesis using expect_shorter by fastforce
next
  case (quoted t)
  then show ?thesis using parse_string_shorter by fastforce
next
  case (word w)
  then have "w \<noteq> []" by (auto simp: json_words_def)
  with word(2) show ?thesis by simp
next
  case (number t)
  then show ?thesis using parse_number_split(1,2) [OF number(2)] by simp
qed

lemma value_enough_Suc:
  assumes els: "elements_enough n" and mems: "members_enough n"
  shows "value_enough (Suc n)"
  unfolding value_enough_def
proof (intro allI impI)
  fix s v r
  assume run: "parse_value (Suc n) s = Some (v, r)"
  have len: "length (skip_ws s) \<le> length s" by (rule skip_ws_le)
  show "length r < length s \<and> (\<forall>m. 2 * length s \<le> m + 2 * length r \<longrightarrow> parse_value m s = Some (v, r))"
  proof (cases s rule: parse_value_cases)
    case blank
    with run show ?thesis by simp
  next
    case (object cs)
    with run obtain ms where ms: "parse_members n cs = Some (ms, r)" "v = JObject ms" by auto
    with mems have r: "length r < length cs"
      and more: "2 * length cs < m + 2 * length r \<Longrightarrow> parse_members m cs = Some (ms, r)" for m
      unfolding members_enough_def by blast+
    have "parse_value m s = Some (v, r)" if "2 * length s \<le> m + 2 * length r" for m
    proof (cases m)
      case (Suc k)
      with that len object(1) have "parse_members k cs = Some (ms, r)" by (intro more) simp
      with Suc object(3) ms show ?thesis by simp
    qed (use that len r object(1) in simp)
    with len r object(1) show ?thesis by simp
  next
    case (array cs)
    with run obtain vs where vs: "parse_elements n cs = Some (vs, r)" "v = JArray vs" by auto
    with els have r: "length r < length cs"
      and more: "2 * length cs < m + 2 * length r \<Longrightarrow> parse_elements m cs = Some (vs, r)" for m
      unfolding elements_enough_def by blast+
    have "parse_value m s = Some (v, r)" if "2 * length s \<le> m + 2 * length r" for m
    proof (cases m)
      case (Suc k)
      with that len array(1) have "parse_elements k cs = Some (vs, r)" by (intro more) simp
      with Suc array(3) vs show ?thesis by simp
    qed (use that len r array(1) in simp)
    with len r array(1) show ?thesis by simp
  next
    case (leaf c cs)
    with run have r: "length r < length s" using parse_leaf_shorter [of c cs v r] len by simp
    have "parse_value m s = Some (v, r)" if "2 * length s \<le> m + 2 * length r" for m
      using that r run leaf(2) by (cases m) simp_all
    with r show ?thesis by blast
  qed
qed

lemma elements_enough_Suc:
  assumes val: "value_enough n" and els: "elements_enough n"
  shows "elements_enough (Suc n)"
  unfolding elements_enough_def
proof (intro allI impI)
  fix s vs r
  assume run: "parse_elements (Suc n) s = Some (vs, r)"
  then obtain v r1 where v: "parse_value n s = Some (v, r1)" by (auto split: option.splits)
  with val have r1: "length r1 < length s"
    and more: "2 * length s \<le> m + 2 * length r1 \<Longrightarrow> parse_value m s = Some (v, r1)" for m
    unfolding value_enough_def by blast+
  show "length r < length s \<and> (\<forall>m. 2 * length s < m + 2 * length r \<longrightarrow> parse_elements m s = Some (vs, r))"
  proof (cases "expect (CHR '','') r1")
    case None
    with run v have r: "vs = [v]" "expect (CHR '']'') r1 = Some r" by auto
    with expect_shorter have len: "length r < length r1" by blast
    have "parse_elements m s = Some (vs, r)" if "2 * length s < m + 2 * length r" for m
    proof (cases m)
      case (Suc k)
      with that len have "parse_value k s = Some (v, r1)" by (intro more) simp
      with Suc None r show ?thesis by simp
    qed (use that len r1 in simp)
    with len r1 show ?thesis by simp
  next
    case (Some r2)
    with run v obtain ws where ws: "parse_elements n r2 = Some (ws, r)" "vs = v # ws" by auto
    with els have r: "length r < length r2"
      and more': "2 * length r2 < m + 2 * length r \<Longrightarrow> parse_elements m r2 = Some (ws, r)" for m
      unfolding elements_enough_def by blast+
    have len: "length r2 < length r1" using expect_shorter [OF Some] .
    have "parse_elements m s = Some (vs, r)" if "2 * length s < m + 2 * length r" for m
    proof (cases m)
      case (Suc k)
      with that len r have "parse_value k s = Some (v, r1)" by (intro more) simp
      moreover have "parse_elements k r2 = Some (ws, r)" using that len r1 Suc by (intro more') simp
      ultimately show ?thesis using Suc Some ws by simp
    qed (use that len r r1 in simp)
    with len r r1 show ?thesis by simp
  qed
qed

lemma members_enough_Suc:
  assumes val: "value_enough n" and mems: "members_enough n"
  shows "members_enough (Suc n)"
  unfolding members_enough_def
proof (intro allI impI)
  fix s ms r
  assume run: "parse_members (Suc n) s = Some (ms, r)"
  then obtain k s0 v r1 where k: "parse_key s = Some (k, s0)" and v: "parse_value n s0 = Some (v, r1)"
    by (auto split: option.splits)
  have s0: "length s0 < length s" using parse_key_shorter [OF k] .
  from v val have r1: "length r1 < length s0"
    and more: "2 * length s0 \<le> m + 2 * length r1 \<Longrightarrow> parse_value m s0 = Some (v, r1)" for m
    unfolding value_enough_def by blast+
  show "length r < length s \<and> (\<forall>m. 2 * length s < m + 2 * length r \<longrightarrow> parse_members m s = Some (ms, r))"
  proof (cases "expect (CHR '','') r1")
    case None
    with run k v have r: "ms = [(k, v)]" "expect (CHR ''}'') r1 = Some r" by auto
    with expect_shorter have len: "length r < length r1" by blast
    have "parse_members m s = Some (ms, r)" if "2 * length s < m + 2 * length r" for m
    proof (cases m)
      case (Suc j)
      with that len s0 have "parse_value j s0 = Some (v, r1)" by (intro more) simp
      with Suc None r k show ?thesis by simp
    qed (use that len r1 s0 in simp)
    with len r1 s0 show ?thesis by simp
  next
    case (Some r2)
    with run k v obtain ws where ws: "parse_members n r2 = Some (ws, r)" "ms = (k, v) # ws" by auto
    with mems have r: "length r < length r2"
      and more': "2 * length r2 < m + 2 * length r \<Longrightarrow> parse_members m r2 = Some (ws, r)" for m
      unfolding members_enough_def by blast+
    have len: "length r2 < length r1" using expect_shorter [OF Some] .
    have "parse_members m s = Some (ms, r)" if "2 * length s < m + 2 * length r" for m
    proof (cases m)
      case (Suc j)
      with that len r s0 have "parse_value j s0 = Some (v, r1)" by (intro more) simp
      moreover have "parse_members j r2 = Some (ws, r)" using that len r1 s0 Suc by (intro more') simp
      ultimately show ?thesis using Suc Some ws k by simp
    qed (use that len r r1 s0 in simp)
    with len r r1 s0 show ?thesis by simp
  qed
qed

lemma all_enough: "value_enough n \<and> elements_enough n \<and> members_enough n"
proof (induction n)
  case 0
  show ?case by (simp add: value_enough_def elements_enough_def members_enough_def)
next
  case (Suc n)
  then show ?case by (simp add: value_enough_Suc elements_enough_Suc members_enough_Suc)
qed

text \<open>Whatever any fuel reads, the fuel of \<open>parse_json\<close> reads.\<close>

lemma parse_value_enough:
  assumes "parse_value n s = Some (v, r)" "2 * length s \<le> m"
  shows "parse_value m s = Some (v, r)"
proof -
  have "value_enough n" using all_enough by blast
  with assms show ?thesis unfolding value_enough_def by (metis trans_le_add1)
qed

lemma parse_json_complete:
  assumes "parse_value n s = Some (v, r)" "skip_ws r = []"
  shows "parse_json s = Some v"
  using parse_value_enough [OF assms(1), of "2 * length s + 2"] assms(2) by (simp add: parse_json_def)

end
