(* ===== verification/GoJsonCompact.thy ===== *)
theory GoJsonCompact
  imports GoJsonLemmas
begin

text \<open>
  Compaction and object writing keep the value: what \<open>json.Marshal\<close> makes of a raw message parses to what the
  message parses to, and the members of a written object are read back.
\<close>

section \<open>Continuation bytes\<close>

definition continues :: "char \<Rightarrow> bool" where
  "continues c \<longleftrightarrow> byte_in 0x80 0xBF c"

lemma forms_tail: "f \<in> set utf8_forms \<Longrightarrow> list_all (\<lambda>(lo, hi). 0x80 \<le> lo \<and> hi \<le> 0xBF) (tl f)"
proof -
  have "list_all (\<lambda>f. list_all (\<lambda>(lo, hi). 0x80 \<le> lo \<and> hi \<le> 0xBF) (tl f)) utf8_forms"
    unfolding utf8_forms_def by simp
  then show "f \<in> set utf8_forms \<Longrightarrow> ?thesis" by (simp add: list_all_iff)
qed

lemma starts_with_run:
  assumes "list_all (\<lambda>(lo, hi). 0x80 \<le> lo \<and> hi \<le> 0xBF) f"
  shows "starts_with_bytes f s \<longleftrightarrow> starts_with_bytes f (takeWhile continues s)"
  using assms
proof (induction f arbitrary: s)
  case (Cons p f)
  obtain lo hi where p: "p = (lo, hi)" by (cases p)
  with Cons.prems have ends: "0x80 \<le> lo" "hi \<le> 0xBF" by simp_all
  show ?case
  proof (cases s)
    case s: (Cons c cs)
    have head: "byte_in lo hi c \<Longrightarrow> continues c" using ends by (simp add: continues_def byte_in_def)
    from Cons.IH [of cs] Cons.prems head show ?thesis
      by (auto simp: s p starts_with_bytes_def)
  qed simp
qed (simp add: starts_with_bytes_def)

lemma starts_with_head:
  "starts_with_bytes g s = starts_with_bytes g t \<Longrightarrow>
     starts_with_bytes (p # g) (c # s) = starts_with_bytes (p # g) (c # t)"
  unfolding starts_with_bytes_def by (simp only: list.size zip_Cons_Cons list.pred_inject) auto

lemma rune_length_run:
  assumes "takeWhile continues s = takeWhile continues t"
  shows "rune_length (c # s) = rune_length (c # t)"
proof -
  have "starts_with_bytes f (c # s) = starts_with_bytes f (c # t)" if "f \<in> set utf8_forms" for f
  proof (cases f)
    case (Cons p g)
    with forms_tail [OF that] have g: "list_all (\<lambda>(lo, hi). 0x80 \<le> lo \<and> hi \<le> 0xBF) g" by simp
    have "starts_with_bytes g s = starts_with_bytes g t"
      using starts_with_run [OF g, of s] starts_with_run [OF g, of t] assms by simp
    then show ?thesis unfolding Cons by (rule starts_with_head)
  qed (simp add: starts_with_bytes_def)
  then have "find (\<lambda>f. starts_with_bytes f (c # s)) utf8_forms = find (\<lambda>f. starts_with_bytes f (c # t)) utf8_forms"
    by (intro find_cong) simp_all
  then show ?thesis by (simp add: rune_length_def)
qed

lemma continues_plain:
  assumes "continues c"
  shows "c \<noteq> dquote" "c \<noteq> backslash" "c \<notin> {CHR ''<'', CHR ''>'', CHR ''&''}" "\<And>cs. line_separator (c # cs) = None"
    "\<not> (of_char c :: nat) < 0x20" "(of_char c :: nat) \<noteq> 0xE2"
proof -
  from assms have c: "0x80 \<le> (of_char c :: nat)" "(of_char c :: nat) \<le> 0xBF" by (simp_all add: continues_def byte_in_def)
  then show "c \<noteq> dquote" "c \<noteq> backslash" "c \<notin> {CHR ''<'', CHR ''>'', CHR ''&''}" "\<not> (of_char c :: nat) < 0x20"
    "(of_char c :: nat) \<noteq> 0xE2" by (auto simp: dquote_def backslash_def)
  then have "c \<noteq> CHR 0xE2" by auto
  then show "line_separator (c # cs) = None" for cs by (simp add: line_separator_def eval_nat_numeral)
qed

lemma compact_continues: "continues c \<Longrightarrow> json_compact True (c # cs) = c # json_compact True cs"
  using continues_plain [of c] by simp

lemma compact_run: "list_all continues t \<Longrightarrow> json_compact True (t @ s) = t @ json_compact True s"
  by (induction t) (simp_all only: append_Cons append_Nil list.pred_inject compact_continues simp_thms)

text \<open>The run of continuation bytes at the head of a string is kept.\<close>

lemma compact_run_same: "takeWhile continues (json_compact True s) = takeWhile continues s"
proof (induction s)
  case (Cons c cs)
  show ?case
  proof (cases "continues c")
    case True
    with Cons show ?thesis by (simp only: compact_continues takeWhile.simps)
  next
    case False
    have "\<not> continues backslash" by (simp add: continues_def byte_in_def backslash_def)
    then have "takeWhile continues (json_compact True (c # cs)) = []"
      using False by (auto simp: unicode_escape_def split: option.splits list.splits)
    with False show ?thesis by simp
  qed
qed simp

section \<open>Escaped units\<close>

definition next_unit :: "string \<Rightarrow> nat option" where
  "next_unit r = (case r of c # d # r' \<Rightarrow> if c = backslash \<and> d = CHR ''u'' then map_option fst (hex4 r') else None | _ \<Rightarrow> None)"

lemma hex4_split:
  assumes "hex4 s = Some (n, r)"
  obtains h where "s = h @ r" "length h = 4" "\<forall>a \<in> set h. hex_value a \<noteq> None" "\<And>r'. hex4 (h @ r') = Some (n, r')"
proof -
  from assms obtain a b c d where s: "s = a # b # c # d # r"
    and vals: "hex_value a \<noteq> None" "hex_value b \<noteq> None" "hex_value c \<noteq> None" "hex_value d \<noteq> None"
    by (auto simp: hex4_def split: list.splits option.splits)
  have "hex4 ([a, b, c, d] @ r') = Some (n, r')" for r'
    using assms s by (auto simp: hex4_def split: option.splits)
  with s vals show ?thesis by (intro that [of "[a, b, c, d]"]) auto
qed

lemma next_unit_some:
  assumes "next_unit r = Some v"
  obtains h r' where "r = backslash # CHR ''u'' # h @ r'" "length h = 4" "\<forall>a \<in> set h. hex_value a \<noteq> None"
    "\<And>r'. hex4 (h @ r') = Some (v, r')"
proof -
  from assms obtain s q where "r = backslash # CHR ''u'' # s" "hex4 s = Some (v, q)"
    by (auto simp: next_unit_def split: list.splits if_splits)
  with hex4_split that show ?thesis by metis
qed

lemma hex_plain: "hex_value a \<noteq> None \<Longrightarrow> a \<noteq> dquote \<and> a \<noteq> backslash \<and> a \<notin> {CHR ''<'', CHR ''>'', CHR ''&''} \<and> a \<noteq> CHR 0xE2"
  by (auto simp: hex_value_def dquote_def backslash_def Let_def)

lemma compact_hex: "hex_value a \<noteq> None \<Longrightarrow> json_compact True (a # s) = a # json_compact True s"
  using hex_plain [of a] by (auto simp: line_separator_def eval_nat_numeral)

lemma compact_hexes: "\<forall>a \<in> set h. hex_value a \<noteq> None \<Longrightarrow> json_compact True (h @ s) = h @ json_compact True s"
  by (induction h) (simp_all add: compact_hex del: json_compact.simps)

text \<open>The unit at the head depends on the first six characters, none of them a quote.\<close>

lemma next_unit_prefix:
  assumes "dquote \<in> set p" "next_unit (p @ a) = Some v"
  shows "next_unit (p @ b) = Some v"
  using assms(2)
proof (rule next_unit_some)
  fix h r'
  assume split: "p @ a = backslash # CHR ''u'' # h @ r'" and h: "length h = 4" "\<forall>a \<in> set h. hex_value a \<noteq> None"
    and val: "\<And>r'. hex4 (h @ r') = Some (v, r')"
  have "dquote \<notin> set (backslash # CHR ''u'' # h)" using h(2) hex_plain by (auto simp: dquote_def backslash_def)
  moreover from split obtain us where
    "p = (backslash # CHR ''u'' # h) @ us \<or> p @ us = backslash # CHR ''u'' # h"
    using append_eq_append_conv2 [of p a "backslash # CHR ''u'' # h" r'] by auto
  ultimately obtain q where "p = (backslash # CHR ''u'' # h) @ q"
    using assms(1) by (metis Un_iff set_append)
  then show ?thesis by (simp add: next_unit_def val)
qed

text \<open>Compaction keeps the unit at the head; the only new ones are the escapes it writes itself.\<close>

lemma compact_head_cases:
  obtains (close) "c = dquote" "json_compact True (c # cs) = c # json_compact False cs"
  | (lone) "c = backslash" "cs = []" "json_compact True (c # cs) = [c]"
  | (escape) d ds where "c = backslash" "cs = d # ds" "json_compact True (c # cs) = c # d # json_compact True ds"
  | (escaped) n t where "c \<noteq> dquote" "c \<noteq> backslash" "n < 0x3000"
      "json_compact True (c # cs) = unicode_escape n @ json_compact True t"
  | (plain) "c \<noteq> dquote" "c \<noteq> backslash" "json_compact True (c # cs) = c # json_compact True cs"
proof -
  consider "c = dquote" | "c = backslash" "cs = []" | d ds where "c = backslash" "cs = d # ds"
    | (m) "c = CHR ''<'' \<or> c = CHR ''>'' \<or> c = CHR ''&''"
    | (l) n where "c \<noteq> dquote" "c \<noteq> backslash" "c \<notin> {CHR ''<'', CHR ''>'', CHR ''&''}" "line_separator (c # cs) = Some n"
    | (p) "c \<noteq> dquote" "c \<noteq> backslash" "c \<notin> {CHR ''<'', CHR ''>'', CHR ''&''}" "line_separator (c # cs) = None"
    by (cases "line_separator (c # cs)"; cases cs; blast)
  then show ?thesis
  proof cases
    case m
    have "(of_char c :: nat) < 0x3000" using m by auto
    with m show ?thesis by (intro escaped [of "of_char c" cs]) (auto simp: dquote_def backslash_def)
  next
    case (l n)
    with line_separator_facts(3) [OF l(4)] show ?thesis by (intro escaped [of n "drop 2 cs"]) auto
  next
    case p
    then show ?thesis by (intro plain) simp_all
  qed (use close lone escape in \<open>simp_all add: dquote_def backslash_def\<close>)
qed

lemma compact_hex_back:
  assumes eq: "json_compact True s = a # s'" and a: "hex_value a \<noteq> None"
  obtains s1 where "s = a # s1" "s' = json_compact True s1"
proof (cases s)
  case (Cons c cs)
  have a': "a \<noteq> backslash" "a \<noteq> dquote" using hex_plain [OF a] by simp_all
  show ?thesis
  proof (cases c cs rule: compact_head_cases)
    case plain
    with eq Cons show ?thesis by (intro that [of cs]) (simp_all del: json_compact.simps)
  qed (use eq Cons a' in \<open>simp_all add: unicode_escape_def del: json_compact.simps\<close>)
qed (use eq in simp)

lemma compact_hexes_back:
  "json_compact True s = h @ s' \<Longrightarrow> \<forall>a \<in> set h. hex_value a \<noteq> None \<Longrightarrow>
     \<exists>s1. s = h @ s1 \<and> s' = json_compact True s1"
proof (induction h arbitrary: s)
  case (Cons a h)
  then obtain s1 where "s = a # s1" "h @ s' = json_compact True s1"
    by (auto elim!: compact_hex_back simp del: json_compact.simps)
  with Cons.IH [of s1] Cons.prems(2) show ?case by auto
qed simp

lemma next_unit_compact:
  assumes "next_unit (json_compact True r) = Some v" "0x3000 \<le> v"
  shows "next_unit r = Some v"
  using assms(1)
proof (rule next_unit_some)
  fix h r'
  assume eq: "json_compact True r = backslash # CHR ''u'' # h @ r'" and h: "length h = 4" "\<forall>a \<in> set h. hex_value a \<noteq> None"
    and val: "\<And>r'. hex4 (h @ r') = Some (v, r')"
  obtain c cs where r: "r = c # cs" using eq by (cases r) auto
  show ?thesis
  proof (cases c cs rule: compact_head_cases)
    case (escape d ds)
    with eq r have ds: "d = CHR ''u''" "json_compact True ds = h @ r'" by (simp_all del: json_compact.simps)
    from compact_hexes_back [OF ds(2) h(2)] obtain s1 where "ds = h @ s1" by blast
    with r escape ds(1) show ?thesis by (simp add: next_unit_def val)
  next
    case (escaped n t)
    with eq r have "h @ r' = map (\<lambda>k. hex_digit ((n div 16 ^ k) mod 16)) [3, 2, 1, 0] @ json_compact True t"
      by (simp add: unicode_escape_def del: json_compact.simps)
    with hex4_escape [of n "json_compact True t"] escaped(3) val [of r'] have "v = n" by simp
    with assms(2) escaped(3) show ?thesis by simp
  qed (use eq r in \<open>simp_all add: backslash_def dquote_def del: json_compact.simps\<close>)
qed

lemma decode_unit_alt:
  "decode_unit u r =
     (if 0xD800 \<le> u \<and> u < 0xE000 then
        (case next_unit r of
           Some v \<Rightarrow> if u < 0xDC00 \<and> 0xDC00 \<le> v \<and> v < 0xE000
                     then (utf8_encode ((u - 0xD800) * 1024 + (v - 0xDC00) + 0x10000), drop 6 r)
                     else (replacement_char, r)
         | None \<Rightarrow> (replacement_char, r))
      else (utf8_encode u, r))"
proof (cases "next_unit r")
  case None
  then show ?thesis by (auto simp: decode_unit_def next_unit_def Let_def split: list.splits if_splits option.splits)
next
  case (Some v)
  then show ?thesis
  proof (rule next_unit_some)
    fix h r'
    assume "r = backslash # CHR ''u'' # h @ r'" "length h = 4" "\<And>r'. hex4 (h @ r') = Some (v, r')"
    with Some show ?thesis by (simp add: decode_unit_def Let_def)
  qed
qed

lemma decode_unit_cases:
  assumes "decode_unit u r = (t, r2)"
  obtains (joined) h where "r = backslash # CHR ''u'' # h @ r2" "\<forall>a \<in> set h. hex_value a \<noteq> None"
      "\<And>q. decode_unit u (backslash # CHR ''u'' # h @ q) = (t, q)"
  | (alone) "r2 = r"
      "\<And>q. (\<And>v. next_unit q = Some v \<Longrightarrow> 0x3000 \<le> v \<Longrightarrow> next_unit r = Some v) \<Longrightarrow> decode_unit u q = (t, q)"
proof -
  let ?high = "0xD800 \<le> u \<and> u < 0xE000"
  let ?low = "\<lambda>v. u < 0xDC00 \<and> 0xDC00 \<le> v \<and> v < 0xE000"
  consider (plain) "\<not> ?high" | (pair) v where "?high" "next_unit r = Some v" "?low v"
    | (lone) "?high" "\<And>v. next_unit r = Some v \<Longrightarrow> \<not> ?low v" by blast
  then show ?thesis
  proof cases
    case plain
    then have "decode_unit u q = (utf8_encode u, q)" for q by (rule decode_unit_plain)
    with assms show ?thesis by (intro alone) simp_all
  next
    case (pair v)
    from pair(2) show ?thesis
    proof (rule next_unit_some)
      fix h r'
      assume r: "r = backslash # CHR ''u'' # h @ r'" and h: "length h = 4" "\<forall>a \<in> set h. hex_value a \<noteq> None"
        and val: "\<And>r'. hex4 (h @ r') = Some (v, r')"
      have "decode_unit u (backslash # CHR ''u'' # h @ q) = (utf8_encode ((u - 0xD800) * 1024 + (v - 0xDC00) + 0x10000), q)" for q
        using pair(1,3) by (simp add: decode_unit_def Let_def val)
      with assms r h show ?thesis by (intro joined [of h]) simp_all
    qed
  next
    case lone
    have "decode_unit u q = (replacement_char, q)"
      if "\<And>v. next_unit q = Some v \<Longrightarrow> 0x3000 \<le> v \<Longrightarrow> next_unit r = Some v" for q
    proof (cases "next_unit q")
      case (Some v)
      with that [of v] lone(2) [of v] have "\<not> ?low v" by fastforce
      with Some lone(1) show ?thesis unfolding decode_unit_alt by (simp only: if_True if_False option.case simp_thms)
    qed (use lone(1) in \<open>simp add: decode_unit_alt\<close>)
    with assms show ?thesis by (intro alone) simp_all
  qed
qed

section \<open>Strings\<close>

lemma rune_tail:
  assumes "rune_length (c # cs) = Suc j"
  shows "list_all continues (take j cs)"
proof -
  from assms obtain f where f: "find (\<lambda>f. starts_with_bytes f (c # cs)) utf8_forms = Some f" "length f = Suc j"
    by (auto simp: rune_length_def split: option.splits)
  then obtain p g where g: "f = p # g" "length g = j" by (cases f) auto
  from f have mem: "f \<in> set utf8_forms" "starts_with_bytes f (c # cs)" by (auto dest: find_Some_member)
  from forms_tail [OF mem(1)] g have tail: "list_all (\<lambda>(lo, hi). 0x80 \<le> lo \<and> hi \<le> 0xBF) g" by simp
  have "starts_with_bytes g cs" using mem(2) g(1) by (simp add: starts_with_bytes_def)
  with tail g(2) show ?thesis
  proof (induction g arbitrary: cs j)
    case (Cons q g)
    then show ?case
      by (cases cs; cases q) (auto simp: starts_with_bytes_def continues_def byte_in_def)
  qed simp
qed

text \<open>The compacted literal is read back, whatever follows it.\<close>

definition literal_ok :: "string \<Rightarrow> string \<Rightarrow> string \<Rightarrow> string \<Rightarrow> bool" where
  "literal_ok s t r p \<longleftrightarrow> json_compact True s = p @ json_compact False r \<and> dquote \<in> set p \<and>
     (\<forall>r'. parse_string (p @ r') = Some (t, r'))"

lemma literal_run:
  assumes "literal_ok s t r p"
  shows "takeWhile continues (p @ r') = takeWhile continues s"
proof -
  have "\<not> continues dquote" by (simp add: continues_def byte_in_def dquote_def)
  with assms have "takeWhile continues (p @ q) = takeWhile continues p" for q
    unfolding literal_ok_def by (metis takeWhile_append1)
  moreover have "takeWhile continues (p @ json_compact False r) = takeWhile continues s"
    using assms compact_run_same [of s] by (simp add: literal_ok_def)
  ultimately show ?thesis by simp
qed

lemma parse_string_unit:
  "hex4 ds = Some (u, r1) \<Longrightarrow> decode_unit u r1 = (t1, r2) \<Longrightarrow>
     parse_string (backslash # CHR ''u'' # ds) = map_option (apfst (append t1)) (parse_string r2)"
  by (subst parse_string.simps) (simp add: dquote_def backslash_def)

lemma compact_escape: "json_compact True (backslash # d # s) = backslash # d # json_compact True s"
  by (simp add: dquote_def backslash_def)

lemma literal_unit:
  assumes "hex4 ds = Some (u, r1)" "decode_unit u r1 = (t1, r2)" "literal_ok r2 t2 r p"
  shows "\<exists>p'. literal_ok (backslash # CHR ''u'' # ds) (t1 @ t2) r p'"
proof -
  from assms(1) obtain h where ds: "ds = h @ r1" and h: "\<forall>a \<in> set h. hex_value a \<noteq> None"
    and val: "\<And>r'. hex4 (h @ r') = Some (u, r')" by (metis hex4_split)
  have step: "parse_string (backslash # CHR ''u'' # h @ q) = Some (t1 @ t2, r')"
    if "decode_unit u q = (t1, p @ r')" for q r'
    using parse_string_unit [OF val that] assms(3) by (simp add: literal_ok_def)
  from assms(2) show ?thesis
  proof (cases rule: decode_unit_cases)
    case (joined h2)
    have "literal_ok (backslash # CHR ''u'' # ds) (t1 @ t2) r (backslash # CHR ''u'' # h @ backslash # CHR ''u'' # h2 @ p)"
      using assms(3) step [OF joined(3)]
      by (simp add: literal_ok_def ds joined(1) compact_hexes [OF h] compact_hexes [OF joined(2)] compact_escape
          del: json_compact.simps)
    then show ?thesis by blast
  next
    case alone
    have "decode_unit u (p @ r') = (t1, p @ r')" for r'
    proof (rule alone(2))
      fix v
      assume v: "next_unit (p @ r') = Some v" "0x3000 \<le> v"
      from assms(3) have "json_compact True r2 = p @ json_compact False r" "dquote \<in> set p"
        by (simp_all add: literal_ok_def)
      with next_unit_prefix [OF _ v(1)] alone(1) have "next_unit (json_compact True r1) = Some v" by simp
      from next_unit_compact [OF this v(2)] show "next_unit r1 = Some v" .
    qed
    then have "literal_ok (backslash # CHR ''u'' # ds) (t1 @ t2) r (backslash # CHR ''u'' # h @ p)"
      using assms(3) step alone(1)
      by (simp add: literal_ok_def ds compact_hexes [OF h] compact_escape del: json_compact.simps)
    then show ?thesis by blast
  qed
qed

lemma literal_broken:
  assumes "rune_length (c # cs) = 0" "c \<noteq> dquote" "c \<noteq> backslash" "\<not> (of_char c :: nat) < 0x20" "literal_ok cs t r p"
  shows "literal_ok (c # cs) (replacement_char @ t) r (c # p)"
proof -
  have c: "c \<notin> {CHR ''<'', CHR ''>'', CHR ''&''}" using assms(1) rune_length_ascii [of c cs] by auto
  have l: "line_separator (c # cs) = None"
    using assms(1) line_separator_facts(1) [of c cs] by (cases "line_separator (c # cs)") auto
  have "rune_length (c # p @ r') = 0" for r'
    using rune_length_run [OF literal_run [OF assms(5)]] assms(1) by simp
  then have "parse_string (c # p @ r') = Some (replacement_char @ t, r')" for r'
    using assms by (subst parse_string.simps) (simp add: Let_def literal_ok_def)
  with assms c l show ?thesis by (simp add: literal_ok_def)
qed

lemma literal_rune:
  assumes k: "rune_length (c # cs) = k" "0 < k" and c: "c \<noteq> dquote" "c \<noteq> backslash" "\<not> (of_char c :: nat) < 0x20"
    and p: "literal_ok (drop k (c # cs)) t r p"
  shows "\<exists>p'. literal_ok (c # cs) (take k (c # cs) @ t) r p'"
proof -
  consider (sep) n where "line_separator (c # cs) = Some n"
    | (html) "c \<in> {CHR ''<'', CHR ''>'', CHR ''&''}" | (one) "k = 1" "c \<notin> {CHR ''<'', CHR ''>'', CHR ''&''}" "line_separator (c # cs) = None"
    | (wide) "1 < k" "c \<notin> {CHR ''<'', CHR ''>'', CHR ''&''}" "line_separator (c # cs) = None"
  proof -
    have "k = 1 \<or> 1 < k" using k(2) by linarith
    then show ?thesis using that by (cases "line_separator (c # cs)") blast+
  qed
  then show ?thesis
  proof cases
    case (sep n)
    note n = line_separator_facts [OF sep]
    from sep have "c = CHR 0xE2" by (rule line_separator_cases) simp_all
    then have "json_compact True (c # cs) = unicode_escape n @ json_compact True (drop 2 cs)"
      using sep by (simp add: dquote_def backslash_def)
    moreover have "k = 3" using n(1) k(1) by simp
    moreover from this have "drop k (c # cs) = drop 2 cs" by simp
    moreover from n(2) \<open>k = 3\<close> have "take k (c # cs) = utf8_encode n" by (simp only:)
    moreover have "parse_string (unicode_escape n @ q) = map_option (apfst (append (utf8_encode n))) (parse_string q)" for q
      using n(3) by (intro parse_string_unicode) auto
    ultimately have "literal_ok (c # cs) (take k (c # cs) @ t) r (unicode_escape n @ p)"
      using p unfolding literal_ok_def by (simp del: json_compact.simps)
    then show ?thesis by blast
  next
    case html
    then have ascii: "(of_char c :: nat) < 128" by auto
    then have "k = 1" using k(1) rune_length_ascii by simp
    moreover have "utf8_encode (of_char c) = [c]" using ascii by (simp add: utf8_encode_def)
    moreover have "json_compact True (c # cs) = unicode_escape (of_char c) @ json_compact True cs"
      using html by (auto simp: dquote_def backslash_def)
    moreover have "parse_string (unicode_escape (of_char c) @ q) = map_option (apfst (append (utf8_encode (of_char c)))) (parse_string q)" for q
      using ascii by (intro parse_string_unicode) auto
    ultimately have "literal_ok (c # cs) (take k (c # cs) @ t) r (unicode_escape (of_char c) @ p)"
      using p by (simp add: literal_ok_def)
    then show ?thesis by blast
  next
    case one
    have "(of_char c :: nat) < 128" using rune_length_one [of c cs] k(1) one(1) by simp
    then have "rune_length (c # p @ r') = 1" for r' by (rule rune_length_ascii)
    then have "parse_string (c # p @ r') = Some (c # t, r')" for r'
      using p c by (subst parse_string.simps) (simp add: Let_def literal_ok_def)
    then have "literal_ok (c # cs) (take k (c # cs) @ t) r (c # p)"
      using one p c by (simp add: literal_ok_def)
    then show ?thesis by blast
  next
    case wide
    then obtain j where j: "k = Suc j" by (cases k) auto
    have "json_compact True (take j cs @ drop j cs) = take j cs @ json_compact True (drop j cs)"
      using rune_tail k(1) j by (intro compact_run) simp
    then have "json_compact True (c # cs) = take k (c # cs) @ json_compact True (drop k (c # cs))"
      using wide c j by simp
    moreover have "parse_string (take k (c # cs) @ q) = map_option (apfst (append (take k (c # cs)))) (parse_string q)" for q
      by (rule parse_string_wide [OF k(1) wide(1)])
    ultimately have "literal_ok (c # cs) (take k (c # cs) @ t) r (take k (c # cs) @ p)"
      using p by (simp add: literal_ok_def)
    then show ?thesis by blast
  qed
qed

lemma string_compact: "parse_string s = Some (t, r) \<Longrightarrow> \<exists>p. literal_ok s t r p"
proof (induction s arbitrary: t rule: length_induct)
  case (1 s)
  then have IH: "\<And>x t. length x < length s \<Longrightarrow> parse_string x = Some (t, r) \<Longrightarrow> \<exists>p. literal_ok x t r p" by blast
  from 1(2) show ?case
  proof (cases rule: parse_string_cases)
    case closed
    then have "literal_ok s t r [dquote]" by (simp add: literal_ok_def parse_string_end)
    then show ?thesis by blast
  next
    case (unit ds u r1 t1 r2 t2)
    with hex4_shorter [OF unit(2)] decode_unit_shorter [OF unit(3)] have "length r2 < length s" by simp
    from IH [OF this unit(4)] literal_unit [OF unit(2,3)] unit(1,5) show ?thesis by blast
  next
    case (simple d ds e t2)
    from IH [of ds t2] simple obtain p where p: "literal_ok ds t2 r p" by auto
    have "literal_ok s t r (backslash # d # p)"
      using p simple parse_string_simple [OF simple(3,2)] by (simp add: literal_ok_def dquote_def backslash_def)
    then show ?thesis by blast
  next
    case (broken c cs t2)
    from IH [of cs t2] broken obtain p where p: "literal_ok cs t2 r p" by auto
    have "literal_ok (c # cs) (replacement_char @ t2) r (c # p)"
      using broken(1,5) by (intro literal_broken [OF _ broken(2-4) p]) simp
    with broken show ?thesis by blast
  next
    case (rune c cs k t2)
    then have "length (drop k s) < length s" by simp
    from IH [OF this rune(7)] obtain p where "literal_ok (drop k s) t2 r p" by blast
    with literal_rune [OF _ rune(6) rune(2-4)] rune(1,5,8) show ?thesis by blast
  qed
qed

section \<open>Values\<close>

lemma compact_skip: "json_compact False (skip_ws s) = json_compact False s"
  unfolding skip_ws_def by (induction s) auto

lemma compact_head:
  "json_compact False s = (case skip_ws s of [] \<Rightarrow> [] | c # cs \<Rightarrow> c # json_compact (c = dquote) cs)"
  unfolding skip_ws_def by (induction s) auto

lemma skip_ws_head: "skip_ws s = c # cs \<Longrightarrow> \<not> json_space c"
  unfolding skip_ws_def by (metis dropWhile_eq_Cons_conv)

lemma skip_ws_solid: "\<not> json_space c \<Longrightarrow> skip_ws (c # s) = c # s"
  by (simp add: skip_ws_def)

lemma expect_solid: "\<not> json_space d \<Longrightarrow> expect c (d # s) = (if d = c then Some s else None)"
  by (simp add: expect_def skip_ws_solid)

lemma expect_compact:
  "expect c s = Some r \<Longrightarrow> json_compact False s = c # json_compact (c = dquote) r \<and> \<not> json_space c"
  using skip_ws_head [of s] compact_head [of s] by (auto simp: expect_def split: list.splits if_splits)

lemma expect_none_compact:
  assumes "expect c s = None" "json_compact False s = p @ q" "p \<noteq> []"
  shows "expect c (p @ r) = None"
proof -
  from assms(3) obtain d p' where p: "p = d # p'" by (cases p) auto
  with assms(2) compact_head [of s] obtain cs where "skip_ws s = d # cs" by (auto split: list.splits)
  moreover from this assms(1) have "d \<noteq> c" by (auto simp: expect_def)
  ultimately show ?thesis using skip_ws_head [of s d cs] by (simp add: p expect_solid)
qed

lemma compact_solid: "list_all (\<lambda>c. \<not> json_space c \<and> c \<noteq> dquote) w \<Longrightarrow> json_compact False (w @ s) = w @ json_compact False s"
  by (induction w) simp_all

definition value_ok :: "nat \<Rightarrow> string \<Rightarrow> json \<Rightarrow> string \<Rightarrow> string \<Rightarrow> bool" where
  "value_ok n s v r p \<longleftrightarrow> json_compact False s = p @ json_compact False r \<and>
     (\<forall>r'. stops r' \<longrightarrow> parse_value n (p @ r') = Some (v, r'))"

definition elements_ok :: "nat \<Rightarrow> string \<Rightarrow> json list \<Rightarrow> string \<Rightarrow> string \<Rightarrow> bool" where
  "elements_ok n s vs r p \<longleftrightarrow> json_compact False s = p @ json_compact False r \<and>
     (\<forall>r'. parse_elements n (p @ r') = Some (vs, r'))"

definition members_ok :: "nat \<Rightarrow> string \<Rightarrow> (string \<times> json) list \<Rightarrow> string \<Rightarrow> string \<Rightarrow> bool" where
  "members_ok n s ms r p \<longleftrightarrow> json_compact False s = p @ json_compact False r \<and>
     (\<forall>r'. parse_members n (p @ r') = Some (ms, r'))"

lemma elements_ok_nonempty: "elements_ok n s vs r p \<Longrightarrow> p \<noteq> []"
  using all_enough [of n] unfolding elements_ok_def elements_enough_def by (metis append_Nil less_irrefl)

lemma members_ok_nonempty: "members_ok n s ms r p \<Longrightarrow> p \<noteq> []"
  using all_enough [of n] unfolding members_ok_def members_enough_def by (metis append_Nil less_irrefl)

lemma stops_char: "c \<in> set '',]}'' \<Longrightarrow> stops (c # r) \<and> \<not> json_space c \<and> c \<noteq> dquote"
  by (auto simp: stops_def json_space_def dquote_def)

text \<open>The characters of numbers and words are not touched.\<close>

lemma number_char_solid: "number_char c \<Longrightarrow> \<not> json_space c \<and> c \<noteq> dquote \<and> c \<notin> set ''{[tfn''"
  by (auto simp: number_char_def is_digit_def byte_in_def json_space_def dquote_def)

lemma leaf_compact:
  assumes s: "skip_ws s = c # cs" and leaf: "parse_leaf c cs = Some (v, r)" and r: "stops (skip_ws r)"
  shows "\<exists>p. value_ok (Suc n) s v r p"
  using leaf
proof (cases rule: parse_leaf_cases)
  case empty_object
  then have "value_ok (Suc n) s v r ''{}''"
    using compact_head [of s] s expect_compact [OF empty_object(3)]
    by (simp add: value_ok_def dquote_def skip_ws_solid expect_solid json_space_def)
  then show ?thesis by blast
next
  case empty_array
  then have "value_ok (Suc n) s v r ''[]''"
    using compact_head [of s] s expect_compact [OF empty_array(3)]
    by (simp add: value_ok_def dquote_def skip_ws_solid expect_solid json_space_def)
  then show ?thesis by blast
next
  case (quoted t)
  from string_compact [OF quoted(3)] obtain p where p: "literal_ok cs t r p" by blast
  have "parse_value (Suc n) (dquote # p @ r') = Some (v, r')" for r'
    using p quoted(2) by (simp add: skip_ws_def json_space_def dquote_def literal_ok_def)
  with p quoted(1) have "value_ok (Suc n) s v r (dquote # p)"
    using compact_head [of s] s by (simp add: value_ok_def literal_ok_def)
  then show ?thesis by blast
next
  case (word w)
  have "list_all (\<lambda>c. \<not> json_space c \<and> c \<noteq> dquote) w"
    using word(1) by (auto simp: json_words_def json_space_def dquote_def)
  then have "json_compact False s = w @ json_compact False r"
    using compact_skip [of s] compact_solid [of w r] by (simp add: s word(2))
  moreover have "parse_value (Suc n) (w @ r') = Some (v, r')" for r'
    using word(1) by (auto simp: json_words_def skip_ws_def json_space_def dquote_def has_prefix_def)
  ultimately have "value_ok (Suc n) s v r w" by (simp add: value_ok_def)
  then show ?thesis by blast
next
  case (number t)
  note t = parse_number_split [OF number(2)]
  have "list_all (\<lambda>c. \<not> json_space c \<and> c \<noteq> dquote) t"
    using t(3) number_char_solid by (auto simp: list_all_iff)
  then have "json_compact False s = t @ json_compact False r"
    using compact_skip [of s] compact_solid [of t r] t(1) by (simp add: s)
  moreover have "parse_value (Suc n) (t @ r') = Some (v, r')" if "stops r'" for r'
  proof -
    from t(2,3) obtain d t' where d: "t = d # t'" "number_char d" by (cases t) auto
    with number_char_solid [OF d(2)] t(4) [OF that] number(1) show ?thesis
      by (auto simp: skip_ws_solid has_prefix_def)
  qed
  ultimately have "value_ok (Suc n) s v r t" by (simp add: value_ok_def)
  then show ?thesis by blast
qed

lemma stops_skip: "stops (skip_ws r) \<Longrightarrow> skip_ws r = [] \<or> (\<exists>c q. skip_ws r = c # q \<and> c \<in> set '',]}'')"
  by (cases "skip_ws r") (auto simp: stops_def)

lemma expect_stops: "expect c r = Some q \<Longrightarrow> c \<in> set '',]}'' \<Longrightarrow> stops (skip_ws r)"
  by (auto simp: expect_def stops_def split: list.splits if_splits)

lemma elements_compact:
  assumes val: "\<And>s v r. parse_value n s = Some (v, r) \<Longrightarrow> stops (skip_ws r) \<Longrightarrow> \<exists>p. value_ok n s v r p"
    and els: "\<And>s vs r. parse_elements n s = Some (vs, r) \<Longrightarrow> \<exists>p. elements_ok n s vs r p"
    and run: "parse_elements (Suc n) s = Some (vs, r)"
  shows "\<exists>p. elements_ok (Suc n) s vs r p"
proof -
  from run obtain v r1 where v: "parse_value n s = Some (v, r1)" by (auto split: option.splits)
  have chars: "c = CHR '','' \<or> c = CHR '']'' \<Longrightarrow> \<not> json_space c \<and> c \<noteq> dquote" for c
    by (auto simp: json_space_def dquote_def)
  show ?thesis
  proof (cases "expect (CHR '','') r1")
    case None
    with run v have r: "vs = [v]" "expect (CHR '']'') r1 = Some r" by auto
    from val [OF v] expect_stops [OF r(2)] obtain p where p: "value_ok n s v r1 p" by auto
    have "parse_value n (p @ '']'' @ r') = Some (v, '']'' @ r')" for r'
      using p by (simp add: value_ok_def stops_def)
    then have "elements_ok (Suc n) s vs r (p @ '']'')"
      using p expect_compact [OF r(2)] chars [of "CHR '']''"] r(1)
      by (simp add: elements_ok_def value_ok_def expect_solid)
    then show ?thesis by blast
  next
    case (Some r2)
    with run v obtain ws where ws: "parse_elements n r2 = Some (ws, r)" "vs = v # ws" by auto
    from val [OF v] expect_stops [OF Some] obtain p where p: "value_ok n s v r1 p" by auto
    from els [OF ws(1)] obtain q where q: "elements_ok n r2 ws r q" by blast
    have "parse_value n (p @ '','' @ q @ r') = Some (v, '','' @ q @ r')" for r'
      using p by (simp add: value_ok_def stops_def)
    then have "elements_ok (Suc n) s vs r (p @ '','' @ q)"
      using p q expect_compact [OF Some] chars [of "CHR '',''"] ws(2)
      by (simp add: elements_ok_def value_ok_def expect_solid)
    then show ?thesis by blast
  qed
qed

lemma parse_key_compact:
  assumes "parse_key s = Some (k, r)"
  shows "\<exists>p. json_compact False s = p @ json_compact False r \<and> (\<forall>r'. parse_key (p @ r') = Some (k, r'))"
proof -
  from assms obtain s1 r1 where s1: "expect dquote s = Some s1" and t: "parse_string s1 = Some (k, r1)"
    and c: "expect (CHR '':'') r1 = Some r"
    by (auto simp: parse_key_def split: option.splits bind_splits)
  from string_compact [OF t] obtain q where q: "literal_ok s1 k r1 q" by blast
  have solid: "\<not> json_space dquote" "\<not> json_space (CHR '':'')" "CHR '':'' \<noteq> dquote"
    by (simp_all add: json_space_def dquote_def)
  have "parse_key (dquote # q @ '':'' @ r') = Some (k, r')" for r'
    using q solid by (simp add: parse_key_def expect_solid literal_ok_def)
  with q expect_compact [OF s1] expect_compact [OF c] solid show ?thesis
    by (intro exI [of _ "dquote # q @ '':''"]) (simp add: literal_ok_def)
qed

lemma members_compact:
  assumes val: "\<And>s v r. parse_value n s = Some (v, r) \<Longrightarrow> stops (skip_ws r) \<Longrightarrow> \<exists>p. value_ok n s v r p"
    and mems: "\<And>s vs r. parse_members n s = Some (vs, r) \<Longrightarrow> \<exists>p. members_ok n s vs r p"
    and run: "parse_members (Suc n) s = Some (ms, r)"
  shows "\<exists>p. members_ok (Suc n) s ms r p"
proof -
  from run obtain k s0 v r1 where k: "parse_key s = Some (k, s0)" and v: "parse_value n s0 = Some (v, r1)"
    by (auto split: option.splits)
  from parse_key_compact [OF k] obtain h where h: "json_compact False s = h @ json_compact False s0"
    "\<And>r'. parse_key (h @ r') = Some (k, r')" by blast
  have chars: "c = CHR '','' \<or> c = CHR ''}'' \<Longrightarrow> \<not> json_space c \<and> c \<noteq> dquote" for c
    by (auto simp: json_space_def dquote_def)
  show ?thesis
  proof (cases "expect (CHR '','') r1")
    case None
    with run k v have r: "ms = [(k, v)]" "expect (CHR ''}'') r1 = Some r" by auto
    from val [OF v] expect_stops [OF r(2)] obtain p where p: "value_ok n s0 v r1 p" by auto
    have "parse_value n (p @ ''}'' @ r') = Some (v, ''}'' @ r')" for r'
      using p by (simp add: value_ok_def stops_def)
    then have "members_ok (Suc n) s ms r (h @ p @ ''}'')"
      using p h expect_compact [OF r(2)] chars [of "CHR ''}''"] r(1)
      by (simp add: members_ok_def value_ok_def expect_solid)
    then show ?thesis by blast
  next
    case (Some r2)
    with run k v obtain ws where ws: "parse_members n r2 = Some (ws, r)" "ms = (k, v) # ws" by auto
    from val [OF v] expect_stops [OF Some] obtain p where p: "value_ok n s0 v r1 p" by auto
    from mems [OF ws(1)] obtain q where q: "members_ok n r2 ws r q" by blast
    have "parse_value n (p @ '','' @ q @ r') = Some (v, '','' @ q @ r')" for r'
      using p by (simp add: value_ok_def stops_def)
    then have "members_ok (Suc n) s ms r (h @ p @ '','' @ q)"
      using p q h expect_compact [OF Some] chars [of "CHR '',''"] ws(2)
      by (simp add: members_ok_def value_ok_def expect_solid)
    then show ?thesis by blast
  qed
qed

lemma value_compact:
  assumes els: "\<And>s vs r. parse_elements n s = Some (vs, r) \<Longrightarrow> \<exists>p. elements_ok n s vs r p"
    and mems: "\<And>s vs r. parse_members n s = Some (vs, r) \<Longrightarrow> \<exists>p. members_ok n s vs r p"
    and run: "parse_value (Suc n) s = Some (v, r)" and r: "stops (skip_ws r)"
  shows "\<exists>p. value_ok (Suc n) s v r p"
proof (cases s rule: parse_value_cases)
  case blank
  with run show ?thesis by simp
next
  case (object cs)
  with run obtain ms where ms: "parse_members n cs = Some (ms, r)" "v = JObject ms" by auto
  from mems [OF ms(1)] obtain p where p: "members_ok n cs ms r p" by blast
  then have "expect (CHR ''}'') (p @ r') = None" for r'
    using expect_none_compact [OF object(2)] members_ok_nonempty [OF p] by (simp add: members_ok_def)
  with p ms(2) have "value_ok (Suc n) s v r (''{'' @ p)"
    using compact_head [of s] object(1)
    by (simp add: value_ok_def members_ok_def skip_ws_solid json_space_def dquote_def)
  then show ?thesis by blast
next
  case (array cs)
  with run obtain vs where vs: "parse_elements n cs = Some (vs, r)" "v = JArray vs" by auto
  from els [OF vs(1)] obtain p where p: "elements_ok n cs vs r p" by blast
  then have "expect (CHR '']'') (p @ r') = None" for r'
    using expect_none_compact [OF array(2)] elements_ok_nonempty [OF p] by (simp add: elements_ok_def)
  with p vs(2) have "value_ok (Suc n) s v r (''['' @ p)"
    using compact_head [of s] array(1)
    by (simp add: value_ok_def elements_ok_def skip_ws_solid json_space_def dquote_def)
  then show ?thesis by blast
next
  case (leaf c cs)
  with run r show ?thesis by (intro leaf_compact) simp_all
qed

lemma all_compact:
  "(\<forall>s v r. parse_value n s = Some (v, r) \<longrightarrow> stops (skip_ws r) \<longrightarrow> (\<exists>p. value_ok n s v r p)) \<and>
   (\<forall>s vs r. parse_elements n s = Some (vs, r) \<longrightarrow> (\<exists>p. elements_ok n s vs r p)) \<and>
   (\<forall>s ms r. parse_members n s = Some (ms, r) \<longrightarrow> (\<exists>p. members_ok n s ms r p))"
proof (induction n)
  case (Suc n)
  then have IH: "\<And>s v r. parse_value n s = Some (v, r) \<Longrightarrow> stops (skip_ws r) \<Longrightarrow> \<exists>p. value_ok n s v r p"
    "\<And>s vs r. parse_elements n s = Some (vs, r) \<Longrightarrow> \<exists>p. elements_ok n s vs r p"
    "\<And>s ms r. parse_members n s = Some (ms, r) \<Longrightarrow> \<exists>p. members_ok n s ms r p" by blast+
  show ?case
    using value_compact [OF IH(2,3)] elements_compact [OF IH(1,2)] members_compact [OF IH(1,3)] by blast
qed simp

text \<open>A raw message, marshalled: its text as a value with anything that ends a value behind it.\<close>

lemma marshal_raw_value:
  assumes "marshal_raw raw = Some p"
  obtains v where "parse_json raw = Some v" "\<And>r'. stops r' \<Longrightarrow> \<exists>n. parse_value n (p @ r') = Some (v, r')"
proof -
  from assms have "valid_json raw" and p: "p = json_compact False raw" by (auto simp: marshal_raw_def split: if_splits)
  then obtain v where json: "parse_json raw = Some v" by (auto simp: valid_json_def)
  then obtain r n where v: "parse_json raw = Some v" "parse_value n raw = Some (v, r)" "skip_ws r = []"
    unfolding parse_json_def by (auto simp del: parse_value.simps split: option.splits prod.splits if_splits)
  have "stops (skip_ws r)" by (simp add: v(3) stops_def)
  with all_compact [of n] v(2) obtain q where q: "value_ok n raw v r q" by blast
  have "json_compact False r = []" using v(3) compact_head [of r] by simp
  with q p v(1) show ?thesis by (intro that [of v]) (auto simp: value_ok_def)
qed

section \<open>Objects\<close>

text \<open>Members whose texts are values make an object whose members are these values.\<close>

lemma parse_members_more:
  assumes "parse_members n s = Some (ms, r)" "2 * length s < m"
  shows "parse_members m s = Some (ms, r)"
proof -
  have "members_enough n" using all_enough by blast
  with assms show ?thesis unfolding members_enough_def by (metis trans_less_add1)
qed

lemma parse_key_written: "parse_key (json_string k @ CHR '':'' # q) = Some (utf8_clean k, q)"
proof -
  have "expect dquote (dquote # s) = Some s" "expect (CHR '':'') (CHR '':'' # s) = Some s" for s
    by (simp_all add: expect_solid json_space_def dquote_def)
  then show ?thesis by (simp add: parse_key_def json_string_def string_cut_read_back)
qed

definition reads_as :: "string \<Rightarrow> json \<Rightarrow> bool" where
  "reads_as t v \<longleftrightarrow> (\<forall>r'. stops r' \<longrightarrow> (\<exists>n. parse_value n (t @ r') = Some (v, r')))"

lemma reads_as_enough: "reads_as t v \<Longrightarrow> stops r \<Longrightarrow> 2 * length (t @ r) \<le> m \<Longrightarrow> parse_value m (t @ r) = Some (v, r)"
  unfolding reads_as_def using parse_value_enough by blast

lemma string_reads_as: "reads_as (json_string s) (JString (utf8_clean s))"
proof -
  have "parse_value (Suc 0) (json_string s @ r) = Some (JString (utf8_clean s), r)" for r
    by (simp add: json_string_def skip_ws_def json_space_def dquote_def string_cut_read_back [unfolded dquote_def])
  then show ?thesis unfolding reads_as_def by blast
qed

definition member_reads_as :: "string \<times> string \<Rightarrow> string \<times> json \<Rightarrow> bool" where
  "member_reads_as m m' \<longleftrightarrow> fst m' = utf8_clean (fst m) \<and> reads_as (snd m) (snd m')"

lemma members_written:
  assumes "ms \<noteq> []" "list_all2 member_reads_as ms vs"
  shows "\<exists>n. parse_members n (join (map json_member ms) '','' @ ''}'' @ r) = Some (vs, r)"
  using assms
proof (induction ms arbitrary: vs)
  case (Cons m ms)
  obtain k t where m: "m = (k, t)" by (cases m)
  from Cons.prems(2) obtain v vs' where vs: "vs = (utf8_clean k, v) # vs'" and t: "reads_as t v"
    and rest: "list_all2 member_reads_as ms vs'"
    by (fastforce simp: list_all2_Cons1 member_reads_as_def [of "(k, t)"] m)
  have comma: "expect (CHR '','') (CHR '','' # s) = Some s" "expect (CHR '','') (CHR ''}'' # s) = None"
    "expect (CHR ''}'') (CHR ''}'' # s) = Some s" for s
    by (simp_all add: expect_solid json_space_def)
  show ?case
  proof (cases ms)
    case Nil
    let ?n = "2 * length (t @ ''}'' @ r)"
    have "parse_value ?n (t @ ''}'' @ r) = Some (v, ''}'' @ r)"
      using t by (rule reads_as_enough) (simp_all add: stops_def)
    then have "parse_members (Suc ?n) (json_member m @ ''}'' @ r) = Some (vs, r)"
      using rest vs Nil by (simp add: json_member_def m parse_key_written comma del: length_append)
    with Nil show ?thesis by (intro exI [of _ "Suc ?n"]) (simp del: parse_members.simps)
  next
    case (Cons m2 ms2)
    let ?tail = "join (map json_member ms) '','' @ ''}'' @ r"
    from Cons.IH [OF _ rest] Cons obtain n where n: "parse_members n ?tail = Some (vs', r)" by auto
    let ?m = "2 * length (t @ '','' @ ?tail) + 1"
    have "parse_value ?m (t @ '','' @ ?tail) = Some (v, '','' @ ?tail)"
      using t by (rule reads_as_enough) (simp_all add: stops_def)
    moreover have "parse_members ?m ?tail = Some (vs', r)"
      using n by (rule parse_members_more) simp
    ultimately have "parse_members (Suc ?m) (json_member m @ '','' @ ?tail) = Some (vs, r)"
      using vs by (simp add: json_member_def m parse_key_written comma del: length_append)
    with Cons show ?thesis by (intro exI [of _ "Suc ?m"]) (simp del: parse_members.simps)
  qed
qed simp

lemma object_written:
  assumes "ms \<noteq> []" "list_all2 member_reads_as ms vs"
  shows "parse_json (json_object ms) = Some (JObject vs)"
proof -
  let ?t = "join (map json_member ms) '','' @ ''}''"
  from members_written [OF assms, of "[]"] obtain n where n: "parse_members n ?t = Some (vs, [])" by auto
  have "expect (CHR ''}'') ?t = None"
  proof -
    from assms(1) obtain k t ms' where "ms = (k, t) # ms'" by (metis list.exhaust surj_pair)
    then have "?t = dquote # tl ?t" by (cases ms') (simp_all add: json_member_def json_string_def)
    moreover have "expect (CHR ''}'') (dquote # s) = None" for s
      by (simp add: expect_solid json_space_def dquote_def)
    ultimately show ?thesis by metis
  qed
  with n have "parse_value (Suc n) (json_object ms) = Some (JObject vs, [])"
    by (simp add: json_object_def skip_ws_def json_space_def)
  then show ?thesis by (rule parse_json_complete) (simp add: skip_ws_def)
qed

end
