(* ===== verification/EventProperties.thy ===== *)
theory EventProperties
  imports EventRounds GoJsonCompact JobSamples
begin

text \<open>
  The properties of the \<open>FunctionEvent\<close> reconciler, with witnesses on a namespace of two triggers for
  one ready function.
\<close>

section \<open>Concrete objects\<close>

definition sample_trigger :: "string \<Rightarrow> event_trigger" where
  "sample_trigger name = \<lparr>
     tr_meta = sample_meta name,
     tr_spec = \<lparr>ts_function_ref = \<lparr>fr_name = ''f''\<rparr>, ts_compartment_id = [], ts_display_name = [],
       ts_description = [], ts_is_enabled = None,
       ts_condition = \<lparr>ec_raw_json = [], ec_event_type = [''functionevent.a''], ec_data = None\<rparr>,
       ts_deletion_policy = DeletionPolicyUnset\<rparr>,
     tr_status = \<lparr>tst_observed_generation = 0, tst_phase = TriggerPhaseUnset, tst_rule_id = [],
       tst_last_sync_time = None, tst_message = [], tst_conditions = []\<rparr>\<rparr>"

definition sample_event :: "event_status \<Rightarrow> function_event" where
  "sample_event st = \<lparr>
     ev_meta = sample_meta ''e'',
     ev_spec = \<lparr>es_event_type = ''functionevent.a'', es_source = [], es_subject = [],
       es_payload = Some (Some ''{ }''), es_id = ''7'', es_ttl_seconds = Some 60\<rparr>,
     ev_status = st\<rparr>"

definition empty_event_status :: event_status where
  "empty_event_status = \<lparr>est_observed_generation = 0, est_phase = EventPhaseUnset, est_matched_triggers = [],
     est_invocations = [], est_message = [], est_conditions = []\<rparr>"

definition sample_event_client :: "event_trigger list \<Rightarrow> unit kube_client" where
  "sample_event_client ts =
     (sample_client (Got (sample_function CondTrue)))\<lparr>list_triggers := (\<lambda>ns w. Inr ts)\<rparr>"

definition sample_events :: "unit invoker option \<Rightarrow> unit event_reconciler" where
  "sample_events J = \<lparr>er_client = sample_event_client [sample_trigger ''t2'', sample_trigger ''t1''],
     er_lib = sample_lib, er_invoker = J, er_recorder = True, er_clock = (\<lambda>w. 100), er_json_error = (\<lambda>b. ''bad'')\<rparr>"

definition event_start :: "unit event_io" where
  "event_start = start_io"

lemma sample_listing: "fixed_listing (sample_events J) ns [sample_trigger ''t2'', sample_trigger ''t1'']"
  by (simp add: fixed_listing_def sample_events_def sample_event_client_def names_ok_def trigger_name_def
      sample_trigger_def sample_meta_def)

text \<open>An invoker whose invocations all fail, and one round run on the sample.\<close>

definition failing_invoker :: "unit invoker" where
  "failing_invoker = \<lparr>inv_invoke = (\<lambda>rq w. ((empty_response, Some (ErrorText ''down'')), w)),
     inv_requires_function_id = False\<rparr>"

definition event_step :: "unit event_reconciler \<Rightarrow> function_event \<Rightarrow> reconcile_end \<times> event_effect list" where
  "event_step R e = (case reconcile_found_event R e event_start of (out, s) \<Rightarrow> (out, io_trace s))"

lemma event_step_round:
  assumes "event_step R e = (Returned r None, t)" "event_rounds R e0 e us"
  shows "event_rounds R e0 (stored_event t e) (us @ [t])"
proof -
  obtain out s' where run: "reconcile_found_event R e event_start = (out, s')" by (metis prod.exhaust)
  with assms(1) have "out = Returned r None" "io_trace s' = io_trace event_start @ t"
    by (simp_all add: event_step_def event_start_def start_io_def)
  with run assms(2) show ?thesis by (auto intro: rounds_next)
qed

fun event_run :: "unit event_reconciler \<Rightarrow> nat \<Rightarrow> function_event \<Rightarrow> function_event \<times> event_effect list list \<times> bool" where
  "event_run R 0 e = (e, [], True)"
| "event_run R (Suc n) e = (case event_run R n e of (e', us, ok) \<Rightarrow>
     (case event_step R e' of (out, t) \<Rightarrow>
        (stored_event t e', us @ [t], ok \<and> (case out of Returned r None \<Rightarrow> True | _ \<Rightarrow> False))))"

lemma event_run_rounds: "event_run R n e0 = (e, us, True) \<Longrightarrow> event_rounds R e0 e us"
proof (induction n arbitrary: e us)
  case (Suc n)
  obtain e1 us1 ok where prev: "event_run R n e0 = (e1, us1, ok)" by (metis prod_cases3)
  obtain out t where step: "event_step R e1 = (out, t)" by (metis prod.exhaust)
  from Suc.prems prev step obtain r where r: "e = stored_event t e1" "us = us1 @ [t]" "ok = True" "out = Returned r None"
    by (auto split: reconcile_end.splits option.splits)
  from Suc.IH prev r(3) have "event_rounds R e0 e1 us1" by simp
  with event_step_round step r show ?case by simp
qed (simp add: rounds_start)

lemma sample_event_wf: "event_wf (sample_event empty_event_status)"
  by (simp add: event_wf_def sample_event_def empty_event_status_def)

section \<open>Calls\<close>

text \<open>The triggers an event goes to: enabled, of function events only, with the event's type among theirs.\<close>

definition takes_event :: "function_event \<Rightarrow> event_trigger \<Rightarrow> bool" where
  "takes_event e t \<longleftrightarrow> rule_enabled t \<and> classify_trigger t = TriggerModeFunctionEvent \<and>
     trim_space (es_event_type (ev_spec e)) \<in> trim_space ` set (ec_event_type (ts_condition (tr_spec t)))"

lemma routed_trigger_takes:
  assumes "j < length (routed_triggers all (es_event_type (ev_spec e)))"
  shows "routed_triggers all (es_event_type (ev_spec e)) ! j \<in> set all"
    "takes_event e (routed_triggers all (es_event_type (ev_spec e)) ! j)"
  using nth_mem [OF assms] unfolding routed_triggers_set
  by (auto simp: takes_event_def trigger_matches_event_def list_ex_iff image_iff split: if_splits) metis

text \<open>One call, with the position of its trigger.\<close>

definition call_justified ::
    "'w event_reconciler \<Rightarrow> function_event \<Rightarrow> event_trigger list \<Rightarrow> bytes \<Rightarrow> nat \<times> invoke_call \<Rightarrow> bool" where
  "call_justified R e all body = (\<lambda>(j, rq, rsp, err).
     (let ts = routed_triggers all (es_event_type (ev_spec e)); t = ts ! j in
      j < length ts \<and> t \<in> set all \<and> takes_event e t \<and> rq_body rq = Some body \<and> call_target_ok R e t rq \<and>
      \<not> is_settled_invocation (ensure_event_invocation (est_invocations (ev_status e)) t)))"

lemma pass_calls_justified:
  assumes calls: "cs = map snd ps" and ok: "pass_calls_ok R e body 0 (routed_triggers all (es_event_type (ev_spec e)))
      (ensured_invocations e (routed_triggers all (es_event_type (ev_spec e)))) invs' ps"
  shows "\<exists>js. sorted_wrt (<) js \<and> length js = length cs \<and> list_all (call_justified R e all body) (zip js cs)"
proof (intro exI [of _ "map fst ps"] conjI)
  show "sorted_wrt (<) (map fst ps)" using ok by (simp add: pass_calls_ok_def)
  show "length (map fst ps) = length cs" by (simp add: calls)
  have "call_justified R e all body x" if "x \<in> set ps" for x
  proof -
    obtain j rq rsp err where x: "x = (j, rq, rsp, err)" by (cases x)
    from ok that x have "j < length (routed_triggers all (es_event_type (ev_spec e)))" "rq_body rq = Some body"
      "call_target_ok R e (routed_triggers all (es_event_type (ev_spec e)) ! j) rq"
      "\<not> is_settled_invocation (ensured_invocations e (routed_triggers all (es_event_type (ev_spec e))) ! j)"
      unfolding pass_calls_ok_def by (fastforce dest: bspec)+
    with routed_trigger_takes show ?thesis
      by (simp add: call_justified_def x Let_def ensured_invocations_def)
  qed
  then show "list_all (call_justified R e all body) (zip (map fst ps) cs)"
    by (simp add: calls zip_map_fst_snd list_all_iff)
qed

text \<open>
  C8: the calls of a reconciliation. Calls are made in the order of the triggers' names, at most one per
  trigger, only for enabled triggers of function events that name the event's type and whose invocation
  is not settled; each carries the envelope of the event to the target of a function found ready. (With an invoker, for an event
  whose status has the form of C19, in a namespace whose triggers have names of their own.)
\<close>

theorem event_calls_justified:
  assumes "reconcile_found_event R e s = (out, s')" "er_invoker R = Some I"
    and "listing_ok R (om_namespace (ev_meta e))" "event_wf e"
  shows "\<exists>t. io_trace s' = io_trace s @ t \<and>
    (calls t \<noteq> [] \<longrightarrow> (\<exists>all body js.
       list_triggers (er_client R) (om_namespace (ev_meta e)) (io_world s) = Inr all \<and>
       event_invocation_body R e = Inr body \<and> sorted_wrt (<) js \<and> length js = length (calls t) \<and>
       list_all (call_justified R e all body) (zip js (calls t))))"
  using assms
proof (cases rule: event_round_cases)
  case (lookup_failed t all body ps invs' err)
  with pass_calls_justified [OF lookup_failed(2) lookup_failed(7)] show ?thesis by blast
next
  case (passed t all body ps invs' err d s1)
  with pass_calls_justified [OF passed(2) passed(7)] show ?thesis by blast
qed auto

text \<open>The two triggers of the sample are called once each, \<open>t1\<close> first.\<close>

theorem event_calls_justified_witness:
  "calls (io_trace (snd (reconcile_found_event (sample_events (Some fake_invoker)) (sample_event empty_event_status) event_start))) \<noteq> [] \<and>
   (\<exists>t. io_trace (snd (reconcile_found_event (sample_events (Some fake_invoker)) (sample_event empty_event_status) event_start)) =
      io_trace event_start @ t \<and>
    (calls t \<noteq> [] \<longrightarrow> (\<exists>all body js.
       list_triggers (er_client (sample_events (Some fake_invoker))) ''default'' () = Inr all \<and>
       event_invocation_body (sample_events (Some fake_invoker)) (sample_event empty_event_status) = Inr body \<and>
       sorted_wrt (<) js \<and> length js = length (calls t) \<and>
       list_all (call_justified (sample_events (Some fake_invoker)) (sample_event empty_event_status) all body) (zip js (calls t)))))"
proof
  let ?R = "sample_events (Some fake_invoker)" and ?e = "sample_event empty_event_status"
  show "calls (io_trace (snd (reconcile_found_event ?R ?e event_start))) \<noteq> []" by code_simp
  obtain out s' where run: "reconcile_found_event ?R ?e event_start = (out, s')" by (metis prod.exhaust)
  have I: "er_invoker ?R = Some fake_invoker" by (simp add: sample_events_def)
  have ns: "om_namespace (ev_meta ?e) = ''default''" by (simp add: sample_event_def sample_meta_def)
  from event_calls_justified [OF run I fixed_listing_ok [OF sample_listing] sample_event_wf]
  show "\<exists>t. io_trace (snd (reconcile_found_event ?R ?e event_start)) = io_trace event_start @ t \<and>
    (calls t \<noteq> [] \<longrightarrow> (\<exists>all body js. list_triggers (er_client ?R) ''default'' () = Inr all \<and>
       event_invocation_body ?R ?e = Inr body \<and> sorted_wrt (<) js \<and> length js = length (calls t) \<and>
       list_all (call_justified ?R ?e all body) (zip js (calls t))))"
    by (simp add: run ns)
qed

text \<open>
  C2: at most one successful call per trigger. Over any number of reconciliations that end without an
  error, each reading back the status stored before it, while the triggers of the namespace do not change,
  each matching trigger is invoked without an error at most once, whatever else happens in between.
\<close>

theorem event_success_at_most_once:
  assumes "event_rounds R e0 e us" "er_invoker R = Some I"
    and "fixed_listing R (om_namespace (ev_meta e0)) all" "event_wf e0"
    and "length (routed_triggers all (es_event_type (ev_spec e0))) < 2 ^ 31"
    and "j < length (routed_triggers all (es_event_type (ev_spec e0)))"
  shows "trigger_successes j (concat us) \<le> 1"
  using event_rounds_successes [OF assms(1-4) refl assms(5,6)] by blast

theorem event_success_at_most_once_witness:
  "\<exists>e us. event_rounds (sample_events (Some fake_invoker)) (sample_event empty_event_status) e us \<and>
     trigger_successes 1 (concat us) = 1 \<and> trigger_successes 1 (concat us) \<le> 1 \<and> length us = 2"
proof -
  let ?R = "sample_events (Some fake_invoker)" and ?e = "sample_event empty_event_status"
  let ?ts = "[sample_trigger ''t2'', sample_trigger ''t1'']"
  obtain e us where run: "event_run ?R 2 ?e = (e, us, True)"
    and facts: "trigger_successes 1 (concat us) = 1" "length us = 2"
  proof -
    have "case event_run ?R 2 ?e of (e, us, ok) \<Rightarrow> ok \<and> trigger_successes 1 (concat us) = 1 \<and> length us = 2"
      by code_simp
    then show ?thesis using that by (cases "event_run ?R 2 ?e") auto
  qed
  have ts: "length (routed_triggers ?ts (es_event_type (ev_spec ?e))) = 2" by code_simp
  have "trigger_successes 1 (concat us) \<le> 1"
    by (rule event_success_at_most_once [OF event_run_rounds [OF run] _ sample_listing sample_event_wf, of fake_invoker])
      (simp_all add: ts sample_events_def)
  with event_run_rounds [OF run] facts show ?thesis by blast
qed

text \<open>
  C4: an event comes to its end. When every trigger's function is there and ready and the invoker is
  implemented, three reconciliations that end without an error leave the event \<open>Processed\<close> or \<open>Failed\<close>,
  whatever the invocations return.
\<close>

theorem event_reaches_end:
  assumes "event_rounds R e0 e us" "er_invoker R = Some I"
    and "fixed_listing R (om_namespace (ev_meta e0)) all" "event_wf e0"
    and "event_steady R I (om_namespace (ev_meta e0)) (routed_triggers all (es_event_type (ev_spec e0)))"
    and "3 \<le> length us"
  shows "event_is_terminal e"
  using event_rounds_tried [OF assms(1-4) refl assms(5)] assms(6)
  by (auto simp: event_done_def event_observed_def event_is_terminal_def)

theorem event_reaches_end_witness:
  "\<exists>e us. event_rounds (sample_events (Some failing_invoker)) (sample_event empty_event_status) e us \<and>
     length us = 3 \<and> event_is_terminal e \<and> est_phase (ev_status e) = EventPhaseFailed"
proof -
  let ?R = "sample_events (Some failing_invoker)" and ?e = "sample_event empty_event_status"
  let ?ts = "[sample_trigger ''t2'', sample_trigger ''t1'']"
  obtain e us where run: "event_run ?R 3 ?e = (e, us, True)"
    and facts: "length us = 3" "est_phase (ev_status e) = EventPhaseFailed"
  proof -
    have "case event_run ?R 3 ?e of (e, us, ok) \<Rightarrow> ok \<and> length us = 3 \<and> est_phase (ev_status e) = EventPhaseFailed"
      by code_simp
    then show ?thesis using that by (cases "event_run ?R 3 ?e") auto
  qed
  have "function_ready_for_invocation sample_lib (sample_function CondTrue)
      (invocation_target_for_function (sample_function CondTrue))" by code_simp
  then have "event_steady ?R failing_invoker (om_namespace (ev_meta ?e)) (routed_triggers ?ts (es_event_type (ev_spec ?e)))"
    by (simp add: event_steady_def sample_events_def sample_event_client_def sample_client_def failing_invoker_def)
  then have "event_is_terminal e"
    using facts(1) by (intro event_reaches_end [OF event_run_rounds [OF run] _ sample_listing sample_event_wf, of failing_invoker])
      (simp_all add: sample_events_def)
  with event_run_rounds [OF run] facts show ?thesis by blast
qed

section \<open>What is stored\<close>

text \<open>
  C19: the form of every status sent. It has exactly one invocation status per matched trigger, in the
  order of the names, with at most three attempts and the third only with the end of the trigger; it is
  for the generation read, its two conditions are there and say what the phase says, and nothing else of
  the event is changed. (With an invoker, for an event whose status has this form, in a namespace whose
  triggers have names of their own, with the laws of the condition library.)
\<close>

theorem event_status_form:
  assumes "reconcile_found_event R e s = (out, s')" "er_invoker R = Some I"
    and "listing_ok R (om_namespace (ev_meta e))" "event_wf e" "kube_lib_ok (er_lib R)"
    and "event_is_terminal e \<longrightarrow> event_agrees e"
  shows "\<exists>t. io_trace s' = io_trace s @ t \<and>
    (\<forall>g. StatusUpdate g \<in> set t \<longrightarrow> event_wf g \<and> event_agrees g \<and> ev_meta g = ev_meta e \<and> ev_spec g = ev_spec e \<and>
       est_observed_generation (ev_status g) = om_generation (ev_meta e))"
  using assms(1-4)
proof (cases rule: event_round_cases)
  case (ended t d)
  then have "event_wf g \<and> event_agrees g \<and> ev_meta g = ev_meta e \<and> ev_spec g = ev_spec e \<and>
      est_observed_generation (ev_status g) = om_generation (ev_meta e)" if "StatusUpdate g \<in> set t" for g
    using ended(4) [OF that] assms(5)
    by (simp add: event_wf_def event_agrees_def event_condition_status_def event_written_def)
  with ended(1) show ?thesis by blast
next
  case (passed t all body ps invs' err d s1)
  let ?g = "finished_event (er_lib R) (er_clock R (io_world s)) d"
  have "event_wf ?g" "event_agrees ?g" "event_written (er_lib R) e ?g"
    using passed(9,10) passed(14) [OF assms(5,6)] by (simp_all add: event_wf_def event_written_def)
  then have "event_wf g \<and> event_agrees g \<and> ev_meta g = ev_meta e \<and> ev_spec g = ev_spec e \<and>
      est_observed_generation (ev_status g) = om_generation (ev_meta e)" if "StatusUpdate g \<in> set t" for g
    using passed(4) [OF that]
    by (simp add: event_wf_def event_agrees_def event_condition_status_def event_written_def)
  with passed(1) show ?thesis by blast
qed auto

theorem event_status_form_witness:
  "\<exists>g. StatusUpdate g \<in> set (io_trace (snd (reconcile_found_event (sample_events (Some failing_invoker)) (sample_event empty_event_status) event_start))) \<and>
     event_wf g \<and> event_agrees g \<and> est_phase (ev_status g) = EventPhaseProcessing"
proof -
  let ?R = "sample_events (Some failing_invoker)" and ?e = "sample_event empty_event_status"
  obtain out s' where run: "reconcile_found_event ?R ?e event_start = (out, s')" by (metis prod.exhaust)
  have "list_ex (\<lambda>x. case x of StatusUpdate g \<Rightarrow> est_phase (ev_status g) = EventPhaseProcessing | _ \<Rightarrow> False)
      (io_trace (snd (reconcile_found_event ?R ?e event_start)))" by code_simp
  then obtain x where "x \<in> set (io_trace s')"
    "case x of StatusUpdate g \<Rightarrow> est_phase (ev_status g) = EventPhaseProcessing | _ \<Rightarrow> False"
    by (auto simp: run list_ex_iff)
  then obtain g where g: "StatusUpdate g \<in> set (io_trace s')" "est_phase (ev_status g) = EventPhaseProcessing"
    by (cases x rule: effect.exhaust) auto
  have "er_invoker ?R = Some failing_invoker" "kube_lib_ok (er_lib ?R)" "event_is_terminal ?e \<longrightarrow> event_agrees ?e"
    by (simp_all add: sample_events_def sample_lib_ok event_is_terminal_def sample_event_def empty_event_status_def)
  from event_status_form [OF run this(1) fixed_listing_ok [OF sample_listing] sample_event_wf this(2,3)] g
  have "event_wf g" "event_agrees g" by (auto simp: event_start_def start_io_def)
  with g show ?thesis by (auto simp: run)
qed



section \<open>Errors\<close>

text \<open>
  A namespace whose second function cannot be read right after an invocation: the world counts the
  invocations.
\<close>

definition flaky_client :: "nat kube_client" where
  "flaky_client = \<lparr>
     get_function = (\<lambda>ns n w. if n = ''g'' \<and> w = 1 then GetFailed (ErrorText ''timeout'') else Got (sample_function CondTrue)),
     get_application = (\<lambda>ns n w. NotFound), get_job = (\<lambda>ns n w. NotFound), get_event = (\<lambda>ns n w. NotFound),
     get_trigger = (\<lambda>ns n w. NotFound),
     list_triggers = (\<lambda>ns w. Inr [sample_trigger ''t1'',
       tr_spec_update (ts_function_ref_update (\<lambda>r. \<lparr>fr_name = ''g''\<rparr>)) (sample_trigger ''t2'')]),
     status_update_function = (\<lambda>x w. (None, w)), status_update_application = (\<lambda>x w. (None, w)),
     status_update_job = (\<lambda>x w. (None, w)), status_update_event = (\<lambda>x w. (None, w)),
     status_update_trigger = (\<lambda>x w. (None, w)),
     update_function = (\<lambda>x w. (None, w)), update_application = (\<lambda>x w. (None, w)),
     update_trigger = (\<lambda>x w. (None, w)), delete_event = (\<lambda>x w. (DeleteDone, w))\<rparr>"

definition flaky_events :: "nat event_reconciler" where
  "flaky_events = \<lparr>er_client = flaky_client, er_lib = sample_lib,
     er_invoker = Some \<lparr>inv_invoke = (\<lambda>rq w. ((empty_response, None), Suc w)), inv_requires_function_id = False\<rparr>,
     er_recorder = True, er_clock = (\<lambda>w. 100), er_json_error = (\<lambda>b. ''bad'')\<rparr>"

text \<open>
  A success may be forgotten. When the function of a later trigger cannot be read, the
  reconciliation ends with that error before any status is sent, so the trigger that was invoked
  successfully before it is invoked again by the next reconciliation.
\<close>

theorem event_success_forgotten:
  "let e = sample_event empty_event_status;
       (out, s1) = reconcile_found_event flaky_events e \<lparr>io_world = 0, io_trace = []\<rparr>;
       (out2, s2) = reconcile_found_event flaky_events (stored_event (io_trace s1) e) (s1\<lparr>io_trace := []\<rparr>)
   in out = Returned no_requeue (Some (ErrorText ''timeout'')) \<and> writes (io_trace s1) = [] \<and>
      trigger_successes 0 (io_trace s1) = 1 \<and> trigger_successes 0 (io_trace s2) = 1"
  by code_simp

text \<open>
  A reconciler without an invoker puts every matching trigger back to \<open>Pending\<close>, the succeeded
  ones too, and the message it stores is the one of the summary, not the one about the invoker.
\<close>

theorem event_reset_without_invoker:
  assumes "reconcile_found_event R e s = (out, s')" "er_invoker R = None" "io_trace s' = io_trace s @ t"
    and "est_phase (ev_status e) \<in> {EventPhaseUnset, EventPhasePending, EventPhaseProcessing}"
    and "is_function_event_type (es_event_type (ev_spec e))"
    and "list_triggers (er_client R) (om_namespace (ev_meta e)) (io_world s) = Inr all"
    and "routed_triggers all (es_event_type (ev_spec e)) \<noteq> []" "StatusUpdate g \<in> set t"
  shows "calls t = [] \<and> est_phase (ev_status g) = EventPhaseProcessing \<and>
    (\<forall>i \<in> set (est_invocations (ev_status g)). ei_phase i = EventInvocationPending) \<and>
    est_message (ev_status g) = ''FunctionEvent is processing matching trigger invocations.''"
proof -
  let ?ts = "routed_triggers all (es_event_type (ev_spec e))"
  let ?now = "er_clock R (io_world s)"
  let ?d = "mark_event_processing (er_lib R) ?now ''InvokerNotConfigured''
      ''FunctionEvent is waiting for an invoker.'' (pend_invocations (routed_desired e ?ts))"
  have fresh: "\<not> event_observed e EventPhaseProcessed" "\<not> event_observed e EventPhaseFailed"
    using assms(4) by (auto simp: event_observed_def)
  have "route_event R e ?now ?ts s = (out, s')"
    using assms(1,5,6,7) fresh
    by (cases ?ts) (simp_all add: reconcile_found_event_def matching_triggers_def Let_def)
  then have "finish_event R e ?now ?d event_retry_backoff s = (out, s')"
    by (simp add: route_event_def assms(2) Let_def routed_desired_def)
  then obtain u where u: "io_trace s' = io_trace s @ u" "calls u = []"
    "writes u = [] \<or> writes u = [StatusUpdate (e\<lparr>ev_status := ev_status (finished_event (er_lib R) ?now ?d)\<rparr>)]"
    by (rule finish_event_effects)
  with assms(3) have ut: "u = t" by simp
  with written_only [OF u(3), of g] assms(8) have g: "ev_status g = ev_status (summarize_event (er_lib R) ?now ?d)"
    by (simp add: finished_event_def status_simps)
  have invs: "est_invocations (ev_status ?d) = map (wait_invocation ''invoker is not configured'')
      (map (ensure_event_invocation (est_invocations (ev_status e))) ?ts)"
    by (simp add: status_simps pend_invocations_def)
  have none: "\<not> some_failed (est_invocations (ev_status ?d))" "\<not> all_succeeded (est_invocations (ev_status ?d))"
    using assms(7) by (auto simp: invs some_failed_def all_succeeded_def)
  then have "est_phase (ev_status g) = EventPhaseProcessing"
    unfolding g by (simp add: summarize_event_phase)
  moreover have "\<forall>i \<in> set (est_invocations (ev_status g)). ei_phase i = EventInvocationPending"
    unfolding g by (simp add: status_simps invs [unfolded status_simps] del: map_map)
  moreover have "est_message (ev_status g) = ''FunctionEvent is processing matching trigger invocations.''"
    using \<open>est_phase (ev_status g) = EventPhaseProcessing\<close>
    unfolding g by (auto simp: summarize_event_def Let_def status_simps mark_event_processing_def split: if_splits)
  ultimately show ?thesis using u(2) ut by simp
qed

theorem event_reset_without_invoker_witness:
  "\<exists>g. StatusUpdate g \<in> set (io_trace (snd (reconcile_found_event (sample_events None) (sample_event
        (empty_event_status\<lparr>est_invocations := [\<lparr>ei_trigger_name = ''t1'', ei_function_name = ''f'',
           ei_phase = EventInvocationSucceeded, ei_attempts = 1, ei_last_attempt = None, ei_message = []\<rparr>]\<rparr>)) event_start))) \<and>
     (\<forall>i \<in> set (est_invocations (ev_status g)). ei_phase i = EventInvocationPending)"
proof -
  let ?R = "sample_events None" and ?ts = "[sample_trigger ''t2'', sample_trigger ''t1'']"
  let ?e = "sample_event (empty_event_status\<lparr>est_invocations := [\<lparr>ei_trigger_name = ''t1'', ei_function_name = ''f'',
           ei_phase = EventInvocationSucceeded, ei_attempts = 1, ei_last_attempt = None, ei_message = []\<rparr>]\<rparr>)"
  obtain out s' where run: "reconcile_found_event ?R ?e event_start = (out, s')" by (metis prod.exhaust)
  have "list_ex (\<lambda>x. case x of StatusUpdate g \<Rightarrow> True | _ \<Rightarrow> False)
      (io_trace (snd (reconcile_found_event ?R ?e event_start)))" by code_simp
  then obtain x where "x \<in> set (io_trace s')" "case x of StatusUpdate g \<Rightarrow> True | _ \<Rightarrow> False"
    by (auto simp: run list_ex_iff)
  then obtain g where g: "StatusUpdate g \<in> set (io_trace s')" by (cases x rule: effect.exhaust) auto
  have facts: "er_invoker ?R = None" "io_trace s' = io_trace event_start @ io_trace s'"
    "est_phase (ev_status ?e) \<in> {EventPhaseUnset, EventPhasePending, EventPhaseProcessing}"
    "list_triggers (er_client ?R) (om_namespace (ev_meta ?e)) (io_world event_start) = Inr ?ts"
    by (simp_all add: sample_events_def sample_event_client_def sample_event_def empty_event_status_def event_start_def start_io_def)
  have "is_function_event_type (es_event_type (ev_spec ?e))" "routed_triggers ?ts (es_event_type (ev_spec ?e)) \<noteq> []"
    by code_simp+
  from event_reset_without_invoker [OF run facts(1-3) this(1) facts(4) this(2) g] g show ?thesis
    by (auto simp: run)
qed

section \<open>Time to live\<close>

lemma invoke_trigger_writes:
  assumes "invoke_trigger R I e body now k t i s = (r, s')"
  shows "\<exists>u. io_trace s' = io_trace s @ u \<and> writes u = []"
proof -
  have call: "\<exists>u. io_trace s1 = io_trace s @ u \<and> writes u = []" if "call_invoker I rq s = ((rsp, err), s1)" for rq rsp err s1
    using call_invoker_trace [OF that] by auto
  show ?thesis
    using assms by (auto simp: invoke_trigger_def Let_def split: if_splits get_result.splits prod.splits dest: call)
qed

lemma invoke_triggers_writes:
  "invoke_triggers R I e body now idx k ts invs delay s = (r, s') \<Longrightarrow> \<exists>u. io_trace s' = io_trace s @ u \<and> writes u = []"
proof (induction ts arbitrary: k invs delay s)
  case (Cons t ts)
  obtain x s1 where turn: "invoke_trigger R I e body now k t (invs ! idx (trigger_name t)) s = (x, s1)" by (metis prod.exhaust)
  from invoke_trigger_writes [OF turn] obtain u where u: "io_trace s1 = io_trace s @ u" "writes u = []" by blast
  have more: "\<exists>v. io_trace s' = io_trace s @ v \<and> writes v = []" if "\<exists>v. io_trace s' = io_trace s1 @ v \<and> writes v = []"
    using that u by auto
  show ?case
  proof (cases x)
    case (TurnError err)
    with Cons.prems turn u show ?thesis by (auto simp: Let_def)
  qed (use Cons.prems turn in \<open>auto simp: Let_def intro!: more dest!: Cons.IH\<close>)
qed simp

text \<open>Routing never deletes.\<close>

lemma route_event_keeps:
  assumes "route_event R e now ts s = (out, s')" "io_trace s' = io_trace s @ t"
  shows "ObjectDelete x \<notin> set t"
proof -
  have fin: "\<exists>u. io_trace s' = io_trace s1 @ u \<and> ObjectDelete x \<notin> set u"
    if "finish_event R e now d delay s1 = (out, s')" for d delay s1
    using that
  proof (rule finish_event_effects)
    fix u
    assume "io_trace s' = io_trace s1 @ u"
      "writes u = [] \<or> writes u = [StatusUpdate (e\<lparr>ev_status := ev_status (finished_event (er_lib R) now d)\<rparr>)]"
    then show ?thesis using mem_writes(3) [of x u] by auto
  qed
  have "\<exists>u. io_trace s' = io_trace s @ u \<and> ObjectDelete x \<notin> set u"
  proof (cases "er_invoker R")
    case None
    with assms(1) fin show ?thesis by (simp add: route_event_def Let_def)
  next
    case (Some I)
    let ?d = "routed_desired e ts"
    obtain err d delay s1 where inv: "invoke_matched_triggers R I e ?d ts now s = ((err, d, delay), s1)" by (metis prod.exhaust)
    then have "\<exists>u. io_trace s1 = io_trace s @ u \<and> writes u = []"
      by (auto simp: invoke_matched_triggers_def Let_def split: sum.splits prod.splits dest: invoke_triggers_writes)
    then obtain u where u: "io_trace s1 = io_trace s @ u" "writes u = []" by blast
    then have del: "ObjectDelete x \<notin> set u" using mem_writes(3) [of x u] by simp
    show ?thesis
    proof (cases "\<exists>d' delay'. finish_event R e now d' delay' s1 = (out, s')")
      case True
      with fin obtain v where "io_trace s' = io_trace s1 @ v" "ObjectDelete x \<notin> set v" by blast
      with u(1) del show ?thesis by (intro exI [of _ "u @ v"]) simp
    next
      case False
      with assms(1) Some inv have "s' = s1"
        by (auto simp: route_event_def Let_def routed_desired_def split: option.splits if_splits)
      with u(1) del show ?thesis by blast
    qed
  qed
  with assms(2) show ?thesis by auto
qed

definition event_expired :: "'w event_reconciler \<Rightarrow> function_event \<Rightarrow> 'w \<Rightarrow> bool" where
  "event_expired R e w \<longleftrightarrow> event_observed e EventPhaseProcessed \<and>
     (case (event_ttl e, find_status_condition (er_lib R) (est_conditions (ev_status e)) event_condition_processed) of
        (Some ttl, Some c) \<Rightarrow> c_status c = CondTrue \<and> c_last_transition c + ttl \<le> er_clock R w
      | _ \<Rightarrow> False)"

text \<open>
  C31: when an event is deleted. A reconciliation deletes the event exactly when its stored status says
  \<open>Processed\<close> for the current generation, it has a time to live, and that much time has passed since its
  \<open>Processed\<close> condition became true; what it deletes is the event it read.
\<close>

theorem event_deleted_iff_expired:
  assumes "reconcile_found_event R e s = (out, s')" "io_trace s' = io_trace s @ t"
  shows "ObjectDelete x \<in> set t \<longleftrightarrow> event_expired R e (io_world s) \<and> x = e"
proof -
  have upd: "ObjectDelete x \<notin> set t \<and> \<not> event_expired R e (io_world s)"
    if "update_event_status R e d s1 = (err, s')" "io_trace s1 = io_trace s @ u" "quiet u" "\<not> event_observed e EventPhaseProcessed" for d s1 err u
    using that(1)
  proof (rule update_event_status_effects)
    fix v
    assume "io_trace s' = io_trace s1 @ v" "writes v = [] \<or> writes v = [StatusUpdate (e\<lparr>ev_status := d\<rparr>)]"
    with that(2-4) assms(2) mem_writes(3) [of x v] mem_writes(3) [of x u] show ?thesis
      by (auto simp: quiet_def event_expired_def)
  qed
  show ?thesis
  proof (cases "event_observed e EventPhaseProcessed")
    case True
    with assms(1) have ttl: "reconcile_processed_ttl R e s = (out, s')" by (simp add: reconcile_found_event_def)
    show ?thesis
      using ttl assms(2) True
      by (auto simp: reconcile_processed_ttl_def event_expired_def perform_def Let_def
          split: option.splits if_splits prod.splits delete_result.splits)
  next
    case False
    from assms(1) show ?thesis
    proof (cases rule: reconcile_event_cases)
      case (invalid_type m err s1)
      then obtain u where "io_trace s1 = io_trace s @ u" "quiet u" by (auto simp: quiet_def)
      from upd [OF invalid_type(3) this False] show ?thesis by blast
    next
      case (unrouted all m err s1 d)
      then obtain u where "io_trace s1 = io_trace s @ u" "quiet u" by (auto simp: quiet_def)
      from upd [OF unrouted(5) this False] show ?thesis by blast
    next
      case (routed all)
      with route_event_keeps [OF routed(5) assms(2)] show ?thesis by (auto simp: event_expired_def)
    qed (use assms(2) False in \<open>auto simp: event_expired_def\<close>)
  qed
qed

theorem event_deleted_iff_expired_witness:
  "ObjectDelete (sample_event (empty_event_status\<lparr>est_observed_generation := 1, est_phase := EventPhaseProcessed,
      est_conditions := [sample_condition event_condition_processed CondTrue]\<rparr>)) \<in>
     set (io_trace (snd (reconcile_found_event
       (sample_events None\<lparr>er_clock := (\<lambda>w. 100 * second)\<rparr>)
       (sample_event (empty_event_status\<lparr>est_observed_generation := 1, est_phase := EventPhaseProcessed,
         est_conditions := [sample_condition event_condition_processed CondTrue]\<rparr>)) event_start)))"
proof -
  let ?R = "sample_events None\<lparr>er_clock := (\<lambda>w. 100 * second)\<rparr>"
  let ?e = "sample_event (empty_event_status\<lparr>est_observed_generation := 1, est_phase := EventPhaseProcessed,
      est_conditions := [sample_condition event_condition_processed CondTrue]\<rparr>)"
  obtain out s' where run: "reconcile_found_event ?R ?e event_start = (out, s')" by (metis prod.exhaust)
  have "event_expired ?R ?e (io_world event_start)" by code_simp
  moreover have "io_trace s' = io_trace event_start @ io_trace s'" by (simp add: event_start_def start_io_def)
  ultimately show ?thesis using event_deleted_iff_expired [OF run, of "io_trace s'" ?e] by (simp add: run)
qed

section \<open>The envelope\<close>

lemma optional_members_read:
  "list_all2 member_reads_as (optional_member k v) (if v = [] then [] else [(utf8_clean k, JString (utf8_clean v))])"
  by (simp add: optional_member_def member_reads_as_def string_reads_as)

text \<open>
  C20: the envelope is read back. Whatever function is invoked for an event receives a JSON object whose
  members, read by the parser, are the id of the event, its type, source and subject where they are
  not blank, and as payload the value that the payload of the event parses to (text that is not UTF-8
  is repaired).
\<close>

theorem event_body_read_back:
  assumes "event_invocation_body R e = Inr body"
  shows "\<exists>ms. parse_json body = Some (JObject ms) \<and>
    map_of ms ''id'' = Some (JString (utf8_clean (event_envelope_id e))) \<and>
    map_of ms ''eventType'' = Some (JString (utf8_clean (trim_space (es_event_type (ev_spec e))))) \<and>
    map_of ms ''source'' = (let x = trim_space (es_source (ev_spec e)) in if x = [] then None else Some (JString (utf8_clean x))) \<and>
    map_of ms ''subject'' = (let x = trim_space (es_subject (ev_spec e)) in if x = [] then None else Some (JString (utf8_clean x))) \<and>
    map_of ms ''payload'' = (if event_payload e = [] then None else parse_json (event_payload e))"
proof -
  let ?src = "trim_space (es_source (ev_spec e))" and ?sub = "trim_space (es_subject (ev_spec e))"
  let ?ms = "[(''id'', json_string (event_envelope_id e)),
      (''eventType'', json_string (trim_space (es_event_type (ev_spec e))))] @
      optional_member ''source'' ?src @ optional_member ''subject'' ?sub"
  let ?vs = "[(''id'', JString (utf8_clean (event_envelope_id e))),
      (''eventType'', JString (utf8_clean (trim_space (es_event_type (ev_spec e)))))] @
      (if ?src = [] then [] else [(''source'', JString (utf8_clean ?src))]) @
      (if ?sub = [] then [] else [(''subject'', JString (utf8_clean ?sub))])"
  have keys: "utf8_clean ''id'' = ''id''" "utf8_clean ''eventType'' = ''eventType''" "utf8_clean ''source'' = ''source''"
    "utf8_clean ''subject'' = ''subject''" "utf8_clean ''payload'' = ''payload''"
    by (intro utf8_clean_valid ascii_valid; simp)+
  have base: "list_all2 member_reads_as ?ms ?vs"
    using optional_members_read [of "''source''" ?src, unfolded keys] optional_members_read [of "''subject''" ?sub, unfolded keys]
    by (intro list_all2_appendI) (simp_all add: member_reads_as_def string_reads_as keys del: utf8_clean.simps)
  show ?thesis
  proof (cases "event_payload e = []")
    case True
    with assms have body: "body = json_object ?ms" by (simp add: event_invocation_body_def Let_def)
    from object_written [OF _ base] have "parse_json body = Some (JObject ?vs)" unfolding body by simp
    then show ?thesis using True by (intro exI [of _ ?vs]) (simp add: Let_def)
  next
    case False
    with assms obtain p where p: "marshal_raw (event_payload e) = Some p" "body = json_object (?ms @ [(''payload'', p)])"
      by (auto simp: event_invocation_body_def Let_def split: option.splits)
    from p(1) obtain v where v: "parse_json (event_payload e) = Some v"
      "reads_as p v" unfolding reads_as_def by (rule marshal_raw_value) blast
    have "list_all2 member_reads_as [(''payload'', p)] [(''payload'', v)]"
      using v(2) by (simp add: member_reads_as_def keys del: utf8_clean.simps)
    with base have "list_all2 member_reads_as (?ms @ [(''payload'', p)]) (?vs @ [(''payload'', v)])"
      by (rule list_all2_appendI)
    from object_written [OF _ this] have "parse_json body = Some (JObject (?vs @ [(''payload'', v)]))"
      unfolding p(2) by simp
    then show ?thesis using False v(1) by (intro exI [of _ "?vs @ [(''payload'', v)]"]) (simp add: Let_def)
  qed
qed

theorem event_body_read_back_witness:
  "\<exists>body ms. event_invocation_body (sample_events None) (sample_event empty_event_status) = Inr body \<and>
     parse_json body = Some (JObject ms) \<and> map_of ms ''id'' = Some (JString ''7'') \<and>
     map_of ms ''source'' = None \<and> map_of ms ''payload'' = Some (JObject [])"
proof -
  let ?R = "sample_events None" and ?e = "sample_event empty_event_status"
  have "case event_invocation_body ?R ?e of Inr b \<Rightarrow> True | Inl x \<Rightarrow> False" by code_simp
  then obtain body where body: "event_invocation_body ?R ?e = Inr body" by (cases "event_invocation_body ?R ?e") auto
  have facts: "event_payload ?e = ''{ }''" "event_envelope_id ?e = ''7''" "trim_space (es_source (ev_spec ?e)) = []"
    "parse_json ''{ }'' = Some (JObject [])" "utf8_clean ''7'' = ''7''"
    by code_simp+
  from event_body_read_back [OF body] body facts show ?thesis by (auto simp: Let_def)
qed

end
