(* ===== verification/EventRules.thy ===== *)
theory EventRules
  imports ApiTypes GoJson
begin

text \<open>
  \<open>internal/eventtrigger/eventtrigger.go\<close> and \<open>oci.go\<close>: the contract of an event rule manager, and the
  manager over the OCI Events SDK. The SDK client is a parameter record over the world; its operations
  return an error or their response. How \<open>encoding/json\<close> writes a number is the parameter \<open>or_number\<close>.
\<close>

section \<open>The manager and its contract (eventtrigger.go)\<close>

record desired_rule =
  dr_compartment_id :: string
  dr_display_name :: string
  dr_description :: string
  dr_is_enabled :: bool
  dr_condition_json :: string
  dr_function_id :: string
  dr_rule_id :: string
  dr_trigger_name :: string
  dr_namespace :: string
  dr_uid :: string

datatype rule_event_type = RuleEventNormal | RuleEventWarning

record rule_event =
  re_type :: rule_event_type
  re_reason :: string
  re_message :: string

record rule_state =
  rs_rule_id :: string
  rs_ready :: bool
  rs_message :: string
  rs_events :: "rule_event list"

definition empty_rule_state :: rule_state where
  "empty_rule_state = \<lparr>rs_rule_id = [], rs_ready = False, rs_message = [], rs_events = []\<rparr>"

record 'w rule_manager =
  rm_ensure_rule :: "desired_rule \<Rightarrow> 'w \<Rightarrow> (rule_state \<times> go_error option) \<times> 'w"
  rm_delete_rule :: "string \<Rightarrow> 'w \<Rightarrow> (rule_state \<times> go_error option) \<times> 'w"

text \<open>
  What a client may rely on: an operation that failed reports neither readiness nor events, one that
  succeeded comes with a message, and a rule whose deletion succeeded is reported as such.
\<close>

locale rule_contract =
  fixes M :: "'w rule_manager"
  assumes failed_ensure: "rm_ensure_rule M d w = ((st, Some e), w') \<Longrightarrow> \<not> rs_ready st \<and> rs_events st = []"
    and ensured_message: "rm_ensure_rule M d w = ((st, None), w') \<Longrightarrow> rs_message st \<noteq> []"
    and failed_delete: "rm_delete_rule M i w = ((st, Some e), w') \<Longrightarrow> \<not> rs_ready st \<and> rs_events st = []"
    and deleted: "rm_delete_rule M i w = ((st, None), w') \<Longrightarrow> rs_ready st \<and> rs_message st \<noteq> []"

section \<open>The SDK as a parameter\<close>

text \<open>An action of a rule: for a function, with its OCID, or another one; and whether it is enabled.\<close>

datatype rule_action = FaasAction "string option" "bool option" | OtherAction "bool option"

record sdk_rule =
  ru_id :: "string option"
  ru_display_name :: "string option"
  ru_description :: "string option"
  ru_is_enabled :: "bool option"
  ru_condition :: "string option"
  ru_lifecycle_state :: string
  ru_lifecycle_message :: "string option"
  ru_actions :: "rule_action list option"
  ru_freeform_tags :: "go_map option"

record rule_summary =
  su_id :: "string option"
  su_lifecycle_state :: string
  su_freeform_tags :: "go_map option"

record faas_action_details =
  fa_is_enabled :: bool
  fa_description :: string
  fa_function_id :: string

text \<open>The details of an update are those of a creation without the compartment.\<close>

record rule_details =
  rd_display_name :: string
  rd_description :: string
  rd_is_enabled :: bool
  rd_condition :: string
  rd_actions :: "faas_action_details list"
  rd_freeform_tags :: go_map

type_synonym ('a, 'w) rule_service = "'w \<Rightarrow> (go_error + 'a) \<times> 'w"

record 'w events_client =
  ev_set_region :: "string \<Rightarrow> 'w \<Rightarrow> 'w"
  ev_list_rules :: "string \<Rightarrow> string option \<Rightarrow> (rule_summary list \<times> string option, 'w) rule_service"
  ev_create_rule :: "string \<Rightarrow> rule_details \<Rightarrow> (sdk_rule, 'w) rule_service"
  ev_get_rule :: "string \<Rightarrow> (sdk_rule, 'w) rule_service"
  ev_update_rule :: "string \<Rightarrow> rule_details \<Rightarrow> (sdk_rule, 'w) rule_service"
  ev_delete_rule :: "string \<Rightarrow> (unit, 'w) rule_service"

text \<open>
  The manager value; \<open>or_page_bound\<close> bounds the pages of rules followed (the code's loop has no bound; a
  search that ends within the bound does not depend on it).
\<close>

record 'w oci_rules =
  or_configured :: bool
  or_client :: "'w events_client"
  or_number :: "string \<Rightarrow> string option"
  or_page_bound :: nat

section \<open>Small conversions\<close>

definition trimmed_value :: "string option \<Rightarrow> string" where
  "trimmed_value v = (case v of None \<Rightarrow> [] | Some s \<Rightarrow> trim_space s)"

definition true_value :: "bool option \<Rightarrow> bool" where
  "true_value v \<longleftrightarrow> v = Some True"

definition region_from_ocid :: "string \<Rightarrow> string" where
  "region_from_ocid ocid = (case split_char (CHR ''.'') ocid of
     p0 # p1 # p2 # p3 # ps \<Rightarrow> if contains_str p3 ''-'' then p3 else []
   | _ \<Rightarrow> [])"

definition rule_not_found :: "go_error \<Rightarrow> bool" where
  "rule_not_found e = has_service_status e 404"

definition normalize_json :: "(string \<Rightarrow> string option) \<Rightarrow> string \<Rightarrow> string option" where
  "normalize_json num s = map_option json_render (json_unmarshal num s)"

definition same_condition_json :: "(string \<Rightarrow> string option) \<Rightarrow> string \<Rightarrow> string \<Rightarrow> bool" where
  "same_condition_json num a b =
     (case (normalize_json num a, normalize_json num b) of
        (Some x, Some y) \<Rightarrow> x = y
      | _ \<Rightarrow> trim_space a = trim_space b)"

definition trigger_name_tag :: string where "trigger_name_tag = ''oci-functions-operator-trigger-name''"
definition trigger_namespace_tag :: string where "trigger_namespace_tag = ''oci-functions-operator-trigger-namespace''"
definition trigger_uid_tag :: string where "trigger_uid_tag = ''oci-functions-operator-trigger-uid''"

definition managed_tags :: "desired_rule \<Rightarrow> go_map" where
  "managed_tags d =
     [(trigger_name_tag, dr_trigger_name d), (trigger_namespace_tag, dr_namespace d), (trigger_uid_tag, dr_uid d)]"

text \<open>A missing key of a Go map reads as the empty string.\<close>

definition tag_value :: "go_map option \<Rightarrow> string \<Rightarrow> string" where
  "tag_value tags key = (case Option.bind tags (\<lambda>m. map_of m key) of None \<Rightarrow> [] | Some v \<Rightarrow> v)"

definition summary_matches_trigger :: "rule_summary \<Rightarrow> desired_rule \<Rightarrow> bool" where
  "summary_matches_trigger s d \<longleftrightarrow>
     tag_value (su_freeform_tags s) trigger_uid_tag = dr_uid d \<and>
     tag_value (su_freeform_tags s) trigger_name_tag = dr_trigger_name d \<and>
     tag_value (su_freeform_tags s) trigger_namespace_tag = dr_namespace d"

definition validate_desired_rule :: "desired_rule \<Rightarrow> go_error option" where
  "validate_desired_rule d =
     (if trim_space (dr_compartment_id d) = [] then Some (ErrorText ''FunctionEventTrigger requires spec.compartmentId'')
      else if trim_space (dr_display_name d) = [] then Some (ErrorText ''FunctionEventTrigger requires spec.displayName'')
      else if trim_space (dr_condition_json d) = [] then Some (ErrorText ''FunctionEventTrigger requires spec.condition'')
      else if trim_space (dr_function_id d) = [] then
        Some (ErrorText ''FunctionEventTrigger requires referenced Function status.functionId'')
      else if trim_space (dr_trigger_name d) = [] then Some (ErrorText ''FunctionEventTrigger metadata.name is required'')
      else if trim_space (dr_namespace d) = [] then
        Some (ErrorText ''FunctionEventTrigger metadata.namespace is required'')
      else if trim_space (dr_uid d) = [] then Some (ErrorText ''FunctionEventTrigger metadata.uid is required'')
      else None)"

section \<open>Reading a rule\<close>

definition is_faas :: "rule_action \<Rightarrow> bool" where
  "is_faas a = (case a of FaasAction i b \<Rightarrow> True | OtherAction b \<Rightarrow> False)"

definition first_faas :: "sdk_rule \<Rightarrow> rule_action option" where
  "first_faas r = Option.bind (ru_actions r) (find is_faas)"

definition rule_function_id :: "sdk_rule \<Rightarrow> string" where
  "rule_function_id r = (case first_faas r of Some (FaasAction i b) \<Rightarrow> trimmed_value i | _ \<Rightarrow> [])"

definition rule_action_enabled :: "sdk_rule \<Rightarrow> bool" where
  "rule_action_enabled r = (case first_faas r of Some (FaasAction i b) \<Rightarrow> true_value b | _ \<Rightarrow> False)"

definition rule_ready :: "sdk_rule \<Rightarrow> bool" where
  "rule_ready r \<longleftrightarrow> ru_lifecycle_state r = ''ACTIVE'' \<or> ru_lifecycle_state r = ''INACTIVE''"

definition rule_state_message :: "sdk_rule \<Rightarrow> string \<Rightarrow> string" where
  "rule_state_message r fallback =
     (let message = trim_space (trimmed_value (ru_lifecycle_message r)) in
      if message \<noteq> [] then message
      else if ru_lifecycle_state r = ''CREATING'' \<or> ru_lifecycle_state r = ''UPDATING'' then
        ''OCI Events rule '' @ go_quote (trimmed_value (ru_display_name r)) @ '' is '' @ ru_lifecycle_state r @ ''.''
      else if ru_lifecycle_state r = ''FAILED'' then
        ''OCI Events rule '' @ go_quote (trimmed_value (ru_display_name r)) @ '' is FAILED.''
      else fallback)"

definition rule_needs_update :: "(string \<Rightarrow> string option) \<Rightarrow> sdk_rule \<Rightarrow> desired_rule \<Rightarrow> bool" where
  "rule_needs_update num r d =
     (if trimmed_value (ru_display_name r) \<noteq> dr_display_name d then True
      else if trimmed_value (ru_description r) \<noteq> dr_description d then True
      else if true_value (ru_is_enabled r) \<noteq> dr_is_enabled d then True
      else if \<not> same_condition_json num (trimmed_value (ru_condition r)) (dr_condition_json d) then True
      else if \<not> (case ru_freeform_tags r of None \<Rightarrow> False | Some tags \<Rightarrow> same_map tags (managed_tags d)) then True
      else rule_function_id r \<noteq> dr_function_id d \<or> rule_action_enabled r \<noteq> dr_is_enabled d)"

section \<open>Finding and writing a rule\<close>

definition desired_rule_details :: "desired_rule \<Rightarrow> rule_details" where
  "desired_rule_details d =
     \<lparr>rd_display_name = dr_display_name d, rd_description = dr_description d, rd_is_enabled = dr_is_enabled d,
      rd_condition = dr_condition_json d,
      rd_actions = [\<lparr>fa_is_enabled = dr_is_enabled d, fa_description = ''Invoke OCI Function '' @ dr_function_id d,
        fa_function_id = dr_function_id d\<rparr>],
      rd_freeform_tags = managed_tags d\<rparr>"

definition gone_rule :: "rule_summary \<Rightarrow> bool" where
  "gone_rule s \<longleftrightarrow> su_lifecycle_state s = ''DELETED'' \<or> su_lifecycle_state s = ''DELETING''"

text \<open>The first summary of a page that the loop does not skip.\<close>

definition adopted_summary :: "desired_rule \<Rightarrow> rule_summary list \<Rightarrow> rule_summary option" where
  "adopted_summary d items =
     find (\<lambda>s. \<not> gone_rule s \<and> summary_matches_trigger s d \<and> trimmed_value (su_id s) \<noteq> []) items"

definition rule_page_bound_error :: go_error where
  "rule_page_bound_error = ErrorText ''page bound reached''"

definition get_found_rule :: "'w events_client \<Rightarrow> string \<Rightarrow> (sdk_rule option, 'w) rule_service" where
  "get_found_rule C i w =
     (case ev_get_rule C i w of
        (Inl e, w1) \<Rightarrow> (Inl (WrapError (''get OCI Events rule '' @ i) e), w1)
      | (Inr r, w1) \<Rightarrow> (Inr (Some r), w1))"

fun search_rules :: "nat \<Rightarrow> 'w events_client \<Rightarrow> desired_rule \<Rightarrow> string option \<Rightarrow> (sdk_rule option, 'w) rule_service" where
  "search_rules 0 C d page w = (Inl rule_page_bound_error, w)"
| "search_rules (Suc n) C d page w =
     (case ev_list_rules C (dr_compartment_id d) page w of
        (Inl e, w1) \<Rightarrow>
          (Inl (WrapError (''list OCI Events rules in compartment '' @ dr_compartment_id d) e), w1)
      | (Inr (items, next_page), w1) \<Rightarrow>
          (case adopted_summary d items of
             Some s \<Rightarrow> get_found_rule C (trimmed_value (su_id s)) w1
           | None \<Rightarrow>
               if next_page = None \<or> next_page = Some [] then (Inr None, w1)
               else search_rules n C d next_page w1))"

definition find_rule :: "'w oci_rules \<Rightarrow> desired_rule \<Rightarrow> (sdk_rule option, 'w) rule_service" where
  "find_rule I d w =
     (let C = or_client I in
      if dr_rule_id d \<noteq> [] then
        (case ev_get_rule C (dr_rule_id d) w of
           (Inr r, w1) \<Rightarrow> (Inr (Some r), w1)
         | (Inl e, w1) \<Rightarrow>
             if \<not> rule_not_found e then (Inl (WrapError (''get OCI Events rule '' @ dr_rule_id d) e), w1)
             else search_rules (or_page_bound I) C d None w1)
      else search_rules (or_page_bound I) C d None w)"

section \<open>The operations\<close>

definition rules_not_configured :: go_error where
  "rules_not_configured = ErrorText ''oci events manager is not configured''"

definition rule_normal :: "string \<Rightarrow> string \<Rightarrow> rule_event" where
  "rule_normal reason message = \<lparr>re_type = RuleEventNormal, re_reason = reason, re_message = message\<rparr>"

definition observed_rule :: "sdk_rule \<Rightarrow> string \<Rightarrow> rule_event list \<Rightarrow> rule_state" where
  "observed_rule r fallback events =
     \<lparr>rs_rule_id = trimmed_value (ru_id r), rs_ready = rule_ready r,
      rs_message = rule_state_message r fallback, rs_events = events\<rparr>"

definition oci_ensure_rule ::
    "'w oci_rules \<Rightarrow> desired_rule \<Rightarrow> 'w \<Rightarrow> (rule_state \<times> go_error option) \<times> 'w" where
  "oci_ensure_rule I d w =
     (if \<not> or_configured I then ((empty_rule_state, Some rules_not_configured), w)
      else case validate_desired_rule d of
        Some e \<Rightarrow> ((empty_rule_state, Some e), w)
      | None \<Rightarrow>
          (let C = or_client I; region = region_from_ocid (dr_compartment_id d);
               w1 = (if region \<noteq> [] then ev_set_region C region w else w);
               target = go_quote (dr_display_name d) @ '' targeting Function '' @ dr_function_id d @ ''.''
           in case find_rule I d w1 of
                (Inl e, w2) \<Rightarrow> ((empty_rule_state, Some e), w2)
              | (Inr None, w2) \<Rightarrow>
                  (case ev_create_rule C (dr_compartment_id d) (desired_rule_details d) w2 of
                     (Inl e, w3) \<Rightarrow>
                       ((empty_rule_state, Some (WrapError (''create OCI Events rule '' @ go_quote (dr_display_name d)) e)), w3)
                   | (Inr r, w3) \<Rightarrow>
                       ((observed_rule r ''OCI Events rule created.''
                           [rule_normal ''RuleCreated'' (''Created OCI Events rule '' @ target)], None), w3))
              | (Inr (Some r), w2) \<Rightarrow>
                  if rule_needs_update (or_number I) r d then
                    (case ev_update_rule C (trimmed_value (ru_id r)) (desired_rule_details d) w2 of
                       (Inl e, w3) \<Rightarrow>
                         ((empty_rule_state\<lparr>rs_rule_id := trimmed_value (ru_id r)\<rparr>,
                           Some (WrapError (''update OCI Events rule '' @ trimmed_value (ru_id r)) e)), w3)
                     | (Inr u, w3) \<Rightarrow>
                         ((observed_rule u ''OCI Events rule updated.''
                             [rule_normal ''RuleUpdated'' (''Updated OCI Events rule '' @ target)], None), w3))
                  else ((observed_rule r ''OCI Events rule is ready.'' [], None), w2)))"

definition oci_delete_rule ::
    "'w oci_rules \<Rightarrow> string \<Rightarrow> 'w \<Rightarrow> (rule_state \<times> go_error option) \<times> 'w" where
  "oci_delete_rule I rule_id w =
     (let i = trim_space rule_id in
      if \<not> or_configured I then ((empty_rule_state, Some rules_not_configured), w)
      else if i = [] then
        ((empty_rule_state\<lparr>rs_ready := True, rs_message := ''OCI Events rule was not created.''\<rparr>, None), w)
      else case ev_delete_rule (or_client I) i w of
        (Inl e, w1) \<Rightarrow>
          if rule_not_found e then
            ((empty_rule_state\<lparr>rs_rule_id := i, rs_ready := True, rs_message := ''OCI Events rule was already deleted.''\<rparr>,
              None), w1)
          else ((empty_rule_state\<lparr>rs_rule_id := i\<rparr>, Some (WrapError (''delete OCI Events rule '' @ i) e)), w1)
      | (Inr u, w1) \<Rightarrow>
          ((\<lparr>rs_rule_id = i, rs_ready = True, rs_message = ''OCI Events rule deleted.'',
             rs_events = [rule_normal ''RuleDeleted'' (''Deleted OCI Events rule '' @ i @ ''.'')]\<rparr>, None), w1))"

definition oci_rule_manager :: "'w oci_rules \<Rightarrow> 'w rule_manager" where
  "oci_rule_manager I = \<lparr>rm_ensure_rule = oci_ensure_rule I, rm_delete_rule = oci_delete_rule I\<rparr>"

section \<open>The OCI manager meets the contract\<close>

lemma rule_state_message_set: "fallback \<noteq> [] \<Longrightarrow> rule_state_message r fallback \<noteq> []"
  by (simp add: rule_state_message_def Let_def)

lemma oci_ensure_rule_facts:
  assumes "oci_ensure_rule I d w = ((st, err), w')"
  shows "err \<noteq> None \<Longrightarrow> \<not> rs_ready st \<and> rs_events st = []" "err = None \<Longrightarrow> rs_message st \<noteq> []"
proof -
  have "(err \<noteq> None \<longrightarrow> \<not> rs_ready st \<and> rs_events st = []) \<and> (err = None \<longrightarrow> rs_message st \<noteq> [])"
    using assms unfolding oci_ensure_rule_def Let_def
    by (auto simp: empty_rule_state_def observed_rule_def rule_state_message_set
        split: if_splits option.splits prod.splits sum.splits)
  then show "err \<noteq> None \<Longrightarrow> \<not> rs_ready st \<and> rs_events st = []" "err = None \<Longrightarrow> rs_message st \<noteq> []"
    by simp_all
qed

interpretation oci_rules: rule_contract "oci_rule_manager I" for I :: "'w oci_rules"
proof
  fix d w w' st e i
  show "rm_ensure_rule (oci_rule_manager I) d w = ((st, Some e), w') \<Longrightarrow> \<not> rs_ready st \<and> rs_events st = []"
    using oci_ensure_rule_facts(1) [of I d w st "Some e" w'] by (simp add: oci_rule_manager_def)
  show "rm_ensure_rule (oci_rule_manager I) d w = ((st, None), w') \<Longrightarrow> rs_message st \<noteq> []"
    using oci_ensure_rule_facts(2) [of I d w st None w'] by (simp add: oci_rule_manager_def)
  show "rm_delete_rule (oci_rule_manager I) i w = ((st, Some e), w') \<Longrightarrow> \<not> rs_ready st \<and> rs_events st = []"
    "rm_delete_rule (oci_rule_manager I) i w = ((st, None), w') \<Longrightarrow> rs_ready st \<and> rs_message st \<noteq> []"
    by (auto simp: oci_rule_manager_def oci_delete_rule_def Let_def empty_rule_state_def
        split: if_splits prod.splits sum.splits)
qed

end
