(* ===== verification/RuleLemmas.thy ===== *)
theory RuleLemmas
  imports EventRules
begin

text \<open>
  Facts about the OCI Events rule manager: pages of a listing, what makes a rule up to date, and what a
  successful \<open>EnsureRule\<close> leaves behind. What the service is documented to do is stated by the
  predicates \<open>lists_pages\<close>, \<open>stores_rules\<close> and \<open>keeps_rule\<close>.
\<close>

section \<open>Searching page by page\<close>

text \<open>From the page token on, the service lists these pages and changes nothing.\<close>

fun lists_pages :: "'w events_client \<Rightarrow> string \<Rightarrow> string option \<Rightarrow> 'w \<Rightarrow> rule_summary list list \<Rightarrow> bool" where
  "lists_pages C compartment page w [] \<longleftrightarrow> False"
| "lists_pages C compartment page w (items # rest) \<longleftrightarrow>
     (case ev_list_rules C compartment page w of
        (Inr (items', next_page), w') \<Rightarrow> items' = items \<and> w' = w \<and>
          (if next_page = None \<or> next_page = Some [] then rest = []
           else lists_pages C compartment next_page w rest)
      | _ \<Rightarrow> False)"

lemma adopted_append:
  "adopted_summary d (xs @ ys) = (case adopted_summary d xs of None \<Rightarrow> adopted_summary d ys | Some s \<Rightarrow> Some s)"
  by (simp add: adopted_summary_def find_append split: option.split)

lemma search_rules_concat:
  assumes "lists_pages C (dr_compartment_id d) page w pages" "length pages \<le> n"
  shows "search_rules n C d page w =
    (case adopted_summary d (concat pages) of
       None \<Rightarrow> (Inr None, w)
     | Some s \<Rightarrow> get_found_rule C (trimmed_value (su_id s)) w)"
  using assms
proof (induction pages arbitrary: page n)
  case (Cons items rest)
  from Cons.prems(1) obtain next_page where list: "ev_list_rules C (dr_compartment_id d) page w = (Inr (items, next_page), w)"
    and tail: "if next_page = None \<or> next_page = Some [] then rest = []
      else lists_pages C (dr_compartment_id d) next_page w rest"
    by (auto split: prod.splits sum.splits)
  from Cons.prems(2) obtain m where n: "n = Suc m" "length rest \<le> m" by (cases n) auto
  show ?case
  proof (cases "next_page = None \<or> next_page = Some []")
    case True
    with tail list n show ?thesis by (auto simp: adopted_append adopted_summary_def split: option.splits)
  next
    case False
    with tail have rest: "lists_pages C (dr_compartment_id d) next_page w rest" by simp
    from Cons.IH [OF rest n(2)] False list n(1) show ?thesis
      by (auto simp: adopted_append split: option.splits)
  qed
qed simp

lemma adopted_some:
  assumes "adopted_summary d xs = Some s"
  shows "s \<in> set xs" "summary_matches_trigger s d" "\<not> gone_rule s" "trimmed_value (su_id s) \<noteq> []"
  using find_Some_member [OF assms [unfolded adopted_summary_def]] by simp_all

lemma adopted_none:
  "adopted_summary d xs = None \<longleftrightarrow>
     (\<forall>s \<in> set xs. gone_rule s \<or> \<not> summary_matches_trigger s d \<or> trimmed_value (su_id s) = [])"
  unfolding adopted_summary_def find_None_all by blast

section \<open>Rules that are up to date\<close>

lemma rule_up_to_date_iff:
  "\<not> rule_needs_update num r d \<longleftrightarrow>
     trimmed_value (ru_display_name r) = dr_display_name d \<and>
     trimmed_value (ru_description r) = dr_description d \<and>
     true_value (ru_is_enabled r) = dr_is_enabled d \<and>
     same_condition_json num (trimmed_value (ru_condition r)) (dr_condition_json d) \<and>
     (\<exists>tags. ru_freeform_tags r = Some tags \<and> map_of tags = map_of (managed_tags d)) \<and>
     rule_function_id r = dr_function_id d \<and> rule_action_enabled r = dr_is_enabled d"
  by (auto simp: rule_needs_update_def same_map_iff split: option.splits if_splits)

lemma managed_tags_rule_id [simp]: "managed_tags (d\<lparr>dr_rule_id := i\<rparr>) = managed_tags d"
  by (simp add: managed_tags_def)

lemma same_condition_json_refl [simp]: "same_condition_json num s s"
  by (simp add: same_condition_json_def split: option.splits)

text \<open>The rule in a response shows the details that were sent.\<close>

definition shows_details :: "sdk_rule \<Rightarrow> rule_details \<Rightarrow> bool" where
  "shows_details r x \<longleftrightarrow>
     trimmed_value (ru_id r) \<noteq> [] \<and> ru_display_name r = Some (rd_display_name x) \<and>
     ru_description r = Some (rd_description x) \<and> ru_is_enabled r = Some (rd_is_enabled x) \<and>
     ru_condition r = Some (rd_condition x) \<and>
     (\<exists>tags. ru_freeform_tags r = Some tags \<and> map_of tags = map_of (rd_freeform_tags x)) \<and>
     ru_actions r = Some (map (\<lambda>a. FaasAction (Some (fa_function_id a)) (Some (fa_is_enabled a))) (rd_actions x))"

definition stores_rules :: "'w events_client \<Rightarrow> bool" where
  "stores_rules C \<longleftrightarrow>
     (\<forall>c x w r w'. ev_create_rule C c x w = (Inr r, w') \<longrightarrow> shows_details r x) \<and>
     (\<forall>i x w r w'. ev_update_rule C i x w = (Inr r, w') \<longrightarrow> shows_details r x) \<and>
     (\<forall>i w r w'. ev_get_rule C i w = (Inr r, w') \<longrightarrow> trimmed_value (ru_id r) \<noteq> [])"

text \<open>A desired rule whose texts carry no outer white space, as the trigger controller makes them.\<close>

definition trimmed_rule :: "desired_rule \<Rightarrow> bool" where
  "trimmed_rule d \<longleftrightarrow> list_all (\<lambda>s. trim_space s = s)
     [dr_display_name d, dr_description d, dr_condition_json d, dr_function_id d]"

lemma shown_up_to_date:
  assumes "shows_details r (desired_rule_details d)" "trimmed_rule d"
  shows "\<not> rule_needs_update num r d"
  using assms
  by (auto simp: rule_up_to_date_iff shows_details_def desired_rule_details_def trimmed_rule_def trimmed_value_def
      true_value_def rule_function_id_def rule_action_enabled_def first_faas_def is_faas_def)

section \<open>A successful EnsureRule\<close>

definition region_world :: "'w oci_rules \<Rightarrow> desired_rule \<Rightarrow> 'w \<Rightarrow> 'w" where
  "region_world I d w =
     (if region_from_ocid (dr_compartment_id d) \<noteq> []
      then ev_set_region (or_client I) (region_from_ocid (dr_compartment_id d)) w else w)"

lemma found_rule_read:
  assumes "find_rule I d w = (Inr (Some r), w')"
  shows "\<exists>i w1. ev_get_rule (or_client I) i w1 = (Inr r, w')"
proof -
  have get: "\<exists>w1. ev_get_rule (or_client I) i w1 = (Inr r, w')"
    if "get_found_rule (or_client I) i w0 = (Inr (Some r), w')" for i w0
    using that by (auto simp: get_found_rule_def split: prod.splits sum.splits)
  have search: "\<exists>i w1. ev_get_rule (or_client I) i w1 = (Inr r, w')"
    if "search_rules n (or_client I) d page w0 = (Inr (Some r), w')" for n page w0
    using that
  proof (induction n arbitrary: page w0)
    case (Suc n)
    then show ?case by (auto split: prod.splits sum.splits option.splits if_splits) (metis get)
  qed simp
  show ?thesis
    using assms unfolding find_rule_def Let_def
    by (auto split: if_splits prod.splits sum.splits dest: search)
qed

lemma ensure_cases:
  assumes "oci_ensure_rule I d w = ((st, None), w')"
  obtains (created) w1 r where "find_rule I d (region_world I d w) = (Inr None, w1)"
      "ev_create_rule (or_client I) (dr_compartment_id d) (desired_rule_details d) w1 = (Inr r, w')"
      "rs_rule_id st = trimmed_value (ru_id r)" "rs_ready st = rule_ready r"
  | (updated) w1 r0 r where "find_rule I d (region_world I d w) = (Inr (Some r0), w1)"
      "rule_needs_update (or_number I) r0 d"
      "ev_update_rule (or_client I) (trimmed_value (ru_id r0)) (desired_rule_details d) w1 = (Inr r, w')"
      "rs_rule_id st = trimmed_value (ru_id r)" "rs_ready st = rule_ready r"
  | (kept) r where "find_rule I d (region_world I d w) = (Inr (Some r), w')"
      "\<not> rule_needs_update (or_number I) r d"
      "rs_rule_id st = trimmed_value (ru_id r)" "rs_ready st = rule_ready r" "rs_events st = []"
  using assms unfolding oci_ensure_rule_def Let_def region_world_def [symmetric]
  by (auto simp: observed_rule_def split: if_splits option.splits prod.splits sum.splits)

lemma ensure_configured:
  "oci_ensure_rule I d w = ((st, None), w') \<Longrightarrow> or_configured I \<and> validate_desired_rule d = None"
  by (auto simp: oci_ensure_rule_def split: if_splits option.splits)

text \<open>The service has just returned this rule, leaving this world.\<close>

definition returned_rule :: "'w events_client \<Rightarrow> sdk_rule \<Rightarrow> 'w \<Rightarrow> bool" where
  "returned_rule C r w' \<longleftrightarrow> (\<exists>c x w. ev_create_rule C c x w = (Inr r, w')) \<or>
     (\<exists>i x w. ev_update_rule C i x w = (Inr r, w')) \<or> (\<exists>i w. ev_get_rule C i w = (Inr r, w'))"

text \<open>The rule reported after a success is the desired one.\<close>

lemma ensured_rule_up_to_date:
  assumes "oci_ensure_rule I d w = ((st, None), w')" "stores_rules (or_client I)" "trimmed_rule d"
  obtains r where "\<not> rule_needs_update (or_number I) r d" "rs_rule_id st = trimmed_value (ru_id r)"
    "rs_ready st = rule_ready r" "trimmed_value (ru_id r) \<noteq> []"
    "returned_rule (or_client I) r w'"
  using assms(1)
proof (cases rule: ensure_cases)
  case (created w1 r)
  from assms(2) created(2) have "shows_details r (desired_rule_details d)" unfolding stores_rules_def by meson
  with created show ?thesis
    by (intro that [of r]) (auto simp: shown_up_to_date assms(3) shows_details_def returned_rule_def)
next
  case (updated w1 r0 r)
  from assms(2) updated(3) have "shows_details r (desired_rule_details d)" unfolding stores_rules_def by meson
  with updated show ?thesis
    by (intro that [of r]) (auto simp: shown_up_to_date assms(3) shows_details_def returned_rule_def)
next
  case (kept r)
  from found_rule_read [OF kept(1)] obtain i w1 where get: "ev_get_rule (or_client I) i w1 = (Inr r, w')" by blast
  with assms(2) have "trimmed_value (ru_id r) \<noteq> []" unfolding stores_rules_def by meson
  with kept get show ?thesis by (intro that [of r]) (auto simp: returned_rule_def)
qed

text \<open>A rule the service has just returned is still read by its id, in the rule's region.\<close>

definition keeps_rule :: "'w oci_rules \<Rightarrow> desired_rule \<Rightarrow> 'w \<Rightarrow> bool" where
  "keeps_rule I d w' \<longleftrightarrow> (\<forall>r. returned_rule (or_client I) r w' \<longrightarrow>
     (\<exists>w''. ev_get_rule (or_client I) (trimmed_value (ru_id r)) (region_world I d w') = (Inr r, w'')))"

lemma ensure_up_to_date:
  assumes "or_configured I" "validate_desired_rule d = None" "dr_rule_id d \<noteq> []"
    and "ev_get_rule (or_client I) (dr_rule_id d) (region_world I d w) = (Inr r, w')"
    and "\<not> rule_needs_update (or_number I) r d"
  shows "oci_ensure_rule I d w = ((observed_rule r ''OCI Events rule is ready.'' [], None), w')"
  using assms unfolding oci_ensure_rule_def Let_def region_world_def [symmetric]
  by (simp add: find_rule_def Let_def)

end
