(* ===== verification/TriggerCondition.thy ===== *)
theory TriggerCondition
  imports ApiTypes GoErrors GoJson
begin

text \<open>
  The condition of an OCI Events rule, made from a trigger's spec (\<open>functioneventtrigger_controller.go\<close>:
  \<open>conditionJSONFromSpec\<close> and the normalisation and validation under it). Errors are texts. Go reads the
  members of an object in no fixed order; the model takes the order of the keys, which only matters for
  which of several errors is reported. The texts of \<open>encoding/json\<close>'s own errors are the argument \<open>bad\<close>.
\<close>

definition raw_bytes :: "raw_extension option \<Rightarrow> string" where
  "raw_bytes raw = (case Option.bind raw id of None \<Rightarrow> [] | Some b \<Rightarrow> b)"

definition index_path :: "string \<Rightarrow> nat \<Rightarrow> string" where
  "index_path path i = path @ ''['' @ show_nat i @ '']''"

text \<open>\<open>collapse\<close> turns an array of one value into that value, but not inside another array.\<close>

fun normalize_condition_data :: "string \<Rightarrow> bool \<Rightarrow> json \<Rightarrow> string + json"
  and normalize_condition_list :: "string \<Rightarrow> nat \<Rightarrow> json list \<Rightarrow> string + json list"
  and normalize_condition_members :: "string \<Rightarrow> bool \<Rightarrow> (string \<times> json) list \<Rightarrow> string + (string \<times> json) list" where
  "normalize_condition_data path collapse (JObject ms) =
     (case normalize_condition_members path collapse ms of Inl e \<Rightarrow> Inl e | Inr ms' \<Rightarrow> Inr (JObject ms'))"
| "normalize_condition_data path collapse (JArray vs) =
     (if vs = [] then
        Inl (path @ '' is an empty array; OCI Events condition arrays must contain at least one value'')
      else case normalize_condition_list path 0 vs of
        Inl e \<Rightarrow> Inl e
      | Inr ws \<Rightarrow> if collapse \<and> length ws = 1 then Inr (hd ws) else Inr (JArray ws))"
| "normalize_condition_data path collapse JNull =
     Inl (path @ '' is null; OCI Events condition values must not be null'')"
| "normalize_condition_data path collapse v = Inr v"
| "normalize_condition_list path i [] = Inr []"
| "normalize_condition_list path i (v # vs) =
     (case normalize_condition_data (index_path path i) False v of
        Inl e \<Rightarrow> Inl e
      | Inr w \<Rightarrow>
          (case normalize_condition_list path (Suc i) vs of Inl e \<Rightarrow> Inl e | Inr ws \<Rightarrow> Inr (w # ws)))"
| "normalize_condition_members path collapse [] = Inr []"
| "normalize_condition_members path collapse ((k, v) # ms) =
     (case normalize_condition_data (path @ ''.'' @ k) collapse v of
        Inl e \<Rightarrow> Inl e
      | Inr w \<Rightarrow>
          (case normalize_condition_members path collapse ms of Inl e \<Rightarrow> Inl e | Inr ms' \<Rightarrow> Inr ((k, w) # ms')))"

definition json_is_object :: "json \<Rightarrow> bool" where
  "json_is_object v = (case v of JObject ms \<Rightarrow> True | _ \<Rightarrow> False)"

fun event_type_strings :: "string \<Rightarrow> nat \<Rightarrow> json list \<Rightarrow> string option" where
  "event_type_strings path i [] = None"
| "event_type_strings path i (v # vs) =
     (case v of
        JString t \<Rightarrow>
          if trim_space t = [] then Some (index_path path i @ '' must not be empty'')
          else event_type_strings path (Suc i) vs
      | _ \<Rightarrow> Some (index_path path i @ '' must be a string''))"

definition validate_event_type :: "json \<Rightarrow> string option" where
  "validate_event_type v = (case v of
     JString t \<Rightarrow> if trim_space t = [] then Some ''$.eventType must not be empty'' else None
   | JArray vs \<Rightarrow>
       if vs = [] then Some ''$.eventType must contain at least one value'' else event_type_strings ''$.eventType'' 0 vs
   | _ \<Rightarrow> Some ''$.eventType must be a string or array of strings'')"

definition validate_condition_data :: "json \<Rightarrow> string option" where
  "validate_condition_data v = (case normalize_condition_data ''$.data'' False v of
     Inl e \<Rightarrow> Some e
   | Inr w \<Rightarrow> if json_is_object w then None else Some ''$.data must be a JSON object'')"

fun validate_members :: "(string \<times> json) list \<Rightarrow> string option" where
  "validate_members [] = None"
| "validate_members ((k, v) # ms) =
     (if k = ''eventType'' \<or> k = ''data'' then validate_members ms
      else case normalize_condition_data (''$.'' @ k) False v of Inl e \<Rightarrow> Some e | Inr w \<Rightarrow> validate_members ms)"

definition first_error :: "string option \<Rightarrow> string option \<Rightarrow> string option" where
  "first_error a b = (case a of None \<Rightarrow> b | Some e \<Rightarrow> Some e)"

definition validate_condition_document :: "(string \<times> json) list \<Rightarrow> string option" where
  "validate_condition_document ms =
     first_error (Option.bind (map_of ms ''eventType'') validate_event_type)
       (first_error (Option.bind (map_of ms ''data'') validate_condition_data) (validate_members ms))"

definition normalize_condition_json :: "(string \<Rightarrow> string option) \<Rightarrow> (string \<Rightarrow> string) \<Rightarrow> string \<Rightarrow> string + string" where
  "normalize_condition_json num bad raw =
     (case json_unmarshal num raw of
        None \<Rightarrow> Inl (bad raw)
      | Some (JObject ms) \<Rightarrow>
          if ms = [] then Inl ''rawJson must contain at least one OCI Events condition field''
          else (case validate_condition_document ms of
            Some e \<Rightarrow> Inl (''rawJson is not valid OCI Events condition JSON: '' @ e)
          | None \<Rightarrow> Inr (json_render (JObject ms)))
      | Some v \<Rightarrow> Inl ''rawJson must be a JSON object'')"

fun trimmed_event_types :: "nat \<Rightarrow> string list \<Rightarrow> string + string list" where
  "trimmed_event_types i [] = Inr []"
| "trimmed_event_types i (t # ts) =
     (if trim_space t = [] then Inl (index_path ''condition.eventType'' i @ '' must not be empty'')
      else case trimmed_event_types (Suc i) ts of Inl e \<Rightarrow> Inl e | Inr us \<Rightarrow> Inr (trim_space t # us))"

definition render_condition_event_type :: "string list \<Rightarrow> string + json" where
  "render_condition_event_type types =
     (if types = [] then Inl ''condition.eventType must contain at least one value''
      else case trimmed_event_types 0 types of
        Inl e \<Rightarrow> Inl e
      | Inr ts \<Rightarrow> if length ts = 1 then Inr (JString (hd ts)) else Inr (JArray (map JString ts)))"

text \<open>The two structured fields: absent, in error, or a member of the document.\<close>

definition condition_type_member :: "event_condition \<Rightarrow> string + (string \<times> json) list" where
  "condition_type_member c =
     (if ec_event_type c = [] then Inr []
      else case render_condition_event_type (ec_event_type c) of
        Inl e \<Rightarrow> Inl e | Inr v \<Rightarrow> Inr [(''eventType'', v)])"

definition condition_data_member ::
    "(string \<Rightarrow> string option) \<Rightarrow> (string \<Rightarrow> string) \<Rightarrow> event_condition \<Rightarrow> string + (string \<times> json) list" where
  "condition_data_member num bad c =
     (let raw = raw_bytes (ec_data c) in
      if raw = [] then Inr []
      else case json_unmarshal num raw of
        None \<Rightarrow> Inl (''condition.data must be valid JSON: '' @ bad raw)
      | Some v \<Rightarrow>
          (case normalize_condition_data ''$.data'' True v of
             Inl e \<Rightarrow> Inl e
           | Inr w \<Rightarrow> if json_is_object w then Inr [(''data'', w)] else Inl ''condition.data must be a JSON object''))"

definition condition_json_from_spec ::
    "(string \<Rightarrow> string option) \<Rightarrow> (string \<Rightarrow> string) \<Rightarrow> event_condition \<Rightarrow> string + string" where
  "condition_json_from_spec num bad c =
     (if trim_space (ec_raw_json c) \<noteq> [] then normalize_condition_json num bad (ec_raw_json c)
      else case condition_type_member c of
        Inl e \<Rightarrow> Inl e
      | Inr m1 \<Rightarrow>
          (case condition_data_member num bad c of
             Inl e \<Rightarrow> Inl e
           | Inr m2 \<Rightarrow>
               if m1 @ m2 = [] then Inl ''condition must set rawJson or at least one structured field''
               else Inr (json_render (JObject (m1 @ m2)))))"

end
