(* ===== verification/GoJsonRender.thy ===== *)
theory GoJsonRender
  imports GoJsonCompact
begin

text \<open>
  What \<open>json.Marshal\<close> writes for a decoded value reads back as that value. Strings that come out of the
  parser are UTF-8, decoded objects have sorted keys, and numbers are written so that they read back:
  the last is the documented behaviour of the number format, the hypothesis \<open>number_format\<close>.
\<close>

section \<open>Parsed strings are UTF-8\<close>

text \<open>One character of UTF-8, whatever follows.\<close>

definition whole_rune :: "string \<Rightarrow> bool" where
  "whole_rune p \<longleftrightarrow> (\<exists>f \<in> set utf8_forms. length p = length f \<and> starts_with_bytes f p)"

lemma whole_rune_valid:
  assumes "whole_rune p"
  shows "utf8_valid (p @ t) \<longleftrightarrow> utf8_valid t"
proof -
  from assms obtain f where f: "f \<in> set utf8_forms" "length p = length f" "starts_with_bytes f p"
    by (auto simp: whole_rune_def)
  from f(1) have "f \<noteq> []" by (auto simp: utf8_forms_def)
  with f(2) obtain c cs where p: "p = c # cs" by (cases p) auto
  have "starts_with_bytes f (p @ t)" using starts_with_take [OF f(3), of t] f(2) by simp
  then have "rune_length (c # cs @ t) = length f" using rune_length_form [OF f(1), of c "cs @ t"] p by simp
  moreover have "length f = Suc (length cs)" using f(2) p by simp
  ultimately show ?thesis by (simp add: p)
qed

lemma byte_in_char: "m < 256 \<Longrightarrow> byte_in lo hi (char_of m) \<longleftrightarrow> lo \<le> m \<and> m \<le> hi"
  by (simp add: byte_in_def)

lemma whole_runeI: "f \<in> set utf8_forms \<Longrightarrow> length p = length f \<Longrightarrow> starts_with_bytes f p \<Longrightarrow> whole_rune p"
  unfolding whole_rune_def by blast

lemma encode_two:
  assumes "0x80 \<le> n" "n < 0x800"
  shows "whole_rune (utf8_encode n)"
proof (rule whole_runeI)
  show "[(0xC2, 0xDF), (0x80, 0xBF)] \<in> set utf8_forms" by (simp add: utf8_forms_def)
  have "2 \<le> n div 64" "n div 64 < 32" "n mod 64 < 64" using assms by simp_all
  with assms show "length (utf8_encode n) = length [(0xC2 :: nat, 0xDF :: nat), (0x80, 0xBF)]"
    "starts_with_bytes [(0xC2, 0xDF), (0x80, 0xBF)] (utf8_encode n)"
    by (simp_all add: utf8_encode_def starts_with_bytes_def byte_in_char)
qed

lemma encode_three:
  assumes "0x800 \<le> n" "n < 0x10000" "\<not> (0xD800 \<le> n \<and> n < 0xE000)"
  shows "whole_rune (utf8_encode n)"
proof -
  define a b where "a = n div 4096" and "b = n div 64 mod 64"
  have ab: "n div 64 = 64 * a + b" "a < 16" "b < 64"
    using assms(2) div_mult2_eq [of n 64 64] by (simp_all add: a_def b_def)
  define l where "l = n mod 64"
  have "n = 64 * (64 * a + b) + n mod 64" using ab(1) by (metis mult_div_mod_eq)
  then have n: "n = 4096 * a + 64 * b + l" by (simp add: l_def)
  have low: "l < 64" by (simp add: l_def)
  have enc: "utf8_encode n = [char_of (0xE0 + a), char_of (0x80 + b), char_of (0x80 + l)]"
    using assms by (simp add: utf8_encode_def a_def b_def l_def)
  have start: "starts_with_bytes [(l, h), (l2, h2), (0x80, 0xBF)] (utf8_encode n)"
    if "l \<le> 0xE0 + a" "0xE0 + a \<le> h" "l2 \<le> 0x80 + b" "0x80 + b \<le> h2" for l h l2 h2
    using that ab low by (simp add: enc starts_with_bytes_def byte_in_char)
  have len: "length (utf8_encode n) = 3" by (simp add: enc)
  consider "a = 0" | "1 \<le> a" "a \<le> 12" | "a = 13" | "a = 14 \<or> a = 15" using ab(2) by linarith
  then show ?thesis
  proof cases
    case 1
    then have "0x20 \<le> b" using assms(1) n low by simp
    with 1 ab show ?thesis
      by (intro whole_runeI [of "[(0xE0, 0xE0), (0xA0, 0xBF), (0x80, 0xBF)]"] start)
        (simp_all add: len utf8_forms_def)
  next
    case 2
    with ab show ?thesis
      by (intro whole_runeI [of "[(0xE1, 0xEC), (0x80, 0xBF), (0x80, 0xBF)]"] start)
        (simp_all add: len utf8_forms_def)
  next
    case 3
    then have "n < 0xE000" using n low ab(3) by linarith
    with assms(3) have "n < 0xD800" by simp
    with 3 have "b < 0x20" using n low by linarith
    with \<open>a = 13\<close> show ?thesis
      by (intro whole_runeI [of "[(0xED, 0xED), (0x80, 0x9F), (0x80, 0xBF)]"] start)
        (simp_all add: len utf8_forms_def)
  next
    case 4
    with ab show ?thesis
      by (intro whole_runeI [of "[(0xEE, 0xEF), (0x80, 0xBF), (0x80, 0xBF)]"] start)
        (auto simp: len utf8_forms_def)
  qed
qed

lemma encode_four:
  assumes "0x10000 \<le> n" "n < 0x110000"
  shows "whole_rune (utf8_encode n)"
proof -
  define a b c where "a = n div 262144" and "b = n div 4096 mod 64" and "c = n div 64 mod 64"
  have ab: "n div 4096 = 64 * a + b" "a < 5" "b < 64" "c < 64"
    using assms(2) div_mult2_eq [of n 4096 64] by (simp_all add: a_def b_def c_def)
  have enc: "utf8_encode n = [char_of (0xF0 + a), char_of (0x80 + b), char_of (0x80 + c), char_of (0x80 + n mod 64)]"
    using assms by (simp add: utf8_encode_def a_def b_def c_def)
  have n: "n = 4096 * (64 * a + b) + n mod 4096" using ab(1) by (metis mult_div_mod_eq)
  have low: "n mod 64 < 64" "n mod 4096 < 4096" by simp_all
  have start: "starts_with_bytes [(l, h), (l2, h2), (0x80, 0xBF), (0x80, 0xBF)] (utf8_encode n)"
    if "l \<le> 0xF0 + a" "0xF0 + a \<le> h" "l2 \<le> 0x80 + b" "0x80 + b \<le> h2" for l h l2 h2
    using that ab low by (simp add: enc starts_with_bytes_def byte_in_char)
  have len: "length (utf8_encode n) = 4" by (simp add: enc)
  consider "a = 0" | "1 \<le> a" "a \<le> 3" | "a = 4" using ab(2) by linarith
  then show ?thesis
  proof cases
    case 1
    then have "0x10 \<le> b" using assms(1) n low by simp
    with 1 ab show ?thesis
      by (intro whole_runeI [of "[(0xF0, 0xF0), (0x90, 0xBF), (0x80, 0xBF), (0x80, 0xBF)]"] start)
        (simp_all add: len utf8_forms_def)
  next
    case 2
    with ab show ?thesis
      by (intro whole_runeI [of "[(0xF1, 0xF3), (0x80, 0xBF), (0x80, 0xBF), (0x80, 0xBF)]"] start)
        (simp_all add: len utf8_forms_def)
  next
    case 3
    then have "b < 0x10" using assms(2) n low ab by simp
    with 3 show ?thesis
      by (intro whole_runeI [of "[(0xF4, 0xF4), (0x80, 0x8F), (0x80, 0xBF), (0x80, 0xBF)]"] start)
        (simp_all add: len utf8_forms_def)
  qed
qed

lemma encode_whole:
  assumes "n < 0x110000" "\<not> (0xD800 \<le> n \<and> n < 0xE000)"
  shows "whole_rune (utf8_encode n)"
proof (cases "n < 0x80")
  case True
  show ?thesis
  proof (rule whole_runeI)
    show "[(0x00, 0x7F)] \<in> set utf8_forms" by (simp add: utf8_forms_def)
    from True show "length (utf8_encode n) = length [(0x00 :: nat, 0x7F :: nat)]"
      "starts_with_bytes [(0x00, 0x7F)] (utf8_encode n)"
      by (simp_all add: utf8_encode_def starts_with_bytes_def byte_in_char)
  qed
next
  case False
  consider "n < 0x800" | "0x800 \<le> n" "n < 0x10000" | "0x10000 \<le> n" by linarith
  then show ?thesis
  proof cases
    case 1
    with False show ?thesis by (intro encode_two) simp_all
  next
    case 2
    with assms(2) show ?thesis by (intro encode_three)
  next
    case 3
    with assms(1) show ?thesis by (intro encode_four)
  qed
qed

lemma replacement_whole: "whole_rune replacement_char"
  unfolding replacement_char_def by (rule encode_whole) simp_all

lemma hex_value_bound: "hex_value c = Some n \<Longrightarrow> n < 16"
  by (auto simp: hex_value_def byte_in_def Let_def split: if_splits)

lemma hex4_bound: "hex4 s = Some (n, r) \<Longrightarrow> n < 0x10000"
  by (auto simp: hex4_def split: list.splits option.splits dest!: hex_value_bound)

lemma decode_unit_whole:
  assumes "decode_unit u r = (t, r')" "u < 0x10000"
  shows "whole_rune t"
proof (cases "0xD800 \<le> u \<and> u < 0xE000")
  case True
  from assms(1) True consider "t = replacement_char"
    | v where "u < 0xDC00" "0xDC00 \<le> v" "v < 0xE000" "t = utf8_encode ((u - 0xD800) * 1024 + (v - 0xDC00) + 0x10000)"
    by (auto simp: decode_unit_def Let_def split: if_splits list.splits option.splits)
  then show ?thesis
  proof cases
    case 2
    from 2(1-3) True have "(u - 0xD800) * 1024 + (v - 0xDC00) + 0x10000 < (0x110000 :: nat)" by arith
    then have "whole_rune (utf8_encode ((u - 0xD800) * 1024 + (v - 0xDC00) + 0x10000))"
      by (rule encode_whole) simp
    with 2(4) show ?thesis by simp
  qed (simp add: replacement_whole)
next
  case False
  with assms have "t = utf8_encode u" by (simp add: decode_unit_def)
  with False assms(2) show ?thesis by (simp add: encode_whole)
qed

lemma simple_escape_whole: "simple_escape d = Some e \<Longrightarrow> whole_rune [e]"
  by (intro whole_runeI [of "[(0x00, 0x7F)]"])
    (auto simp: simple_escape_def utf8_forms_def starts_with_bytes_def byte_in_def dquote_def backslash_def
      split: if_splits)

lemma rune_whole:
  assumes "rune_length s = k" "0 < k"
  shows "whole_rune (take k s)"
proof -
  from assms obtain f where f: "find (\<lambda>f. starts_with_bytes f s) utf8_forms = Some f" "length f = k"
    by (auto simp: rune_length_def split: option.splits)
  then have mem: "f \<in> set utf8_forms" "starts_with_bytes f s" by (auto dest: find_Some_member)
  from mem(2) have "k \<le> length s" using f(2) by (simp add: starts_with_bytes_def)
  with mem f(2) starts_with_take [OF mem(2), of "[]"] show ?thesis
    by (intro whole_runeI [of f]) simp_all
qed

lemma parse_string_valid: "parse_string s = Some (t, r) \<Longrightarrow> utf8_valid t"
proof (induction s arbitrary: t rule: length_induct)
  case (1 s)
  from 1(2) show ?case
  proof (cases rule: parse_string_cases)
    case (unit ds u r1 t1 r2 t2)
    have "length r2 < length s"
      using unit(1) hex4_shorter [OF unit(2)] decode_unit_shorter [OF unit(3)] by simp
    with 1(1) unit have "utf8_valid t2" by blast
    with unit decode_unit_whole [OF unit(3) hex4_bound [OF unit(2)]] show ?thesis
      by (simp add: whole_rune_valid)
  next
    case (simple d ds e t2)
    have "length ds < length s" by (simp add: simple(1))
    with 1(1) simple(4) have "utf8_valid t2" by blast
    with simple whole_rune_valid [OF simple_escape_whole [OF simple(3)], of t2] show ?thesis by simp
  next
    case (broken c cs t2)
    have "length cs < length s" by (simp add: broken(1))
    with 1(1) broken(6) have "utf8_valid t2" by blast
    with broken show ?thesis by (simp add: whole_rune_valid [OF replacement_whole])
  next
    case (rune c cs k t2)
    then have "length (drop k s) < length s" by simp
    with 1(1) rune(7) have "utf8_valid t2" by blast
    with whole_rune_valid [OF rune_whole [OF rune(5,6)], of t2] show ?thesis by (simp only: rune(8))
  qed simp
qed

section \<open>Written values\<close>

text \<open>A value whose strings are UTF-8 and whose numbers are literals; a canonical one is also as decoded.\<close>

fun readable :: "json \<Rightarrow> bool" where
  "readable (JNumber n) \<longleftrightarrow> parse_number n = Some (n, [])"
| "readable (JString s) \<longleftrightarrow> utf8_valid s"
| "readable (JArray vs) \<longleftrightarrow> list_all readable vs"
| "readable (JObject ms) \<longleftrightarrow> list_all (\<lambda>m. utf8_valid (fst m) \<and> readable (snd m)) ms"
| "readable v \<longleftrightarrow> True"

fun canonical :: "(string \<Rightarrow> string option) \<Rightarrow> json \<Rightarrow> bool" where
  "canonical num (JNumber n) \<longleftrightarrow> num n = Some n"
| "canonical num (JArray vs) \<longleftrightarrow> list_all (canonical num) vs"
| "canonical num (JObject ms) \<longleftrightarrow> last_members ms = ms \<and> list_all (\<lambda>m. canonical num (snd m)) ms"
| "canonical num v \<longleftrightarrow> True"

lemma number_reads_as:
  assumes "parse_number n = Some (n, [])"
  shows "reads_as n (JNumber n)"
proof -
  note split = parse_number_split [OF assms]
  obtain c cs where n: "n = c # cs" using split(2) by (cases n) auto
  with split(3) have c: "number_char c" by simp
  have plain: "c \<notin> set ''{[tfn'' \<and> c \<noteq> dquote \<and> \<not> json_space c"
    using number_char_solid [OF c] c by (auto simp: number_char_def is_digit_def byte_in_def)
  then have "parse_value (Suc 0) (n @ r) = map_option (apfst JNumber) (parse_number (n @ r))" for r
    by (simp add: n skip_ws_def has_prefix_def)
  with split(4) show ?thesis unfolding reads_as_def by (metis apfst_conv option.simps(9))
qed

lemma word_reads_as: "reads_as ''null'' JNull" "reads_as (if b then ''true'' else ''false'') (JBool b)"
proof -
  have words: "parse_value (Suc 0) (''null'' @ r) = Some (JNull, r)"
    "parse_value (Suc 0) (''true'' @ r) = Some (JBool True, r)"
    "parse_value (Suc 0) (''false'' @ r) = Some (JBool False, r)" for r
    by (simp_all add: skip_ws_def json_space_def has_prefix_def dquote_def)
  show "reads_as ''null'' JNull" unfolding reads_as_def using words(1) by blast
  have "reads_as ''true'' (JBool True)" "reads_as ''false'' (JBool False)"
    unfolding reads_as_def using words(2,3) by blast+
  then show "reads_as (if b then ''true'' else ''false'') (JBool b)" by (cases b) simp_all
qed

lemma expect_written:
  "expect (CHR '','') (CHR '','' # s) = Some s" "expect (CHR '','') (CHR '']'' # s) = None"
  "expect (CHR '']'') (CHR '']'' # s) = Some s" "expect (CHR '','') (CHR ''}'' # s) = None"
  "expect (CHR ''}'') (CHR ''}'' # s) = Some s"
  by (simp_all add: expect_solid json_space_def)

text \<open>A value never starts with a closing bracket.\<close>

lemma reads_as_head:
  assumes "reads_as t v"
  shows "expect (CHR '']'') (t @ CHR '','' # r) = None" "expect (CHR '']'') (t @ CHR '']'' # r) = None"
proof -
  have bad: "expect (CHR '']'') s = None" if "parse_value n s = Some (w, q)" for n s w q
  proof (cases "skip_ws s")
    case Nil
    then show ?thesis by (simp add: expect_def)
  next
    case (Cons c cs)
    have "c \<noteq> CHR '']''"
    proof
      assume "c = CHR '']''"
      then have "parse_value n s = None"
        by (cases n) (simp_all add: Cons dquote_def has_prefix_def parse_number_def trim_prefix_def
            parse_integer_def span_digits_def is_digit_def byte_in_def)
      with that show False by simp
    qed
    then show ?thesis by (simp add: expect_def Cons)
  qed
  have st: "stops (CHR '','' # r)" "stops (CHR '']'' # r)" by (simp_all add: stops_def)
  with assms obtain n m where "parse_value n (t @ CHR '','' # r) = Some (v, CHR '','' # r)"
    "parse_value m (t @ CHR '']'' # r) = Some (v, CHR '']'' # r)"
    unfolding reads_as_def by meson
  then show "expect (CHR '']'') (t @ CHR '','' # r) = None" "expect (CHR '']'') (t @ CHR '']'' # r) = None"
    by (auto dest: bad)
qed

lemma elements_written:
  assumes "vs \<noteq> []" "list_all (\<lambda>v. reads_as (json_render v) v) vs"
  shows "(\<exists>n. parse_elements n (render_list vs @ CHR '']'' # r) = Some (vs, r)) \<and>
    expect (CHR '']'') (render_list vs @ CHR '']'' # r) = None"
  using assms
proof (induction vs rule: list_nonempty_induct)
  case (single v)
  let ?s = "json_render v @ CHR '']'' # r"
  have "parse_value (2 * length ?s) ?s = Some (v, CHR '']'' # r)"
    using single by (intro reads_as_enough) (simp_all add: stops_def)
  then have "parse_elements (Suc (2 * length ?s)) ?s = Some ([v], r)"
    by (simp add: expect_written del: length_append)
  with reads_as_head(2) [of "json_render v" v r] single show ?case by (auto simp del: parse_elements.simps)
next
  case (cons v vs)
  obtain w ws where vs: "vs = w # ws" using cons(1) by (cases vs) auto
  let ?tail = "render_list vs @ CHR '']'' # r"
  let ?s = "json_render v @ CHR '','' # ?tail"
  from cons obtain n where n: "parse_elements n ?tail = Some (vs, r)" by auto
  have enough: "parse_elements m ?tail = Some (vs, r)" if "2 * length ?tail < m" for m
  proof -
    have "elements_enough n" using all_enough by blast
    with n that show ?thesis unfolding elements_enough_def by (metis trans_less_add1)
  qed
  have "parse_value (2 * length ?s) ?s = Some (v, CHR '','' # ?tail)"
    using cons(3) by (intro reads_as_enough) (simp_all add: stops_def)
  then have "parse_elements (Suc (2 * length ?s)) ?s = Some (v # vs, r)"
    using enough [of "2 * length ?s"] by (simp add: expect_written)
  moreover have "render_list (v # vs) @ CHR '']'' # r = ?s" by (simp add: vs)
  ultimately show ?case using reads_as_head(1) [of "json_render v" v ?tail] cons(3)
    by (metis (no_types, lifting) list.pred_inject(2))
qed

lemma render_members_object:
  "render_members ms = join (map (\<lambda>m. json_member (fst m, json_render (snd m))) ms) '',''"
  by (induction ms rule: induct_list012) (auto simp: json_member_def)

lemma members_head: "expect (CHR ''}'') (render_members (m # ms) @ s) = None"
proof -
  obtain k v where m: "m = (k, v)" by (cases m)
  have "render_members (m # ms) @ s = dquote # tl (render_members (m # ms) @ s)"
    by (cases ms) (simp_all add: m json_string_def)
  moreover have "expect (CHR ''}'') (dquote # q) = None" for q by (simp add: expect_solid json_space_def dquote_def)
  ultimately show ?thesis by metis
qed

theorem render_reads_as: "readable v \<Longrightarrow> reads_as (json_render v) v"
proof (induction v)
  case (JString s)
  then show ?case using string_reads_as [of s] by (simp add: utf8_clean_valid)
next
  case (JArray vs)
  then have all: "list_all (\<lambda>v. reads_as (json_render v) v) vs" by (simp add: list_all_iff)
  have start: "parse_value (Suc n) (CHR ''['' # s) = (case expect (CHR '']'') s of
      Some q \<Rightarrow> Some (JArray [], q) | None \<Rightarrow> map_option (apfst JArray) (parse_elements n s))" for n s
    by (simp add: skip_ws_def json_space_def)
  show ?case
  proof (cases "vs = []")
    case True
    then show ?thesis unfolding reads_as_def
      by (intro allI impI exI [of _ "Suc 0"]) (simp add: start expect_written del: parse_value.simps)
  next
    case False
    have "\<exists>n. parse_value n (json_render (JArray vs) @ r) = Some (JArray vs, r)" for r
    proof -
      from elements_written [OF False all, of r] obtain n where
        "parse_elements n (render_list vs @ CHR '']'' # r) = Some (vs, r)"
        "expect (CHR '']'') (render_list vs @ CHR '']'' # r) = None" by blast
      then show ?thesis by (intro exI [of _ "Suc n"]) (simp add: start del: parse_value.simps)
    qed
    then show ?thesis unfolding reads_as_def by blast
  qed
next
  case (JObject ms)
  have start: "parse_value (Suc n) (CHR ''{'' # s) = (case expect (CHR ''}'') s of
      Some q \<Rightarrow> Some (JObject [], q) | None \<Rightarrow> map_option (apfst JObject) (parse_members n s))" for n s
    by (simp add: skip_ws_def json_space_def)
  show ?case
  proof (cases ms)
    case Nil
    then show ?thesis unfolding reads_as_def
      by (intro allI impI exI [of _ "Suc 0"]) (simp add: start expect_written del: parse_value.simps)
  next
    case (Cons m ms')
    have "list_all2 member_reads_as (map (\<lambda>m. (fst m, json_render (snd m))) ms) ms"
      using JObject by (auto simp: list_all2_map1 list_all_iff member_reads_as_def utf8_clean_valid
          intro!: list.rel_refl_strong)
    then have written: "\<exists>n. parse_members n (render_members ms @ ''}'' @ r) = Some (ms, r)" for r
      using members_written [of "map (\<lambda>m. (fst m, json_render (snd m))) ms" ms r] Cons
      by (simp add: render_members_object comp_def)
    have "\<exists>n. parse_value n (json_render (JObject ms) @ r) = Some (JObject ms, r)" for r
    proof -
      from written [of r] obtain n where "parse_members n (render_members ms @ ''}'' @ r) = Some (ms, r)" by blast
      then show ?thesis using members_head [of m ms' "''}'' @ r"] Cons
        by (intro exI [of _ "Suc n"]) (simp add: start del: parse_value.simps)
    qed
    then show ?thesis unfolding reads_as_def by blast
  qed
qed (auto intro: number_reads_as word_reads_as simp: word_reads_as [simplified])

section \<open>Decoded values\<close>

lemma parsed_readable:
  "parse_value n s = Some (v, r) \<Longrightarrow> readable v"
  "parse_elements n s = Some (vs, r) \<Longrightarrow> list_all readable vs"
  "parse_members n s = Some (ms, r) \<Longrightarrow> list_all (\<lambda>m. utf8_valid (fst m) \<and> readable (snd m)) ms"
proof (induction n arbitrary: s v vs ms r)
  case 0
  { case 1 then show ?case by simp }
  { case 2 then show ?case by simp }
  { case 3 then show ?case by simp }
next
  case (Suc n)
  note IH = Suc.IH
  { case 1
    show ?case
    proof (cases s rule: parse_value_cases)
      case blank
      with 1 show ?thesis by simp
    next
      case (object cs)
      with 1 IH(3) show ?thesis by (auto simp del: parse_value.simps)
    next
      case (array cs)
      with 1 IH(2) show ?thesis by (auto simp del: parse_value.simps)
    next
      case (leaf c cs)
      with 1 have "parse_leaf c cs = Some (v, r)" by (simp del: parse_value.simps)
      then show ?thesis
      proof (cases rule: parse_leaf_cases)
        case (quoted t)
        then show ?thesis using parse_string_valid by simp
      next
        case (number t)
        then show ?thesis using parse_number_split(4) [of "c # cs" t r "[]"] by (simp add: stops_def)
      qed (auto simp: json_words_def)
    qed }
  { case 2
    from 2 obtain v' r1 where v: "parse_value n s = Some (v', r1)" by (auto split: option.splits)
    show ?case
    proof (cases "expect (CHR '','') r1")
      case None
      with 2 v IH(1) [OF v] show ?thesis by (auto split: option.splits)
    next
      case (Some r2)
      with 2 v obtain vs' where "parse_elements n r2 = Some (vs', r)" "vs = v' # vs'" by (auto split: option.splits)
      with IH(1) [OF v] IH(2) show ?thesis by auto
    qed }
  { case 3
    from 3 obtain k r0 v' r1 where k: "parse_key s = Some (k, r0)" and v: "parse_value n r0 = Some (v', r1)"
      by (auto split: option.splits)
    have key: "utf8_valid k"
      using k by (auto simp: parse_key_def bind_eq_Some_conv dest: parse_string_valid split: option.splits)
    show ?case
    proof (cases "expect (CHR '','') r1")
      case None
      with 3 k v IH(1) [OF v] key show ?thesis by (auto split: option.splits)
    next
      case (Some r2)
      with 3 k v obtain ms' where "parse_members n r2 = Some (ms', r)" "ms = (k, v') # ms'" by (auto split: option.splits)
      with IH(1) [OF v] IH(3) key show ?thesis by auto
    qed }
qed

lemma map_of_map_keys: "k \<in> set ks \<Longrightarrow> map_of (map (\<lambda>k. (k, f k)) ks) k = Some (f k)"
  by (induction ks) auto

lemma last_members_lookup: "map_of (last_members ms) k = map_of (rev ms) k"
proof (cases "k \<in> fst ` set ms")
  case True
  then obtain v where "map_of (rev ms) k = Some v" by (metis map_of_eq_None_iff not_None_eq set_rev image_set)
  with True show ?thesis by (simp add: last_members_def map_of_map_keys)
next
  case False
  then have "map_of (last_members ms) k = None" "map_of (rev ms) k = None"
    by (auto simp: map_of_eq_None_iff last_members_def image_image)
  then show ?thesis by simp
qed

lemma last_members_keys: "map fst (last_members ms) = sort (remdups (map fst ms))"
  by (simp add: last_members_def comp_def)

lemma last_members_subset: "set (last_members ms) \<subseteq> set ms"
proof
  fix m assume "m \<in> set (last_members ms)"
  then obtain k where k: "k \<in> fst ` set ms" "m = (k, the (map_of (rev ms) k))" by (auto simp: last_members_def)
  then obtain v where "map_of (rev ms) k = Some v" by (metis map_of_eq_None_iff not_None_eq set_rev image_set)
  with k(2) show "m \<in> set ms" by (auto dest: map_of_SomeD)
qed

lemma sorted_members_last:
  assumes "sorted (map fst ms)" "distinct (map fst ms)"
  shows "last_members ms = ms"
proof (rule keyed_list_eqI [where key = fst])
  have keys: "map fst (last_members ms) = map fst ms"
    using assms by (simp add: last_members_keys sort_key_id_if_sorted distinct_remdups_id)
  then show "map fst (last_members ms) = map fst ms" .
  with assms show "distinct (map fst (last_members ms))" by simp
  fix k
  have dist: "distinct (map fst (rev ms))" using assms(2) by (simp add: rev_map [symmetric])
  have "map_of (last_members ms) k = map_of ms k"
    unfolding last_members_lookup using map_of_inject_set [OF dist assms(2)] by simp
  moreover have "map_of xs k = map_option snd (find (\<lambda>x. fst x = k) xs)" for xs :: "(string \<times> 'a) list"
    by (induction xs) auto
  ultimately have "map_option snd (find (\<lambda>x. fst x = k) (last_members ms)) = map_option snd (find (\<lambda>x. fst x = k) ms)"
    by simp
  then show "find (\<lambda>x. fst x = k) (last_members ms) = find (\<lambda>x. fst x = k) ms"
    by (cases "find (\<lambda>x. fst x = k) (last_members ms)"; cases "find (\<lambda>x. fst x = k) ms")
      (auto dest!: find_Some_member intro: prod_eqI)
qed

lemma last_members_idem: "last_members (last_members ms) = last_members ms"
  by (rule sorted_members_last) (simp_all add: last_members_keys)

text \<open>How a decoder of numbers behaves: what it writes is a literal that it writes again.\<close>

definition number_format :: "(string \<Rightarrow> string option) \<Rightarrow> bool" where
  "number_format num \<longleftrightarrow> (\<forall>l x. num l = Some x \<longrightarrow> parse_number x = Some (x, []) \<and> num x = Some x)"

lemma decoded_canonical:
  "json_decode num v = Some w \<Longrightarrow> number_format num \<Longrightarrow> readable v \<Longrightarrow> readable w \<and> canonical num w"
  "decode_list num vs = Some ws \<Longrightarrow> number_format num \<Longrightarrow> list_all readable vs \<Longrightarrow>
     list_all readable ws \<and> list_all (canonical num) ws"
  "decode_members num ms = Some ns \<Longrightarrow> number_format num \<Longrightarrow>
     list_all (\<lambda>m. utf8_valid (fst m) \<and> readable (snd m)) ms \<Longrightarrow>
     list_all (\<lambda>m. utf8_valid (fst m) \<and> readable (snd m)) ns \<and> list_all (\<lambda>m. canonical num (snd m)) ns"
proof (induction num v and num vs and num ms arbitrary: w and ws and ns
    rule: json_decode_decode_list_decode_members.induct)
  case (1 num n)
  then show ?case by (auto simp: number_format_def)
next
  case (3 num ms)
  then obtain ns where ns: "decode_members num ms = Some ns" "w = JObject (last_members ns)" by auto
  with 3 have "list_all (\<lambda>m. utf8_valid (fst m) \<and> readable (snd m)) ns \<and> list_all (\<lambda>m. canonical num (snd m)) ns"
    by simp
  with last_members_subset [of ns] ns(2) show ?case by (auto simp: list_all_iff last_members_idem)
qed (auto split: option.splits)

lemma decode_list_id: "\<forall>v \<in> set vs. json_decode num v = Some v \<Longrightarrow> decode_list num vs = Some vs"
  by (induction vs) auto

lemma decode_members_id: "\<forall>m \<in> set ms. json_decode num (snd m) = Some (snd m) \<Longrightarrow> decode_members num ms = Some ms"
  by (induction ms) auto

lemma canonical_decode: "canonical num v \<Longrightarrow> json_decode num v = Some v"
proof (induction v)
  case (JArray vs)
  then have "\<forall>v \<in> set vs. json_decode num v = Some v" by (simp add: list_all_iff)
  then show ?case by (simp add: decode_list_id)
next
  case (JObject ms)
  have "json_decode num (snd m) = Some (snd m)" if "m \<in> set ms" for m
    using JObject.IH [of m "snd m"] JObject.prems that by (cases m) (auto simp: list_all_iff)
  then have "decode_members num ms = Some ms" by (simp add: decode_members_id)
  with JObject show ?case by simp
qed simp_all

theorem unmarshal_canonical:
  assumes "number_format num" "json_unmarshal num s = Some v"
  shows "readable v" "canonical num v"
proof -
  from assms(2) obtain u n r where "parse_value n s = Some (u, r)" "json_decode num u = Some v"
    by (auto simp: json_unmarshal_def parse_json_def bind_eq_Some_conv simp del: parse_value.simps
        split: option.splits prod.splits if_splits)
  then show "readable v" "canonical num v"
    using decoded_canonical(1) [OF _ assms(1)] parsed_readable(1) by blast+
qed

theorem render_unmarshal: "readable v \<Longrightarrow> json_unmarshal num (json_render v) = json_decode num v"
proof -
  assume "readable v"
  then obtain n where "parse_value n (json_render v) = Some (v, [])"
    using render_reads_as [of v] by (force simp: reads_as_def stops_def)
  then have "parse_json (json_render v) = Some v" by (rule parse_json_complete) (simp add: skip_ws_def)
  then show ?thesis by (simp add: json_unmarshal_def)
qed

text \<open>Decoding what was rendered from a decoded value gives that value again.\<close>

theorem render_read_back:
  "number_format num \<Longrightarrow> json_unmarshal num s = Some v \<Longrightarrow> json_unmarshal num (json_render v) = Some v"
  using unmarshal_canonical render_unmarshal canonical_decode by metis

end
