(* ===== verification/TriggerConditionLemmas.thy ===== *)
theory TriggerConditionLemmas
  imports TriggerCondition GoJsonRender
begin

text \<open>
  The condition document of a trigger: what normalisation keeps, and that the text sent to OCI Events
  reads back as the document the spec describes.
\<close>

section \<open>Normalisation\<close>

text \<open>Neither null nor an empty array anywhere.\<close>

fun no_empty :: "json \<Rightarrow> bool" where
  "no_empty JNull \<longleftrightarrow> False"
| "no_empty (JArray vs) \<longleftrightarrow> vs \<noteq> [] \<and> list_all no_empty vs"
| "no_empty (JObject ms) \<longleftrightarrow> list_all (\<lambda>m. no_empty (snd m)) ms"
| "no_empty v \<longleftrightarrow> True"

lemma normalize_no_empty:
  "normalize_condition_data path collapse v = Inr w \<Longrightarrow> no_empty v \<and> no_empty w"
  "normalize_condition_list path i vs = Inr ws \<Longrightarrow>
     list_all no_empty vs \<and> list_all no_empty ws \<and> length ws = length vs"
  "normalize_condition_members path collapse ms = Inr ns \<Longrightarrow>
     list_all (\<lambda>m. no_empty (snd m)) ms \<and> list_all (\<lambda>m. no_empty (snd m)) ns"
  by (induction path collapse v and path i vs and path collapse ms arbitrary: w and ws and ns
      rule: normalize_condition_data_normalize_condition_list_normalize_condition_members.induct)
    (auto split: sum.splits if_splits simp: length_Suc_conv)

lemma canonical_object:
  "canonical num (JObject ms) \<longleftrightarrow> sorted (map fst ms) \<and> distinct (map fst ms) \<and> list_all (\<lambda>m. canonical num (snd m)) ms"
proof -
  have "last_members ms = ms \<longleftrightarrow> sorted (map fst ms) \<and> distinct (map fst ms)"
  proof
    assume "last_members ms = ms"
    then have "map fst ms = sort (remdups (map fst ms))" using last_members_keys [of ms] by simp
    then show "sorted (map fst ms) \<and> distinct (map fst ms)"
      by (metis distinct_remdups distinct_sort sorted_sort)
  qed (simp add: sorted_members_last)
  then show ?thesis by simp
qed

lemma normalize_canonical:
  "normalize_condition_data path collapse v = Inr w \<Longrightarrow> readable v \<Longrightarrow> canonical num v \<Longrightarrow>
     readable w \<and> canonical num w"
  "normalize_condition_list path i vs = Inr ws \<Longrightarrow> list_all readable vs \<Longrightarrow> list_all (canonical num) vs \<Longrightarrow>
     list_all readable ws \<and> list_all (canonical num) ws"
  "normalize_condition_members path collapse ms = Inr ns \<Longrightarrow>
     list_all (\<lambda>m. utf8_valid (fst m) \<and> readable (snd m)) ms \<Longrightarrow> list_all (\<lambda>m. canonical num (snd m)) ms \<Longrightarrow>
     map fst ns = map fst ms \<and> list_all (\<lambda>m. utf8_valid (fst m) \<and> readable (snd m)) ns \<and>
     list_all (\<lambda>m. canonical num (snd m)) ns"
proof (induction path collapse v and path i vs and path collapse ms arbitrary: w and ws and ns
    rule: normalize_condition_data_normalize_condition_list_normalize_condition_members.induct)
  case (1 path collapse ms)
  then obtain ns where "normalize_condition_members path collapse ms = Inr ns" "w = JObject ns"
    by (auto split: sum.splits)
  with 1 show ?case by (simp add: canonical_object del: canonical.simps(3))
qed (auto split: sum.splits if_splits simp: length_Suc_conv)

section \<open>The two structured fields\<close>

lemma trimmed_event_types_map: "trimmed_event_types i ts = Inr us \<Longrightarrow> us = map trim_space ts"
  by (induction i ts arbitrary: us rule: trimmed_event_types.induct) (auto split: sum.splits if_splits)

definition event_type_value :: "string list \<Rightarrow> json" where
  "event_type_value ts = (if length ts = 1 then JString (hd ts) else JArray (map JString ts))"

lemma condition_type_member_cases:
  assumes "condition_type_member c = Inr ms"
  shows "ms = (if ec_event_type c = [] then [] else [(''eventType'', event_type_value (map trim_space (ec_event_type c)))])"
  using assms
  by (auto simp: condition_type_member_def render_condition_event_type_def event_type_value_def hd_map
      dest!: trimmed_event_types_map split: if_splits sum.splits)

definition normalized_data :: "(string \<Rightarrow> string option) \<Rightarrow> event_condition \<Rightarrow> json option" where
  "normalized_data num c = Option.bind (json_unmarshal num (raw_bytes (ec_data c)))
     (\<lambda>v. case normalize_condition_data ''$.data'' True v of Inl e \<Rightarrow> None | Inr w \<Rightarrow> Some w)"

lemma condition_data_member_cases:
  assumes "condition_data_member num bad c = Inr ms"
  obtains (absent) "raw_bytes (ec_data c) = []" "ms = []"
  | (present) v w where "raw_bytes (ec_data c) \<noteq> []" "json_unmarshal num (raw_bytes (ec_data c)) = Some v"
      "normalize_condition_data ''$.data'' True v = Inr w" "ms = [(''data'', w)]" "normalized_data num c = Some w"
  using assms
  by (auto simp: condition_data_member_def normalized_data_def Let_def split: if_splits option.splits sum.splits)

section \<open>The document\<close>

lemma event_type_strings_ok: "event_type_strings path i vs = None \<Longrightarrow> list_all no_empty vs"
proof (induction path i vs rule: event_type_strings.induct)
  case (2 path i v vs)
  then show ?case by (cases v) (auto split: if_splits)
qed simp

lemma validated_no_empty:
  assumes "validate_condition_document ms = None" "distinct (map fst ms)"
  shows "list_all (\<lambda>m. no_empty (snd m)) ms"
proof -
  have parts: "Option.bind (map_of ms ''eventType'') validate_event_type = None"
    "Option.bind (map_of ms ''data'') validate_condition_data = None" "validate_members ms = None"
    using assms(1) by (auto simp: validate_condition_document_def first_error_def split: option.splits)
  have others: "no_empty v" if "(k, v) \<in> set xs" "validate_members xs = None" "k \<noteq> ''eventType''" "k \<noteq> ''data''"
    for k v and xs :: "(string \<times> json) list"
    using that by (induction xs rule: validate_members.induct)
      (auto split: if_splits sum.splits dest: normalize_no_empty(1))
  have "no_empty v" if mem: "(k, v) \<in> set ms" for k v
  proof -
    have look: "map_of ms k = Some v" using mem assms(2) by simp
    consider "k = ''eventType''" | "k = ''data''" | "k \<noteq> ''eventType''" "k \<noteq> ''data''" by blast
    then show ?thesis
    proof cases
      case 1
      with parts(1) look show ?thesis
        by (cases v) (auto simp: validate_event_type_def dest: event_type_strings_ok split: if_splits)
    next
      case 2
      with parts(2) look show ?thesis
        by (auto simp: validate_condition_data_def dest: normalize_no_empty(1) split: sum.splits)
    next
      case 3
      with others mem parts(3) show ?thesis by blast
    qed
  qed
  then show ?thesis by (auto simp: list_all_iff)
qed

text \<open>The rendered text of an object begins and ends with its braces.\<close>

lemma rendered_object_trimmed: "trim_space (json_render (JObject ms)) = json_render (JObject ms)"
  by (rule trim_space_id) (simp add: is_space_def)

lemma condition_json_trimmed: "condition_json_from_spec num bad c = Inr s \<Longrightarrow> trim_space s = s \<and> s \<noteq> []"
  by (auto simp: condition_json_from_spec_def normalize_condition_json_def rendered_object_trimmed
      simp del: json_render.simps split: if_splits option.splits sum.splits json.splits) simp_all

lemma readable_event_types:
  "\<forall>t \<in> set ts. utf8_valid t \<Longrightarrow> ts \<noteq> [] \<Longrightarrow> readable (event_type_value ts) \<and> canonical num (event_type_value ts) \<and>
     no_empty (event_type_value ts)"
  by (cases ts) (auto simp: event_type_value_def list_all_iff)

lemma structured_members:
  assumes "distinct (map fst ms)" "readable (JObject ms)" "list_all (\<lambda>m. canonical num (snd m)) ms"
  obtains ns where "json_unmarshal num (json_render (JObject ms)) = Some (JObject ns)"
    "\<And>k. map_of ns k = map_of ms k" "set ns = set ms"
proof
  have "decode_members num ms = Some ms"
    using assms(3) by (intro decode_members_id) (auto simp: list_all_iff canonical_decode)
  then show "json_unmarshal num (json_render (JObject ms)) = Some (JObject (last_members ms))"
    using render_unmarshal [OF assms(2)] by simp
  have dist: "distinct (map fst (rev ms))" using assms(1) by (simp add: rev_map [symmetric])
  show look: "map_of (last_members ms) k = map_of ms k" for k
    unfolding last_members_lookup using map_of_inject_set [OF dist assms(1)] by simp
  have "distinct (map fst (last_members ms))" by (simp add: last_members_keys)
  then have "set (last_members ms) = set ms \<longleftrightarrow> map_of (last_members ms) = map_of ms"
    using map_of_inject_set [of "last_members ms" ms] assms(1) by simp
  with look show "set (last_members ms) = set ms" by blast
qed

lemma raw_document:
  assumes "number_format num" "normalize_condition_json num bad raw = Inr s"
  obtains ms where "json_unmarshal num s = Some (JObject ms)" "json_unmarshal num raw = Some (JObject ms)"
    "ms \<noteq> []" "list_all (\<lambda>m. no_empty (snd m)) ms"
proof -
  from assms(2) obtain ms where ms: "json_unmarshal num raw = Some (JObject ms)" "ms \<noteq> []"
      "validate_condition_document ms = None" "s = json_render (JObject ms)"
    by (auto simp: normalize_condition_json_def simp del: json_render.simps split: option.splits json.splits if_splits)
  from unmarshal_canonical(2) [OF assms(1) ms(1)] have "distinct (map fst ms)"
    unfolding canonical_object by blast
  with ms render_read_back [OF assms(1) ms(1)] show ?thesis
    by (intro that [of ms]) (auto intro: validated_no_empty simp del: json_render.simps)
qed

lemma structured_document:
  assumes num: "number_format num" and blank: "trim_space (ec_raw_json c) = []"
    and run: "condition_json_from_spec num bad c = Inr s"
    and types: "\<forall>t \<in> set (ec_event_type c). utf8_valid (trim_space t)"
  obtains ms where "json_unmarshal num s = Some (JObject ms)" "ms \<noteq> []" "list_all (\<lambda>m. no_empty (snd m)) ms"
    "fst ` set ms \<subseteq> {''eventType'', ''data''}"
    "map_of ms ''eventType'' = (if ec_event_type c = [] then None
       else Some (event_type_value (map trim_space (ec_event_type c))))"
    "map_of ms ''data'' = (if raw_bytes (ec_data c) = [] then None else normalized_data num c)"
proof -
  from run blank obtain m1 m2 where m: "condition_type_member c = Inr m1" "condition_data_member num bad c = Inr m2"
      "m1 @ m2 \<noteq> []" "s = json_render (JObject (m1 @ m2))"
    by (auto simp: condition_json_from_spec_def simp del: json_render.simps split: sum.splits if_splits)
  note m1 = condition_type_member_cases [OF m(1)]
  have ok1: "list_all (\<lambda>m. fst m = ''eventType'' \<and> readable (snd m) \<and> canonical num (snd m) \<and> no_empty (snd m)) m1"
    using m1 readable_event_types [of "map trim_space (ec_event_type c)" num] types by simp
  have ok2: "list_all (\<lambda>m. fst m = ''data'' \<and> readable (snd m) \<and> canonical num (snd m) \<and> no_empty (snd m)) m2 \<and>
      length m2 \<le> 1 \<and> map_of m2 ''data'' = (if raw_bytes (ec_data c) = [] then None else normalized_data num c)"
    using m(2)
  proof (cases rule: condition_data_member_cases)
    case (present v w)
    from unmarshal_canonical [OF num present(2)] normalize_canonical(1) [OF present(3)]
      normalize_no_empty(1) [OF present(3)] present show ?thesis by simp
  qed simp
  have valid: "utf8_valid ''eventType''" "utf8_valid ''data''" by (rule ascii_valid, simp)+
  have fst1: "map fst m1 = [] \<or> map fst m1 = [''eventType'']" using m1 by simp
  have fst2: "map fst m2 = [] \<or> map fst m2 = [''data'']" using ok2 by (cases m2) auto
  have all: "list_all (\<lambda>m. readable (snd m) \<and> canonical num (snd m) \<and> no_empty (snd m)) (m1 @ m2)"
    using ok1 ok2 by (auto simp: list_all_iff)
  have keys: "distinct (map fst (m1 @ m2))" "set (map fst (m1 @ m2)) \<subseteq> {''eventType'', ''data''}"
    using fst1 fst2 by auto
  have "utf8_valid (fst m)" if "m \<in> set (m1 @ m2)" for m
  proof -
    from that have "fst m \<in> set (map fst (m1 @ m2))" by (simp only: set_map imageI)
    with keys(2) have "fst m \<in> {''eventType'', ''data''}" by (rule subsetD)
    then show ?thesis by (elim insertE emptyE) (simp_all only: valid)
  qed
  with all keys have shape: "distinct (map fst (m1 @ m2))" "readable (JObject (m1 @ m2))"
      "list_all (\<lambda>m. canonical num (snd m)) (m1 @ m2)" "list_all (\<lambda>m. no_empty (snd m)) (m1 @ m2)"
      "fst ` set (m1 @ m2) \<subseteq> {''eventType'', ''data''}"
    by (simp_all only: readable.simps list_all_iff set_map) simp_all
  from shape(1,2,3) obtain ns where ns: "json_unmarshal num (json_render (JObject (m1 @ m2))) = Some (JObject ns)"
      "\<And>k. map_of ns k = map_of (m1 @ m2) k" "set ns = set (m1 @ m2)" by (rule structured_members) blast
  have look: "map_of (m1 @ m2) ''eventType'' = (if ec_event_type c = [] then None
       else Some (event_type_value (map trim_space (ec_event_type c))))"
    "map_of (m1 @ m2) ''data'' = (if raw_bytes (ec_data c) = [] then None else normalized_data num c)"
    using ok2 m1 by (cases m2; auto simp: map_add_def)+
  show ?thesis
  proof (rule that [of ns])
    show "json_unmarshal num s = Some (JObject ns)" using ns(1) m(4) by simp
    show "ns \<noteq> []" using ns(3) m(3) by (metis list.set_sel(1) set_empty)
    show "list_all (\<lambda>m. no_empty (snd m)) ns" "fst ` set ns \<subseteq> {''eventType'', ''data''}"
      using shape(4,5) ns(3) by (simp_all add: list_all_iff)
  qed (use ns(2) look in simp_all)
qed

end
