(* ===== verification/RuleProperties.thy ===== *)
theory RuleProperties
  imports RuleLemmas TriggerConditionLemmas
begin

text \<open>
  The properties of the OCI Events rule manager and of the condition documents it is given, with
  witnesses on a service of one rule that lives in a region.
\<close>

section \<open>A service of one rule\<close>

record rule_world =
  rw_region :: string
  rw_rule :: "(string \<times> sdk_rule) option"

definition shown_rule :: "rule_details \<Rightarrow> sdk_rule" where
  "shown_rule x = \<lparr>ru_id = Some ''rule1'', ru_display_name = Some (rd_display_name x),
     ru_description = Some (rd_description x), ru_is_enabled = Some (rd_is_enabled x),
     ru_condition = Some (rd_condition x), ru_lifecycle_state = ''ACTIVE'', ru_lifecycle_message = None,
     ru_actions = Some (map (\<lambda>a. FaasAction (Some (fa_function_id a)) (Some (fa_is_enabled a))) (rd_actions x)),
     ru_freeform_tags = Some (rd_freeform_tags x)\<rparr>"

definition not_here :: go_error where
  "not_here = SdkError \<lparr>sdk_text = ''not found'', sdk_service = Some \<lparr>sf_status = 404, sf_code = ''NotFound'', sf_message = [],
     sf_opc_request_id = []\<rparr>, sdk_timeout = False, sdk_endpoint = False\<rparr>"

definition visible_rule :: "rule_world \<Rightarrow> string \<Rightarrow> sdk_rule option" where
  "visible_rule w i = (case rw_rule w of
     Some (g, r) \<Rightarrow> if g = rw_region w \<and> i \<noteq> [] \<and> trimmed_value (ru_id r) = i then Some r else None
   | None \<Rightarrow> None)"

definition one_rule_client :: "rule_world events_client" where
  "one_rule_client = \<lparr>
     ev_set_region = (\<lambda>g w. w\<lparr>rw_region := g\<rparr>),
     ev_list_rules = (\<lambda>c page w. (Inr ([], None), w)),
     ev_create_rule = (\<lambda>c x w. (Inr (shown_rule x), w\<lparr>rw_rule := Some (rw_region w, shown_rule x)\<rparr>)),
     ev_get_rule = (\<lambda>i w. (case visible_rule w i of Some r \<Rightarrow> Inr r | None \<Rightarrow> Inl not_here, w)),
     ev_update_rule = (\<lambda>i x w. case visible_rule w i of
        Some r \<Rightarrow> (Inr (shown_rule x), w\<lparr>rw_rule := Some (rw_region w, shown_rule x)\<rparr>)
      | None \<Rightarrow> (Inl not_here, w)),
     ev_delete_rule = (\<lambda>i w. case visible_rule w i of
        Some r \<Rightarrow> (Inr (), w\<lparr>rw_rule := None\<rparr>) | None \<Rightarrow> (Inl not_here, w))\<rparr>"

definition one_rule :: "rule_world oci_rules" where
  "one_rule = \<lparr>or_configured = True, or_client = one_rule_client, or_number = Some, or_page_bound = 3\<rparr>"

definition wanted_rule :: "string \<Rightarrow> string \<Rightarrow> desired_rule" where
  "wanted_rule compartment rule_id = \<lparr>dr_compartment_id = compartment, dr_display_name = ''d'', dr_description = [],
     dr_is_enabled = True, dr_condition_json = ''{}'', dr_function_id = ''fn'', dr_rule_id = rule_id,
     dr_trigger_name = ''t'', dr_namespace = ''ns'', dr_uid = ''u''\<rparr>"

definition ashburn :: string where "ashburn = ''ocid1.compartment.oc1.us-ashburn-1.a''"
definition phoenix :: string where "phoenix = ''ocid1.compartment.oc1.us-phoenix-1.b''"

definition no_rules :: rule_world where
  "no_rules = \<lparr>rw_region = ''us-phoenix-1'', rw_rule = None\<rparr>"

lemma shown_rule_id [simp]: "trimmed_value (ru_id (shown_rule x)) = ''rule1''"
  by (simp add: shown_rule_def trimmed_value_def trim_space_def is_space_def)

lemma one_rule_client_facts:
  "ev_create_rule one_rule_client c x w = (Inr r, w') \<longleftrightarrow> r = shown_rule x \<and> w' = w\<lparr>rw_rule := Some (rw_region w, r)\<rparr>"
  "ev_update_rule one_rule_client i x w = (Inr r, w') \<longleftrightarrow>
     visible_rule w i \<noteq> None \<and> r = shown_rule x \<and> w' = w\<lparr>rw_rule := Some (rw_region w, r)\<rparr>"
  "ev_get_rule one_rule_client i w = (Inr r, w') \<longleftrightarrow> visible_rule w i = Some r \<and> w' = w"
  "ev_set_region one_rule_client g w = w\<lparr>rw_region := g\<rparr>"
  by (auto simp: one_rule_client_def split: option.splits)

lemma one_rule_returned:
  "returned_rule one_rule_client r w \<Longrightarrow>
     (\<exists>g. rw_rule w = Some (g, r) \<and> g = rw_region w) \<and> trimmed_value (ru_id r) \<noteq> []"
  by (auto simp: returned_rule_def one_rule_client_facts visible_rule_def split: option.splits if_splits prod.splits)

section \<open>Searching\<close>

text \<open>
  C35: paging is invisible: the search over any number of pages finds what a search of the whole listing
  finds, the first rule that is not gone and carries the three tags of this trigger, and creates nothing
  of another trigger's: without such a rule the answer is that there is none.
\<close>

theorem rule_search_pages:
  assumes "lists_pages (or_client I) (dr_compartment_id d) None w pages" "length pages \<le> or_page_bound I"
    and "dr_rule_id d = []"
  shows "find_rule I d w =
    (case find (\<lambda>s. \<not> gone_rule s \<and> summary_matches_trigger s d \<and> trimmed_value (su_id s) \<noteq> []) (concat pages) of
       None \<Rightarrow> (Inr None, w)
     | Some s \<Rightarrow> get_found_rule (or_client I) (trimmed_value (su_id s)) w)"
  using search_rules_concat [OF assms(1,2)] assms(3) by (simp add: find_rule_def adopted_summary_def)

definition sample_summary :: "string \<Rightarrow> string \<Rightarrow> rule_summary" where
  "sample_summary i uid = \<lparr>su_id = Some i, su_lifecycle_state = ''ACTIVE'',
     su_freeform_tags = Some (managed_tags ((wanted_rule ashburn [])\<lparr>dr_uid := uid\<rparr>))\<rparr>"

definition paged_rules :: "rule_world oci_rules" where
  "paged_rules = one_rule\<lparr>or_client := one_rule_client\<lparr>
     ev_list_rules := (\<lambda>c page w. (Inr (if page = None then ([sample_summary ''a'' ''other''], Some ''2'')
       else ([sample_summary ''rule1'' ''u''], None)), w)),
     ev_get_rule := (\<lambda>i w. (Inr (shown_rule (desired_rule_details (wanted_rule ashburn []))), w))\<rparr>\<rparr>"

theorem rule_search_pages_witness:
  "find_rule paged_rules (wanted_rule ashburn []) no_rules =
     (Inr (Some (shown_rule (desired_rule_details (wanted_rule ashburn [])))), no_rules)"
proof -
  have "lists_pages (or_client paged_rules) (dr_compartment_id (wanted_rule ashburn [])) None no_rules
      [[sample_summary ''a'' ''other''], [sample_summary ''rule1'' ''u'']]"
    by (simp add: paged_rules_def one_rule_def one_rule_client_def)
  moreover have "length [[sample_summary ''a'' ''other''], [sample_summary ''rule1'' ''u'']] \<le> or_page_bound paged_rules"
    "dr_rule_id (wanted_rule ashburn []) = []"
    by (simp_all add: paged_rules_def one_rule_def wanted_rule_def)
  ultimately have "find_rule paged_rules (wanted_rule ashburn []) no_rules =
    (case find (\<lambda>s. \<not> gone_rule s \<and> summary_matches_trigger s (wanted_rule ashburn []) \<and> trimmed_value (su_id s) \<noteq> [])
        (concat [[sample_summary ''a'' ''other''], [sample_summary ''rule1'' ''u'']]) of
       None \<Rightarrow> (Inr None, no_rules)
     | Some s \<Rightarrow> get_found_rule (or_client paged_rules) (trimmed_value (su_id s)) no_rules)"
    by (rule rule_search_pages)
  also have "\<dots> = (Inr (Some (shown_rule (desired_rule_details (wanted_rule ashburn [])))), no_rules)"
    by code_simp
  finally show ?thesis .
qed

section \<open>Ensuring\<close>

text \<open>
  C16: ensuring converges. Once \<open>EnsureRule\<close> has succeeded, ensuring the same rule again under the reported
  id only reads it: it reports the same id and readiness, records nothing, and leaves the world as that
  one read leaves it. The service is assumed to show the details it was sent and to keep the
  rule, and the texts of the rule to carry no outer white space, as the trigger controller makes them.
\<close>

theorem rule_ensure_converges:
  assumes "oci_ensure_rule I d w = ((st, None), w')" "stores_rules (or_client I)" "trimmed_rule d" "keeps_rule I d w'"
  shows "\<exists>r w'' m. ev_get_rule (or_client I) (rs_rule_id st) (region_world I d w') = (Inr r, w'') \<and>
    oci_ensure_rule I (d\<lparr>dr_rule_id := rs_rule_id st\<rparr>) w' =
      ((\<lparr>rs_rule_id = rs_rule_id st, rs_ready = rs_ready st, rs_message = m, rs_events = []\<rparr>, None), w'')"
proof -
  from ensured_rule_up_to_date [OF assms(1-3)] obtain r where
    r: "\<not> rule_needs_update (or_number I) r d" "rs_rule_id st = trimmed_value (ru_id r)"
      "rs_ready st = rule_ready r" "trimmed_value (ru_id r) \<noteq> []" "returned_rule (or_client I) r w'" by blast
  from assms(4) r(5) obtain w'' where
    get: "ev_get_rule (or_client I) (trimmed_value (ru_id r)) (region_world I d w') = (Inr r, w'')"
    by (auto simp: keeps_rule_def)
  let ?d = "d\<lparr>dr_rule_id := rs_rule_id st\<rparr>"
  have same: "region_world I ?d w' = region_world I d w'" "rule_needs_update (or_number I) r ?d = rule_needs_update (or_number I) r d"
    "validate_desired_rule ?d = validate_desired_rule d"
    by (simp_all add: region_world_def rule_needs_update_def validate_desired_rule_def cong: option.case_cong)
  have "oci_ensure_rule I ?d w' = ((observed_rule r ''OCI Events rule is ready.'' [], None), w'')"
    using ensure_configured [OF assms(1)] get r same by (intro ensure_up_to_date) simp_all
  with get r show ?thesis by (auto simp: observed_rule_def)
qed

theorem rule_ensure_converges_witness:
  "\<exists>st w'. oci_ensure_rule one_rule (wanted_rule ashburn []) no_rules = ((st, None), w') \<and>
    rw_rule w' \<noteq> None \<and>
    (\<exists>r w'' m. ev_get_rule one_rule_client (rs_rule_id st) (region_world one_rule (wanted_rule ashburn []) w') = (Inr r, w'') \<and>
      oci_ensure_rule one_rule ((wanted_rule ashburn [])\<lparr>dr_rule_id := rs_rule_id st\<rparr>) w' =
        ((\<lparr>rs_rule_id = rs_rule_id st, rs_ready = rs_ready st, rs_message = m, rs_events = []\<rparr>, None), w''))"
proof -
  let ?d = "wanted_rule ashburn []"
  obtain st err w' where run: "oci_ensure_rule one_rule ?d no_rules = ((st, err), w')" by (metis prod.exhaust)
  have "snd (fst (oci_ensure_rule one_rule ?d no_rules)) = None \<and>
      rw_rule (snd (oci_ensure_rule one_rule ?d no_rules)) \<noteq> None \<and>
      rw_region (snd (oci_ensure_rule one_rule ?d no_rules)) = region_from_ocid (dr_compartment_id ?d)"
    by code_simp
  with run have ok: "err = None" "rw_rule w' \<noteq> None" "rw_region w' = region_from_ocid (dr_compartment_id ?d)" by simp_all
  have client: "or_client one_rule = one_rule_client" by (simp add: one_rule_def)
  have stores: "stores_rules (or_client one_rule)"
    unfolding stores_rules_def client one_rule_client_facts
    by (auto simp: shows_details_def) (auto simp: shown_rule_def visible_rule_def split: option.splits if_splits prod.splits)
  have trimmed: "trimmed_rule ?d" by code_simp
  have keeps: "keeps_rule one_rule ?d w'"
    using ok(3) by (auto simp: keeps_rule_def client one_rule_client_facts region_world_def visible_rule_def
        dest!: one_rule_returned)
  from rule_ensure_converges [OF run [unfolded ok(1)] stores trimmed keeps] run ok show ?thesis
    unfolding client by blast
qed

text \<open>
  A deletion goes to the region of whatever rule was ensured last. \<open>DeleteRule\<close> never selects a region,
  so after a rule in another region the deletion asks the wrong one, is told that there is no such rule,
  and reports the rule as already deleted while it is still there.
\<close>

theorem rule_deleted_in_wrong_region:
  "let (_, w1) = oci_ensure_rule one_rule (wanted_rule ashburn []) no_rules;
       w2 = ev_set_region one_rule_client (region_from_ocid phoenix) w1;
       ((st, err), w3) = oci_delete_rule one_rule ''rule1'' w2
   in err = None \<and> rs_ready st \<and> rs_message st = ''OCI Events rule was already deleted.'' \<and> rw_rule w3 \<noteq> None"
  by code_simp

section \<open>Condition documents\<close>

text \<open>
  C21: the condition sent to OCI Events is a JSON object that reads back as what the spec says: the value of
  \<open>rawJson\<close> when that is set, otherwise the trimmed event types (one as a string, several as an array)
  and the normalised data. It has at least one member and neither null nor an empty array anywhere.
\<close>

theorem condition_document_read_back:
  assumes "number_format num" "condition_json_from_spec num bad c = Inr s"
    and "\<forall>t \<in> set (ec_event_type c). utf8_valid (trim_space t)"
  shows "\<exists>ms. json_unmarshal num s = Some (JObject ms) \<and> ms \<noteq> [] \<and> no_empty (JObject ms) \<and>
    (if trim_space (ec_raw_json c) \<noteq> [] then json_unmarshal num (ec_raw_json c) = Some (JObject ms)
     else fst ` set ms \<subseteq> {''eventType'', ''data''} \<and>
       map_of ms ''eventType'' = (if ec_event_type c = [] then None
         else Some (event_type_value (map trim_space (ec_event_type c)))) \<and>
       map_of ms ''data'' = (if raw_bytes (ec_data c) = [] then None else normalized_data num c))"
proof (cases "trim_space (ec_raw_json c) = []")
  case True
  from structured_document [OF assms(1) True assms(2,3)] True show ?thesis by simp metis
next
  case False
  with assms(2) have "normalize_condition_json num bad (ec_raw_json c) = Inr s"
    by (simp add: condition_json_from_spec_def)
  from raw_document [OF assms(1) this] False show ?thesis by simp metis
qed

definition sample_number :: "string \<Rightarrow> string option" where
  "sample_number l = (if parse_number l = Some (l, []) then Some l else None)"

definition sample_rule_condition :: event_condition where
  "sample_rule_condition = \<lparr>ec_raw_json = [], ec_event_type = ['' a '', ''b''],
     ec_data = Some (Some (''{'' @ json_string ''k'' @ '':[1]}''))\<rparr>"

theorem condition_document_read_back_witness:
  "\<exists>s ms. condition_json_from_spec sample_number id sample_rule_condition = Inr s \<and>
    json_unmarshal sample_number s = Some (JObject ms) \<and>
    map_of ms ''eventType'' = Some (JArray [JString ''a'', JString ''b'']) \<and>
    map_of ms ''data'' = Some (JObject [(''k'', JNumber ''1'')])"
proof -
  have num: "number_format sample_number" by (simp add: number_format_def sample_number_def)
  have "case condition_json_from_spec sample_number id sample_rule_condition of Inl e \<Rightarrow> False | Inr s \<Rightarrow> True"
    by code_simp
  then obtain s where s: "condition_json_from_spec sample_number id sample_rule_condition = Inr s"
    by (cases "condition_json_from_spec sample_number id sample_rule_condition") auto
  have types: "\<forall>t \<in> set (ec_event_type sample_rule_condition). utf8_valid (trim_space t)" by code_simp
  have vals: "trim_space (ec_raw_json sample_rule_condition) = []" "ec_event_type sample_rule_condition \<noteq> []"
    "event_type_value (map trim_space (ec_event_type sample_rule_condition)) = JArray [JString ''a'', JString ''b'']"
    "raw_bytes (ec_data sample_rule_condition) \<noteq> []"
    "normalized_data sample_number sample_rule_condition = Some (JObject [(''k'', JNumber ''1'')])"
    by code_simp+
  from condition_document_read_back [OF num s types] vals s show ?thesis by auto
qed

end
