(* ===== verification/TriggerController.thy ===== *)
theory TriggerController
  imports EventController EventRules TriggerCondition
begin

text \<open>
  \<open>internal/controller/functioneventtrigger_controller.go\<close>: the \<open>FunctionEventTrigger\<close> reconciler. A
  trigger of OCI event types is kept as a rule of the OCI Events service by the manager; a trigger of
  function events only reports that it routes. The reconciler remembers the last event it recorded for
  each trigger (\<open>eventSignatures\<close>): this memory is threaded beside the effects. Log lines are left out.
\<close>

datatype rule_call =
    EnsuredRule desired_rule rule_state "go_error option"
  | DeletedRule string rule_state "go_error option"

record 'w trigger_reconciler =
  tr_client :: "'w kube_client"
  tr_lib :: kube_lib
  tr_manager :: "'w rule_manager option"
  tr_recorder :: bool
  tr_clock :: "'w \<Rightarrow> time"
  tr_number :: "string \<Rightarrow> string option"
  tr_json_error :: "string \<Rightarrow> string"

type_synonym trigger_effect = "(event_trigger, rule_call) effect"
type_synonym signatures = "string \<times> string \<Rightarrow> string option"

record 'w trigger_state =
  ts_io :: "(trigger_effect, 'w) io"
  ts_signatures :: signatures

definition trigger_finalizer :: string where
  "trigger_finalizer = ''functioneventtriggers.functions.oci.oracle.com/finalizer''"

definition trigger_requeue :: duration where
  "trigger_requeue = 30 * second"

text \<open>An API call that returns an error or nil.\<close>

definition trigger_perform ::
    "trigger_effect \<Rightarrow> ('w \<Rightarrow> go_error option \<times> 'w) \<Rightarrow> 'w trigger_state \<Rightarrow> go_error option \<times> 'w trigger_state" where
  "trigger_perform x f s = (case perform x f (ts_io s) of (err, io) \<Rightarrow> (err, s\<lparr>ts_io := io\<rparr>))"

definition trigger_now :: "'w trigger_reconciler \<Rightarrow> 'w trigger_state \<Rightarrow> time" where
  "trigger_now R s = tr_clock R (io_world (ts_io s))"

section \<open>Events\<close>

definition trigger_key :: "event_trigger \<Rightarrow> string \<times> string" where
  "trigger_key t = (om_namespace (tr_meta t), om_name (tr_meta t))"

fun severity_name :: "event_severity \<Rightarrow> string" where
  "severity_name EventNormal = ''Normal''"
| "severity_name EventWarning = ''Warning''"

definition event_signature :: "event_severity \<Rightarrow> string \<Rightarrow> string \<Rightarrow> string" where
  "event_signature sev reason message = severity_name sev @ [CHR 0x00] @ reason @ [CHR 0x00] @ message"

definition record_event_if_changed ::
    "bool \<Rightarrow> event_trigger \<Rightarrow> event_severity \<Rightarrow> string \<Rightarrow> string \<Rightarrow> 'w trigger_state \<Rightarrow> 'w trigger_state" where
  "record_event_if_changed recorder t sev reason message s =
     (if \<not> recorder then s
      else if ts_signatures s (trigger_key t) = Some (event_signature sev reason message) then s
      else \<lparr>ts_io = record_event recorder sev reason message (ts_io s),
            ts_signatures = (ts_signatures s)(trigger_key t \<mapsto> event_signature sev reason message)\<rparr>)"

definition clear_event_signature :: "event_trigger \<Rightarrow> 'w trigger_state \<Rightarrow> 'w trigger_state" where
  "clear_event_signature t s = s\<lparr>ts_signatures := (ts_signatures s)(trigger_key t := None)\<rparr>"

definition rule_event_severity :: "rule_event \<Rightarrow> event_severity" where
  "rule_event_severity e = (if re_type e = RuleEventWarning then EventWarning else EventNormal)"

definition rule_event_reason :: "rule_event \<Rightarrow> string" where
  "rule_event_reason e = (if re_reason e = [] then ''RuleError'' else re_reason e)"

definition record_rule_events :: "bool \<Rightarrow> event_trigger \<Rightarrow> rule_event list \<Rightarrow> 'w trigger_state \<Rightarrow> 'w trigger_state" where
  "record_rule_events recorder t events s =
     fold (\<lambda>e. record_event_if_changed recorder t (rule_event_severity e) (rule_event_reason e) (re_message e)) events s"

section \<open>Conditions\<close>

definition set_trigger_condition ::
    "kube_lib \<Rightarrow> time \<Rightarrow> string \<Rightarrow> condition_state \<Rightarrow> event_trigger \<Rightarrow> event_trigger" where
  "set_trigger_condition K now ty c t =
     (let keep = (case find_status_condition K (tst_conditions (tr_status t)) ty of
            None \<Rightarrow> None
          | Some d \<Rightarrow>
              if c_status d = cs_status c \<and> c_reason d = cs_reason c \<and> c_message d = cs_message c \<and>
                 c_observed_generation d = om_generation (tr_meta t)
              then Some (c_last_transition d) else None);
          transition = (case keep of None \<Rightarrow> now | Some x \<Rightarrow> x)
      in set_trigger_status_condition K
           \<lparr>c_type = ty, c_status = cs_status c, c_reason = cs_reason c, c_message = cs_message c,
            c_observed_generation = om_generation (tr_meta t), c_last_transition = transition\<rparr> t)"

definition set_trigger_conditions ::
    "kube_lib \<Rightarrow> time \<Rightarrow> condition_state \<Rightarrow> condition_state \<Rightarrow> event_trigger \<Rightarrow> event_trigger" where
  "set_trigger_conditions K now resolved ready t =
     set_trigger_condition K now trigger_condition_rule_ready ready
       (set_trigger_condition K now trigger_condition_resolved resolved t)"

definition with_trigger_phase :: "trigger_phase \<Rightarrow> string \<Rightarrow> event_trigger \<Rightarrow> event_trigger" where
  "with_trigger_phase phase message t = tr_status_update (\<lambda>s. s\<lparr>tst_phase := phase, tst_message := message\<rparr>) t"

definition trigger_cond :: "condition_status \<Rightarrow> string \<Rightarrow> string \<Rightarrow> condition_state" where
  "trigger_cond st reason message = \<lparr>cs_status = st, cs_reason = reason, cs_message = message\<rparr>"

definition mark_trigger_waiting :: "kube_lib \<Rightarrow> time \<Rightarrow> string \<Rightarrow> string \<Rightarrow> event_trigger \<Rightarrow> event_trigger" where
  "mark_trigger_waiting K now reason message t =
     set_trigger_conditions K now (trigger_cond CondFalse reason message)
       (trigger_cond CondFalse ''WaitingForFunction'' ''OCI Events rule is waiting for the referenced Function.'')
       (with_trigger_phase TriggerPhasePending message t)"

definition function_ready_state :: condition_state where
  "function_ready_state = trigger_cond CondTrue ''FunctionReady'' ''Referenced Function is ready.''"

definition mark_trigger_pending :: "kube_lib \<Rightarrow> time \<Rightarrow> string \<Rightarrow> string \<Rightarrow> event_trigger \<Rightarrow> event_trigger" where
  "mark_trigger_pending K now reason message t =
     set_trigger_conditions K now function_ready_state (trigger_cond CondFalse reason message)
       (with_trigger_phase TriggerPhasePending message t)"

definition mark_trigger_error :: "kube_lib \<Rightarrow> time \<Rightarrow> string \<Rightarrow> string \<Rightarrow> event_trigger \<Rightarrow> event_trigger" where
  "mark_trigger_error K now reason message t =
     set_trigger_conditions K now (trigger_cond CondUnknown reason ''Function resolution did not complete.'')
       (trigger_cond CondFalse reason message) (with_trigger_phase TriggerPhaseError message t)"

definition has_ignored_oci_fields :: "event_trigger \<Rightarrow> bool" where
  "has_ignored_oci_fields t \<longleftrightarrow> trim_space (ts_compartment_id (tr_spec t)) \<noteq> [] \<or>
     trim_space (ts_display_name (tr_spec t)) \<noteq> [] \<or> ts_deletion_policy (tr_spec t) = DeletionPolicyRetain"

definition route_ready_message :: "event_trigger \<Rightarrow> string" where
  "route_ready_message t =
     (if has_ignored_oci_fields t then
        ''FunctionEventTrigger routes Kubernetes FunctionEvent objects; OCI Events rule fields are ignored for functionevent.* routes.''
      else ''FunctionEventTrigger routes Kubernetes FunctionEvent objects.'')"

definition mark_trigger_route_ready :: "kube_lib \<Rightarrow> time \<Rightarrow> event_trigger \<Rightarrow> event_trigger" where
  "mark_trigger_route_ready K now t =
     set_trigger_conditions K now
       (trigger_cond CondUnknown ''FunctionEventRoute''
          ''Function readiness is checked when matching FunctionEvents are processed.'')
       (trigger_cond CondTrue ''FunctionEventRouteReady'' (route_ready_message t))
       (tr_status_update (\<lambda>s. s\<lparr>tst_phase := TriggerPhaseReady, tst_rule_id := [],
          tst_message := route_ready_message t\<rparr>) t)"

definition missing_oci_fields :: "event_trigger \<Rightarrow> string" where
  "missing_oci_fields t =
     (let missing = (if trim_space (ts_compartment_id (tr_spec t)) = [] then [''spec.compartmentId''] else []) @
            (if trim_space (ts_display_name (tr_spec t)) = [] then [''spec.displayName''] else [])
      in if missing = [] then []
         else ''OCI Events triggers require '' @ join missing '' and '' @ ''. FunctionEvent-only triggers can omit these fields by using only functionevent.* condition.eventType values.'')"

section \<open>Status and object updates\<close>

definition trigger_status_equal :: "trigger_status \<Rightarrow> trigger_status \<Rightarrow> bool" where
  "trigger_status_equal a b \<longleftrightarrow> a\<lparr>tst_last_sync_time := None\<rparr> = b\<lparr>tst_last_sync_time := None\<rparr>"

text \<open>The result is the error of the update, if one was made and failed.\<close>

definition patch_trigger_status ::
    "'w trigger_reconciler \<Rightarrow> event_trigger \<Rightarrow> trigger_status \<Rightarrow> bool \<Rightarrow> 'w trigger_state \<Rightarrow>
     go_error option \<times> 'w trigger_state" where
  "patch_trigger_status R t desired sync s =
     (if trigger_status_equal (tr_status t) desired then (None, s)
      else
        (let d = desired\<lparr>tst_last_sync_time :=
               (if sync then Some (trigger_now R s) else tst_last_sync_time (tr_status t))\<rparr>;
             t' = t\<lparr>tr_status := d\<rparr>
         in trigger_perform (StatusUpdate t') (status_update_trigger (tr_client R) t') s))"

definition has_trigger_finalizer :: "kube_lib \<Rightarrow> event_trigger \<Rightarrow> bool" where
  "has_trigger_finalizer K t = contains_finalizer K (om_finalizers (tr_meta t)) trigger_finalizer"

definition add_trigger_finalizer :: "kube_lib \<Rightarrow> event_trigger \<Rightarrow> event_trigger" where
  "add_trigger_finalizer K t = tr_meta_update (om_finalizers_update (\<lambda>fs. add_finalizer K fs trigger_finalizer)) t"

definition remove_trigger_finalizer :: "kube_lib \<Rightarrow> event_trigger \<Rightarrow> event_trigger" where
  "remove_trigger_finalizer K t = tr_meta_update (om_finalizers_update (\<lambda>fs. remove_finalizer K fs trigger_finalizer)) t"

definition update_trigger_object ::
    "'w trigger_reconciler \<Rightarrow> event_trigger \<Rightarrow> 'w trigger_state \<Rightarrow> go_error option \<times> 'w trigger_state" where
  "update_trigger_object R t s = trigger_perform (ObjectUpdate t) (update_trigger (tr_client R) t) s"

section \<open>The referenced function\<close>

fun show_function_phase :: "function_phase \<Rightarrow> string" where
  "show_function_phase FunctionPhaseUnset = []"
| "show_function_phase FunctionPhasePending = ''Pending''"
| "show_function_phase FunctionPhaseReady = ''Ready''"
| "show_function_phase FunctionPhaseError = ''Error''"

definition function_not_ready_for_trigger :: "kube_lib \<Rightarrow> oci_function \<Rightarrow> string" where
  "function_not_ready_for_trigger K f =
     (let st = fn_status f;
          details =
            (if fst_phase st \<noteq> FunctionPhaseUnset then [''phase='' @ show_function_phase (fst_phase st)] else []) @
            (if fst_function_id st = [] then [''status.functionId is empty''] else []) @
            (case find_status_condition K (fst_conditions st) function_condition_ready of
               None \<Rightarrow> []
             | Some c \<Rightarrow> [''Ready='' @ show_condition_status (c_status c) @ '' reason='' @ c_reason c]) @
            (if fst_message st \<noteq> [] then [''message='' @ fst_message st] else []);
          start = ''Waiting for Function '' @ go_quote (om_name (fn_meta f)) @
            '' to become Ready and populate status.functionId''
      in if details = [] then start @ ''.'' else start @ '': '' @ join details ''; '' @ ''.'')"

definition usable_for_rule :: "kube_lib \<Rightarrow> oci_function \<Rightarrow> bool" where
  "usable_for_rule K f \<longleftrightarrow> is_status_condition_true K (fst_conditions (fn_status f)) function_condition_ready \<and>
     trim_space (fst_function_id (fn_status f)) \<noteq> []"

text \<open>Either the function, or the marked object and the result of the reconciliation.\<close>

definition resolve_trigger_function ::
    "'w trigger_reconciler \<Rightarrow> event_trigger \<Rightarrow> event_trigger \<Rightarrow> time \<Rightarrow> 'w trigger_state \<Rightarrow>
     ((event_trigger \<times> ctrl_result) + oci_function) \<times> 'w trigger_state" where
  "resolve_trigger_function R t desired now s =
     (let K = tr_lib R; name = fr_name (ts_function_ref (tr_spec t)); ns = om_namespace (tr_meta t) in
      if name = [] then
        (Inl (mark_trigger_error K now ''InvalidFunctionRef'' ''spec.functionRef.name is required.'' desired, no_requeue), s)
      else case get_function (tr_client R) ns name (io_world (ts_io s)) of
        GetFailed e \<Rightarrow>
          (Inl (mark_trigger_error K now ''FunctionLookupError'' (err_text e) desired, requeue_in (30 * second)), s)
      | NotFound \<Rightarrow>
          (let message = ''Waiting for Function '' @ go_quote name @ '' to exist in namespace '' @ go_quote ns @ ''.''
           in (Inl (mark_trigger_waiting K now ''FunctionNotFound'' message desired, requeue_in (30 * second)),
               record_event_if_changed (tr_recorder R) t EventNormal ''WaitingForFunction'' message s))
      | Got f \<Rightarrow>
          if \<not> usable_for_rule K f then
            (let message = function_not_ready_for_trigger K f
             in (Inl (mark_trigger_waiting K now ''FunctionNotReady'' message desired, requeue_in (30 * second)),
                 record_event_if_changed (tr_recorder R) t EventNormal ''WaitingForFunction'' message s))
          else (Inr f, s))"

definition desired_rule_from_trigger :: "event_trigger \<Rightarrow> oci_function \<Rightarrow> string \<Rightarrow> desired_rule" where
  "desired_rule_from_trigger t f condition_json =
     \<lparr>dr_compartment_id = trim_space (ts_compartment_id (tr_spec t)),
      dr_display_name = trim_space (ts_display_name (tr_spec t)),
      dr_description = trim_space (ts_description (tr_spec t)), dr_is_enabled = rule_enabled t,
      dr_condition_json = condition_json, dr_function_id = trim_space (fst_function_id (fn_status f)),
      dr_rule_id = trim_space (tst_rule_id (tr_status t)), dr_trigger_name = om_name (tr_meta t),
      dr_namespace = om_namespace (tr_meta t), dr_uid = om_uid (tr_meta t)\<rparr>"

section \<open>Calls of the manager\<close>

definition call_ensure_rule ::
    "'w trigger_reconciler \<Rightarrow> 'w rule_manager \<Rightarrow> event_trigger \<Rightarrow> desired_rule \<Rightarrow> 'w trigger_state \<Rightarrow>
     (rule_state \<times> go_error option) \<times> 'w trigger_state" where
  "call_ensure_rule R M t d s =
     (let ((st, err), w) = rm_ensure_rule M d (io_world (ts_io s))
      in ((st, err), record_rule_events (tr_recorder R) t (rs_events st)
            (s\<lparr>ts_io := emit (Called (EnsuredRule d st err)) ((ts_io s)\<lparr>io_world := w\<rparr>)\<rparr>)))"

definition call_delete_rule ::
    "'w trigger_reconciler \<Rightarrow> 'w rule_manager \<Rightarrow> event_trigger \<Rightarrow> string \<Rightarrow> 'w trigger_state \<Rightarrow>
     (rule_state \<times> go_error option) \<times> 'w trigger_state" where
  "call_delete_rule R M t i s =
     (let ((st, err), w) = rm_delete_rule M i (io_world (ts_io s))
      in ((st, err), record_rule_events (tr_recorder R) t (rs_events st)
            (s\<lparr>ts_io := emit (Called (DeletedRule i st err)) ((ts_io s)\<lparr>io_world := w\<rparr>)\<rparr>)))"

section \<open>Deletion\<close>

definition release_trigger ::
    "'w trigger_reconciler \<Rightarrow> event_trigger \<Rightarrow> 'w trigger_state \<Rightarrow> reconcile_end \<times> 'w trigger_state" where
  "release_trigger R t s =
     (case update_trigger_object R (remove_trigger_finalizer (tr_lib R) t) (clear_event_signature t s) of
        (err, s') \<Rightarrow> (Returned no_requeue err, s'))"

definition reconcile_trigger_delete ::
    "'w trigger_reconciler \<Rightarrow> event_trigger \<Rightarrow> 'w trigger_state \<Rightarrow> reconcile_end \<times> 'w trigger_state" where
  "reconcile_trigger_delete R t s =
     (let i = tst_rule_id (tr_status t) in
      if \<not> has_trigger_finalizer (tr_lib R) t then (Returned no_requeue None, s)
      else if trigger_deletion_policy t = DeletionPolicyDelete \<and> i \<noteq> [] then
        (case tr_manager R of
           None \<Rightarrow>
             (Returned (requeue_in trigger_requeue) None,
              record_event_if_changed (tr_recorder R) t EventWarning ''RuleError''
                (''Cannot delete OCI Events rule '' @ i @ '' because event trigger manager is not configured.'') s)
         | Some M \<Rightarrow>
             (case call_delete_rule R M t i s of
                ((st, Some e), s1) \<Rightarrow>
                  (Returned (requeue_in trigger_requeue) None,
                   record_event_if_changed (tr_recorder R) t EventWarning ''RuleError'' (normalize_rule_error (Some e)) s1)
              | ((st, None), s1) \<Rightarrow> release_trigger R t s1))
      else release_trigger R t s)"

section \<open>Reconcile\<close>

definition start_trigger :: "event_trigger \<Rightarrow> event_trigger" where
  "start_trigger t = tr_status_update (\<lambda>s. s\<lparr>tst_observed_generation := om_generation (tr_meta t)\<rparr>) t"

text \<open>Write the status of \<open>desired\<close>, without a new sync time, and return.\<close>

definition finish_trigger ::
    "'w trigger_reconciler \<Rightarrow> event_trigger \<Rightarrow> event_trigger \<Rightarrow> ctrl_result \<Rightarrow> 'w trigger_state \<Rightarrow>
     reconcile_end \<times> 'w trigger_state" where
  "finish_trigger R t desired result s =
     (case patch_trigger_status R t (tr_status desired) False s of (err, s') \<Rightarrow> (Returned result err, s'))"

definition reconcile_route ::
    "'w trigger_reconciler \<Rightarrow> event_trigger \<Rightarrow> 'w trigger_state \<Rightarrow> reconcile_end \<times> 'w trigger_state" where
  "reconcile_route R t s =
     (if has_trigger_finalizer (tr_lib R) t then
        (case update_trigger_object R (remove_trigger_finalizer (tr_lib R) t) s of
           (Some e, s') \<Rightarrow> (Returned no_requeue (Some e), s')
         | (None, s') \<Rightarrow> (Returned requeue_now None, s'))
      else finish_trigger R t (mark_trigger_route_ready (tr_lib R) (trigger_now R s) (start_trigger t)) no_requeue s)"

definition observe_trigger_rule :: "kube_lib \<Rightarrow> time \<Rightarrow> rule_state \<Rightarrow> event_trigger \<Rightarrow> event_trigger" where
  "observe_trigger_rule K now st desired =
     (let message = (if rs_message st = [] then ''OCI Events rule is ready.'' else rs_message st);
          d = tr_status_update (\<lambda>x. x\<lparr>tst_rule_id := rs_rule_id st\<rparr>) desired
      in if rs_ready st then
           set_trigger_conditions K now function_ready_state (trigger_cond CondTrue ''RuleReady'' message)
             (with_trigger_phase TriggerPhaseReady message d)
         else
           set_trigger_conditions K now function_ready_state (trigger_cond CondFalse ''RulePending'' message)
             (with_trigger_phase TriggerPhasePending message d))"

definition ensure_trigger_rule ::
    "'w trigger_reconciler \<Rightarrow> 'w rule_manager \<Rightarrow> event_trigger \<Rightarrow> time \<Rightarrow> desired_rule \<Rightarrow> 'w trigger_state \<Rightarrow>
     reconcile_end \<times> 'w trigger_state" where
  "ensure_trigger_rule R M t now d s =
     (let K = tr_lib R; desired = start_trigger t in
      case call_ensure_rule R M t d s of
        ((st, Some e), s1) \<Rightarrow>
          (let message = normalize_rule_error (Some e);
               marked = mark_trigger_error K now ''RuleReconcileError'' message
                 (tr_status_update (\<lambda>x. x\<lparr>tst_rule_id := rs_rule_id st\<rparr>) desired)
           in finish_trigger R t marked (requeue_in trigger_requeue)
                (record_event_if_changed (tr_recorder R) t EventWarning ''RuleError'' message s1))
      | ((st, None), s1) \<Rightarrow>
          (case patch_trigger_status R t (tr_status (observe_trigger_rule K now st desired)) True
                  (clear_event_signature t s1) of
             (Some e, s2) \<Rightarrow> (Returned no_requeue (Some e), s2)
           | (None, s2) \<Rightarrow> (Returned (if rs_ready st then no_requeue else requeue_in (30 * second)) None, s2)))"

text \<open>A trigger with OCI event types that carries the finalizer.\<close>

definition reconcile_rule ::
    "'w trigger_reconciler \<Rightarrow> event_trigger \<Rightarrow> 'w trigger_state \<Rightarrow> reconcile_end \<times> 'w trigger_state" where
  "reconcile_rule R t s =
     (let K = tr_lib R; now = trigger_now R s; desired = start_trigger t in
      case condition_json_from_spec (tr_number R) (tr_json_error R) (ts_condition (tr_spec t)) of
        Inl e \<Rightarrow>
          (let message = ''Invalid OCI Events condition: '' @ e in
           finish_trigger R t (mark_trigger_error K now ''InvalidCondition'' message desired) no_requeue
             (record_event_if_changed (tr_recorder R) t EventWarning ''RuleError'' message s))
      | Inr condition_json \<Rightarrow>
          (case resolve_trigger_function R t desired now s of
             (Inl (marked, result), s1) \<Rightarrow> finish_trigger R t marked result s1
           | (Inr f, s1) \<Rightarrow>
               (case tr_manager R of
                  None \<Rightarrow>
                    finish_trigger R t (mark_trigger_pending K now ''EventTriggerManagerNotConfigured''
                      ''Event trigger manager is not configured; run the manager with INVOKER_MODE=oci to manage OCI Events rules.''
                      desired) (requeue_in trigger_requeue) s1
                | Some M \<Rightarrow> ensure_trigger_rule R M t now (desired_rule_from_trigger t f condition_json) s1)))"

definition reconcile_live_trigger ::
    "'w trigger_reconciler \<Rightarrow> event_trigger \<Rightarrow> 'w trigger_state \<Rightarrow> reconcile_end \<times> 'w trigger_state" where
  "reconcile_live_trigger R t s =
     (let K = tr_lib R; now = trigger_now R s; desired = start_trigger t in
      case classify_trigger t of
        TriggerModeMixed \<Rightarrow>
          finish_trigger R t (mark_trigger_error K now ''MixedEventTypes''
            ''condition.eventType cannot mix functionevent.* and OCI event types.'' desired) no_requeue s
      | TriggerModeFunctionEvent \<Rightarrow> reconcile_route R t s
      | TriggerModeOCI \<Rightarrow>
          if missing_oci_fields t \<noteq> [] then
            finish_trigger R t (mark_trigger_error K now ''MissingOCIEventFields'' (missing_oci_fields t) desired)
              no_requeue s
          else if \<not> has_trigger_finalizer K t then
            (case update_trigger_object R (add_trigger_finalizer K t) s of
               (Some e, s') \<Rightarrow> (Returned no_requeue (Some e), s')
             | (None, s') \<Rightarrow> (Returned requeue_now None, s'))
          else reconcile_rule R t s)"

definition reconcile_found_trigger ::
    "'w trigger_reconciler \<Rightarrow> event_trigger \<Rightarrow> 'w trigger_state \<Rightarrow> reconcile_end \<times> 'w trigger_state" where
  "reconcile_found_trigger R t s =
     (if om_deletion_timestamp (tr_meta t) \<noteq> None then reconcile_trigger_delete R t s
      else reconcile_live_trigger R t s)"

definition reconcile_trigger ::
    "'w trigger_reconciler \<Rightarrow> string \<Rightarrow> string \<Rightarrow> 'w trigger_state \<Rightarrow> reconcile_end \<times> 'w trigger_state" where
  "reconcile_trigger R namespace name s =
     (case get_trigger (tr_client R) namespace name (io_world (ts_io s)) of
        NotFound \<Rightarrow> (Returned no_requeue None, s)
      | GetFailed e \<Rightarrow> (Returned no_requeue (Some e), s)
      | Got t \<Rightarrow> reconcile_found_trigger R t s)"

section \<open>What makes a trigger reconcile\<close>

text \<open>The predicate on updates; an object the event does not carry is \<open>None\<close>.\<close>

definition trigger_update_passes :: "event_trigger option \<Rightarrow> event_trigger option \<Rightarrow> bool" where
  "trigger_update_passes before after =
     (case (before, after) of
        (Some a, Some b) \<Rightarrow>
          if om_generation (tr_meta a) \<noteq> om_generation (tr_meta b) then True
          else (om_deletion_timestamp (tr_meta a) \<noteq> None) \<noteq> (om_deletion_timestamp (tr_meta b) \<noteq> None)
      | _ \<Rightarrow> True)"

definition function_to_trigger_requests ::
    "'w trigger_reconciler \<Rightarrow> oci_function \<Rightarrow> 'w \<Rightarrow> (string \<times> string) list" where
  "function_to_trigger_requests R f w =
     (case list_triggers (tr_client R) (om_namespace (fn_meta f)) w of
        Inl e \<Rightarrow> []
      | Inr ts \<Rightarrow> map trigger_key (filter (\<lambda>t. fr_name (ts_function_ref (tr_spec t)) = om_name (fn_meta f)) ts))"

end
