(* ===== verification/TriggerLemmas.thy ===== *)
theory TriggerLemmas
  imports TriggerController
begin

text \<open>
  The library of facts about the \<open>FunctionEventTrigger\<close> reconciler: what each step adds to the trace,
  the conditions of a marked trigger, and the ways a reconciliation can go.
\<close>

abbreviation trigger_trace :: "'w trigger_state \<Rightarrow> trigger_effect list" where
  "trigger_trace s \<equiv> io_trace (ts_io s)"

section \<open>Steps that only record events\<close>

definition eventful :: "'w trigger_state \<Rightarrow> 'w trigger_state \<Rightarrow> bool" where
  "eventful s s' \<longleftrightarrow> io_world (ts_io s') = io_world (ts_io s) \<and>
     (\<exists>q. trigger_trace s' = trigger_trace s @ q \<and> quiet q)"

lemma eventful_refl [simp, intro]: "eventful s s"
  by (simp add: eventful_def)

lemma eventful_trans: "eventful a b \<Longrightarrow> eventful b c \<Longrightarrow> eventful a c"
  by (force simp: eventful_def)

lemma record_event_eventful [simp, intro]: "eventful s (record_event_if_changed r t sev reason m s)"
  using record_event_quiet [of r sev reason m "ts_io s"]
  by (auto simp: eventful_def record_event_if_changed_def)

lemma clear_signature_eventful [simp, intro]: "eventful s (clear_event_signature t s)"
  by (simp add: eventful_def clear_event_signature_def)

lemma rule_events_eventful [simp, intro]: "eventful s (record_rule_events r t es s)"
  unfolding record_rule_events_def
proof (induction es arbitrary: s)
  case (Cons e es)
  show ?case by (simp, rule eventful_trans [OF record_event_eventful Cons.IH])
qed simp

section \<open>Steps that write or call\<close>

lemma trigger_perform_simps:
  "fst (trigger_perform x f s) = fst (f (io_world (ts_io s)))"
  "trigger_trace (snd (trigger_perform x f s)) = trigger_trace s @ [x]"
  "ts_signatures (snd (trigger_perform x f s)) = ts_signatures s"
  by (simp_all add: trigger_perform_def perform_simps)

text \<open>The object an update of the status sends.\<close>

definition patched_trigger ::
    "'w trigger_reconciler \<Rightarrow> event_trigger \<Rightarrow> trigger_status \<Rightarrow> bool \<Rightarrow> 'w trigger_state \<Rightarrow> event_trigger" where
  "patched_trigger R t desired sync s = t\<lparr>tr_status := desired\<lparr>tst_last_sync_time :=
     (if sync then Some (trigger_now R s) else tst_last_sync_time (tr_status t))\<rparr>\<rparr>"

lemma patch_trigger_trace [trace_simps]:
  "trigger_trace (snd (patch_trigger_status R t d sync s)) = trigger_trace s @
     (if trigger_status_equal (tr_status t) d then [] else [StatusUpdate (patched_trigger R t d sync s)])"
  by (simp add: patch_trigger_status_def patched_trigger_def Let_def trigger_perform_simps)

lemma finish_trigger_trace [trace_simps]:
  "trigger_trace (snd (finish_trigger R t d result s)) = trigger_trace s @
     (if trigger_status_equal (tr_status t) (tr_status d) then []
      else [StatusUpdate (patched_trigger R t (tr_status d) False s)])"
  "fst (finish_trigger R t d result s) = Returned result (fst (patch_trigger_status R t (tr_status d) False s))"
  by (simp_all add: finish_trigger_def case_prod_beta patch_trigger_trace)

lemma update_trigger_trace [trace_simps]:
  "trigger_trace (snd (update_trigger_object R t s)) = trigger_trace s @ [ObjectUpdate t]"
  by (simp add: update_trigger_object_def trigger_perform_simps)

lemma call_ensure_trace:
  assumes "call_ensure_rule R M t d s = ((st, err), s')"
  obtains q where "trigger_trace s' = trigger_trace s @ Called (EnsuredRule d st err) # q" "quiet q"
    "rm_ensure_rule M d (io_world (ts_io s)) = ((st, err), io_world (ts_io s'))"
proof -
  obtain st' err' w where call: "rm_ensure_rule M d (io_world (ts_io s)) = ((st', err'), w)"
    by (metis prod.exhaust)
  with assms have s': "st' = st" "err' = err"
    "s' = record_rule_events (tr_recorder R) t (rs_events st)
       (s\<lparr>ts_io := emit (Called (EnsuredRule d st err)) ((ts_io s)\<lparr>io_world := w\<rparr>)\<rparr>)"
    by (auto simp: call_ensure_rule_def)
  from rule_events_eventful [of "s\<lparr>ts_io := emit (Called (EnsuredRule d st err)) ((ts_io s)\<lparr>io_world := w\<rparr>)\<rparr>"
      "tr_recorder R" t "rs_events st"]
  show ?thesis using that call by (auto simp: eventful_def s')
qed

lemma call_delete_trace:
  assumes "call_delete_rule R M t i s = ((st, err), s')"
  obtains q where "trigger_trace s' = trigger_trace s @ Called (DeletedRule i st err) # q" "quiet q"
    "rm_delete_rule M i (io_world (ts_io s)) = ((st, err), io_world (ts_io s'))"
proof -
  obtain st' err' w where call: "rm_delete_rule M i (io_world (ts_io s)) = ((st', err'), w)"
    by (metis prod.exhaust)
  with assms have s': "st' = st" "err' = err"
    "s' = record_rule_events (tr_recorder R) t (rs_events st)
       (s\<lparr>ts_io := emit (Called (DeletedRule i st err)) ((ts_io s)\<lparr>io_world := w\<rparr>)\<rparr>)"
    by (auto simp: call_delete_rule_def)
  from rule_events_eventful [of "s\<lparr>ts_io := emit (Called (DeletedRule i st err)) ((ts_io s)\<lparr>io_world := w\<rparr>)\<rparr>"
      "tr_recorder R" t "rs_events st"]
  show ?thesis using that call by (auto simp: eventful_def s')
qed

section \<open>Marked triggers\<close>

lemma set_trigger_conditions_frame [status_simps]:
  "tst_phase (tr_status (set_trigger_conditions K now a b t)) = tst_phase (tr_status t)"
  "tst_message (tr_status (set_trigger_conditions K now a b t)) = tst_message (tr_status t)"
  "tst_rule_id (tr_status (set_trigger_conditions K now a b t)) = tst_rule_id (tr_status t)"
  "tst_observed_generation (tr_status (set_trigger_conditions K now a b t)) = tst_observed_generation (tr_status t)"
  "tst_last_sync_time (tr_status (set_trigger_conditions K now a b t)) = tst_last_sync_time (tr_status t)"
  "tr_spec (set_trigger_conditions K now a b t) = tr_spec t"
  "tr_meta (set_trigger_conditions K now a b t) = tr_meta t"
  by (simp_all add: set_trigger_conditions_def set_trigger_condition_def set_trigger_status_condition_def Let_def)

lemma set_trigger_condition_status:
  assumes "kube_lib_ok K"
  shows "condition_status_of (tst_conditions (tr_status (set_trigger_condition K now ty c t))) u =
    (if u = ty then Some (cs_status c) else condition_status_of (tst_conditions (tr_status t)) u)"
  using assms
  by (simp add: set_trigger_condition_def set_trigger_status_condition_def Let_def kube_status_set)

lemma set_trigger_conditions_status [cond_simps]:
  assumes "kube_lib_ok K"
  shows "condition_status_of (tst_conditions (tr_status (set_trigger_conditions K now a b t)))
      trigger_condition_resolved = Some (cs_status a)"
    "condition_status_of (tst_conditions (tr_status (set_trigger_conditions K now a b t)))
      trigger_condition_rule_ready = Some (cs_status b)"
  using assms by (simp_all add: set_trigger_conditions_def set_trigger_condition_status)

text \<open>
  A status agrees with its conditions when the rule condition is true exactly in the phase \<open>Ready\<close>, and
  when a false resolution of the function keeps the trigger pending.
\<close>

definition trigger_agrees :: "trigger_status \<Rightarrow> bool" where
  "trigger_agrees s \<longleftrightarrow>
     condition_status_of (tst_conditions s) trigger_condition_rule_ready = Some (truth (tst_phase s = TriggerPhaseReady)) \<and>
     (\<exists>c. condition_status_of (tst_conditions s) trigger_condition_resolved = Some c \<and>
        (c = CondFalse \<longrightarrow> tst_phase s = TriggerPhasePending) \<and>
        (tst_phase s = TriggerPhaseError \<longrightarrow> c = CondUnknown))"

lemma trigger_agrees_sync [simp]: "trigger_agrees (s\<lparr>tst_last_sync_time := x\<rparr>) = trigger_agrees s"
  by (simp add: trigger_agrees_def)

lemmas trigger_mark_defs = mark_trigger_waiting_def mark_trigger_pending_def mark_trigger_error_def
  mark_trigger_route_ready_def observe_trigger_rule_def with_trigger_phase_def trigger_cond_def
  function_ready_state_def Let_def

lemma marks_agree:
  assumes "kube_lib_ok K"
  shows "trigger_agrees (tr_status (mark_trigger_waiting K now reason m t))"
    "trigger_agrees (tr_status (mark_trigger_pending K now reason m t))"
    "trigger_agrees (tr_status (mark_trigger_error K now reason m t))"
    "trigger_agrees (tr_status (mark_trigger_route_ready K now t))"
    "trigger_agrees (tr_status (observe_trigger_rule K now st t))"
  using assms by (simp_all add: trigger_agrees_def trigger_mark_defs cond_simps status_simps truth_def)

lemma mark_frames [status_simps]:
  "tst_observed_generation (tr_status (mark_trigger_waiting K now reason m t)) = tst_observed_generation (tr_status t)"
  "tst_observed_generation (tr_status (mark_trigger_pending K now reason m t)) = tst_observed_generation (tr_status t)"
  "tst_observed_generation (tr_status (mark_trigger_error K now reason m t)) = tst_observed_generation (tr_status t)"
  "tst_observed_generation (tr_status (mark_trigger_route_ready K now t)) = tst_observed_generation (tr_status t)"
  "tst_observed_generation (tr_status (observe_trigger_rule K now st t)) = tst_observed_generation (tr_status t)"
  "tst_rule_id (tr_status (mark_trigger_waiting K now reason m t)) = tst_rule_id (tr_status t)"
  "tst_rule_id (tr_status (mark_trigger_pending K now reason m t)) = tst_rule_id (tr_status t)"
  "tst_rule_id (tr_status (mark_trigger_error K now reason m t)) = tst_rule_id (tr_status t)"
  "tst_rule_id (tr_status (mark_trigger_route_ready K now t)) = []"
  "tst_rule_id (tr_status (observe_trigger_rule K now st t)) = rs_rule_id st"
  by (simp_all add: trigger_mark_defs status_simps)

lemma mark_phases [status_simps]:
  "tst_phase (tr_status (mark_trigger_waiting K now reason m t)) = TriggerPhasePending"
  "tst_phase (tr_status (mark_trigger_pending K now reason m t)) = TriggerPhasePending"
  "tst_phase (tr_status (mark_trigger_error K now reason m t)) = TriggerPhaseError"
  "tst_phase (tr_status (mark_trigger_route_ready K now t)) = TriggerPhaseReady"
  "tst_phase (tr_status (observe_trigger_rule K now st t)) = (if rs_ready st then TriggerPhaseReady else TriggerPhasePending)"
  by (simp_all add: trigger_mark_defs status_simps)

lemma start_trigger_simps [simp]:
  "tst_observed_generation (tr_status (start_trigger t)) = om_generation (tr_meta t)"
  "tst_rule_id (tr_status (start_trigger t)) = tst_rule_id (tr_status t)"
  "tst_phase (tr_status (start_trigger t)) = tst_phase (tr_status t)"
  "tr_meta (start_trigger t) = tr_meta t" "tr_spec (start_trigger t) = tr_spec t"
  by (simp_all add: start_trigger_def)

section \<open>The ways a reconciliation can go\<close>

lemma resolve_cases:
  assumes "resolve_trigger_function R t d now s = (result, s')"
  obtains (unresolved) marked next_run where "result = Inl (marked, next_run)" "eventful s s'"
      "tst_phase (tr_status marked) \<noteq> TriggerPhaseReady"
      "tst_rule_id (tr_status marked) = tst_rule_id (tr_status d)"
      "tst_observed_generation (tr_status marked) = tst_observed_generation (tr_status d)"
      "kube_lib_ok (tr_lib R) \<Longrightarrow> trigger_agrees (tr_status marked)"
  | (resolved) f where "result = Inr f" "s' = s" "usable_for_rule (tr_lib R) f"
      "get_function (tr_client R) (om_namespace (tr_meta t)) (fr_name (ts_function_ref (tr_spec t)))
         (io_world (ts_io s)) = Got f"
  using assms unfolding resolve_trigger_function_def Let_def
  by (auto simp: status_simps marks_agree split: if_splits get_result.splits)

text \<open>
  A live trigger: its finalizer is added or removed, or a status is written without touching the
  rule, or the rule is ensured for a usable function and what was observed is written.
\<close>

lemma reconcile_live_trigger_cases:
  assumes "reconcile_live_trigger R t s = (out, s')"
  obtains
    (finalizer) t' where "trigger_trace s' = trigger_trace s @ [ObjectUpdate t']"
      "t' = (if classify_trigger t = TriggerModeOCI then add_trigger_finalizer (tr_lib R) t
             else remove_trigger_finalizer (tr_lib R) t)"
      "has_trigger_finalizer (tr_lib R) t \<longleftrightarrow> classify_trigger t = TriggerModeFunctionEvent"
      "classify_trigger t \<noteq> TriggerModeMixed"
      "out = Returned requeue_now None \<or> (\<exists>e. out = Returned no_requeue (Some e))"
  | (routed) "classify_trigger t = TriggerModeFunctionEvent" "\<not> has_trigger_finalizer (tr_lib R) t"
      "finish_trigger R t (mark_trigger_route_ready (tr_lib R) (trigger_now R s) (start_trigger t)) no_requeue s = (out, s')"
  | (marked) m next_run s1 where "eventful s s1" "finish_trigger R t m next_run s1 = (out, s')"
      "classify_trigger t \<noteq> TriggerModeFunctionEvent" "tst_phase (tr_status m) \<noteq> TriggerPhaseReady"
      "tst_rule_id (tr_status m) = tst_rule_id (tr_status t)"
      "tst_observed_generation (tr_status m) = om_generation (tr_meta t)"
      "kube_lib_ok (tr_lib R) \<Longrightarrow> trigger_agrees (tr_status m)"
  | (ensured) M f condition where "classify_trigger t = TriggerModeOCI" "has_trigger_finalizer (tr_lib R) t"
      "condition_json_from_spec (tr_number R) (tr_json_error R) (ts_condition (tr_spec t)) = Inr condition"
      "tr_manager R = Some M" "usable_for_rule (tr_lib R) f"
      "get_function (tr_client R) (om_namespace (tr_meta t)) (fr_name (ts_function_ref (tr_spec t)))
         (io_world (ts_io s)) = Got f"
      "ensure_trigger_rule R M t (trigger_now R s) (desired_rule_from_trigger t f condition) s = (out, s')"
proof (cases "classify_trigger t")
  case TriggerModeMixed
  with assms have "finish_trigger R t (mark_trigger_error (tr_lib R) (trigger_now R s) ''MixedEventTypes''
      ''condition.eventType cannot mix functionevent.* and OCI event types.'' (start_trigger t)) no_requeue s = (out, s')"
    by (simp add: reconcile_live_trigger_def Let_def)
  then show ?thesis
    by (rule that(3) [OF eventful_refl]) (simp_all add: TriggerModeMixed status_simps marks_agree)
next
  case TriggerModeFunctionEvent
  show ?thesis
  proof (cases "has_trigger_finalizer (tr_lib R) t")
    case True
    with assms TriggerModeFunctionEvent update_trigger_trace [of R "remove_trigger_finalizer (tr_lib R) t" s]
    show ?thesis
      by (intro that(1)) (auto simp: reconcile_live_trigger_def reconcile_route_def Let_def
          split: prod.splits option.splits)
  next
    case False
    with assms TriggerModeFunctionEvent show ?thesis
      by (intro that(2)) (auto simp: reconcile_live_trigger_def reconcile_route_def Let_def)
  qed
next
  case oci: TriggerModeOCI
  consider (missing) "missing_oci_fields t \<noteq> []"
    | (unmarked) "missing_oci_fields t = []" "\<not> has_trigger_finalizer (tr_lib R) t"
    | (rule) "missing_oci_fields t = []" "has_trigger_finalizer (tr_lib R) t" by blast
  then show ?thesis
  proof cases
    case missing
    with assms oci have "finish_trigger R t (mark_trigger_error (tr_lib R) (trigger_now R s) ''MissingOCIEventFields''
        (missing_oci_fields t) (start_trigger t)) no_requeue s = (out, s')"
      by (simp add: reconcile_live_trigger_def Let_def)
    then show ?thesis
      by (rule that(3) [OF eventful_refl]) (simp_all add: oci status_simps marks_agree)
  next
    case unmarked
    with assms oci update_trigger_trace [of R "add_trigger_finalizer (tr_lib R) t" s] show ?thesis
      by (intro that(1)) (auto simp: reconcile_live_trigger_def Let_def split: prod.splits option.splits)
  next
    case rule
    with assms oci have run: "reconcile_rule R t s = (out, s')"
      by (simp add: reconcile_live_trigger_def Let_def)
    show ?thesis
    proof (cases "condition_json_from_spec (tr_number R) (tr_json_error R) (ts_condition (tr_spec t))")
      case (Inl e)
      with run have "finish_trigger R t (mark_trigger_error (tr_lib R) (trigger_now R s) ''InvalidCondition''
          (''Invalid OCI Events condition: '' @ e) (start_trigger t)) no_requeue
          (record_event_if_changed (tr_recorder R) t EventWarning ''RuleError''
            (''Invalid OCI Events condition: '' @ e) s) = (out, s')"
        by (simp add: reconcile_rule_def Let_def)
      then show ?thesis
        by (rule that(3) [OF record_event_eventful]) (simp_all add: oci status_simps marks_agree)
    next
      case (Inr condition)
      obtain result s1 where resolve:
        "resolve_trigger_function R t (start_trigger t) (trigger_now R s) s = (result, s1)" by fastforce
      from resolve show ?thesis
      proof (cases rule: resolve_cases)
        case (unresolved m next_run)
        with run resolve Inr have "finish_trigger R t m next_run s1 = (out, s')"
          by (simp add: reconcile_rule_def Let_def)
        from unresolved(2) this show ?thesis
          by (rule that(3)) (use unresolved oci in simp_all)
      next
        case (resolved f)
        show ?thesis
        proof (cases "tr_manager R")
          case None
          with run resolve resolved Inr have "finish_trigger R t (mark_trigger_pending (tr_lib R)
              (trigger_now R s) ''EventTriggerManagerNotConfigured''
              ''Event trigger manager is not configured; run the manager with INVOKER_MODE=oci to manage OCI Events rules.''
              (start_trigger t)) (requeue_in trigger_requeue) s = (out, s')"
            by (simp add: reconcile_rule_def Let_def)
          then show ?thesis
            by (rule that(3) [OF eventful_refl]) (simp_all add: oci status_simps marks_agree)
        next
          case (Some M)
          with run resolve resolved Inr oci rule show ?thesis
            by (intro that(4) [of condition M f]) (auto simp: reconcile_rule_def Let_def)
        qed
      qed
    qed
  qed
qed

text \<open>The rule is ensured: one call, then at most one status.\<close>

lemma ensure_trigger_cases:
  assumes "ensure_trigger_rule R M t now d s = (out, s')"
  obtains st err q m sync s2 where
    "trigger_trace s' = trigger_trace s @ Called (EnsuredRule d st err) # q @
       (if trigger_status_equal (tr_status t) (tr_status m) then []
        else [StatusUpdate (patched_trigger R t (tr_status m) sync s2)])"
    "quiet q" "\<exists>w. rm_ensure_rule M d (io_world (ts_io s)) = ((st, err), w)"
    "tst_rule_id (tr_status m) = rs_rule_id st" "sync \<longleftrightarrow> err = None"
    "tst_phase (tr_status m) = (if err \<noteq> None then TriggerPhaseError
       else if rs_ready st then TriggerPhaseReady else TriggerPhasePending)"
    "tst_observed_generation (tr_status m) = om_generation (tr_meta t)"
    "err = None \<Longrightarrow> m = observe_trigger_rule (tr_lib R) now st (start_trigger t)"
    "kube_lib_ok (tr_lib R) \<Longrightarrow> trigger_agrees (tr_status m)"
proof -
  obtain st err s1 where call: "call_ensure_rule R M t d s = ((st, err), s1)" by (metis prod.exhaust)
  from call obtain q where s1: "trigger_trace s1 = trigger_trace s @ Called (EnsuredRule d st err) # q"
      "quiet q" "rm_ensure_rule M d (io_world (ts_io s)) = ((st, err), io_world (ts_io s1))"
    by (rule call_ensure_trace)
  show ?thesis
  proof (cases err)
    case (Some e)
    define s2 where "s2 = record_event_if_changed (tr_recorder R) t EventWarning ''RuleError'' (normalize_rule_error (Some e)) s1"
    define m where "m = mark_trigger_error (tr_lib R) now ''RuleReconcileError'' (normalize_rule_error (Some e))
      (tr_status_update (\<lambda>x. x\<lparr>tst_rule_id := rs_rule_id st\<rparr>) (start_trigger t))"
    have "eventful s1 s2" by (simp add: s2_def)
    then obtain q2 where q2: "trigger_trace s2 = trigger_trace s1 @ q2" "quiet q2" by (auto simp: eventful_def)
    have fin: "finish_trigger R t m (requeue_in trigger_requeue) s2 = (out, s')"
      using assms call Some by (simp add: ensure_trigger_rule_def Let_def s2_def m_def)
    show ?thesis
    proof (rule that [of st err "q @ q2" m False s2])
      show "trigger_trace s' = trigger_trace s @ Called (EnsuredRule d st err) # (q @ q2) @
          (if trigger_status_equal (tr_status t) (tr_status m) then []
           else [StatusUpdate (patched_trigger R t (tr_status m) False s2)])"
        using finish_trigger_trace(1) [of R t m "requeue_in trigger_requeue" s2] fin s1(1) q2(1) by simp
    qed (use s1 q2 Some in \<open>auto simp: m_def status_simps marks_agree\<close>)
  next
    case None
    define s2 where "s2 = clear_event_signature t s1"
    define m where "m = observe_trigger_rule (tr_lib R) now st (start_trigger t)"
    have s2: "trigger_trace s2 = trigger_trace s1" by (simp add: s2_def clear_event_signature_def)
    have s': "s' = snd (patch_trigger_status R t (tr_status m) True s2)"
      using assms call None by (auto simp: ensure_trigger_rule_def Let_def s2_def m_def split: prod.splits option.splits)
    show ?thesis
    proof (rule that [of st err q m True s2])
      show "trigger_trace s' = trigger_trace s @ Called (EnsuredRule d st err) # q @
          (if trigger_status_equal (tr_status t) (tr_status m) then []
           else [StatusUpdate (patched_trigger R t (tr_status m) True s2)])"
        using s1(1) s2 by (simp add: s' patch_trigger_trace)
    qed (use s1 None in \<open>auto simp: m_def status_simps marks_agree\<close>)
  qed
qed

text \<open>What a live trigger adds to the trace: one object, or events and at most one status, or a rule call before them.\<close>

lemma live_trace_cases:
  obtains (object) t' where
      "trigger_trace (snd (reconcile_live_trigger R t s)) = trigger_trace s @ [ObjectUpdate t']"
      "t' = add_trigger_finalizer (tr_lib R) t \<or> t' = remove_trigger_finalizer (tr_lib R) t"
      "if classify_trigger t = TriggerModeOCI then t' = add_trigger_finalizer (tr_lib R) t \<and> \<not> has_trigger_finalizer (tr_lib R) t
       else t' = remove_trigger_finalizer (tr_lib R) t \<and> has_trigger_finalizer (tr_lib R) t \<and>
         classify_trigger t = TriggerModeFunctionEvent"
      "fst (reconcile_live_trigger R t s) = Returned requeue_now None \<or>
       (\<exists>e. fst (reconcile_live_trigger R t s) = Returned no_requeue (Some e))"
  | (status) q us and m :: event_trigger and sync s2 where
      "trigger_trace (snd (reconcile_live_trigger R t s)) = trigger_trace s @ q @ us" "quiet q"
      "us = [] \<or> us = [StatusUpdate (patched_trigger R t (tr_status m) sync s2)]"
      "tst_observed_generation (tr_status m) = om_generation (tr_meta t)"
      "classify_trigger t = TriggerModeFunctionEvent \<Longrightarrow> tst_rule_id (tr_status m) = []"
      "tst_phase (tr_status m) = TriggerPhaseReady \<Longrightarrow> classify_trigger t = TriggerModeFunctionEvent"
      "kube_lib_ok (tr_lib R) \<Longrightarrow> trigger_agrees (tr_status m)"
  | (rule) M f condition d st err q us and m :: event_trigger and sync s2 where
      "classify_trigger t = TriggerModeOCI" "has_trigger_finalizer (tr_lib R) t"
      "condition_json_from_spec (tr_number R) (tr_json_error R) (ts_condition (tr_spec t)) = Inr condition"
      "tr_manager R = Some M" "usable_for_rule (tr_lib R) f"
      "get_function (tr_client R) (om_namespace (tr_meta t)) (fr_name (ts_function_ref (tr_spec t)))
         (io_world (ts_io s)) = Got f"
      "d = desired_rule_from_trigger t f condition"
      "\<exists>w. rm_ensure_rule M d (io_world (ts_io s)) = ((st, err), w)"
      "trigger_trace (snd (reconcile_live_trigger R t s)) = trigger_trace s @ Called (EnsuredRule d st err) # q @ us"
      "quiet q" "us = [] \<or> us = [StatusUpdate (patched_trigger R t (tr_status m) sync s2)]"
      "tst_observed_generation (tr_status m) = om_generation (tr_meta t)" "tst_rule_id (tr_status m) = rs_rule_id st"
      "tst_phase (tr_status m) = (if err \<noteq> None then TriggerPhaseError
         else if rs_ready st then TriggerPhaseReady else TriggerPhasePending)"
      "kube_lib_ok (tr_lib R) \<Longrightarrow> trigger_agrees (tr_status m)"
proof -
  have sent: "(if b then [] else [x]) = [] \<or> (if b then [] else [x]) = [x]" for b and x :: trigger_effect by simp
  obtain out s' where run: "reconcile_live_trigger R t s = (out, s')" by (metis prod.exhaust)
  from run show ?thesis
  proof (cases rule: reconcile_live_trigger_cases)
    case (finalizer t')
    with run show ?thesis by (intro that(1) [of t']) (cases "classify_trigger t"; simp)+
  next
    case routed
    let ?m = "mark_trigger_route_ready (tr_lib R) (trigger_now R s) (start_trigger t)"
    have "trigger_trace (snd (reconcile_live_trigger R t s)) = trigger_trace s @ [] @
        (if trigger_status_equal (tr_status t) (tr_status ?m) then []
         else [StatusUpdate (patched_trigger R t (tr_status ?m) False s)])"
      using finish_trigger_trace(1) [of R t ?m no_requeue s] routed(3) run by simp
    from that(2) [OF this quiet_simps(1) sent] show ?thesis
      by (simp add: routed(1) status_simps marks_agree)
  next
    case (marked m next_run s1)
    from marked(1) obtain q where q: "trigger_trace s1 = trigger_trace s @ q" "quiet q" by (auto simp: eventful_def)
    have "trigger_trace (snd (reconcile_live_trigger R t s)) = trigger_trace s @ q @
        (if trigger_status_equal (tr_status t) (tr_status m) then []
         else [StatusUpdate (patched_trigger R t (tr_status m) False s1)])"
      using finish_trigger_trace(1) [of R t m next_run s1] marked(2) q run by simp
    from that(2) [OF this q(2) sent] marked show ?thesis by simp
  next
    case (ensured M f condition)
    let ?d = "desired_rule_from_trigger t f condition"
    from ensured(7) show ?thesis
    proof (rule ensure_trigger_cases)
      fix st err q and m :: event_trigger and sync s2
      assume step: "trigger_trace s' = trigger_trace s @ Called (EnsuredRule ?d st err) # q @
           (if trigger_status_equal (tr_status t) (tr_status m) then []
            else [StatusUpdate (patched_trigger R t (tr_status m) sync s2)])" "quiet q"
        "\<exists>w. rm_ensure_rule M ?d (io_world (ts_io s)) = ((st, err), w)" "tst_rule_id (tr_status m) = rs_rule_id st"
        "tst_phase (tr_status m) = (if err \<noteq> None then TriggerPhaseError
           else if rs_ready st then TriggerPhaseReady else TriggerPhasePending)"
        "tst_observed_generation (tr_status m) = om_generation (tr_meta t)"
        "kube_lib_ok (tr_lib R) \<Longrightarrow> trigger_agrees (tr_status m)"
      from step(1) run have "trigger_trace (snd (reconcile_live_trigger R t s)) =
          trigger_trace s @ Called (EnsuredRule ?d st err) # q @
           (if trigger_status_equal (tr_status t) (tr_status m) then []
            else [StatusUpdate (patched_trigger R t (tr_status m) sync s2)])" by simp
      from that(3) [OF ensured(1-6) refl step(3) this step(2) sent step(6) step(4) step(5) step(7)] show ?thesis
        by blast
    qed
  qed
qed

text \<open>The deletion of a trigger.\<close>

lemma trigger_delete_cases:
  assumes "reconcile_trigger_delete R t s = (out, s')"
  obtains (nothing) "\<not> has_trigger_finalizer (tr_lib R) t" "s' = s"
  | (kept) "trigger_deletion_policy t = DeletionPolicyRetain \<or> tst_rule_id (tr_status t) = []"
      "has_trigger_finalizer (tr_lib R) t"
      "trigger_trace s' = trigger_trace s @ [ObjectUpdate (remove_trigger_finalizer (tr_lib R) t)]"
  | (unconfigured) "tr_manager R = None" "eventful s s'" "has_trigger_finalizer (tr_lib R) t"
      "out = Returned (requeue_in trigger_requeue) None"
  | (failed) M st e q where "tr_manager R = Some M" "has_trigger_finalizer (tr_lib R) t"
      "trigger_deletion_policy t = DeletionPolicyDelete" "tst_rule_id (tr_status t) \<noteq> []"
      "trigger_trace s' = trigger_trace s @ Called (DeletedRule (tst_rule_id (tr_status t)) st (Some e)) # q" "quiet q"
      "out = Returned (requeue_in trigger_requeue) None"
  | (deleted) M st q where "tr_manager R = Some M" "has_trigger_finalizer (tr_lib R) t"
      "trigger_deletion_policy t = DeletionPolicyDelete" "tst_rule_id (tr_status t) \<noteq> []"
      "\<exists>w. rm_delete_rule M (tst_rule_id (tr_status t)) (io_world (ts_io s)) = ((st, None), w)"
      "trigger_trace s' = trigger_trace s @ Called (DeletedRule (tst_rule_id (tr_status t)) st None) # q @
         [ObjectUpdate (remove_trigger_finalizer (tr_lib R) t)]" "quiet q"
proof -
  have policy: "trigger_deletion_policy t = DeletionPolicyRetain \<or> trigger_deletion_policy t = DeletionPolicyDelete"
    by (simp add: trigger_deletion_policy_def)
  have release: "trigger_trace (snd (release_trigger R t s1)) =
      trigger_trace s1 @ [ObjectUpdate (remove_trigger_finalizer (tr_lib R) t)]" for s1
    by (simp add: release_trigger_def case_prod_beta update_trigger_trace clear_event_signature_def)
  consider "\<not> has_trigger_finalizer (tr_lib R) t"
    | "has_trigger_finalizer (tr_lib R) t" "trigger_deletion_policy t = DeletionPolicyRetain \<or> tst_rule_id (tr_status t) = []"
    | "has_trigger_finalizer (tr_lib R) t" "trigger_deletion_policy t = DeletionPolicyDelete"
      "tst_rule_id (tr_status t) \<noteq> []" "tr_manager R = None"
    | M where "has_trigger_finalizer (tr_lib R) t" "trigger_deletion_policy t = DeletionPolicyDelete"
      "tst_rule_id (tr_status t) \<noteq> []" "tr_manager R = Some M"
    using policy by blast
  then show ?thesis
  proof cases
    case 1
    with assms show ?thesis by (intro that(1)) (auto simp: reconcile_trigger_delete_def Let_def)
  next
    case 2
    with assms release [of s] show ?thesis by (intro that(2)) (auto simp: reconcile_trigger_delete_def Let_def)
  next
    case 3
    with assms show ?thesis by (intro that(3)) (auto simp: reconcile_trigger_delete_def Let_def)
  next
    case 4
    obtain st err s1 where call: "call_delete_rule R M t (tst_rule_id (tr_status t)) s = ((st, err), s1)"
      by (metis prod.exhaust)
    from call obtain q where s1:
      "trigger_trace s1 = trigger_trace s @ Called (DeletedRule (tst_rule_id (tr_status t)) st err) # q" "quiet q"
      "rm_delete_rule M (tst_rule_id (tr_status t)) (io_world (ts_io s)) = ((st, err), io_world (ts_io s1))"
      by (rule call_delete_trace)
    show ?thesis
    proof (cases err)
      case None
      with assms 4 call s1 release [of s1] show ?thesis
        by (intro that(5) [of M st q]) (auto simp: reconcile_trigger_delete_def Let_def)
    next
      case (Some e)
      have "eventful s1 (record_event_if_changed (tr_recorder R) t EventWarning ''RuleError'' (normalize_rule_error (Some e)) s1)"
        by simp
      then obtain q2 where q2: "quiet q2" "trigger_trace (record_event_if_changed (tr_recorder R) t EventWarning
          ''RuleError'' (normalize_rule_error (Some e)) s1) = trigger_trace s1 @ q2" by (auto simp: eventful_def)
      from assms 4 call s1 Some q2 show ?thesis
        by (intro that(4) [of M st e "q @ q2"]) (auto simp: reconcile_trigger_delete_def Let_def)
    qed
  qed
qed

end
