(* ===== verification/TriggerProperties.thy ===== *)
theory TriggerProperties
  imports TriggerLemmas RuleProperties JobSamples
begin

text \<open>
  The properties of the \<open>FunctionEventTrigger\<close> reconciler, alone and over the OCI Events rule manager,
  with witnesses on a trigger of one OCI event type for a ready function.
\<close>

section \<open>Samples\<close>

definition oci_trigger :: "string \<Rightarrow> time option \<Rightarrow> event_trigger" where
  "oci_trigger rule_id deleted = \<lparr>
     tr_meta = (sample_meta ''t'')\<lparr>om_finalizers := [trigger_finalizer], om_deletion_timestamp := deleted\<rparr>,
     tr_spec = \<lparr>ts_function_ref = \<lparr>fr_name = ''f''\<rparr>, ts_compartment_id = ashburn, ts_display_name = ''d'',
       ts_description = [], ts_is_enabled = None,
       ts_condition = \<lparr>ec_raw_json = [], ec_event_type = [''com.a''], ec_data = None\<rparr>,
       ts_deletion_policy = DeletionPolicyUnset\<rparr>,
     tr_status = \<lparr>tst_observed_generation = 0, tst_phase = TriggerPhaseUnset, tst_rule_id = rule_id,
       tst_last_sync_time = None, tst_message = [], tst_conditions = []\<rparr>\<rparr>"

text \<open>An API server that always finds the ready function and accepts every write.\<close>

definition trigger_client :: "'w kube_client" where
  "trigger_client = \<lparr>
     get_function = (\<lambda>ns n w. Got (sample_function CondTrue)), get_application = (\<lambda>ns n w. NotFound),
     get_job = (\<lambda>ns n w. NotFound), get_event = (\<lambda>ns n w. NotFound),
     get_trigger = (\<lambda>ns n w. NotFound), list_triggers = (\<lambda>ns w. Inr []),
     status_update_function = (\<lambda>x w. (None, w)), status_update_application = (\<lambda>x w. (None, w)),
     status_update_job = (\<lambda>x w. (None, w)), status_update_event = (\<lambda>x w. (None, w)),
     status_update_trigger = (\<lambda>x w. (None, w)),
     update_function = (\<lambda>x w. (None, w)), update_application = (\<lambda>x w. (None, w)),
     update_trigger = (\<lambda>x w. (None, w)), delete_event = (\<lambda>x w. (DeleteDone, w))\<rparr>"

definition sample_triggers :: "'w rule_manager option \<Rightarrow> 'w trigger_reconciler" where
  "sample_triggers M = \<lparr>tr_client = trigger_client, tr_lib = sample_lib, tr_manager = M, tr_recorder = True,
     tr_clock = (\<lambda>w. 100), tr_number = sample_number, tr_json_error = id\<rparr>"

definition trigger_start :: "'w \<Rightarrow> 'w trigger_state" where
  "trigger_start w = \<lparr>ts_io = \<lparr>io_world = w, io_trace = []\<rparr>, ts_signatures = (\<lambda>k. None)\<rparr>"

definition steady_rules :: "rule_state \<Rightarrow> unit rule_manager" where
  "steady_rules st = \<lparr>rm_ensure_rule = (\<lambda>d w. ((st, None), w)), rm_delete_rule = (\<lambda>i w. ((st, None), w))\<rparr>"

section \<open>Status\<close>

lemma quiet_calls: "quiet q \<Longrightarrow> calls q = []" "quiet q \<Longrightarrow> writes q = []"
  by (simp_all add: quiet_def)

text \<open>
  C25: every status written for a live trigger carries the generation it was made from, and agrees with its
  conditions: the rule condition is true exactly in the phase Ready, a false resolution of the function
  means Pending, and Error means that the resolution is unknown. Metadata and spec are sent as read.
\<close>

theorem trigger_status_agrees:
  assumes "kube_lib_ok (tr_lib R)" "om_deletion_timestamp (tr_meta t) = None"
  shows "\<exists>u. trigger_trace (snd (reconcile_found_trigger R t s)) = trigger_trace s @ u \<and>
    (\<forall>x. StatusUpdate x \<in> set u \<longrightarrow> tr_meta x = tr_meta t \<and> tr_spec x = tr_spec t \<and>
       tst_observed_generation (tr_status x) = om_generation (tr_meta t) \<and> trigger_agrees (tr_status x))"
proof -
  have live: "reconcile_found_trigger R t s = reconcile_live_trigger R t s"
    using assms(2) by (simp add: reconcile_found_trigger_def)
  show ?thesis
  proof (cases rule: live_trace_cases [where R = R and t = t and s = s])
    case (status q us m sync s2)
    then show ?thesis using assms(1)
      by (intro exI [of _ "q @ us"]) (auto simp: live patched_trigger_def dest: quiet_mem)
  next
    case (rule M f condition d st err q us m sync s2)
    then show ?thesis using assms(1)
      by (intro exI [of _ "Called (EnsuredRule d st err) # q @ us"]) (auto simp: live patched_trigger_def dest: quiet_mem)
  qed (auto simp: live)
qed

theorem trigger_status_agrees_witness:
  "writes (trigger_trace (snd (reconcile_found_trigger (sample_triggers None) (oci_trigger [] None) (trigger_start ())))) \<noteq> [] \<and>
   (\<exists>u. trigger_trace (snd (reconcile_found_trigger (sample_triggers None) (oci_trigger [] None) (trigger_start ()))) =
      trigger_trace (trigger_start ()) @ u \<and>
    (\<forall>x. StatusUpdate x \<in> set u \<longrightarrow> tr_meta x = tr_meta (oci_trigger [] None) \<and> tr_spec x = tr_spec (oci_trigger [] None) \<and>
       tst_observed_generation (tr_status x) = om_generation (tr_meta (oci_trigger [] None)) \<and> trigger_agrees (tr_status x)))"
proof
  show "writes (trigger_trace (snd (reconcile_found_trigger (sample_triggers None) (oci_trigger [] None) (trigger_start ())))) \<noteq> []"
    by code_simp
qed (rule trigger_status_agrees; simp add: sample_triggers_def sample_lib_ok oci_trigger_def)

section \<open>What makes a trigger reconcile\<close>

lemma own_writes_pass_not:
  "\<not> trigger_update_passes (Some t) (Some (patched_trigger R t st sync s))"
  "\<not> trigger_update_passes (Some t) (Some (add_trigger_finalizer K t))"
  "\<not> trigger_update_passes (Some t) (Some (remove_trigger_finalizer K t))"
  by (simp_all add: trigger_update_passes_def patched_trigger_def add_trigger_finalizer_def remove_trigger_finalizer_def)

text \<open>
  C29: a trigger neither wakes itself nor stalls. Nothing that a reconciliation writes, be it a status or the
  object with its finalizer added or removed, passes the predicate that would start another one; and when
  a live trigger's finalizer was written, the next reconciliation is requested or the error of the
  write is returned.
\<close>

theorem trigger_wakes_once:
  shows "\<exists>u. trigger_trace (snd (reconcile_found_trigger R t s)) = trigger_trace s @ u \<and>
    (\<forall>x. StatusUpdate x \<in> set u \<or> ObjectUpdate x \<in> set u \<longrightarrow> \<not> trigger_update_passes (Some t) (Some x)) \<and>
    (om_deletion_timestamp (tr_meta t) = None \<longrightarrow> (\<exists>x. ObjectUpdate x \<in> set u) \<longrightarrow>
       fst (reconcile_found_trigger R t s) = Returned requeue_now None \<or>
       (\<exists>e. fst (reconcile_found_trigger R t s) = Returned no_requeue (Some e)))"
proof (cases "om_deletion_timestamp (tr_meta t)")
  case None
  then have live: "reconcile_found_trigger R t s = reconcile_live_trigger R t s" by (simp add: reconcile_found_trigger_def)
  show ?thesis
  proof (cases rule: live_trace_cases [where R = R and t = t and s = s])
    case (object t')
    then show ?thesis by (intro exI [of _ "[ObjectUpdate t']"]) (auto simp: live own_writes_pass_not)
  next
    case (status q us m sync s2)
    then show ?thesis by (intro exI [of _ "q @ us"]) (auto simp: live own_writes_pass_not dest: quiet_mem)
  next
    case (rule M f condition d st err q us m sync s2)
    then show ?thesis
      by (intro exI [of _ "Called (EnsuredRule d st err) # q @ us"]) (auto simp: live own_writes_pass_not dest: quiet_mem)
  qed
next
  case (Some x)
  obtain out s' where del: "reconcile_trigger_delete R t s = (out, s')" by (metis prod.exhaust)
  with Some have found: "reconcile_found_trigger R t s = (out, s')" by (simp add: reconcile_found_trigger_def)
  let ?x = "ObjectUpdate (remove_trigger_finalizer (tr_lib R) t)"
  from del show ?thesis
  proof (cases rule: trigger_delete_cases)
    case unconfigured
    then show ?thesis unfolding found eventful_def using Some by (auto dest: quiet_mem)
  next
    case (failed M st e q)
    then show ?thesis
      by (intro exI [of _ "Called (DeletedRule (tst_rule_id (tr_status t)) st (Some e)) # q"])
        (auto simp: found Some dest: quiet_mem)
  next
    case (deleted M st q)
    then show ?thesis
      by (intro exI [of _ "Called (DeletedRule (tst_rule_id (tr_status t)) st None) # q @ [?x]"])
        (auto simp: found Some own_writes_pass_not dest: quiet_mem)
  qed (auto simp: found Some own_writes_pass_not)
qed

definition bare_trigger :: event_trigger where
  "bare_trigger = tr_meta_update (om_finalizers_update (\<lambda>fs. [])) (oci_trigger [] None)"

theorem trigger_wakes_once_witness:
  "\<exists>u. trigger_trace (snd (reconcile_found_trigger (sample_triggers None) bare_trigger (trigger_start ()))) = u \<and>
    u = [ObjectUpdate (oci_trigger [] None)] \<and>
    (\<forall>x. StatusUpdate x \<in> set u \<or> ObjectUpdate x \<in> set u \<longrightarrow> \<not> trigger_update_passes (Some bare_trigger) (Some x)) \<and>
    fst (reconcile_found_trigger (sample_triggers None) bare_trigger (trigger_start ())) = Returned requeue_now None"
proof -
  let ?run = "reconcile_found_trigger (sample_triggers None) bare_trigger (trigger_start ())"
  have trace: "trigger_trace (snd ?run) = [ObjectUpdate (oci_trigger [] None)]" by code_simp
  have out: "fst ?run = Returned requeue_now None" by code_simp
  from trigger_wakes_once [of "sample_triggers None" bare_trigger "trigger_start ()"] trace out show ?thesis
    by (auto simp: trigger_start_def bare_trigger_def oci_trigger_def)
qed

section \<open>Rules in force\<close>

text \<open>
  C5: Ready means in force. When a trigger of OCI event types is written as Ready over the OCI Events
  manager, the service has just returned a rule, with the id now in the status and ready there, whose
  condition is the trigger's, whose function is the one the trigger names (it was read as ready in this
  reconciliation), and which is enabled exactly if the trigger is.
\<close>

theorem trigger_ready_rule_in_force:
  assumes "tr_manager R = Some (oci_rule_manager I)" "stores_rules (or_client I)"
    and "classify_trigger t = TriggerModeOCI" "om_deletion_timestamp (tr_meta t) = None"
    and written: "StatusUpdate x \<in> set (drop (length (trigger_trace s)) (trigger_trace (snd (reconcile_found_trigger R t s))))"
    and ready: "tst_phase (tr_status x) = TriggerPhaseReady"
  shows "\<exists>f condition r w. get_function (tr_client R) (om_namespace (tr_meta t)) (fr_name (ts_function_ref (tr_spec t)))
        (io_world (ts_io s)) = Got f \<and> usable_for_rule (tr_lib R) f \<and>
      condition_json_from_spec (tr_number R) (tr_json_error R) (ts_condition (tr_spec t)) = Inr condition \<and>
      returned_rule (or_client I) r w \<and> rule_ready r \<and> tst_rule_id (tr_status x) = trimmed_value (ru_id r) \<and>
      tst_rule_id (tr_status x) \<noteq> [] \<and> rule_function_id r = trim_space (fst_function_id (fn_status f)) \<and>
      true_value (ru_is_enabled r) = rule_enabled t \<and> rule_action_enabled r = rule_enabled t \<and>
      same_condition_json (or_number I) (trimmed_value (ru_condition r)) condition"
proof -
  have live: "reconcile_found_trigger R t s = reconcile_live_trigger R t s"
    using assms(4) by (simp add: reconcile_found_trigger_def)
  show ?thesis
  proof (cases rule: live_trace_cases [where R = R and t = t and s = s])
    case (status q us m sync s2)
    with written assms(3) ready show ?thesis
      by (auto simp: live patched_trigger_def dest: quiet_mem)
  next
    case (object t')
    with written show ?thesis by (simp add: live)
  next
    case (rule M f condition d st err q us m sync s2)
    from written rule(9,10,11) have "x = patched_trigger R t (tr_status m) sync s2"
      by (auto simp: live dest: quiet_mem)
    with rule(13,14) ready have st: "err = None" "rs_ready st" "tst_rule_id (tr_status x) = rs_rule_id st"
      by (auto simp: patched_trigger_def split: if_splits)
    from rule(4,8) assms(1) st(1) obtain w' where run: "oci_ensure_rule I d (io_world (ts_io s)) = ((st, None), w')"
      by (auto simp: oci_rule_manager_def)
    have trimmed: "trimmed_rule d"
      using condition_json_trimmed [OF rule(3)] by (simp add: trimmed_rule_def rule(7) desired_rule_from_trigger_def)
    from ensured_rule_up_to_date [OF run assms(2) trimmed] obtain r where
      r: "\<not> rule_needs_update (or_number I) r d" "rs_rule_id st = trimmed_value (ru_id r)"
        "rs_ready st = rule_ready r" "trimmed_value (ru_id r) \<noteq> []" "returned_rule (or_client I) r w'" by blast
    from r(1) have "rule_function_id r = trim_space (fst_function_id (fn_status f))"
      "true_value (ru_is_enabled r) = rule_enabled t" "rule_action_enabled r = rule_enabled t"
      "same_condition_json (or_number I) (trimmed_value (ru_condition r)) condition"
      unfolding rule_up_to_date_iff by (simp_all add: rule(7) desired_rule_from_trigger_def)
    with rule(3,5,6) st r show ?thesis by auto
  qed
qed

lemma one_rule_stores: "stores_rules (or_client one_rule)"
proof -
  have "visible_rule w i = Some r \<Longrightarrow> trimmed_value (ru_id r) \<noteq> []" for w i r
    by (auto simp: visible_rule_def split: option.splits if_splits prod.splits)
  then show ?thesis
    by (auto simp: stores_rules_def one_rule_def one_rule_client_facts shows_details_def) (auto simp: shown_rule_def)
qed

theorem trigger_ready_rule_in_force_witness:
  "\<exists>x. tst_phase (tr_status x) = TriggerPhaseReady \<and>
     StatusUpdate x \<in> set (trigger_trace (snd (reconcile_found_trigger (sample_triggers (Some (oci_rule_manager one_rule)))
       (oci_trigger [] None) (trigger_start no_rules)))) \<and>
     (\<exists>r w. returned_rule one_rule_client r w \<and> rule_ready r \<and> tst_rule_id (tr_status x) = trimmed_value (ru_id r) \<and>
        rule_function_id r = ''ocid1.fn'')"
proof -
  let ?R = "sample_triggers (Some (oci_rule_manager one_rule))"
  let ?t = "oci_trigger [] None"
  let ?trace = "trigger_trace (snd (reconcile_found_trigger ?R ?t (trigger_start no_rules)))"
  have "case writes ?trace of StatusUpdate x # es \<Rightarrow> tst_phase (tr_status x) = TriggerPhaseReady | _ \<Rightarrow> False" by code_simp
  then obtain x es where x: "writes ?trace = StatusUpdate x # es" "tst_phase (tr_status x) = TriggerPhaseReady"
    by (auto split: list.splits effect.splits)
  then have mem: "StatusUpdate x \<in> set ?trace" using mem_writes(1) [of x ?trace] by simp
  have facts: "tr_manager ?R = Some (oci_rule_manager one_rule)" "om_deletion_timestamp (tr_meta ?t) = None"
    "trigger_trace (trigger_start no_rules) = []"
    by (simp_all add: sample_triggers_def oci_trigger_def trigger_start_def)
  have oci: "classify_trigger ?t = TriggerModeOCI" by code_simp
  have fn: "get_function (tr_client ?R) ns n w = Got (sample_function CondTrue)" for ns n w
    by (simp add: sample_triggers_def trigger_client_def)
  have id: "trim_space (fst_function_id (fn_status (sample_function CondTrue))) = ''ocid1.fn''" by code_simp
  from mem facts(3) have "StatusUpdate x \<in> set (drop (length (trigger_trace (trigger_start no_rules))) ?trace)" by simp
  from trigger_ready_rule_in_force [OF facts(1) one_rule_stores oci facts(2) this x(2)] obtain f r w where
    "get_function (tr_client ?R) (om_namespace (tr_meta ?t)) (fr_name (ts_function_ref (tr_spec ?t)))
       (io_world (ts_io (trigger_start no_rules))) = Got f"
    "returned_rule (or_client one_rule) r w" "rule_ready r" "tst_rule_id (tr_status x) = trimmed_value (ru_id r)"
    "rule_function_id r = trim_space (fst_function_id (fn_status f))" by blast
  moreover from this(1) have "f = sample_function CondTrue" by (simp add: fn)
  moreover have "or_client one_rule = one_rule_client" by (simp add: one_rule_def)
  ultimately show ?thesis using mem x(2) id by (intro exI [of _ x] conjI exI [of _ r] exI [of _ w]) simp_all
qed

section \<open>Deletion\<close>

text \<open>
  C12: what a reconciliation may delete and release. A rule is deleted only for a trigger under deletion that
  carries the operator's finalizer and has the deletion policy Delete, and then exactly the rule its status
  records; when the manager reports an error, nothing is written and the reconciliation is repeated. The
  finalizer of a trigger under deletion is released only when the policy is Retain, when its status records
  no rule, or after the manager answered the deletion of the recorded rule without an error in the same
  reconciliation. A live trigger loses the finalizer only by being one of function events, and then no rule
  is deleted. The manager's word is taken, and a rule that the status does not record is not looked for.
\<close>

theorem trigger_delete_safe:
  shows "\<exists>u. trigger_trace (snd (reconcile_found_trigger R t s)) = trigger_trace s @ u \<and>
    (\<forall>i st err. DeletedRule i st err \<in> set (calls u) \<longrightarrow>
       om_deletion_timestamp (tr_meta t) \<noteq> None \<and> has_trigger_finalizer (tr_lib R) t \<and>
       trigger_deletion_policy t = DeletionPolicyDelete \<and> i = tst_rule_id (tr_status t) \<and> i \<noteq> [] \<and>
       (err \<noteq> None \<longrightarrow> writes u = [] \<and>
          fst (reconcile_found_trigger R t s) = Returned (requeue_in trigger_requeue) None)) \<and>
    (\<forall>x. ObjectUpdate x \<in> set u \<longrightarrow>
       (if om_deletion_timestamp (tr_meta t) \<noteq> None then
          x = remove_trigger_finalizer (tr_lib R) t \<and> has_trigger_finalizer (tr_lib R) t \<and>
          (trigger_deletion_policy t = DeletionPolicyRetain \<or> tst_rule_id (tr_status t) = [] \<or>
           (\<exists>st q. u = Called (DeletedRule (tst_rule_id (tr_status t)) st None) # q @ [ObjectUpdate x] \<and> quiet q))
        else if classify_trigger t = TriggerModeOCI then
          x = add_trigger_finalizer (tr_lib R) t \<and> \<not> has_trigger_finalizer (tr_lib R) t
        else x = remove_trigger_finalizer (tr_lib R) t \<and> has_trigger_finalizer (tr_lib R) t \<and>
          classify_trigger t = TriggerModeFunctionEvent \<and> u = [ObjectUpdate x]))"
proof (cases "om_deletion_timestamp (tr_meta t) = None")
  case True
  then have live: "reconcile_found_trigger R t s = reconcile_live_trigger R t s" by (simp add: reconcile_found_trigger_def)
  show ?thesis
  proof (cases rule: live_trace_cases [where R = R and t = t and s = s])
    case (rule M f condition d st err q us m sync s2)
    then show ?thesis using True
      by (intro exI [of _ "Called (EnsuredRule d st err) # q @ us"]) (auto simp: live quiet_calls dest: quiet_mem)
  next
    case (status q us m sync s2)
    then show ?thesis using True by (intro exI [of _ "q @ us"]) (auto simp: live quiet_calls dest: quiet_mem)
  qed (use True in \<open>auto simp: live\<close>)
next
  case False
  then have del: "reconcile_found_trigger R t s = reconcile_trigger_delete R t s" by (simp add: reconcile_found_trigger_def)
  obtain out s' where run: "reconcile_trigger_delete R t s = (out, s')" by (metis prod.exhaust)
  from run show ?thesis
  proof (cases rule: trigger_delete_cases)
    case (failed M st e q)
    with False run show ?thesis
      by (intro exI [of _ "Called (DeletedRule (tst_rule_id (tr_status t)) st (Some e)) # q"])
        (auto simp: del quiet_calls dest: quiet_mem)
  next
    case (deleted M st q)
    with False run show ?thesis
      by (intro exI [of _ "Called (DeletedRule (tst_rule_id (tr_status t)) st None) # q @
           [ObjectUpdate (remove_trigger_finalizer (tr_lib R) t)]"])
        (auto simp: del quiet_calls dest: quiet_mem)
  next
    case unconfigured
    then obtain q where "trigger_trace s' = trigger_trace s @ q" "quiet q" by (auto simp: eventful_def)
    with run show ?thesis by (intro exI [of _ q]) (auto simp: del quiet_calls dest: quiet_mem)
  qed (use run False in \<open>auto simp: del\<close>)
qed

theorem trigger_delete_safe_witness:
  "length (calls (trigger_trace (snd (reconcile_found_trigger (sample_triggers (Some (steady_rules empty_rule_state)))
      (oci_trigger ''r'' (Some 1)) (trigger_start ()))))) = 1 \<and>
   (\<exists>u. trigger_trace (snd (reconcile_found_trigger (sample_triggers (Some (steady_rules empty_rule_state)))
      (oci_trigger ''r'' (Some 1)) (trigger_start ()))) = trigger_trace (trigger_start ()) @ u \<and>
    (\<forall>x. ObjectUpdate x \<in> set u \<longrightarrow>
       (\<exists>st q. u = Called (DeletedRule ''r'' st None) # q @ [ObjectUpdate x] \<and> quiet q)))"
proof
  show "length (calls (trigger_trace (snd (reconcile_found_trigger (sample_triggers (Some (steady_rules empty_rule_state)))
      (oci_trigger ''r'' (Some 1)) (trigger_start ()))))) = 1" by code_simp
  have "om_deletion_timestamp (tr_meta (oci_trigger ''r'' (Some 1))) \<noteq> None"
    "trigger_deletion_policy (oci_trigger ''r'' (Some 1)) \<noteq> DeletionPolicyRetain"
    "tst_rule_id (tr_status (oci_trigger ''r'' (Some 1))) = ''r''"
    by (simp_all add: oci_trigger_def trigger_deletion_policy_def)
  with trigger_delete_safe [of "sample_triggers (Some (steady_rules empty_rule_state))" "oci_trigger ''r'' (Some 1)"
      "trigger_start ()"]
  show "\<exists>u. trigger_trace (snd (reconcile_found_trigger (sample_triggers (Some (steady_rules empty_rule_state)))
      (oci_trigger ''r'' (Some 1)) (trigger_start ()))) = trigger_trace (trigger_start ()) @ u \<and>
    (\<forall>x. ObjectUpdate x \<in> set u \<longrightarrow>
       (\<exists>st q. u = Called (DeletedRule ''r'' st None) # q @ [ObjectUpdate x] \<and> quiet q))"
    by auto
qed

section \<open>The two ways of delivery\<close>

text \<open>
  C13: no trigger is served twice. The only calls for a live trigger are those that ensure its rule, and they
  are made only for a trigger none of whose event types is one of function events, enabled or not; such a
  trigger is never among those an event is routed to, in whatever list and for whatever event type. A live
  trigger with an event type of function events never has a rule ensured or deleted.
\<close>

theorem trigger_delivery_exclusive:
  assumes "om_deletion_timestamp (tr_meta t) = None"
  shows "\<exists>u. trigger_trace (snd (reconcile_found_trigger R t s)) = trigger_trace s @ u \<and>
    (\<forall>c \<in> set (calls u). \<exists>d st err. c = EnsuredRule d st err) \<and>
    (calls u \<noteq> [] \<longrightarrow> (\<forall>ts event_type. t \<notin> set (routed_triggers ts event_type))) \<and>
    ((\<exists>event_type \<in> set (ec_event_type (ts_condition (tr_spec t))). is_function_event_type event_type) \<longrightarrow> calls u = [])"
proof -
  have live: "reconcile_found_trigger R t s = reconcile_live_trigger R t s"
    using assms by (simp add: reconcile_found_trigger_def)
  have apart: "t \<notin> set (routed_triggers ts event_type)" if "classify_trigger t = TriggerModeOCI" for ts event_type
    using that by (simp add: routed_triggers_def)
  have foreign: "\<not> is_function_event_type event_type"
    if "classify_trigger t = TriggerModeOCI" "event_type \<in> set (ec_event_type (ts_condition (tr_spec t)))" for event_type
    using that by (auto simp: classify_trigger_def Let_def list_ex_iff split: if_splits)
  show ?thesis
  proof (cases rule: live_trace_cases [where R = R and t = t and s = s])
    case (rule M f condition d st err q us m sync s2)
    then have "calls (q @ us) = []" by (auto simp: quiet_def)
    with rule apart foreign show ?thesis
      by (intro exI [of _ "Called (EnsuredRule d st err) # q @ us"]) (auto simp: live)
  next
    case (status q us m sync s2)
    then show ?thesis by (intro exI [of _ "q @ us"]) (auto simp: live quiet_def)
  qed (auto simp: live)
qed

theorem trigger_delivery_exclusive_witness:
  "calls (trigger_trace (snd (reconcile_found_trigger (sample_triggers (Some (steady_rules empty_rule_state)))
     (oci_trigger [] None) (trigger_start ())))) \<noteq> [] \<and>
   oci_trigger [] None \<notin> set (routed_triggers [oci_trigger [] None] ''functionevent.a'')"
proof
  show calls: "calls (trigger_trace (snd (reconcile_found_trigger (sample_triggers (Some (steady_rules empty_rule_state)))
     (oci_trigger [] None) (trigger_start ())))) \<noteq> []" by code_simp
  have "om_deletion_timestamp (tr_meta (oci_trigger [] None)) = None" by (simp add: oci_trigger_def)
  from trigger_delivery_exclusive [OF this, of "sample_triggers (Some (steady_rules empty_rule_state))" "trigger_start ()"] calls
  show "oci_trigger [] None \<notin> set (routed_triggers [oci_trigger [] None] ''functionevent.a'')"
    by (auto simp: trigger_start_def)
qed

section \<open>Settling\<close>

text \<open>A condition that shows what is wanted, for this generation.\<close>

definition shows_condition :: "event_trigger \<Rightarrow> string \<Rightarrow> condition_state \<Rightarrow> bool" where
  "shows_condition t ty c \<longleftrightarrow> (\<exists>d. lookup_condition (tst_conditions (tr_status t)) ty = Some d \<and>
     c_status d = cs_status c \<and> c_reason d = cs_reason c \<and> c_message d = cs_message c \<and>
     c_observed_generation d = om_generation (tr_meta t))"

lemma set_trigger_condition_shows:
  assumes "kube_lib_ok K"
  shows "shows_condition (set_trigger_condition K now ty c t) ty c"
    "u \<noteq> ty \<Longrightarrow> shows_condition (set_trigger_condition K now ty c t) u e = shows_condition t u e"
    "distinct (condition_types (tst_conditions (tr_status t))) \<Longrightarrow>
     distinct (condition_types (tst_conditions (tr_status (set_trigger_condition K now ty c t))))"
  using assms
  by (simp_all add: shows_condition_def set_trigger_condition_def set_trigger_status_condition_def Let_def
      kube_lookup_set kube_distinct_set)

lemma set_trigger_condition_again:
  assumes "kube_lib_ok K" "distinct (condition_types (tst_conditions (tr_status t)))" "shows_condition t ty c"
  shows "set_trigger_condition K now ty c t = t"
proof -
  from assms(3) obtain d where d: "lookup_condition (tst_conditions (tr_status t)) ty = Some d"
    "c_status d = cs_status c" "c_reason d = cs_reason c" "c_message d = cs_message c"
    "c_observed_generation d = om_generation (tr_meta t)" by (auto simp: shows_condition_def)
  have "set_status_condition K (tst_conditions (tr_status t)) x = tst_conditions (tr_status t)"
    if "c_type x = ty" "c_status x = cs_status c" "c_reason x = cs_reason c" "c_message x = cs_message c"
      "c_observed_generation x = om_generation (tr_meta t)" for x
    using kube_set_unchanged [OF assms(1,2), of x d] that d by simp
  then show ?thesis
    by (simp add: set_trigger_condition_def set_trigger_status_condition_def Let_def)
qed

text \<open>Two triggers that differ only in the synchronisation time of their status.\<close>

definition synced_as :: "event_trigger \<Rightarrow> event_trigger \<Rightarrow> bool" where
  "synced_as a b \<longleftrightarrow> tr_meta a = tr_meta b \<and> trigger_status_equal (tr_status a) (tr_status b)"

lemma status_equal_fields:
  "trigger_status_equal a b \<longleftrightarrow> tst_observed_generation a = tst_observed_generation b \<and> tst_phase a = tst_phase b \<and>
     tst_rule_id a = tst_rule_id b \<and> tst_message a = tst_message b \<and> tst_conditions a = tst_conditions b"
  by (cases a; cases b) (auto simp: trigger_status_equal_def)

lemma observe_again:
  assumes K: "kube_lib_ok K" and dist: "distinct (condition_types (tst_conditions (tr_status t)))"
    and t': "synced_as t' (observe_trigger_rule K now st (start_trigger t))"
  shows "trigger_status_equal (tr_status t') (tr_status (observe_trigger_rule K now' st (start_trigger t')))"
proof -
  define message where "message = (if rs_message st = [] then ''OCI Events rule is ready.'' else rs_message st)"
  define ready where "ready = (if rs_ready st then trigger_cond CondTrue ''RuleReady'' message
     else trigger_cond CondFalse ''RulePending'' message)"
  define phase where "phase = (if rs_ready st then TriggerPhaseReady else TriggerPhasePending)"
  define body where "body x = with_trigger_phase phase message (tr_status_update (\<lambda>y. y\<lparr>tst_rule_id := rs_rule_id st\<rparr>) (start_trigger x))" for x
  have observe: "observe_trigger_rule K n st (start_trigger x) =
      set_trigger_condition K n trigger_condition_rule_ready ready
        (set_trigger_condition K n trigger_condition_resolved function_ready_state (body x))" for n x
    by (simp add: observe_trigger_rule_def Let_def message_def ready_def phase_def body_def set_trigger_conditions_def)
  let ?o = "observe_trigger_rule K now st (start_trigger t)"
  have conds: "tst_conditions (tr_status (body x)) = tst_conditions (tr_status x)" "tr_meta (body x) = tr_meta x" for x
    by (simp_all add: body_def with_trigger_phase_def start_trigger_def)
  have shown: "shows_condition ?o trigger_condition_resolved function_ready_state"
    "shows_condition ?o trigger_condition_rule_ready ready"
    "distinct (condition_types (tst_conditions (tr_status ?o)))"
    unfolding observe using dist by (simp_all add: set_trigger_condition_shows K conds)
  have same: "tst_conditions (tr_status (body t')) = tst_conditions (tr_status ?o)" "tr_meta (body t') = tr_meta ?o"
    using t' by (simp_all add: synced_as_def status_equal_fields conds)
  then have "shows_condition (body t') trigger_condition_resolved function_ready_state"
    "shows_condition (body t') trigger_condition_rule_ready ready"
    "distinct (condition_types (tst_conditions (tr_status (body t'))))"
    using shown by (simp_all add: shows_condition_def)
  then have "observe_trigger_rule K now' st (start_trigger t') = body t'"
    by (simp add: observe set_trigger_condition_again K)
  moreover have "tst_observed_generation (tr_status ?o) = om_generation (tr_meta t)" "tst_rule_id (tr_status ?o) = rs_rule_id st"
    "tst_phase (tr_status ?o) = phase" "tst_message (tr_status ?o) = message" "tr_meta ?o = tr_meta t"
    by (simp_all add: status_simps phase_def)
      (simp_all add: observe_trigger_rule_def Let_def status_simps with_trigger_phase_def message_def)
  ultimately show ?thesis
    using t' by (simp add: status_equal_fields synced_as_def body_def with_trigger_phase_def start_trigger_def)
qed

text \<open>The trigger as the API server stores it after these effects.\<close>

fun stored_trigger :: "trigger_effect list \<Rightarrow> event_trigger \<Rightarrow> event_trigger" where
  "stored_trigger [] t = t"
| "stored_trigger (StatusUpdate x # es) t = stored_trigger es x"
| "stored_trigger (ObjectUpdate x # es) t = stored_trigger es x"
| "stored_trigger (e # es) t = stored_trigger es t"

lemma stored_quiet: "quiet q \<Longrightarrow> stored_trigger (q @ us) t = stored_trigger us t"
  by (induction q t rule: stored_trigger.induct) (auto simp: quiet_def)

text \<open>A trigger whose reconciliation gets as far as its rule: nothing is missing and the function is usable.\<close>

definition reaches_rule :: "'w trigger_reconciler \<Rightarrow> event_trigger \<Rightarrow> 'w \<Rightarrow> bool" where
  "reaches_rule R t w \<longleftrightarrow> om_deletion_timestamp (tr_meta t) = None \<and> classify_trigger t = TriggerModeOCI \<and>
     missing_oci_fields t = [] \<and> has_trigger_finalizer (tr_lib R) t \<and> fr_name (ts_function_ref (tr_spec t)) \<noteq> [] \<and>
     (\<exists>condition. condition_json_from_spec (tr_number R) (tr_json_error R) (ts_condition (tr_spec t)) = Inr condition) \<and>
     (\<exists>f. usable_for_rule (tr_lib R) f \<and> get_function (tr_client R) (om_namespace (tr_meta t))
        (fr_name (ts_function_ref (tr_spec t))) w = Got f)"

lemma reaches_run:
  assumes "reaches_rule R t (io_world (ts_io s))" "tr_manager R = Some M"
  obtains f condition where "reconcile_found_trigger R t s =
      ensure_trigger_rule R M t (trigger_now R s) (desired_rule_from_trigger t f condition) s"
    "usable_for_rule (tr_lib R) f"
    "condition_json_from_spec (tr_number R) (tr_json_error R) (ts_condition (tr_spec t)) = Inr condition"
proof -
  from assms obtain condition f where env: "om_deletion_timestamp (tr_meta t) = None" "classify_trigger t = TriggerModeOCI"
    "missing_oci_fields t = []" "has_trigger_finalizer (tr_lib R) t" "fr_name (ts_function_ref (tr_spec t)) \<noteq> []"
    "condition_json_from_spec (tr_number R) (tr_json_error R) (ts_condition (tr_spec t)) = Inr condition"
    "usable_for_rule (tr_lib R) f" "get_function (tr_client R) (om_namespace (tr_meta t))
        (fr_name (ts_function_ref (tr_spec t))) (io_world (ts_io s)) = Got f"
    by (auto simp: reaches_rule_def)
  then have "resolve_trigger_function R t (start_trigger t) (trigger_now R s) s = (Inr f, s)"
    by (simp add: resolve_trigger_function_def)
  then show ?thesis using env assms(2)
    by (intro that [of f condition])
      (simp add: reconcile_found_trigger_def reconcile_live_trigger_def reconcile_rule_def Let_def)
qed

text \<open>In a steady environment it always gets there, and the manager always observes \<open>st\<close>.\<close>

definition steady_trigger :: "'w trigger_reconciler \<Rightarrow> event_trigger \<Rightarrow> rule_state \<Rightarrow> bool" where
  "steady_trigger R t st \<longleftrightarrow> (\<forall>w. reaches_rule R t w) \<and>
     (\<exists>M. tr_manager R = Some M \<and> (\<forall>d w. \<exists>w'. rm_ensure_rule M d w = ((st, None), w')))"

lemma reaches_rule_spec: "tr_meta a = tr_meta b \<Longrightarrow> tr_spec a = tr_spec b \<Longrightarrow> reaches_rule R a w = reaches_rule R b w"
  by (simp add: reaches_rule_def classify_trigger_def missing_oci_fields_def has_trigger_finalizer_def)

lemma oci_trigger_reaches: "reaches_rule (sample_triggers M) (oci_trigger i None) w"
proof -
  have env: "classify_trigger (oci_trigger [] None) = TriggerModeOCI" "missing_oci_fields (oci_trigger [] None) = []"
    "has_trigger_finalizer sample_lib (oci_trigger [] None)" "usable_for_rule sample_lib (sample_function CondTrue)"
    "case condition_json_from_spec sample_number id (ts_condition (tr_spec (oci_trigger [] None))) of
       Inl e \<Rightarrow> False | Inr c \<Rightarrow> True"
    by code_simp+
  have here: "reaches_rule (sample_triggers M) (oci_trigger [] None) w"
    using env unfolding reaches_rule_def
    by (auto simp: sample_triggers_def trigger_client_def oci_trigger_def split: sum.splits)
  have same: "tr_meta (oci_trigger i None) = tr_meta (oci_trigger [] None)"
    "tr_spec (oci_trigger i None) = tr_spec (oci_trigger [] None)" by (simp_all add: oci_trigger_def)
  from here show ?thesis by (rule iffD2 [OF reaches_rule_spec [OF same]])
qed

lemma steady_trigger_spec: "tr_meta a = tr_meta b \<Longrightarrow> tr_spec a = tr_spec b \<Longrightarrow> steady_trigger R a st = steady_trigger R b st"
  by (simp add: steady_trigger_def reaches_rule_spec [of a b])

lemma steady_run:
  assumes "steady_trigger R t st"
  obtains e q s2 where "trigger_trace (snd (reconcile_found_trigger R t s)) = trigger_trace s @ Called e # q @
      (let m = observe_trigger_rule (tr_lib R) (trigger_now R s) st (start_trigger t) in
       if trigger_status_equal (tr_status t) (tr_status m) then []
       else [StatusUpdate (patched_trigger R t (tr_status m) True s2)])" "quiet q"
proof -
  from assms obtain M where M: "tr_manager R = Some M" "\<And>d w. \<exists>w'. rm_ensure_rule M d w = ((st, None), w')"
    and reaches: "reaches_rule R t (io_world (ts_io s))"
    by (auto simp: steady_trigger_def)
  from reaches_run [OF reaches M(1)] obtain f condition where
    "reconcile_found_trigger R t s = ensure_trigger_rule R M t (trigger_now R s) (desired_rule_from_trigger t f condition) s" .
  moreover let ?d = "desired_rule_from_trigger t f condition"
  obtain out s' where "ensure_trigger_rule R M t (trigger_now R s) ?d s = (out, s')" by (metis prod.exhaust)
  moreover from this obtain st' err q m sync s2 where
      step: "trigger_trace s' = trigger_trace s @ Called (EnsuredRule ?d st' err) # q @
       (if trigger_status_equal (tr_status t) (tr_status m) then []
        else [StatusUpdate (patched_trigger R t (tr_status m) sync s2)])" "quiet q"
      "\<exists>w. rm_ensure_rule M ?d (io_world (ts_io s)) = ((st', err), w)" "sync \<longleftrightarrow> err = None"
      "err = None \<Longrightarrow> m = observe_trigger_rule (tr_lib R) (trigger_now R s) st' (start_trigger t)"
    by (rule ensure_trigger_cases) blast
  moreover have "st' = st" "err = None" using step(3) M(2) [of ?d "io_world (ts_io s)"] by auto
  ultimately show ?thesis by (intro that [of "EnsuredRule ?d st err" q s2]) (simp_all add: Let_def)
qed

text \<open>
  C28: in a steady environment a trigger settles in one reconciliation: whatever happens to the recorded
  events and to the world in between, the next reconciliation of the trigger as stored calls the manager
  and writes nothing.
\<close>

theorem trigger_settles:
  assumes "kube_lib_ok (tr_lib R)" "distinct (condition_types (tst_conditions (tr_status t)))" "steady_trigger R t st"
    and "trigger_trace (snd (reconcile_found_trigger R t s)) = trigger_trace s @ u"
  shows "\<exists>v. trigger_trace (snd (reconcile_found_trigger R (stored_trigger u t) s')) = trigger_trace s' @ v \<and>
    calls v \<noteq> [] \<and> writes v = []"
proof -
  let ?t = "stored_trigger u t"
  let ?m = "observe_trigger_rule (tr_lib R) (trigger_now R s) st (start_trigger t)"
  from steady_run [OF assms(3), of s] assms(4) obtain e q s2 where
    u: "u = Called e # q @ (if trigger_status_equal (tr_status t) (tr_status ?m) then []
        else [StatusUpdate (patched_trigger R t (tr_status ?m) True s2)])" "quiet q"
    by (metis (no_types, lifting) same_append_eq)
  then have t: "?t = (if trigger_status_equal (tr_status t) (tr_status ?m) then t
      else patched_trigger R t (tr_status ?m) True s2)" by (simp add: stored_quiet)
  have "synced_as ?t ?m"
    by (auto simp: t synced_as_def patched_trigger_def trigger_status_equal_def status_simps observe_trigger_rule_def Let_def
        with_trigger_phase_def)
  from observe_again [OF assms(1,2) this]
  have again: "trigger_status_equal (tr_status ?t) (tr_status (observe_trigger_rule (tr_lib R) now st (start_trigger ?t)))" for now .
  have "tr_meta ?t = tr_meta t" "tr_spec ?t = tr_spec t" by (simp_all add: t patched_trigger_def)
  then have "steady_trigger R ?t st" using assms(3) steady_trigger_spec by blast
  from steady_run [OF this, of s'] again obtain e' q' where
    "trigger_trace (snd (reconcile_found_trigger R ?t s')) = trigger_trace s' @ Called e' # q'" "quiet q'"
    by (auto simp: Let_def)
  then show ?thesis by (intro exI [of _ "Called e' # q'"]) (simp add: quiet_def)
qed

definition ready_rule :: rule_state where
  "ready_rule = \<lparr>rs_rule_id = ''r'', rs_ready = True, rs_message = ''ok'', rs_events = []\<rparr>"

theorem trigger_settles_witness:
  "\<exists>v. trigger_trace (snd (reconcile_found_trigger (sample_triggers (Some (steady_rules ready_rule)))
      (stored_trigger (trigger_trace (snd (reconcile_found_trigger (sample_triggers (Some (steady_rules ready_rule)))
         (oci_trigger [] None) (trigger_start ())))) (oci_trigger [] None)) (trigger_start ()))) = v \<and>
    calls v \<noteq> [] \<and> writes v = []"
proof -
  let ?R = "sample_triggers (Some (steady_rules ready_rule))"
  have "steady_trigger ?R (oci_trigger [] None) ready_rule"
    by (simp add: steady_trigger_def oci_trigger_reaches) (simp add: sample_triggers_def steady_rules_def)
  moreover have "kube_lib_ok (tr_lib ?R)" "distinct (condition_types (tst_conditions (tr_status (oci_trigger [] None))))"
    "trigger_trace (trigger_start ()) = []"
    by (simp_all add: sample_triggers_def sample_lib_ok oci_trigger_def condition_types_def trigger_start_def)
  ultimately show ?thesis
    using trigger_settles [of ?R "oci_trigger [] None" ready_rule "trigger_start ()" _ "trigger_start ()"] by auto
qed

section \<open>Rules that are lost\<close>

definition deleted_trigger :: "event_trigger \<Rightarrow> event_trigger" where
  "deleted_trigger t = tr_meta_update (om_deletion_timestamp_update (\<lambda>d. Some 200)) t"

lemma unread_rule_lost:
  assumes "dr_rule_id d \<noteq> []" "ev_get_rule (or_client I) (dr_rule_id d) (region_world I d w) = (Inl e, w')" "\<not> rule_not_found e"
  shows "\<exists>e w'. oci_ensure_rule I d w = ((empty_rule_state, Some e), w')"
proof -
  from assms have "\<exists>e w'. find_rule I d (region_world I d w) = (Inl e, w')" by (simp add: find_rule_def)
  then show ?thesis
    by (cases "validate_desired_rule d") (auto simp: oci_ensure_rule_def Let_def region_world_def)
qed

lemma released_without_rule:
  assumes "om_deletion_timestamp (tr_meta t) \<noteq> None" "tst_rule_id (tr_status t) = []" "has_trigger_finalizer (tr_lib R) t"
    and "tr_manager R \<noteq> None"
  shows "trigger_trace (snd (reconcile_found_trigger R t s)) = trigger_trace s @ [ObjectUpdate (remove_trigger_finalizer (tr_lib R) t)]"
proof -
  obtain out s' where del: "reconcile_trigger_delete R t s = (out, s')" by (metis prod.exhaust)
  from del have "trigger_trace s' = trigger_trace s @ [ObjectUpdate (remove_trigger_finalizer (tr_lib R) t)]"
    by (cases rule: trigger_delete_cases) (use assms in auto)
  with del assms(1) show ?thesis by (simp add: reconcile_found_trigger_def)
qed

text \<open>
  C39: a transient error forgets the rule. When the service fails to answer the read of the recorded rule,
  with any error but not found, the trigger is stored without the rule's id. Deleted in that state, it asks
  for no deletion and its finalizer is released, so the rule stays.
\<close>

theorem trigger_rule_forgotten:
  assumes "reaches_rule R t (io_world (ts_io s))" "tr_manager R = Some (oci_rule_manager I)"
    and "trim_space (tst_rule_id (tr_status t)) \<noteq> []"
    and unread: "\<And>w. \<exists>e w'. ev_get_rule (or_client I) (trim_space (tst_rule_id (tr_status t))) w = (Inl e, w') \<and> \<not> rule_not_found e"
    and "trigger_trace (snd (reconcile_found_trigger R t s)) = trigger_trace s @ u"
  shows "tst_rule_id (tr_status (stored_trigger u t)) = [] \<and>
    (\<exists>v. trigger_trace (snd (reconcile_found_trigger R (deleted_trigger (stored_trigger u t)) s')) = trigger_trace s' @ v \<and>
       calls v = [] \<and> writes v = [ObjectUpdate (remove_trigger_finalizer (tr_lib R) (deleted_trigger (stored_trigger u t)))])"
proof -
  from reaches_run [OF assms(1,2)] obtain f condition where run: "reconcile_found_trigger R t s =
    ensure_trigger_rule R (oci_rule_manager I) t (trigger_now R s) (desired_rule_from_trigger t f condition) s" .
  let ?d = "desired_rule_from_trigger t f condition"
  have id: "dr_rule_id ?d = trim_space (tst_rule_id (tr_status t))" by (simp add: desired_rule_from_trigger_def)
  from unread obtain e w' where "ev_get_rule (or_client I) (dr_rule_id ?d) (region_world I ?d (io_world (ts_io s))) = (Inl e, w')"
    "\<not> rule_not_found e" unfolding id by blast
  from unread_rule_lost [OF _ this] assms(3) have
    lost: "\<exists>e w'. oci_ensure_rule I ?d (io_world (ts_io s)) = ((empty_rule_state, Some e), w')" by (simp only: id) blast
  obtain out s1 where ens: "ensure_trigger_rule R (oci_rule_manager I) t (trigger_now R s) ?d s = (out, s1)" by (metis prod.exhaust)
  with run assms(5) have s1: "trigger_trace s1 = trigger_trace s @ u" by simp
  from ens obtain st err q and m :: event_trigger and sync s2 where
    trace: "trigger_trace s1 = trigger_trace s @ Called (EnsuredRule ?d st err) # q @
       (if trigger_status_equal (tr_status t) (tr_status m) then []
        else [StatusUpdate (patched_trigger R t (tr_status m) sync s2)])" and
    u: "quiet q" "\<exists>w. rm_ensure_rule (oci_rule_manager I) ?d (io_world (ts_io s)) = ((st, err), w)"
      "tst_rule_id (tr_status m) = rs_rule_id st"
    by (rule ensure_trigger_cases) blast
  from trace s1 have u0: "u = Called (EnsuredRule ?d st err) # q @
       (if trigger_status_equal (tr_status t) (tr_status m) then []
        else [StatusUpdate (patched_trigger R t (tr_status m) sync s2)])" by simp
  from u(2) lost have "rs_rule_id st = []"
    by (auto simp: oci_rule_manager_def empty_rule_state_def)
  with u(3) have "\<not> trigger_status_equal (tr_status t) (tr_status m)"
    using assms(3) by (auto simp: status_equal_fields)
  with u0 u(1) have t': "stored_trigger u t = patched_trigger R t (tr_status m) sync s2" by (simp add: stored_quiet)
  then have gone: "tst_rule_id (tr_status (stored_trigger u t)) = []"
    using u(3) \<open>rs_rule_id st = []\<close> by (simp add: patched_trigger_def)
  let ?t = "deleted_trigger (stored_trigger u t)"
  have facts: "om_deletion_timestamp (tr_meta ?t) \<noteq> None" "tst_rule_id (tr_status ?t) = []" "has_trigger_finalizer (tr_lib R) ?t"
    using gone assms(1)
    by (simp_all add: deleted_trigger_def t' patched_trigger_def has_trigger_finalizer_def reaches_rule_def)
  from released_without_rule [OF facts, of s'] assms(2) gone show ?thesis
    by (intro conjI exI [of _ "[ObjectUpdate (remove_trigger_finalizer (tr_lib R) ?t)]"]) simp_all
qed

text \<open>A service that answers no read for the moment.\<close>

definition broken_rules :: "rule_world oci_rules" where
  "broken_rules = one_rule\<lparr>or_client := one_rule_client\<lparr>ev_get_rule := (\<lambda>i w. (Inl (ErrorText ''timeout''), w))\<rparr>\<rparr>"

theorem trigger_rule_forgotten_witness:
  "\<exists>u. trigger_trace (snd (reconcile_found_trigger (sample_triggers (Some (oci_rule_manager broken_rules)))
      (oci_trigger ''rule1'' None) (trigger_start no_rules))) = u \<and>
    tst_rule_id (tr_status (stored_trigger u (oci_trigger ''rule1'' None))) = []"
proof -
  let ?R = "sample_triggers (Some (oci_rule_manager broken_rules))"
  have env: "trim_space (tst_rule_id (tr_status (oci_trigger ''rule1'' None))) \<noteq> []" by code_simp
  have unread: "\<exists>e w'. ev_get_rule (or_client broken_rules) i w = (Inl e, w') \<and> \<not> rule_not_found e" for i w
    by (simp add: broken_rules_def rule_not_found_def has_service_status_def service_of_def)
  have manager: "tr_manager ?R = Some (oci_rule_manager broken_rules)" by (simp add: sample_triggers_def)
  let ?u = "trigger_trace (snd (reconcile_found_trigger ?R (oci_trigger ''rule1'' None) (trigger_start no_rules)))"
  have "?u = trigger_trace (trigger_start no_rules) @ ?u" by (simp add: trigger_start_def)
  from trigger_rule_forgotten [OF oci_trigger_reaches manager env unread this] show ?thesis by blast
qed

text \<open>
  C40: switching a trigger to function events abandons its rule: the reconciler of such a trigger never
  calls the manager; it removes the finalizer if it is there, and otherwise writes a status whose rule id
  is empty, if it writes one.
\<close>

theorem route_abandons_rule:
  assumes "classify_trigger t = TriggerModeFunctionEvent" "om_deletion_timestamp (tr_meta t) = None"
  shows "\<exists>u. trigger_trace (snd (reconcile_found_trigger R t s)) = trigger_trace s @ u \<and> calls u = [] \<and>
    (if has_trigger_finalizer (tr_lib R) t then writes u = [ObjectUpdate (remove_trigger_finalizer (tr_lib R) t)]
     else writes u = [] \<and> tst_rule_id (tr_status t) = [] \<or>
       (\<exists>x. writes u = [StatusUpdate x] \<and> tst_rule_id (tr_status x) = []))"
proof -
  obtain out s' where run: "reconcile_live_trigger R t s = (out, s')" by (metis prod.exhaust)
  then have live: "snd (reconcile_found_trigger R t s) = s'" using assms(2) by (simp add: reconcile_found_trigger_def)
  from run show ?thesis
  proof (cases rule: reconcile_live_trigger_cases)
    case (finalizer t')
    with assms(1) show ?thesis by (intro exI [of _ "[ObjectUpdate t']"]) (simp add: live)
  next
    case routed
    let ?m = "mark_trigger_route_ready (tr_lib R) (trigger_now R s) (start_trigger t)"
    from finish_trigger_trace(1) [of R t ?m no_requeue s] routed show ?thesis
      by (intro exI [of _ "if trigger_status_equal (tr_status t) (tr_status ?m) then []
          else [StatusUpdate (patched_trigger R t (tr_status ?m) False s)]"])
        (auto simp: live status_equal_fields status_simps patched_trigger_def)
  qed (use assms(1) in simp_all)
qed

definition switched_trigger :: event_trigger where
  "switched_trigger = tr_spec_update (ts_condition_update (ec_event_type_update (\<lambda>e. [''functionevent.a'']))) (oci_trigger ''r'' None)"

theorem route_abandons_rule_witness:
  "\<exists>u. trigger_trace (snd (reconcile_found_trigger (sample_triggers (Some (steady_rules ready_rule))) switched_trigger
      (trigger_start ()))) = trigger_trace (trigger_start ()) @ u \<and>
    calls u = [] \<and> writes u = [ObjectUpdate (remove_trigger_finalizer sample_lib switched_trigger)]"
proof -
  let ?R = "sample_triggers (Some (steady_rules ready_rule)) :: unit trigger_reconciler"
  have "classify_trigger switched_trigger = TriggerModeFunctionEvent" "has_trigger_finalizer (tr_lib ?R) switched_trigger"
    by code_simp+
  moreover have "om_deletion_timestamp (tr_meta switched_trigger) = None" "tr_lib ?R = sample_lib"
    by (simp_all add: switched_trigger_def oci_trigger_def sample_triggers_def)
  ultimately show ?thesis using route_abandons_rule [of switched_trigger ?R "trigger_start ()"] by simp
qed

section \<open>Recorded events\<close>

fun recorded :: "('o, 'c) effect list \<Rightarrow> (event_severity \<times> string \<times> string) list" where
  "recorded [] = []"
| "recorded (EventRecorded sev reason m # es) = (sev, reason, m) # recorded es"
| "recorded (_ # es) = recorded es"

lemma recorded_append [simp]: "recorded (xs @ ys) = recorded xs @ recorded ys"
  by (induction xs rule: recorded.induct) auto

definition error_signature :: "go_error \<Rightarrow> string" where
  "error_signature e = event_signature EventWarning ''RuleError'' (normalize_rule_error (Some e))"

text \<open>What a client of the contract sees of a failure: the call, and one warning unless it was the last event recorded.\<close>

context rule_contract begin

lemma failed_call:
  assumes "call_ensure_rule R M t d s = ((st, Some e), s')"
  shows "trigger_trace s' = trigger_trace s @ [Called (EnsuredRule d st (Some e))]" "ts_signatures s' = ts_signatures s"
proof -
  obtain st' err w where call: "rm_ensure_rule M d (io_world (ts_io s)) = ((st', err), w)" by (metis prod.exhaust)
  with assms have eq: "st' = st" "err = Some e" by (auto simp: call_ensure_rule_def)
  with call have "rs_events st = []" using failed_ensure by blast
  with assms call eq show "trigger_trace s' = trigger_trace s @ [Called (EnsuredRule d st (Some e))]"
    "ts_signatures s' = ts_signatures s"
    by (auto simp: call_ensure_rule_def record_rule_events_def)
qed

lemma failed_ensure_events:
  assumes run: "ensure_trigger_rule R M t now d s = (out, s')"
    and fail: "rm_ensure_rule M d (io_world (ts_io s)) = ((st, Some e), w)" and rec: "tr_recorder R"
  obtains u where "trigger_trace s' = trigger_trace s @ u" "ts_signatures s' (trigger_key t) = Some (error_signature e)"
    "recorded u = (if ts_signatures s (trigger_key t) = Some (error_signature e) then []
       else [(EventWarning, ''RuleError'', normalize_rule_error (Some e))])"
proof -
  obtain st1 err s1 where call: "call_ensure_rule R M t d s = ((st1, err), s1)" by (metis prod.exhaust)
  with fail have eq: "st1 = st" "err = Some e" by (auto simp: call_ensure_rule_def)
  note s1 = failed_call [OF call [unfolded eq]]
  define s2 where "s2 = record_event_if_changed (tr_recorder R) t EventWarning ''RuleError'' (normalize_rule_error (Some e)) s1"
  have s2: "ts_signatures s2 (trigger_key t) = Some (error_signature e)"
    "trigger_trace s2 = trigger_trace s1 @ (if ts_signatures s (trigger_key t) = Some (error_signature e) then []
       else [EventRecorded EventWarning ''RuleError'' (normalize_rule_error (Some e))])"
    using rec s1(2) by (simp_all add: s2_def record_event_if_changed_def error_signature_def record_event_def)
  define m where "m = mark_trigger_error (tr_lib R) now ''RuleReconcileError'' (normalize_rule_error (Some e))
      (tr_status_update (\<lambda>x. x\<lparr>tst_rule_id := rs_rule_id st\<rparr>) (start_trigger t))"
  have fin: "finish_trigger R t m (requeue_in trigger_requeue) s2 = (out, s')"
    using run call eq by (simp add: ensure_trigger_rule_def Let_def s2_def m_def)
  have "ts_signatures s' = ts_signatures s2"
    using fin by (auto simp: finish_trigger_def patch_trigger_status_def Let_def trigger_perform_simps split: prod.splits if_splits)
      (metis snd_conv trigger_perform_simps(3))
  moreover from finish_trigger_trace(1) [of R t m "requeue_in trigger_requeue" s2] fin s1(1) s2(2)
  have "trigger_trace s' = trigger_trace s @ Called (EnsuredRule d st (Some e)) #
      (if ts_signatures s (trigger_key t) = Some (error_signature e) then []
       else [EventRecorded EventWarning ''RuleError'' (normalize_rule_error (Some e))]) @
      (if trigger_status_equal (tr_status t) (tr_status m) then []
       else [StatusUpdate (patched_trigger R t (tr_status m) False s2)])" by simp
  ultimately show ?thesis using s2(1)
    by (intro that [of "Called (EnsuredRule d st (Some e)) #
      (if ts_signatures s (trigger_key t) = Some (error_signature e) then []
       else [EventRecorded EventWarning ''RuleError'' (normalize_rule_error (Some e))]) @
      (if trigger_status_equal (tr_status t) (tr_status m) then []
       else [StatusUpdate (patched_trigger R t (tr_status m) False s2)])"]) simp_all
qed

end

text \<open>Ensuring the rule the trigger asks for fails with this error.\<close>

definition ensure_fails :: "'w trigger_reconciler \<Rightarrow> 'w oci_rules \<Rightarrow> event_trigger \<Rightarrow> 'w \<Rightarrow> go_error \<Rightarrow> bool" where
  "ensure_fails R I t w e \<longleftrightarrow> reaches_rule R t w \<and>
     (\<forall>f condition. usable_for_rule (tr_lib R) f \<longrightarrow>
        condition_json_from_spec (tr_number R) (tr_json_error R) (ts_condition (tr_spec t)) = Inr condition \<longrightarrow>
        (\<exists>st w'. oci_ensure_rule I (desired_rule_from_trigger t f condition) w = ((st, Some e), w')))"

lemma ensure_fails_run:
  assumes "ensure_fails R I t (io_world (ts_io s)) e" "tr_manager R = Some (oci_rule_manager I)" "tr_recorder R"
  obtains u where "trigger_trace (snd (reconcile_found_trigger R t s)) = trigger_trace s @ u"
    "ts_signatures (snd (reconcile_found_trigger R t s)) (trigger_key t) = Some (error_signature e)"
    "recorded u = (if ts_signatures s (trigger_key t) = Some (error_signature e) then []
       else [(EventWarning, ''RuleError'', normalize_rule_error (Some e))])"
proof -
  from assms(1) have "reaches_rule R t (io_world (ts_io s))" by (simp add: ensure_fails_def)
  from reaches_run [OF this assms(2)] obtain f condition where run: "reconcile_found_trigger R t s =
    ensure_trigger_rule R (oci_rule_manager I) t (trigger_now R s) (desired_rule_from_trigger t f condition) s"
    "usable_for_rule (tr_lib R) f"
    "condition_json_from_spec (tr_number R) (tr_json_error R) (ts_condition (tr_spec t)) = Inr condition" by metis
  with assms(1) obtain st w where fail:
    "rm_ensure_rule (oci_rule_manager I) (desired_rule_from_trigger t f condition) (io_world (ts_io s)) = ((st, Some e), w)"
    by (auto simp: oci_rule_manager_def ensure_fails_def)
  obtain out b where ens: "ensure_trigger_rule R (oci_rule_manager I) t (trigger_now R s)
    (desired_rule_from_trigger t f condition) s = (out, b)" by (metis prod.exhaust)
  from oci_rules.failed_ensure_events [OF ens fail assms(3)] that show ?thesis unfolding run(1) ens snd_conv by blast
qed

text \<open>
  C36: a lasting error is recorded once. Over the OCI Events manager, when ensuring the rule of a trigger
  fails again with an error of the same normalised text, and nothing else was recorded for the trigger in
  between, the reconciliation records no event; the first failure recorded one warning with that text,
  unless that very event was the last one recorded already.
\<close>

theorem trigger_error_recorded_once:
  assumes "tr_recorder R" "tr_manager R = Some (oci_rule_manager I)"
    and "ensure_fails R I t (io_world (ts_io s)) e" "ensure_fails R I t' (io_world (ts_io s2)) e'"
    and "normalize_rule_error (Some e') = normalize_rule_error (Some e)" "trigger_key t' = trigger_key t"
    and "ts_signatures s2 (trigger_key t) = ts_signatures (snd (reconcile_found_trigger R t s)) (trigger_key t)"
  shows "\<exists>u v. trigger_trace (snd (reconcile_found_trigger R t s)) = trigger_trace s @ u \<and>
    recorded u = (if ts_signatures s (trigger_key t) = Some (error_signature e) then []
      else [(EventWarning, ''RuleError'', normalize_rule_error (Some e))]) \<and>
    trigger_trace (snd (reconcile_found_trigger R t' s2)) = trigger_trace s2 @ v \<and> recorded v = []"
proof -
  from ensure_fails_run [OF assms(3,2,1)] obtain u where
    u: "trigger_trace (snd (reconcile_found_trigger R t s)) = trigger_trace s @ u"
    "ts_signatures (snd (reconcile_found_trigger R t s)) (trigger_key t) = Some (error_signature e)"
    "recorded u = (if ts_signatures s (trigger_key t) = Some (error_signature e) then []
       else [(EventWarning, ''RuleError'', normalize_rule_error (Some e))])" .
  from ensure_fails_run [OF assms(4,2,1)] obtain v where
    v: "trigger_trace (snd (reconcile_found_trigger R t' s2)) = trigger_trace s2 @ v"
    "recorded v = (if ts_signatures s2 (trigger_key t') = Some (error_signature e') then []
       else [(EventWarning, ''RuleError'', normalize_rule_error (Some e'))])" .
  have "recorded v = []" using v(2) u(2) assms(5-7) by (simp add: error_signature_def)
  with u v show ?thesis by blast
qed

lemma broken_ensure_fails:
  assumes "reaches_rule R t w" "trim_space (tst_rule_id (tr_status t)) = i" "i \<noteq> []" "missing_oci_fields t = []"
    and "om_name (tr_meta t) = ''t''" "om_namespace (tr_meta t) = ''default''" "om_uid (tr_meta t) = ''u1''"
  shows "ensure_fails R broken_rules t w (WrapError (''get OCI Events rule '' @ i) (ErrorText ''timeout''))"
proof -
  have blank: "trim_space (ts_compartment_id (tr_spec t)) \<noteq> []" "trim_space (ts_display_name (tr_spec t)) \<noteq> []"
    using assms(4) by (auto simp: missing_oci_fields_def Let_def split: if_splits)
  have names: "trim_space ''t'' \<noteq> []" "trim_space ''default'' \<noteq> []" "trim_space ''u1'' \<noteq> []" by code_simp+
  show ?thesis
    unfolding ensure_fails_def
  proof (intro conjI allI impI)
    fix f condition
    assume f: "usable_for_rule (tr_lib R) f"
      and c: "condition_json_from_spec (tr_number R) (tr_json_error R) (ts_condition (tr_spec t)) = Inr condition"
    let ?d = "desired_rule_from_trigger t f condition"
    have "validate_desired_rule ?d = None"
      using blank f condition_json_trimmed [OF c] names
      by (simp add: validate_desired_rule_def desired_rule_from_trigger_def usable_for_rule_def assms(5-7))
    then show "\<exists>st w'. oci_ensure_rule broken_rules ?d w =
        ((st, Some (WrapError (''get OCI Events rule '' @ i) (ErrorText ''timeout''))), w')"
      using assms(2,3)
      by (simp add: oci_ensure_rule_def Let_def find_rule_def broken_rules_def one_rule_def rule_not_found_def
          has_service_status_def service_of_def desired_rule_from_trigger_def)
  qed (rule assms(1))
qed

theorem trigger_error_recorded_once_witness:
  "\<exists>u v. trigger_trace (snd (reconcile_found_trigger (sample_triggers (Some (oci_rule_manager broken_rules)))
      (oci_trigger ''rule1'' None) (trigger_start no_rules))) = u \<and> length (recorded u) = 1 \<and>
    trigger_trace (snd (reconcile_found_trigger (sample_triggers (Some (oci_rule_manager broken_rules)))
      (oci_trigger ''rule1'' None) (snd (reconcile_found_trigger (sample_triggers (Some (oci_rule_manager broken_rules)))
        (oci_trigger ''rule1'' None) (trigger_start no_rules))))) = u @ v \<and> recorded v = []"
proof -
  let ?R = "sample_triggers (Some (oci_rule_manager broken_rules))"
  let ?t = "oci_trigger ''rule1'' None"
  let ?s = "snd (reconcile_found_trigger ?R ?t (trigger_start no_rules))"
  have "trim_space (tst_rule_id (tr_status ?t)) = ''rule1''" "missing_oci_fields ?t = []" by code_simp+
  moreover have "om_name (tr_meta ?t) = ''t''" "om_namespace (tr_meta ?t) = ''default''" "om_uid (tr_meta ?t) = ''u1''"
    by (simp_all add: oci_trigger_def sample_meta_def)
  ultimately have fails: "ensure_fails ?R broken_rules ?t w
      (WrapError (''get OCI Events rule '' @ ''rule1'') (ErrorText ''timeout''))" for w
    by (intro broken_ensure_fails oci_trigger_reaches) simp_all
  have facts: "tr_recorder ?R" "tr_manager ?R = Some (oci_rule_manager broken_rules)"
    "trigger_trace (trigger_start no_rules) = []" "ts_signatures (trigger_start no_rules) = (\<lambda>k. None)"
    by (simp_all add: sample_triggers_def trigger_start_def)
  from trigger_error_recorded_once [OF facts(1,2) fails [of "io_world (ts_io (trigger_start no_rules))"]
      fails [of "io_world (ts_io ?s)"] refl refl refl] facts(3,4)
  show ?thesis by auto
qed

end
