(* ===== verification/OciAuth.thy ===== *)
theory OciAuth
  imports GoErrors "HOL-Library.Multiset"
begin

text \<open>
  \<open>internal/ociauth/oci_auth.go\<close>: the choice of the OCI SDK's authentication provider from options and
  environment variables. The process environment is a map; \<open>os.Setenv\<close> is written out with the names and
  values it rejects, \<open>os.Unsetenv\<close> cannot fail. The SDK's provider constructors read the environment and
  are parameters, as are its names of the resource principal variables. Go visits the entries of a map in
  no fixed order: the two orders in which the code does are parameters too. The mutex is left out.
\<close>

type_synonym environ = "string \<Rightarrow> string option"

record 'p oci_sdk =
  sdk_oke_provider :: "environ \<Rightarrow> go_error + 'p"
  sdk_default_provider :: "environ \<Rightarrow> 'p"
  sdk_profile_provider :: "string \<Rightarrow> string \<Rightarrow> 'p"
  sdk_version_var :: string
  sdk_version_value :: string
  sdk_region_var :: string
  sdk_set_order :: "go_map \<Rightarrow> go_map"
  sdk_restore_order :: "(string \<times> string option) list \<Rightarrow> (string \<times> string option) list"

section \<open>The environment\<close>

definition nul :: char where "nul = CHR 0x00"

definition valid_env :: "string \<Rightarrow> string \<Rightarrow> bool" where
  "valid_env k v \<longleftrightarrow> k \<noteq> [] \<and> CHR ''='' \<notin> set k \<and> nul \<notin> set k \<and> nul \<notin> set v"

definition setenv :: "string \<Rightarrow> string \<Rightarrow> environ \<Rightarrow> go_error option \<times> environ" where
  "setenv k v env =
     (if valid_env k v then (None, env(k \<mapsto> v)) else (Some (ErrorText ''setenv: invalid argument''), env))"

text \<open>\<open>os.Getenv\<close>, and the package's own \<open>getenv\<close>.\<close>

definition os_getenv :: "environ \<Rightarrow> string \<Rightarrow> string" where
  "os_getenv env k = (case env k of None \<Rightarrow> [] | Some v \<Rightarrow> v)"

definition auth_getenv :: "environ \<Rightarrow> string \<Rightarrow> string" where
  "auth_getenv env k = trim_space (trim_set (os_getenv env k) [nul])"

fun first_non_empty :: "string list \<Rightarrow> string" where
  "first_non_empty [] = []"
| "first_non_empty (v # vs) = (if trim_space v \<noteq> [] then trim_space v else first_non_empty vs)"

section \<open>Modes\<close>

definition env_oci_auth_mode :: string where "env_oci_auth_mode = ''OCI_AUTH_MODE''"
definition env_oci_config_profile :: string where "env_oci_config_profile = ''OCI_CONFIG_PROFILE''"
definition env_oci_config_file :: string where "env_oci_config_file = ''OCI_CONFIG_FILE''"
definition env_oci_region :: string where "env_oci_region = ''OCI_REGION''"
definition oci_auth_mode_workload :: string where "oci_auth_mode_workload = ''workload''"
definition oci_auth_mode_config :: string where "oci_auth_mode_config = ''config''"

definition unsupported_mode :: "string \<Rightarrow> string \<Rightarrow> string \<Rightarrow> string \<Rightarrow> go_error" where
  "unsupported_mode variable mode a b = ErrorText (''unsupported '' @ variable @ '' '' @ go_quote mode @
     ''; supported values are '' @ go_quote a @ '' and '' @ go_quote b)"

definition normalize_oci_auth_mode :: "string \<Rightarrow> go_error + string" where
  "normalize_oci_auth_mode mode =
     (let m = to_lower (trim_space mode) in
      if m = [] then Inr oci_auth_mode_workload
      else if m = oci_auth_mode_workload \<or> m = oci_auth_mode_config then Inr m
      else Inl (unsupported_mode env_oci_auth_mode mode oci_auth_mode_workload oci_auth_mode_config))"

section \<open>The workload identity provider\<close>

text \<open>Set the variables one after the other, keeping what they held; stop at the first error.\<close>

fun set_all ::
    "go_map \<Rightarrow> (string \<times> string option) list \<Rightarrow> environ \<Rightarrow>
     (go_error option \<times> (string \<times> string option) list) \<times> environ" where
  "set_all [] saved env = ((None, saved), env)"
| "set_all ((k, v) # kvs) saved env =
     (case setenv k v env of
        (Some e, env') \<Rightarrow> ((Some (WrapError (''set SDK Workload Identity environment '' @ k) e), (k, env k) # saved), env')
      | (None, env') \<Rightarrow> set_all kvs ((k, env k) # saved) env')"

fun restore_env :: "(string \<times> string option) list \<Rightarrow> environ \<Rightarrow> go_error option \<times> environ" where
  "restore_env [] env = (None, env)"
| "restore_env ((k, None) # xs) env = restore_env xs (env(k := None))"
| "restore_env ((k, Some v) # xs) env =
     (case setenv k v env of
        (Some e, env') \<Rightarrow> (Some (WrapError (''restore SDK Workload Identity environment '' @ k) e), env')
      | (None, env') \<Rightarrow> restore_env xs env')"

definition with_temporary_env ::
    "'p oci_sdk \<Rightarrow> go_map \<Rightarrow> (environ \<Rightarrow> go_error + 'p) \<Rightarrow> environ \<Rightarrow> (go_error + 'p) \<times> environ" where
  "with_temporary_env S values_map factory env =
     (case set_all (sdk_set_order S values_map) [] env of
        ((Some e, saved), env1) \<Rightarrow> (Inl e, env1)
      | ((None, saved), env1) \<Rightarrow>
          (case restore_env (sdk_restore_order S saved) env1 of
             (restore_err, env2) \<Rightarrow>
               (case factory env1 of
                  Inl e \<Rightarrow> (Inl e, env2)
                | Inr p \<Rightarrow> (case restore_err of Some e \<Rightarrow> (Inl e, env2) | None \<Rightarrow> (Inr p, env2)))))"

definition workload_variables :: "'p oci_sdk \<Rightarrow> string \<Rightarrow> go_map" where
  "workload_variables S region = [(sdk_version_var S, sdk_version_value S), (sdk_region_var S, region)]"

definition workload_identity_provider :: "'p oci_sdk \<Rightarrow> string \<Rightarrow> environ \<Rightarrow> (go_error + 'p) \<times> environ" where
  "workload_identity_provider S region env =
     (let r = trim_space region in
      if r = [] then
        (Inl (ErrorText (env_oci_region @ '' is required for OCI Workload Identity auth; set '' @ env_oci_region @
          '' to the OKE cluster or workload region'')), env)
      else with_temporary_env S (workload_variables S r) (sdk_oke_provider S) env)"

section \<open>The provider\<close>

definition config_file_provider :: "'p oci_sdk \<Rightarrow> environ \<Rightarrow> 'p" where
  "config_file_provider S env =
     (let profile = trim_space (auth_getenv env env_oci_config_profile) in
      if profile \<noteq> [] then sdk_profile_provider S (auth_getenv env env_oci_config_file) profile
      else sdk_default_provider S env)"

record 'p auth_options =
  ao_auth_mode :: string
  ao_region :: string
  ao_config_provider :: "'p option"
  ao_workload_factory :: "(string \<Rightarrow> environ \<Rightarrow> (go_error + 'p) \<times> environ) option"
  ao_config_factory :: "(environ \<Rightarrow> 'p) option"

definition config_provider :: "'p oci_sdk \<Rightarrow> 'p auth_options \<Rightarrow> environ \<Rightarrow> (go_error + 'p) \<times> environ" where
  "config_provider S opts env =
     (case ao_config_provider opts of
        Some p \<Rightarrow> (Inr p, env)
      | None \<Rightarrow>
          (case normalize_oci_auth_mode (ao_auth_mode opts) of
             Inl e \<Rightarrow> (Inl e, env)
           | Inr mode \<Rightarrow>
               if mode = oci_auth_mode_workload then
                 (let factory = (case ao_workload_factory opts of None \<Rightarrow> workload_identity_provider S | Some f \<Rightarrow> f) in
                  case factory (first_non_empty [ao_region opts, auth_getenv env env_oci_region]) env of
                    (Inl e, env') \<Rightarrow> (Inl (WrapError ''configure OCI Workload Identity auth provider'' e), env')
                  | (Inr p, env') \<Rightarrow> (Inr p, env'))
               else if mode = oci_auth_mode_config then
                 (Inr ((case ao_config_factory opts of None \<Rightarrow> config_file_provider S | Some f \<Rightarrow> f) env), env)
               else (Inl (unsupported_mode env_oci_auth_mode (ao_auth_mode opts) oci_auth_mode_workload oci_auth_mode_config),
                     env)))"

definition env_options :: "string \<Rightarrow> string \<Rightarrow> 'p auth_options" where
  "env_options mode region = \<lparr>ao_auth_mode = mode, ao_region = region, ao_config_provider = None,
     ao_workload_factory = None, ao_config_factory = None\<rparr>"

definition config_provider_from_environment :: "'p oci_sdk \<Rightarrow> environ \<Rightarrow> (go_error + 'p) \<times> environ" where
  "config_provider_from_environment S env =
     config_provider S (env_options (auth_getenv env env_oci_auth_mode) (auth_getenv env env_oci_region)) env"

section \<open>The environment is restored\<close>

text \<open>What the SDK and the operating system are known for: legal, distinct names; values without NUL; each entry visited once.\<close>

definition sdk_ok :: "'p oci_sdk \<Rightarrow> bool" where
  "sdk_ok S \<longleftrightarrow> valid_env (sdk_version_var S) (sdk_version_value S) \<and> valid_env (sdk_region_var S) [] \<and>
     sdk_version_var S \<noteq> sdk_region_var S \<and>
     (\<forall>m. mset (sdk_set_order S m) = mset m) \<and> (\<forall>m. mset (sdk_restore_order S m) = mset m)"

definition env_ok :: "environ \<Rightarrow> bool" where
  "env_ok env \<longleftrightarrow> (\<forall>k v. env k = Some v \<longrightarrow> nul \<notin> set v)"

definition saved_of :: "environ \<Rightarrow> string list \<Rightarrow> (string \<times> string option) list" where
  "saved_of env ks = map (\<lambda>k. (k, env k)) ks"

lemma set_all_ok:
  assumes "list_all (\<lambda>(k, v). valid_env k v) kvs" "distinct (map fst kvs)"
  shows "set_all kvs saved env = ((None, rev (saved_of env (map fst kvs)) @ saved), env ++ map_of kvs)"
  using assms
proof (induction kvs arbitrary: saved env)
  case (Cons m kvs)
  obtain k v where m: "m = (k, v)" by (cases m)
  have keep: "saved_of (env(k \<mapsto> v)) (map fst kvs) = saved_of env (map fst kvs)"
    using Cons.prems(2) m by (auto simp: saved_of_def)
  have "k \<notin> dom (map_of kvs)" using Cons.prems(2) m by (simp add: dom_map_of_conv_image_fst)
  then have maps: "env(k \<mapsto> v) ++ map_of kvs = env ++ map_of (m # kvs)"
    by (auto simp: m map_add_def fun_eq_iff split: option.splits)
  have "set_all (m # kvs) saved env = set_all kvs ((k, env k) # saved) (env(k \<mapsto> v))"
    using Cons.prems(1) by (simp add: m setenv_def)
  also have "\<dots> = ((None, rev (saved_of env (map fst kvs)) @ (k, env k) # saved), env ++ map_of (m # kvs))"
  proof -
    have "list_all (\<lambda>(k, v). valid_env k v) kvs" "distinct (map fst kvs)" using Cons.prems by simp_all
    from Cons.IH [OF this, of "(k, env k) # saved" "env(k \<mapsto> v)"] show ?thesis by (simp only: keep maps)
  qed
  also have "rev (saved_of env (map fst kvs)) @ (k, env k) # saved = rev (saved_of env (map fst (m # kvs))) @ saved"
    by (simp add: m saved_of_def)
  finally show ?case .
qed (simp add: saved_of_def)

lemma restore_env_ok:
  assumes "env_ok env" "list_all (\<lambda>k. valid_env k []) ks" "set saved = (\<lambda>k. (k, env k)) ` set ks"
  shows "restore_env saved e = (None, \<lambda>k. if k \<in> set ks then env k else e k)"
proof -
  have "restore_env saved e = (None, \<lambda>k. if k \<in> fst ` set saved then env k else e k)"
    if "\<forall>(k, v) \<in> set saved. v = env k \<and> valid_env k []" for e
    using that
  proof (induction saved arbitrary: e)
    case (Cons m saved)
    obtain k where m: "m = (k, env k)" "valid_env k []" using Cons.prems by (cases m) auto
    show ?case
    proof (cases "env k")
      case None
      with Cons m show ?thesis by (auto simp: fun_eq_iff)
    next
      case (Some v)
      with assms(1) m(2) have "valid_env k v" by (auto simp: env_ok_def valid_env_def)
      with Cons m Some show ?thesis by (auto simp: setenv_def fun_eq_iff)
    qed
  qed simp
  moreover have "\<forall>(k, v) \<in> set saved. v = env k \<and> valid_env k []" "fst ` set saved = set ks"
    using assms(2,3) by (auto simp: list_all_iff image_image)
  ultimately show ?thesis by simp
qed

text \<open>What the SDK's constructor sees, and that nothing is left behind.\<close>

lemma with_temporary_env_ok:
  assumes S: "sdk_ok S" and env: "env_ok env" and region: "nul \<notin> set region"
  shows "with_temporary_env S (workload_variables S region) factory env =
    (factory (env(sdk_version_var S \<mapsto> sdk_version_value S, sdk_region_var S \<mapsto> region)), env)"
proof -
  let ?vars = "workload_variables S region"
  let ?kvs = "sdk_set_order S ?vars"
  have mset: "mset ?kvs = mset ?vars" using S by (simp add: sdk_ok_def)
  then have members: "set ?kvs = set ?vars" by (rule mset_eq_setD)
  have "mset (map fst ?kvs) = mset (map fst ?vars)" by (simp add: mset)
  then have dist: "distinct (map fst ?kvs)"
    using S by (metis (no_types, lifting) distinct_length_2_or_more distinct_singleton fst_conv list.simps(8,9) mset_eq_imp_distinct_iff
        sdk_ok_def workload_variables_def)
  have valid: "list_all (\<lambda>(k, v). valid_env k v) ?kvs"
    unfolding list_all_iff members using S region by (auto simp: workload_variables_def sdk_ok_def valid_env_def)
  note all = set_all_ok [OF valid dist, of "[]" env]
  have maps: "map_of ?kvs = [sdk_version_var S \<mapsto> sdk_version_value S, sdk_region_var S \<mapsto> region]"
  proof -
    have "distinct (map fst ?vars)" using S by (simp add: workload_variables_def sdk_ok_def)
    with dist members have "map_of ?kvs = map_of ?vars" using map_of_inject_set by blast
    then show ?thesis using S by (auto simp: workload_variables_def sdk_ok_def fun_eq_iff)
  qed
  let ?ks = "map fst ?kvs"
  have keys: "list_all (\<lambda>k. valid_env k []) ?ks"
    unfolding list_all_iff set_map members using S by (auto simp: workload_variables_def sdk_ok_def valid_env_def)
  have "set (sdk_restore_order S (rev (saved_of env ?ks))) = (\<lambda>k. (k, env k)) ` set ?ks"
  proof -
    have "mset (sdk_restore_order S (rev (saved_of env ?ks))) = mset (rev (saved_of env ?ks))"
      using S by (simp add: sdk_ok_def)
    from mset_eq_setD [OF this] show ?thesis by (simp add: saved_of_def image_image)
  qed
  from restore_env_ok [OF env keys this]
  have "restore_env (sdk_restore_order S (rev (saved_of env ?ks))) (env ++ map_of ?kvs) =
      (None, \<lambda>k. if k \<in> set ?ks then env k else (env ++ map_of ?kvs) k)" .
  also have "(\<lambda>k. if k \<in> set ?ks then env k else (env ++ map_of ?kvs) k) = env"
  proof
    fix k
    show "(if k \<in> set ?ks then env k else (env ++ map_of ?kvs) k) = env k"
    proof (cases "k \<in> set ?ks")
      case False
      then have "map_of ?kvs k = None" by (simp add: map_of_eq_None_iff)
      with False show ?thesis by (simp add: map_add_def)
    qed simp
  qed
  finally have restored: "restore_env (sdk_restore_order S (rev (saved_of env ?ks))) (env ++ map_of ?kvs) = (None, env)" .
  show ?thesis
    by (simp add: with_temporary_env_def all restored) (simp add: maps map_add_upd split: sum.splits)
qed

lemma auth_getenv_no_nul: "env_ok env \<Longrightarrow> nul \<notin> set (auth_getenv env k)"
proof -
  assume "env_ok env"
  then have "nul \<notin> set (os_getenv env k)" by (auto simp: env_ok_def os_getenv_def split: option.splits)
  then have "nul \<notin> set (trim_set (os_getenv env k) [nul])"
    by (auto simp: trim_set_def trim_left_set_def trim_right_set_def dest!: set_dropWhileD)
  then show ?thesis unfolding auth_getenv_def using trim_space_subset by blast
qed

lemma first_non_empty_no_nul: "\<forall>v \<in> set vs. nul \<notin> set v \<Longrightarrow> nul \<notin> set (first_non_empty vs)"
  using trim_space_subset by (induction vs) auto

text \<open>The selected provider, with the environment as it was.\<close>

definition selected_provider :: "'p oci_sdk \<Rightarrow> string \<Rightarrow> string \<Rightarrow> environ \<Rightarrow> go_error + 'p" where
  "selected_provider S mode region env =
     (case normalize_oci_auth_mode mode of
        Inl e \<Rightarrow> Inl e
      | Inr m \<Rightarrow>
          if m = oci_auth_mode_config then Inr (config_file_provider S env)
          else if region = [] then
            Inl (WrapError ''configure OCI Workload Identity auth provider''
              (ErrorText (env_oci_region @ '' is required for OCI Workload Identity auth; set '' @ env_oci_region @
                '' to the OKE cluster or workload region'')))
          else case sdk_oke_provider S (env(sdk_version_var S \<mapsto> sdk_version_value S, sdk_region_var S \<mapsto> region)) of
            Inl e \<Rightarrow> Inl (WrapError ''configure OCI Workload Identity auth provider'' e)
          | Inr p \<Rightarrow> Inr p)"

lemma normalized_modes: "normalize_oci_auth_mode mode = Inr m \<Longrightarrow> m = oci_auth_mode_workload \<or> m = oci_auth_mode_config"
  by (auto simp: normalize_oci_auth_mode_def Let_def split: if_splits)

lemma auth_mode_neq [simp]: "oci_auth_mode_workload \<noteq> oci_auth_mode_config" "oci_auth_mode_config \<noteq> oci_auth_mode_workload"
  by (simp_all add: oci_auth_mode_workload_def oci_auth_mode_config_def)

lemma first_non_empty_trimmed: "trim_space (first_non_empty vs) = first_non_empty vs"
  by (induction vs) auto

lemma config_provider_selected:
  assumes "sdk_ok S" "env_ok env" "nul \<notin> set region"
  shows "config_provider S (env_options mode region) env =
    (selected_provider S mode (first_non_empty [region, auth_getenv env env_oci_region]) env, env)"
proof -
  let ?r = "first_non_empty [region, auth_getenv env env_oci_region]"
  have "nul \<notin> set ?r" using assms auth_getenv_no_nul [OF assms(2)] by (intro first_non_empty_no_nul) simp
  then have "workload_identity_provider S ?r env = (if ?r = [] then
        (Inl (ErrorText (env_oci_region @ '' is required for OCI Workload Identity auth; set '' @ env_oci_region @
          '' to the OKE cluster or workload region'')), env)
      else (sdk_oke_provider S (env(sdk_version_var S \<mapsto> sdk_version_value S, sdk_region_var S \<mapsto> ?r)), env))"
    unfolding workload_identity_provider_def first_non_empty_trimmed Let_def
    using with_temporary_env_ok [OF assms(1,2)] by simp
  then show ?thesis
    by (cases "normalize_oci_auth_mode mode")
      (auto simp: config_provider_def env_options_def selected_provider_def simp del: first_non_empty.simps
        dest!: normalized_modes split: sum.splits)
qed

end
