(* ===== verification/OperatorSetup.thy ===== *)
theory OperatorSetup
  imports OciAuth JobController FunctionController ApplicationController EventController TriggerController
    OciLifecycle EventRules
begin

text \<open>
  How the operator is put together: the constructors of the three OCI-backed parts
  (\<open>NewOCI\<close> in \<open>internal/invoker\<close>, \<open>internal/lifecycle\<close> and \<open>internal/eventtrigger\<close>), the choice by mode in
  \<open>cmd/invoker_mode.go\<close>, and the part of \<open>cmd/main.go\<close> that hands them to the controllers. The SDK's client
  constructors are parameters; those of the options may be absent. The rest of \<open>main\<close> is in the theory
  \<open>OperatorMain\<close>.
\<close>

section \<open>Constructors\<close>

record ('p, 'w) sdk_clients =
  sc_parse_url :: "string \<Rightarrow> go_error + parsed_url"
  sc_invoke_client :: "'p \<Rightarrow> string \<Rightarrow> 'w \<Rightarrow> go_error option"
  sc_invoke_function ::
    "'p \<Rightarrow> string \<Rightarrow> string \<Rightarrow> bytes option \<Rightarrow> 'w \<Rightarrow> (oci_invoke_response \<times> go_error option) \<times> 'w"
  sc_functions_client :: "'p \<Rightarrow> go_error + 'w functions_client"
  sc_logging_client :: "'p \<Rightarrow> go_error + 'w logging_client"
  sc_events_client :: "'p \<Rightarrow> go_error + 'w events_client"
  sc_provider_region :: "'p \<Rightarrow> go_error + string"
  sc_number :: "string \<Rightarrow> string option"
  sc_page_bound :: nat

text \<open>The provider of the options, or the one the options select.\<close>

definition options_provider :: "'p oci_sdk \<Rightarrow> 'p auth_options \<Rightarrow> environ \<Rightarrow> (go_error + 'p) \<times> environ" where
  "options_provider S opts env =
     (case ao_config_provider opts of Some p \<Rightarrow> (Inr p, env) | None \<Rightarrow> config_provider S opts env)"

definition new_oci_invoker ::
    "'p oci_sdk \<Rightarrow> ('p, 'w) sdk_clients \<Rightarrow> 'p auth_options \<Rightarrow> ('p \<Rightarrow> string \<Rightarrow> 'w \<Rightarrow> go_error option) option \<Rightarrow>
     environ \<Rightarrow> (go_error + 'w oci_invoker) \<times> environ" where
  "new_oci_invoker S F opts client_factory env =
     (case options_provider S opts env of
        (Inl e, env') \<Rightarrow> (Inl e, env')
      | (Inr p, env') \<Rightarrow>
          (let factory = (case client_factory of None \<Rightarrow> sc_invoke_client F | Some f \<Rightarrow> f) in
           (Inr \<lparr>oi_configured = True, oi_parse_url = sc_parse_url F, oi_client_factory = factory p,
              oi_invoke_function = sc_invoke_function F p\<rparr>, env')))"

definition new_oci_lifecycle ::
    "'p oci_sdk \<Rightarrow> ('p, 'w) sdk_clients \<Rightarrow> 'p auth_options \<Rightarrow> ('p \<Rightarrow> go_error + 'w functions_client) option \<Rightarrow>
     ('p \<Rightarrow> go_error + 'w logging_client) option \<Rightarrow> environ \<Rightarrow> (go_error + 'w oci_manager) \<times> environ" where
  "new_oci_lifecycle S F opts client_factory logging_factory env =
     (case options_provider S opts env of
        (Inl e, env') \<Rightarrow> (Inl e, env')
      | (Inr p, env') \<Rightarrow>
          (case (case client_factory of None \<Rightarrow> sc_functions_client F | Some f \<Rightarrow> f) p of
             Inl e \<Rightarrow> (Inl (WrapError ''configure OCI Functions management client'' e), env')
           | Inr c \<Rightarrow>
               (case (case logging_factory of None \<Rightarrow> sc_logging_client F | Some f \<Rightarrow> f) p of
                  Inl e \<Rightarrow> (Inl (WrapError ''configure OCI Logging management client'' e), env')
                | Inr l \<Rightarrow> (Inr \<lparr>ol_configured = True, ol_client = c, ol_logging = Some l,
                    ol_page_bound = sc_page_bound F\<rparr>, env'))))"

text \<open>The region of the options, or the provider's; the events client is pointed at it.\<close>

definition events_region :: "('p, 'w) sdk_clients \<Rightarrow> string \<Rightarrow> 'p \<Rightarrow> string" where
  "events_region F region p =
     (if trim_space region \<noteq> [] then trim_space region
      else case sc_provider_region F p of Inl e \<Rightarrow> [] | Inr r \<Rightarrow> trim_space r)"

definition new_oci_events ::
    "'p oci_sdk \<Rightarrow> ('p, 'w) sdk_clients \<Rightarrow> 'p auth_options \<Rightarrow> ('p \<Rightarrow> go_error + 'w events_client) option \<Rightarrow>
     environ \<times> 'w \<Rightarrow> (go_error + 'w oci_rules) \<times> environ \<times> 'w" where
  "new_oci_events S F opts client_factory s =
     (case s of (env, w) \<Rightarrow>
       (case options_provider S opts env of
          (Inl e, env') \<Rightarrow> (Inl e, env', w)
        | (Inr p, env') \<Rightarrow>
            (case (case client_factory of None \<Rightarrow> sc_events_client F | Some f \<Rightarrow> f) p of
               Inl e \<Rightarrow> (Inl (WrapError ''configure OCI Events client'' e), env', w)
             | Inr c \<Rightarrow>
                 (let region = events_region F (ao_region opts) p;
                      w' = (if region \<noteq> [] then ev_set_region c region w else w)
                  in (Inr \<lparr>or_configured = True, or_client = c, or_number = sc_number F,
                        or_page_bound = sc_page_bound F\<rparr>, env', w')))))"

text \<open>The constructors from the environment; the lifecycle manager's goes through \<open>ConfigProviderFromEnvironment\<close>.\<close>

definition raw_env_options :: "environ \<Rightarrow> 'p auth_options" where
  "raw_env_options env = env_options (os_getenv env env_oci_auth_mode) (os_getenv env env_oci_region)"

definition oci_invoker_from_environment ::
    "'p oci_sdk \<Rightarrow> ('p, 'w) sdk_clients \<Rightarrow> environ \<Rightarrow> (go_error + 'w oci_invoker) \<times> environ" where
  "oci_invoker_from_environment S F env = new_oci_invoker S F (raw_env_options env) None env"

definition oci_lifecycle_from_environment ::
    "'p oci_sdk \<Rightarrow> ('p, 'w) sdk_clients \<Rightarrow> environ \<Rightarrow> (go_error + 'w oci_manager) \<times> environ" where
  "oci_lifecycle_from_environment S F env =
     (case config_provider_from_environment S env of
        (Inl e, env') \<Rightarrow> (Inl e, env')
      | (Inr p, env') \<Rightarrow> new_oci_lifecycle S F ((env_options [] [])\<lparr>ao_config_provider := Some p\<rparr>) None None env')"

definition oci_events_from_environment ::
    "'p oci_sdk \<Rightarrow> ('p, 'w) sdk_clients \<Rightarrow> environ \<times> 'w \<Rightarrow> (go_error + 'w oci_rules) \<times> environ \<times> 'w" where
  "oci_events_from_environment S F s = new_oci_events S F (raw_env_options (fst s)) None s"

section \<open>The choice by mode (invoker\_mode.go)\<close>

definition invoker_mode_env :: string where "invoker_mode_env = ''INVOKER_MODE''"
definition invoker_mode_fake :: string where "invoker_mode_fake = ''fake''"
definition invoker_mode_oci :: string where "invoker_mode_oci = ''oci''"

definition normalized_mode :: "string \<Rightarrow> string" where
  "normalized_mode mode =
     (let m = to_lower (trim_space mode) in if m = [] then invoker_mode_fake else m)"

definition unsupported_invoker_mode :: "string \<Rightarrow> go_error" where
  "unsupported_invoker_mode mode = unsupported_mode invoker_mode_env mode invoker_mode_fake invoker_mode_oci"

definition select_invoker ::
    "'p oci_sdk \<Rightarrow> ('p, 'w) sdk_clients \<Rightarrow> string \<Rightarrow> environ \<Rightarrow> ((go_error + 'w invoker) \<times> string) \<times> environ" where
  "select_invoker S F mode env =
     (let m = normalized_mode mode in
      if m = invoker_mode_fake then ((Inr fake_invoker, m), env)
      else if m = invoker_mode_oci then
        (case oci_invoker_from_environment S F env of
           (Inl e, env') \<Rightarrow> ((Inl e, m), env')
         | (Inr I, env') \<Rightarrow> ((Inr (oci_invoker_value I), m), env'))
      else ((Inl (unsupported_invoker_mode mode), m), env))"

text \<open>A manager, or none (\<open>nil\<close>) in fake mode.\<close>

definition select_lifecycle_manager ::
    "'p oci_sdk \<Rightarrow> ('p, 'w) sdk_clients \<Rightarrow> string \<Rightarrow> environ \<Rightarrow> (go_error + 'w lifecycle_manager option) \<times> environ" where
  "select_lifecycle_manager S F mode env =
     (let m = normalized_mode mode in
      if m = invoker_mode_fake then (Inr None, env)
      else if m = invoker_mode_oci then
        (case oci_lifecycle_from_environment S F env of
           (Inl e, env') \<Rightarrow> (Inl e, env')
         | (Inr I, env') \<Rightarrow> (Inr (Some (oci_lifecycle I)), env'))
      else (Inl (unsupported_invoker_mode mode), env))"

definition select_event_trigger_manager ::
    "'p oci_sdk \<Rightarrow> ('p, 'w) sdk_clients \<Rightarrow> string \<Rightarrow> environ \<times> 'w \<Rightarrow>
     (go_error + 'w rule_manager option) \<times> environ \<times> 'w" where
  "select_event_trigger_manager S F mode s =
     (let m = normalized_mode mode in
      if m = invoker_mode_fake then (Inr None, s)
      else if m = invoker_mode_oci then
        (case oci_events_from_environment S F s of
           (Inl e, s') \<Rightarrow> (Inl e, s')
         | (Inr I, s') \<Rightarrow> (Inr (Some (oci_rule_manager I)), s'))
      else (Inl (unsupported_invoker_mode mode), s))"

section \<open>Start-up (main.go)\<close>

text \<open>
  What the controllers are given: the invoker of jobs and events, the manager of functions and
  applications, and the manager of triggers, whose controller is installed only if there is one.
\<close>

record 'w operator =
  op_mode :: string
  op_invoker :: "'w invoker"
  op_function_manager :: "'w lifecycle_manager option"
  op_trigger_controller :: "'w rule_manager option"

definition start_operator ::
    "'p oci_sdk \<Rightarrow> ('p, 'w) sdk_clients \<Rightarrow> environ \<times> 'w \<Rightarrow> (go_error + 'w operator) \<times> environ \<times> 'w" where
  "start_operator S F s =
     (case s of (env, w) \<Rightarrow>
       (case select_invoker S F (os_getenv env invoker_mode_env) env of
          ((Inl e, m), env1) \<Rightarrow> (Inl e, env1, w)
        | ((Inr invoker, m), env1) \<Rightarrow>
            (case select_lifecycle_manager S F m env1 of
               (Inl e, env2) \<Rightarrow> (Inl e, env2, w)
             | (Inr functions, env2) \<Rightarrow>
                 (case select_event_trigger_manager S F m (env2, w) of
                    (Inl e, s3) \<Rightarrow> (Inl e, s3)
                  | (Inr triggers, s3) \<Rightarrow>
                      (Inr \<lparr>op_mode = m, op_invoker = invoker, op_function_manager = functions,
                         op_trigger_controller = triggers\<rparr>, s3)))))"

text \<open>
  The reconcilers as \<open>main\<close> installs them. All use the manager's client and an event recorder; the parameters
  of the models (the clock, the condition library, SHA-256, what \<open>encoding/json\<close> makes of numbers and
  errors) come with them.
\<close>

record 'w platform =
  pf_client :: "'w kube_client"
  pf_lib :: kube_lib
  pf_clock :: "'w \<Rightarrow> time"
  pf_sha256 :: "bytes \<Rightarrow> string"
  pf_number :: "string \<Rightarrow> string option"
  pf_json_error :: "bytes \<Rightarrow> string"

record 'w controllers =
  ct_functions :: "'w function_reconciler"
  ct_applications :: "'w application_reconciler"
  ct_jobs :: "'w job_reconciler"
  ct_events :: "'w event_reconciler"
  ct_triggers :: "'w trigger_reconciler option"

definition install_controllers :: "'w platform \<Rightarrow> 'w operator \<Rightarrow> 'w controllers" where
  "install_controllers P op = \<lparr>
     ct_functions = \<lparr>fr_client = pf_client P, fr_lib = pf_lib P, fr_manager = op_function_manager op,
       fr_recorder = True, fr_clock = pf_clock P\<rparr>,
     ct_applications = \<lparr>ar_client = pf_client P, ar_lib = pf_lib P, ar_manager = op_function_manager op,
       ar_recorder = True, ar_clock = pf_clock P\<rparr>,
     ct_jobs = \<lparr>jr_client = pf_client P, jr_lib = pf_lib P, jr_invoker = Some (op_invoker op),
       jr_recorder = True, jr_sha256 = pf_sha256 P\<rparr>,
     ct_events = \<lparr>er_client = pf_client P, er_lib = pf_lib P, er_invoker = Some (op_invoker op),
       er_recorder = True, er_clock = pf_clock P, er_json_error = pf_json_error P\<rparr>,
     ct_triggers = (case op_trigger_controller op of
        None \<Rightarrow> None
      | Some m \<Rightarrow> Some \<lparr>tr_client = pf_client P, tr_lib = pf_lib P, tr_manager = Some m, tr_recorder = True,
          tr_clock = pf_clock P, tr_number = pf_number P, tr_json_error = pf_json_error P\<rparr>)\<rparr>"

end
