(* ===== verification/OperatorMain.thy ===== *)
theory OperatorMain
  imports OperatorSetup
begin

text \<open>
  \<open>main\<close> of \<open>cmd/main.go\<close>: the command line, the parts by mode (\<open>start_operator\<close>), the controller manager and
  what is set up on it, the exit status. The flags follow \<open>FlagSet.parseOne\<close> of the package \<open>flag\<close>; those that
  libraries register are a parameter, as are the calls of the controller manager.
\<close>

section \<open>Flags\<close>

record main_flags =
  mf_metrics_address :: string
  mf_probe_address :: string
  mf_leader_elect :: bool

definition default_flags :: main_flags where
  "default_flags = \<lparr>mf_metrics_address = '':8080'', mf_probe_address = '':8081'', mf_leader_elect = False\<rparr>"

definition metrics_flag :: string where "metrics_flag = ''metrics-bind-address''"
definition probe_flag :: string where "probe_flag = ''health-probe-bind-address''"
definition leader_flag :: string where "leader_flag = ''leader-elect''"

datatype flag_failure =
    HelpWanted
  | BadFlagSyntax string
  | UndefinedFlag string
  | MissingArgument string
  | InvalidValue string string

text \<open>A flag of a library: whether it is boolean, and whether its \<open>Set\<close> accepts a value.\<close>

type_synonym library_flags = "string \<Rightarrow> (bool \<times> (string \<Rightarrow> bool)) option"

definition flag_kind :: "library_flags \<Rightarrow> string \<Rightarrow> bool option" where
  "flag_kind X name =
     (if name = metrics_flag \<or> name = probe_flag then Some False
      else if name = leader_flag then Some True
      else map_option fst (X name))"

definition parse_bool :: "string \<Rightarrow> bool option" where
  "parse_bool s =
     (if s \<in> set [''1'', ''t'', ''T'', ''true'', ''TRUE'', ''True''] then Some True
      else if s \<in> set [''0'', ''f'', ''F'', ''false'', ''FALSE'', ''False''] then Some False
      else None)"

definition set_flag :: "library_flags \<Rightarrow> string \<Rightarrow> string \<Rightarrow> main_flags \<Rightarrow> flag_failure + main_flags" where
  "set_flag X name v f =
     (if name = metrics_flag then Inr (f\<lparr>mf_metrics_address := v\<rparr>)
      else if name = probe_flag then Inr (f\<lparr>mf_probe_address := v\<rparr>)
      else if name = leader_flag then
        (case parse_bool v of None \<Rightarrow> Inl (InvalidValue v name) | Some b \<Rightarrow> Inr (f\<lparr>mf_leader_elect := b\<rparr>))
      else (case X name of
          None \<Rightarrow> Inl (UndefinedFlag name)
        | Some (_, accepts) \<Rightarrow> if accepts v then Inr f else Inl (InvalidValue v name)))"

text \<open>The name and the value behind the first \<open>=\<close>, which cannot be the first character.\<close>

definition flag_parts :: "string \<Rightarrow> string \<times> string option" where
  "flag_parts s = (case index_of (tl s) ''='' of
     None \<Rightarrow> (s, None) | Some i \<Rightarrow> (take (Suc i) s, Some (drop (Suc (Suc i)) s)))"

fun parse_flags :: "library_flags \<Rightarrow> string list \<Rightarrow> main_flags \<Rightarrow> flag_failure + main_flags" where
  "parse_flags X [] f = Inr f"
| "parse_flags X (s # args) f =
     (if length s < 2 \<or> hd s \<noteq> CHR ''-'' \<or> s = ''--'' then Inr f
      else
        (let body = (if s ! 1 = CHR ''-'' then drop 2 s else drop 1 s) in
         if body = [] \<or> hd body = CHR ''-'' \<or> hd body = CHR ''='' then Inl (BadFlagSyntax s)
         else
           (case flag_parts body of (name, v) \<Rightarrow>
              (case flag_kind X name of
                 None \<Rightarrow> Inl (if name = ''help'' \<or> name = ''h'' then HelpWanted else UndefinedFlag name)
               | Some True \<Rightarrow>
                   (case set_flag X name (case v of None \<Rightarrow> ''true'' | Some x \<Rightarrow> x) f of
                      Inl e \<Rightarrow> Inl e | Inr f' \<Rightarrow> parse_flags X args f')
               | Some False \<Rightarrow>
                   (case v of
                      Some x \<Rightarrow> (case set_flag X name x f of Inl e \<Rightarrow> Inl e | Inr f' \<Rightarrow> parse_flags X args f')
                    | None \<Rightarrow>
                        (case args of
                           [] \<Rightarrow> Inl (MissingArgument name)
                         | x # rest \<Rightarrow>
                             (case set_flag X name x f of Inl e \<Rightarrow> Inl e | Inr f' \<Rightarrow> parse_flags X rest f')))))))"

section \<open>The controller manager\<close>

record manager_options =
  mo_metrics_address :: string
  mo_probe_address :: string
  mo_leader_election :: bool
  mo_leader_election_id :: string

definition manager_options_of :: "main_flags \<Rightarrow> manager_options" where
  "manager_options_of f = \<lparr>mo_metrics_address = mf_metrics_address f, mo_probe_address = mf_probe_address f,
     mo_leader_election = mf_leader_elect f,
     mo_leader_election_id = ''oci-functions-operator.functions.oci.oracle.com''\<rparr>"

text \<open>The calls that may fail, in the order of \<open>main\<close>; each \<open>Setup\<close> is \<open>SetupWithManager\<close> of a reconciler.\<close>

datatype 'w setup_step =
    NewManager manager_options
  | SetupFunctions "'w function_reconciler"
  | SetupApplications "'w application_reconciler"
  | SetupJobs "'w job_reconciler"
  | SetupEvents "'w event_reconciler"
  | SetupTriggers "'w trigger_reconciler"
  | AddHealthzCheck string
  | AddReadyzCheck string
  | StartManager

definition setup_steps :: "manager_options \<Rightarrow> 'w controllers \<Rightarrow> 'w setup_step list" where
  "setup_steps mo C =
     [NewManager mo, SetupFunctions (ct_functions C), SetupApplications (ct_applications C),
      SetupJobs (ct_jobs C), SetupEvents (ct_events C)] @
     (case ct_triggers C of None \<Rightarrow> [] | Some r \<Rightarrow> [SetupTriggers r]) @
     [AddHealthzCheck ''healthz'', AddReadyzCheck ''readyz'', StartManager]"

text \<open>\<open>main\<close> returns, or \<open>os.Exit\<close> is called with a status.\<close>

datatype exit_status = MainReturned | Exited nat

fun run_setup ::
    "('w setup_step \<Rightarrow> 'w \<Rightarrow> go_error option \<times> 'w) \<Rightarrow> 'w setup_step list \<Rightarrow> 'w \<Rightarrow>
     exit_status \<times> 'w setup_step list \<times> 'w" where
  "run_setup call [] w = (MainReturned, [], w)"
| "run_setup call (x # xs) w =
     (case call x w of
        (Some e, w') \<Rightarrow> (Exited 1, [x], w')
      | (None, w') \<Rightarrow> (case run_setup call xs w' of (r, made, w'') \<Rightarrow> (r, x # made, w'')))"

section \<open>main\<close>

definition flag_exit :: "flag_failure \<Rightarrow> nat" where
  "flag_exit e = (if e = HelpWanted then 0 else 2)"

definition operator_main ::
    "'p oci_sdk \<Rightarrow> ('p, 'w) sdk_clients \<Rightarrow> library_flags \<Rightarrow> 'w platform \<Rightarrow>
     ('w setup_step \<Rightarrow> 'w \<Rightarrow> go_error option \<times> 'w) \<Rightarrow> string list \<Rightarrow> environ \<times> 'w \<Rightarrow>
     exit_status \<times> 'w setup_step list \<times> environ \<times> 'w" where
  "operator_main S F X P call args s =
     (case parse_flags X args default_flags of
        Inl e \<Rightarrow> (Exited (flag_exit e), [], s)
      | Inr f \<Rightarrow>
          (case start_operator S F s of
             (Inl e, s') \<Rightarrow> (Exited 1, [], s')
           | (Inr op, (env, w)) \<Rightarrow>
               (case run_setup call (setup_steps (manager_options_of f) (install_controllers P op)) w of
                  (r, made, w') \<Rightarrow> (r, made, (env, w')))))"

end
