(* ===== verification/OperatorProperties.thy ===== *)
theory OperatorProperties
  imports OperatorSetup JobSamples
begin

text \<open>
  The properties of the operator's set-up: the process environment comes back unchanged from the choice of
  the authentication provider, the parts handed to the controllers belong together, and the jobs of a started
  operator end and record successes correctly in either mode.
\<close>

section \<open>The raw and the trimmed environment\<close>

lemma trim_set_id: "\<forall>c \<in> set cs. c \<notin> set s \<Longrightarrow> trim_set s cs = s"
proof -
  assume "\<forall>c \<in> set cs. c \<notin> set s"
  then have "\<And>xs. set xs \<subseteq> set s \<Longrightarrow> dropWhile (\<lambda>c. c \<in> set cs) xs = xs"
    by (intro dropWhile_id) (metis list.set_sel(1) subsetD)
  then show ?thesis by (simp add: trim_set_def trim_left_set_def trim_right_set_def)
qed

lemma auth_getenv_trims:
  assumes "env_ok env" shows "auth_getenv env k = trim_space (os_getenv env k)"
proof -
  have "nul \<notin> set (os_getenv env k)"
    using assms by (auto simp: env_ok_def os_getenv_def split: option.splits)
  then show ?thesis by (simp add: auth_getenv_def trim_set_id)
qed

lemma raw_no_nul: "env_ok env \<Longrightarrow> nul \<notin> set (os_getenv env k)"
  by (auto simp: env_ok_def os_getenv_def split: option.splits)

lemma first_non_empty_env:
  "first_non_empty [trim_space r, trim_space r] = trim_space r" "first_non_empty [r, trim_space r] = trim_space r"
  by simp_all

text \<open>What the environment selects.\<close>

definition environment_provider :: "'p oci_sdk \<Rightarrow> environ \<Rightarrow> go_error + 'p" where
  "environment_provider S env =
     selected_provider S (auth_getenv env env_oci_auth_mode) (auth_getenv env env_oci_region) env"

lemma normalize_trimmed:
  "normalize_oci_auth_mode m = Inr r \<longleftrightarrow> normalize_oci_auth_mode (trim_space m) = Inr r"
  by (auto simp: normalize_oci_auth_mode_def Let_def)

lemma raw_options_provider:
  assumes "sdk_ok S" "env_ok env"
  shows "\<exists>res. options_provider S (raw_env_options env) env = (res, env) \<and>
    (\<forall>p. res = Inr p \<longrightarrow> environment_provider S env = Inr p)"
proof -
  let ?m = "os_getenv env env_oci_auth_mode" and ?r = "os_getenv env env_oci_region"
  have "options_provider S (raw_env_options env) env = config_provider S (env_options ?m ?r) env"
    by (simp add: options_provider_def raw_env_options_def env_options_def)
  also have "\<dots> = (selected_provider S ?m (trim_space ?r) env, env)"
    using config_provider_selected [OF assms raw_no_nul [OF assms(2)]]
    by (simp only: auth_getenv_trims [OF assms(2)] first_non_empty_env)
  finally show ?thesis
    using normalize_trimmed [of ?m]
    by (auto simp: environment_provider_def selected_provider_def auth_getenv_trims [OF assms(2)] split: sum.splits)
qed

lemma environment_provider_config:
  assumes "sdk_ok S" "env_ok env"
  shows "config_provider_from_environment S env = (environment_provider S env, env)"
proof -
  have "nul \<notin> set (auth_getenv env env_oci_region)" by (rule auth_getenv_no_nul [OF assms(2)])
  from config_provider_selected [OF assms this] show ?thesis
    by (simp add: config_provider_from_environment_def environment_provider_def auth_getenv_trims [OF assms(2)])
qed

section \<open>The constructors\<close>

lemma invoker_built:
  assumes "sdk_ok S" "env_ok env"
  obtains e where "oci_invoker_from_environment S F env = (Inl e, env)"
  | p where "environment_provider S env = Inr p"
    "oci_invoker_from_environment S F env = (Inr \<lparr>oi_configured = True, oi_parse_url = sc_parse_url F,
       oi_client_factory = sc_invoke_client F p, oi_invoke_function = sc_invoke_function F p\<rparr>, env)"
proof -
  obtain res where "options_provider S (raw_env_options env) env = (res, env)"
    "\<forall>p. res = Inr p \<longrightarrow> environment_provider S env = Inr p"
    using raw_options_provider [OF assms] by blast
  then show thesis
    by (cases res) (auto simp: oci_invoker_from_environment_def new_oci_invoker_def intro: that)
qed

lemma lifecycle_built:
  assumes "sdk_ok S" "env_ok env"
  obtains e where "oci_lifecycle_from_environment S F env = (Inl e, env)"
  | p c l where "environment_provider S env = Inr p" "sc_functions_client F p = Inr c" "sc_logging_client F p = Inr l"
    "oci_lifecycle_from_environment S F env = (Inr \<lparr>ol_configured = True, ol_client = c, ol_logging = Some l,
       ol_page_bound = sc_page_bound F\<rparr>, env)"
proof (cases "environment_provider S env")
  case (Inl e)
  then show thesis using that(1) by (simp add: oci_lifecycle_from_environment_def environment_provider_config [OF assms])
next
  case (Inr p)
  then show thesis using that
    by (cases "sc_functions_client F p"; cases "sc_logging_client F p")
      (simp_all add: oci_lifecycle_from_environment_def environment_provider_config [OF assms] new_oci_lifecycle_def
        options_provider_def env_options_def)
qed

lemma events_built:
  assumes "sdk_ok S" "env_ok env"
  obtains e where "oci_events_from_environment S F (env, w) = (Inl e, env, w)"
  | p c w' where "environment_provider S env = Inr p" "sc_events_client F p = Inr c"
    "oci_events_from_environment S F (env, w) = (Inr \<lparr>or_configured = True, or_client = c,
       or_number = sc_number F, or_page_bound = sc_page_bound F\<rparr>, env, w')"
    "w' = (let g = events_region F (os_getenv env env_oci_region) p in if g = [] then w else ev_set_region c g w)"
proof -
  obtain res where opt: "options_provider S (raw_env_options env) env = (res, env)"
    and same: "\<forall>p. res = Inr p \<longrightarrow> environment_provider S env = Inr p"
    using raw_options_provider [OF assms] by blast
  show thesis
  proof (cases res)
    case (Inl e)
    then show thesis using that(1) opt by (simp add: oci_events_from_environment_def new_oci_events_def)
  next
    case (Inr p)
    then have p: "environment_provider S env = Inr p" using same by blast
    show thesis
    proof (cases "sc_events_client F p")
      case (Inl e)
      then show thesis using that(1) opt Inr by (simp add: oci_events_from_environment_def new_oci_events_def)
    next
      case (Inr c)
      then show thesis using that(2) [OF p Inr] opt \<open>res = Inr p\<close>
        by (auto simp: oci_events_from_environment_def new_oci_events_def raw_env_options_def env_options_def Let_def
            split: if_splits)
    qed
  qed
qed

section \<open>Starting\<close>

lemma modes_neq [simp]: "invoker_mode_fake \<noteq> invoker_mode_oci" "invoker_mode_oci \<noteq> invoker_mode_fake"
  by (simp_all add: invoker_mode_fake_def invoker_mode_oci_def)

lemma normalized_mode_id: "normalized_mode invoker_mode_fake = invoker_mode_fake"
    "normalized_mode invoker_mode_oci = invoker_mode_oci"
  by code_simp+

lemmas start_facts = start_operator_def select_invoker_def select_lifecycle_manager_def
  select_event_trigger_manager_def normalized_mode_id

text \<open>The controllers share one provider: the one that the environment selects.\<close>

definition oci_operator :: "('p, 'w) sdk_clients \<Rightarrow> 'p \<Rightarrow> 'w functions_client \<Rightarrow> 'w logging_client \<Rightarrow>
    'w events_client \<Rightarrow> 'w operator" where
  "oci_operator F p c l v = \<lparr>op_mode = invoker_mode_oci,
     op_invoker = oci_invoker_value \<lparr>oi_configured = True, oi_parse_url = sc_parse_url F,
       oi_client_factory = sc_invoke_client F p, oi_invoke_function = sc_invoke_function F p\<rparr>,
     op_function_manager = Some (oci_lifecycle \<lparr>ol_configured = True, ol_client = c, ol_logging = Some l,
       ol_page_bound = sc_page_bound F\<rparr>),
     op_trigger_controller = Some (oci_rule_manager \<lparr>or_configured = True, or_client = v,
       or_number = sc_number F, or_page_bound = sc_page_bound F\<rparr>)\<rparr>"

definition fake_operator :: "'w operator" where
  "fake_operator = \<lparr>op_mode = invoker_mode_fake, op_invoker = fake_invoker, op_function_manager = None,
     op_trigger_controller = None\<rparr>"

lemma start_oci:
  assumes ok: "sdk_ok S" "env_ok env" and mode: "normalized_mode (os_getenv env invoker_mode_env) = invoker_mode_oci"
  obtains e where "start_operator S F (env, w) = (Inl e, env, w)"
  | p c l v w' where "environment_provider S env = Inr p" "sc_functions_client F p = Inr c"
      "sc_logging_client F p = Inr l" "sc_events_client F p = Inr v"
      "start_operator S F (env, w) = (Inr (oci_operator F p c l v), env, w')"
      "w' = (let g = events_region F (os_getenv env env_oci_region) p in if g = [] then w else ev_set_region v g w)"
proof (rule invoker_built [OF ok, of F])
  fix e assume "oci_invoker_from_environment S F env = (Inl e, env)"
  then show thesis using that(1) mode by (simp add: start_facts Let_def)
next
  fix p assume p: "environment_provider S env = Inr p"
    and inv: "oci_invoker_from_environment S F env = (Inr \<lparr>oi_configured = True, oi_parse_url = sc_parse_url F,
       oi_client_factory = sc_invoke_client F p, oi_invoke_function = sc_invoke_function F p\<rparr>, env)"
  show thesis
  proof (rule lifecycle_built [OF ok, of F])
    fix e assume "oci_lifecycle_from_environment S F env = (Inl e, env)"
    then show thesis using that(1) mode inv by (simp add: start_facts Let_def)
  next
    fix q c l assume q: "environment_provider S env = Inr q" "sc_functions_client F q = Inr c" "sc_logging_client F q = Inr l"
      and lc: "oci_lifecycle_from_environment S F env = (Inr \<lparr>ol_configured = True, ol_client = c, ol_logging = Some l,
       ol_page_bound = sc_page_bound F\<rparr>, env)"
    have pq: "q = p" using p q(1) by simp
    show thesis
    proof (rule events_built [OF ok, of F w])
      fix e assume "oci_events_from_environment S F (env, w) = (Inl e, env, w)"
      then show thesis using that(1) mode inv lc by (simp add: start_facts Let_def)
    next
      fix r v w' assume r: "environment_provider S env = Inr r" "sc_events_client F r = Inr v"
        and ev: "oci_events_from_environment S F (env, w) = (Inr \<lparr>or_configured = True, or_client = v,
          or_number = sc_number F, or_page_bound = sc_page_bound F\<rparr>, env, w')"
        and w': "w' = (let g = events_region F (os_getenv env env_oci_region) r in if g = [] then w else ev_set_region v g w)"
      have pr: "r = p" using p r(1) by simp
      have "start_operator S F (env, w) = (Inr (oci_operator F p c l v), env, w')"
        using mode inv lc ev by (simp add: start_facts Let_def oci_operator_def)
      then show thesis using that(2) [OF p] q r w' pq pr by simp
    qed
  qed
qed

lemma fake_started:
  "normalized_mode (os_getenv env invoker_mode_env) = invoker_mode_fake \<Longrightarrow>
    start_operator S F (env, w) = (Inr fake_operator, env, w)"
  by (simp add: start_facts Let_def fake_operator_def)

lemma unsupported_start:
  "\<lbrakk>normalized_mode (os_getenv env invoker_mode_env) \<noteq> invoker_mode_fake;
    normalized_mode (os_getenv env invoker_mode_env) \<noteq> invoker_mode_oci\<rbrakk> \<Longrightarrow>
    start_operator S F (env, w) = (Inl (unsupported_invoker_mode (os_getenv env invoker_mode_env)), env, w)"
  by (simp add: start_facts Let_def)

section \<open>The jobs of a started operator\<close>

text \<open>The errors of the SDK and of \<open>net/url\<close> are not the operator's own \<open>ErrNotImplemented\<close>.\<close>

definition foreign_errors :: "('p, 'w) sdk_clients \<Rightarrow> bool" where
  "foreign_errors F \<longleftrightarrow>
     (\<forall>u e. sc_parse_url F u = Inl e \<longrightarrow> \<not> is_not_implemented e) \<and>
     (\<forall>p endpoint w e. sc_invoke_client F p endpoint w = Some e \<longrightarrow> \<not> is_not_implemented e) \<and>
     (\<forall>p endpoint fid body w r err w'. sc_invoke_function F p endpoint fid body w = ((r, err), w') \<longrightarrow>
        (\<forall>e. err = Some e \<longrightarrow> \<not> is_not_implemented e) \<and>
        (\<forall>e. oir_content r = Some (Inl e) \<longrightarrow> \<not> is_not_implemented e))"

lemma classified_implemented:
  "\<not> is_not_implemented e \<Longrightarrow> \<not> is_not_implemented (classify_oci_invoke_error fid r e)"
  by (auto simp: classify_oci_invoke_error_def classify_service_error_def Let_def split: option.splits)

lemma finish_implemented:
  assumes "oci_finish fid sdk err = (resp, Some e)"
    and "\<And>x. err = Some x \<Longrightarrow> \<not> is_not_implemented x"
    and "\<And>x. oir_content sdk = Some (Inl x) \<Longrightarrow> \<not> is_not_implemented x"
  shows "\<not> is_not_implemented e"
proof (cases err)
  case None
  then show ?thesis using assms(1,3)
    by (auto simp: oci_finish_def Let_def non_2xx_error_def split: option.splits sum.splits if_splits)
next
  case (Some x)
  then have "\<exists>r. e = classify_oci_invoke_error fid r x" using assms(1) by (auto simp: oci_finish_def Let_def)
  then show ?thesis using assms(2) [OF Some] classified_implemented by blast
qed

lemma endpoint_implemented:
  "\<lbrakk>normalize_invoke_endpoint parse v = Inl e; \<And>u x. parse u = Inl x \<Longrightarrow> \<not> is_not_implemented x\<rbrakk> \<Longrightarrow>
    \<not> is_not_implemented e"
  by (auto simp: normalize_invoke_endpoint_def Let_def split: if_splits sum.splits)

lemma oci_implemented:
  assumes F: "foreign_errors F"
    and call: "inv_invoke (op_invoker (oci_operator F p c l v)) rq w = ((resp, Some e), w')"
  shows "\<not> is_not_implemented e"
proof -
  let ?I = "\<lparr>oi_configured = True, oi_parse_url = sc_parse_url F, oi_client_factory = sc_invoke_client F p,
    oi_invoke_function = sc_invoke_function F p\<rparr>"
  have run: "oci_invoke ?I rq w = ((resp, Some e), w')"
    using call by (simp add: oci_operator_def oci_invoker_value_def)
  have parse: "\<And>u x. sc_parse_url F u = Inl x \<Longrightarrow> \<not> is_not_implemented x"
    and factory: "\<And>ep w x. sc_invoke_client F p ep w = Some x \<Longrightarrow> \<not> is_not_implemented x"
    using F by (simp_all add: foreign_errors_def)
  have sent: "\<not> is_not_implemented e" if "sc_invoke_function F p ep fid body w = ((r, err), w1)"
    "oci_finish fid r err = (resp, Some e)" for ep fid body r err w1
  proof (rule finish_implemented [OF that(2)])
    show "\<And>x. err = Some x \<Longrightarrow> \<not> is_not_implemented x" "\<And>x. oir_content r = Some (Inl x) \<Longrightarrow> \<not> is_not_implemented x"
      using F that(1) unfolding foreign_errors_def by blast+
  qed
  from run show ?thesis
    by (auto simp: oci_invoke_def Let_def dest: endpoint_implemented [OF _ parse] factory sent
        split: if_splits sum.splits option.splits prod.splits)
qed

text \<open>A started operator is one of two.\<close>

lemma started_operator:
  assumes "sdk_ok S" "env_ok env" "start_operator S F (env, w) = (Inr op, s')"
  obtains "op = fake_operator" | p c l v where "op = oci_operator F p c l v"
proof -
  let ?m = "normalized_mode (os_getenv env invoker_mode_env)"
  consider (fake) "?m = invoker_mode_fake" | (oci) "?m = invoker_mode_oci"
    | (other) "?m \<noteq> invoker_mode_fake" "?m \<noteq> invoker_mode_oci" by blast
  then show thesis
  proof cases
    case fake
    from fake_started [OF fake, of S F w] assms(3) have "op = fake_operator" by simp
    then show thesis by (rule that(1))
  next
    case oci
    show thesis by (rule start_oci [OF assms(1,2) oci, of F w]) (use assms(3) that(2) in auto)
  next
    case other
    with unsupported_start [OF other, of S F w] assms(3) show thesis by simp
  qed
qed

lemma started_implemented:
  assumes "sdk_ok S" "env_ok env" "start_operator S F (env, w) = (Inr op, s')" "foreign_errors F"
    and call: "inv_invoke (op_invoker op) rq w1 = ((resp, Some e), w2)"
  shows "\<not> is_not_implemented e"
proof (rule started_operator [OF assms(1-3)])
  assume "op = fake_operator"
  then show ?thesis using call by (simp add: fake_operator_def fake_invoker_def fake_invoke_def)
next
  fix p c l v assume "op = oci_operator F p c l v"
  then show ?thesis using oci_implemented [OF assms(4)] call by blast
qed

section \<open>Properties\<close>

text \<open>
  C34: choosing the provider from the environment leaves the environment exactly as it was, although the
  workload identity of the SDK is configured by two variables that are set for the time of the call; the
  constructor sees these two on top of the environment, and the result is the provider the mode calls for.
\<close>

theorem auth_environment_restored:
  assumes "sdk_ok S" "env_ok env"
  shows "config_provider_from_environment S env =
    (case normalize_oci_auth_mode (auth_getenv env env_oci_auth_mode) of
       Inl e \<Rightarrow> Inl e
     | Inr m \<Rightarrow>
         if m = oci_auth_mode_config then Inr (config_file_provider S env)
         else if auth_getenv env env_oci_region = [] then
           Inl (WrapError ''configure OCI Workload Identity auth provider''
             (ErrorText (env_oci_region @ '' is required for OCI Workload Identity auth; set '' @ env_oci_region @
               '' to the OKE cluster or workload region'')))
         else (case sdk_oke_provider S (env(sdk_version_var S \<mapsto> sdk_version_value S,
             sdk_region_var S \<mapsto> auth_getenv env env_oci_region)) of
           Inl e \<Rightarrow> Inl (WrapError ''configure OCI Workload Identity auth provider'' e)
         | Inr p \<Rightarrow> Inr p), env)"
  using environment_provider_config [OF assms] by (simp only: environment_provider_def selected_provider_def)

text \<open>
  C33: when the operator starts, its parts belong together and the environment is unchanged: in mode fake,
  which never fails, there are the fake invoker and no managers; in mode oci the invoker, the manager of
  functions and the manager of rules are all built on the one provider that the environment selects, and
  all are configured; any other mode is an error.
\<close>

theorem operator_setup_coherent:
  assumes "sdk_ok S" "env_ok env" "start_operator S F (env, w) = (res, env', w')"
  shows "env' = env \<and>
    (normalized_mode (os_getenv env invoker_mode_env) = invoker_mode_fake \<longrightarrow> res = Inr fake_operator \<and> w' = w) \<and>
    (\<forall>op. res = Inr op \<longrightarrow> normalized_mode (os_getenv env invoker_mode_env) \<noteq> invoker_mode_fake \<longrightarrow>
      normalized_mode (os_getenv env invoker_mode_env) = invoker_mode_oci \<and>
      (\<exists>p c l v. fst (config_provider_from_environment S env) = Inr p \<and> sc_functions_client F p = Inr c \<and>
         sc_logging_client F p = Inr l \<and> sc_events_client F p = Inr v \<and> op = oci_operator F p c l v \<and>
         w' = (let g = events_region F (os_getenv env env_oci_region) p in if g = [] then w else ev_set_region v g w)))"
proof -
  let ?m = "normalized_mode (os_getenv env invoker_mode_env)"
  consider (fake) "?m = invoker_mode_fake" | (oci) "?m = invoker_mode_oci"
    | (other) "?m \<noteq> invoker_mode_fake" "?m \<noteq> invoker_mode_oci" by blast
  then show ?thesis
  proof cases
    case fake
    then show ?thesis using assms(3) fake_started [OF fake, of S F w] by simp
  next
    case oci
    show ?thesis
      by (rule start_oci [OF assms(1,2) oci, of F w])
        (use assms(3) oci in \<open>auto simp: environment_provider_config [OF assms(1,2)]\<close>)
  next
    case other
    then show ?thesis using assms(3) unsupported_start [OF other, of S F w] by auto
  qed
qed

text \<open>
  C9: whichever way the operator was started, its jobs come to their end: with errors of the SDK that are its
  own, a job whose function is found and ready and whose status can be stored reaches \<open>Succeeded\<close> or
  \<open>Failed\<close> within as many reconciliations by the installed controller as its payloads need at its
  parallelism, whatever the invocations return.
\<close>

theorem operator_jobs_end:
  assumes "sdk_ok S" "env_ok env" "start_operator S F (env, w) = (Inr op, s')" "foreign_errors F"
    and "fr_name (js_function_ref (job_spec job)) \<noteq> []"
    and "\<And>w. job_function_lookup (ct_jobs (install_controllers P op)) job w = Got f"
    and "function_ready_for_invocation (pf_lib P) f (invocation_target_for_function f)"
    and "\<And>j w. fst (status_update_job (pf_client P) j w) = None"
    and "job_bounds job" "nows \<noteq> []"
    and "int (length (inline_payloads job)) \<le> sint (desired_parallelism job) * int (length nows)"
  shows "job_is_terminal (fst (job_rounds (ct_jobs (install_controllers P op)) nows job io))"
proof -
  let ?R = "ct_jobs (install_controllers P op)"
  have "steady ?R job (op_invoker op) f"
    unfolding steady_def using assms(5-8) started_implemented [OF assms(1-4)]
    by (auto simp: install_controllers_def)
  moreover have "int (runnable_count (desired_retry_limit job) (ensured ?R job)) \<le> sint (desired_parallelism job) * int (length nows)"
  proof -
    have "runnable_count (desired_retry_limit job) (ensured ?R job) \<le> length (inline_payloads job)"
      using length_filter_le [of _ "ensured ?R job"] by simp
    then show ?thesis using assms(11) by linarith
  qed
  ultimately show ?thesis using rounds_terminate assms(9,10) by blast
qed

text \<open>
  Whichever way the operator was started, its jobs record a payload as succeeded only with no status code
  or a 2xx one: if the job read satisfies this, so does every status that the installed controller writes.
\<close>

theorem operator_success_codes:
  assumes "sdk_ok S" "env_ok env" "start_operator S F (env, w) = (Inr op, s')"
    and "list_all succeeded_ok (jst_invocations (job_status job))"
  shows "\<exists>t. io_trace (snd (reconcile_found_job (ct_jobs (install_controllers P op)) now job io)) = io_trace io @ t \<and>
    (\<forall>j. StatusUpdate j \<in> set (writes t) \<longrightarrow> list_all succeeded_ok (jst_invocations (job_status j)))"
proof -
  let ?R = "ct_jobs (install_controllers P op)"
  obtain out io' where rec: "reconcile_found_job ?R now job io = (out, io')" by (metis prod.exhaust)
  have inv: "jr_invoker ?R = Some (op_invoker op)" by (simp add: install_controllers_def)
  show ?thesis
  proof (rule started_operator [OF assms(1-3)])
    assume "op = fake_operator"
    then have "inv_invoke (op_invoker op) = fake_invoke" by (simp add: fake_operator_def fake_invoker_def)
    from fake.reconcile_succeeded_ok [OF rec inv this assms(4)] rec show ?thesis by auto
  next
    fix p c l v assume op: "op = oci_operator F p c l v"
    let ?I = "\<lparr>oi_configured = True, oi_parse_url = sc_parse_url F, oi_client_factory = sc_invoke_client F p,
       oi_invoke_function = sc_invoke_function F p\<rparr>"
    have "inv_invoke (op_invoker op) = oci_invoke ?I" by (simp add: op oci_operator_def oci_invoker_value_def)
    from oci.reconcile_succeeded_ok [OF rec inv this assms(4)] rec show ?thesis by auto
  qed
qed

section \<open>Witnesses\<close>

text \<open>An SDK whose provider is the region variable it has seen, and clients that serve nothing.\<close>

definition sample_auth :: "string oci_sdk" where
  "sample_auth = \<lparr>sdk_oke_provider = (\<lambda>e. Inr (os_getenv e ''RP_REGION'')), sdk_default_provider = (\<lambda>e. ''default''),
     sdk_profile_provider = (\<lambda>file profile. profile), sdk_version_var = ''RP_VERSION'', sdk_version_value = ''2.2'',
     sdk_region_var = ''RP_REGION'', sdk_set_order = id, sdk_restore_order = rev\<rparr>"

definition sample_environ :: environ where
  "sample_environ = [''INVOKER_MODE'' \<mapsto> '' OCI'', ''OCI_REGION'' \<mapsto> ''phx '', ''RP_VERSION'' \<mapsto> ''1'']"

definition no_service :: go_error where "no_service = ErrorText ''no service''"

definition idle_clients :: "(string, string) sdk_clients" where
  "idle_clients = \<lparr>
     sc_parse_url = (\<lambda>u. Inl no_service),
     sc_invoke_client = (\<lambda>p endpoint w. None),
     sc_invoke_function = (\<lambda>p endpoint f b w. ((\<lparr>oir_raw = None, oir_opc_request_id = None, oir_content = None\<rparr>,
        Some no_service), w)),
     sc_functions_client = (\<lambda>p. Inr \<lparr>sdk_set_region = (\<lambda>g w. g), sdk_list_applications = (\<lambda>c n w. (Inl no_service, w)),
        sdk_create_application = (\<lambda>d w. (Inl no_service, w)), sdk_get_application = (\<lambda>i w. (Inl no_service, w)),
        sdk_update_application = (\<lambda>i d w. (Inl no_service, w)), sdk_delete_application = (\<lambda>i w. (Inl no_service, w)),
        sdk_list_functions = (\<lambda>a page w. (Inl no_service, w)), sdk_create_function = (\<lambda>d w. (Inl no_service, w)),
        sdk_get_function = (\<lambda>i w. (Inl no_service, w)), sdk_update_function = (\<lambda>i d w. (Inl no_service, w)),
        sdk_delete_function = (\<lambda>i w. (Inl no_service, w))\<rparr>),
     sc_logging_client = (\<lambda>p. Inr \<lparr>log_set_region = (\<lambda>g w. g), log_list = (\<lambda>g page w. (Inl no_service, w)),
        log_create = (\<lambda>g d w. (Inl no_service, w)), log_update = (\<lambda>g i d w. (Inl no_service, w))\<rparr>),
     sc_events_client = (\<lambda>p. Inr \<lparr>ev_set_region = (\<lambda>g w. g), ev_list_rules = (\<lambda>c page w. (Inl no_service, w)),
        ev_create_rule = (\<lambda>c d w. (Inl no_service, w)), ev_get_rule = (\<lambda>i w. (Inl no_service, w)),
        ev_update_rule = (\<lambda>i d w. (Inl no_service, w)), ev_delete_rule = (\<lambda>i w. (Inl no_service, w))\<rparr>),
     sc_provider_region = (\<lambda>p. Inr p),
     sc_number = Some,
     sc_page_bound = 10\<rparr>"

lemma sample_auth_ok: "sdk_ok sample_auth"
  by (simp add: sdk_ok_def sample_auth_def valid_env_def nul_def)

lemma sample_environ_ok: "env_ok sample_environ"
  by (simp add: env_ok_def sample_environ_def nul_def)

theorem auth_environment_restored_witness:
  "config_provider_from_environment sample_auth sample_environ = (Inr ''phx'', sample_environ)"
proof -
  have env: "auth_getenv sample_environ env_oci_auth_mode = []" "auth_getenv sample_environ env_oci_region = ''phx''"
    "normalize_oci_auth_mode [] = Inr oci_auth_mode_workload"
    by code_simp+
  show ?thesis
    unfolding auth_environment_restored [OF sample_auth_ok sample_environ_ok] env
    by (simp add: sample_auth_def os_getenv_def)
qed

lemma sample_started:
  obtains op s' where "start_operator sample_auth idle_clients (sample_environ, []) = (Inr op, s')"
proof -
  have "case fst (start_operator sample_auth idle_clients (sample_environ, [])) of Inl e \<Rightarrow> False | Inr op \<Rightarrow> True"
    by code_simp
  then show thesis using that
    by (cases "start_operator sample_auth idle_clients (sample_environ, [])") (auto split: sum.splits)
qed

theorem operator_setup_coherent_witness:
  "\<exists>op. start_operator sample_auth idle_clients (sample_environ, []) = (Inr op, sample_environ, ''phx'') \<and>
    op_mode op = ''oci''"
proof -
  obtain op env' w' where run: "start_operator sample_auth idle_clients (sample_environ, []) = (Inr op, env', w')"
    using sample_started by (metis prod.exhaust)
  have mode: "normalized_mode (os_getenv sample_environ invoker_mode_env) = invoker_mode_oci" by code_simp
  have env: "os_getenv sample_environ env_oci_region = ''phx ''" "trim_space ''phx '' = ''phx''" by code_simp+
  from operator_setup_coherent [OF sample_auth_ok sample_environ_ok run] mode
  obtain p c l v where "env' = sample_environ" "sc_events_client idle_clients p = Inr v"
    "op = oci_operator idle_clients p c l v" "w' = ev_set_region v ''phx'' []"
    by (auto simp: events_region_def env)
  then show ?thesis using run by (auto simp: idle_clients_def oci_operator_def invoker_mode_oci_def)
qed

text \<open>An API server with the sample function and no other object.\<close>

definition serving_client :: "string kube_client" where
  "serving_client = \<lparr>
     get_function = (\<lambda>ns n w. Got (sample_function CondTrue)), get_application = (\<lambda>ns n w. NotFound),
     get_job = (\<lambda>ns n w. NotFound), get_event = (\<lambda>ns n w. NotFound), get_trigger = (\<lambda>ns n w. NotFound),
     list_triggers = (\<lambda>ns w. Inr []),
     status_update_function = (\<lambda>x w. (None, w)), status_update_application = (\<lambda>x w. (None, w)),
     status_update_job = (\<lambda>x w. (None, w)), status_update_event = (\<lambda>x w. (None, w)),
     status_update_trigger = (\<lambda>x w. (None, w)),
     update_function = (\<lambda>x w. (None, w)), update_application = (\<lambda>x w. (None, w)),
     update_trigger = (\<lambda>x w. (None, w)), delete_event = (\<lambda>x w. (DeleteDone, w))\<rparr>"

definition sample_platform :: "string platform" where
  "sample_platform = \<lparr>pf_client = serving_client, pf_lib = sample_lib, pf_clock = (\<lambda>w. 5), pf_sha256 = id,
     pf_number = Some, pf_json_error = (\<lambda>b. [])\<rparr>"

lemma idle_foreign: "foreign_errors idle_clients"
  by (simp add: foreign_errors_def idle_clients_def no_service_def)

theorem operator_jobs_end_witness:
  "\<exists>op s'. start_operator sample_auth idle_clients (sample_environ, []) = (Inr op, s') \<and>
    job_is_terminal (fst (job_rounds (ct_jobs (install_controllers sample_platform op)) [5, 6] sample_job
      \<lparr>io_world = [], io_trace = []\<rparr>))"
proof -
  obtain op s' where run: "start_operator sample_auth idle_clients (sample_environ, []) = (Inr op, s')"
    by (rule sample_started)
  have ready: "function_ready_for_invocation sample_lib (sample_function CondTrue)
      (invocation_target_for_function (sample_function CondTrue))" by code_simp
  have "job_is_terminal (fst (job_rounds (ct_jobs (install_controllers sample_platform op)) [5, 6] sample_job
      \<lparr>io_world = [], io_trace = []\<rparr>))"
    by (rule operator_jobs_end [OF sample_auth_ok sample_environ_ok run idle_foreign, where f = "sample_function CondTrue"])
      (simp_all add: ready sample_platform_def serving_client_def install_controllers_def sample_job_def
        job_bounds_def inline_payloads_def desired_retry_limit_def desired_parallelism_def empty_job_status_def sless_sint)
  with run show ?thesis by blast
qed

theorem operator_success_codes_witness:
  "\<exists>op s' t. start_operator sample_auth idle_clients (sample_environ, []) = (Inr op, s') \<and>
    io_trace (snd (reconcile_found_job (ct_jobs (install_controllers sample_platform op)) 5 sample_job
      \<lparr>io_world = [], io_trace = []\<rparr>)) = t \<and>
    (\<forall>j. StatusUpdate j \<in> set (writes t) \<longrightarrow> list_all succeeded_ok (jst_invocations (job_status j)))"
proof -
  obtain op s' where run: "start_operator sample_auth idle_clients (sample_environ, []) = (Inr op, s')"
    by (rule sample_started)
  have "list_all succeeded_ok (jst_invocations (job_status sample_job))"
    by (simp add: sample_job_def empty_job_status_def)
  from operator_success_codes [OF sample_auth_ok sample_environ_ok run this, where io = "\<lparr>io_world = [], io_trace = []\<rparr>"]
  have "\<exists>t. io_trace (snd (reconcile_found_job (ct_jobs (install_controllers sample_platform op)) 5 sample_job
      \<lparr>io_world = [], io_trace = []\<rparr>)) = t \<and>
    (\<forall>j. StatusUpdate j \<in> set (writes t) \<longrightarrow> list_all succeeded_ok (jst_invocations (job_status j)))" by auto
  with run show ?thesis by blast
qed

end
