(* ===== verification/MainProperties.thy ===== *)
theory MainProperties
  imports OperatorMain OperatorProperties
begin

text \<open>
  The properties of \<open>main\<close>: what has been set up when the controller manager is started, and when the operator
  exits instead.
\<close>

section \<open>Setting up\<close>

text \<open>The world after calls that all succeed; \<open>None\<close> when one fails.\<close>

fun after_calls :: "('w setup_step \<Rightarrow> 'w \<Rightarrow> go_error option \<times> 'w) \<Rightarrow> 'w setup_step list \<Rightarrow> 'w \<Rightarrow> 'w option" where
  "after_calls call [] w = Some w"
| "after_calls call (x # xs) w = (case call x w of (None, w') \<Rightarrow> after_calls call xs w' | (Some e, w') \<Rightarrow> None)"

lemma run_setup_made:
  assumes "run_setup call xs w = (r, made, w')"
  shows "take (length made) xs = made" "r = MainReturned \<Longrightarrow> made = xs" "r = MainReturned \<or> r = Exited 1"
    "(\<And>x v. fst (call x v) = None) \<Longrightarrow> r = MainReturned"
proof -
  from assms have "take (length made) xs = made \<and> (r = MainReturned \<longrightarrow> made = xs) \<and> (r = MainReturned \<or> r = Exited 1) \<and>
      ((\<forall>x v. fst (call x v) = None) \<longrightarrow> r = MainReturned)"
  proof (induction xs arbitrary: w r made w')
    case (Cons x xs)
    obtain e v where x: "call x w = (e, v)" by (cases "call x w")
    show ?case
    proof (cases e)
      case None
      obtain r1 made1 w1 where rest: "run_setup call xs v = (r1, made1, w1)" by (cases "run_setup call xs v")
      with Cons.prems x None have "r = r1" "made = x # made1" by auto
      with Cons.IH [OF rest] show ?thesis by auto
    next
      case (Some y)
      then have "\<not> (\<forall>x v. fst (call x v) = None)" using x by (metis fst_conv option.distinct(1))
      with Cons.prems x Some show ?thesis by (auto simp del: not_all)
    qed
  qed auto
  then show "take (length made) xs = made" "r = MainReturned \<Longrightarrow> made = xs" "r = MainReturned \<or> r = Exited 1"
    "(\<And>x v. fst (call x v) = None) \<Longrightarrow> r = MainReturned" by auto
qed

text \<open>All calls but the last have succeeded, and what the last returned decides the end.\<close>

lemma run_setup_stops:
  assumes "run_setup call xs w = (r, made, w')" "xs \<noteq> []"
  shows "made \<noteq> [] \<and> (\<exists>v err. after_calls call (butlast made) w = Some v \<and> call (last made) v = (err, w') \<and>
    (if err = None then r = MainReturned \<and> made = xs else r = Exited 1))"
  using assms
proof (induction xs arbitrary: w r made w')
  case (Cons x xs)
  obtain e v where x: "call x w = (e, v)" by (cases "call x w")
  show ?case
  proof (cases e)
    case None
    obtain r1 made1 w1 where rest: "run_setup call xs v = (r1, made1, w1)" by (cases "run_setup call xs v")
    with Cons.prems(1) x None have made: "r = r1" "made = x # made1" "w' = w1" by auto
    show ?thesis
    proof (cases "xs = []")
      case True
      with rest made x None show ?thesis by auto
    next
      case False
      from Cons.IH [OF rest False] obtain u err where "made1 \<noteq> []" "after_calls call (butlast made1) v = Some u"
        "call (last made1) u = (err, w1)" "if err = None then r1 = MainReturned \<and> made1 = xs else r1 = Exited 1" by blast
      with made x None show ?thesis by (auto split: if_splits)
    qed
  next
    case (Some y)
    with Cons.prems(1) x have "made = [x]" "r = Exited 1" "w' = v" by auto
    with x Some show ?thesis by simp
  qed
qed simp

lemma start_last:
  assumes "take n (setup_steps mo C) = made" "StartManager \<in> set made"
  shows "made = setup_steps mo C"
proof -
  obtain xs where xs: "setup_steps mo C = xs @ [StartManager]" "StartManager \<notin> set xs"
    by (auto simp: setup_steps_def split: option.splits)
  show ?thesis
  proof (cases "length xs < n")
    case True
    then show ?thesis using assms(1) xs(1) by simp
  next
    case False
    then have "set made \<subseteq> set xs" using assms(1) xs(1) by (auto dest: in_set_takeD)
    then show ?thesis using assms(2) xs(2) by blast
  qed
qed

lemma started_by_mode:
  assumes "sdk_ok S" "env_ok env" "start_operator S F (env, w) = (res, s')"
  shows "fst s' = env"
    and "res = Inr op \<Longrightarrow> op_mode op = normalized_mode (os_getenv env invoker_mode_env) \<and>
      (op_trigger_controller op \<noteq> None \<longleftrightarrow> op_mode op = invoker_mode_oci)"
proof -
  let ?m = "normalized_mode (os_getenv env invoker_mode_env)"
  consider (fake) "?m = invoker_mode_fake" | (oci) "?m = invoker_mode_oci"
    | (other) "?m \<noteq> invoker_mode_fake" "?m \<noteq> invoker_mode_oci" by blast
  then have "fst s' = env \<and> (res = Inr op \<longrightarrow> op_mode op = ?m \<and>
      (op_trigger_controller op \<noteq> None \<longleftrightarrow> op_mode op = invoker_mode_oci))"
  proof cases
    case fake
    with fake_started [OF fake, of S F w] assms(3) show ?thesis by (auto simp: fake_operator_def)
  next
    case oci
    show ?thesis
      by (rule start_oci [OF assms(1,2) oci, of F w]) (use assms(3) oci in \<open>auto simp: oci_operator_def\<close>)
  next
    case other
    with unsupported_start [OF other, of S F w] assms(3) show ?thesis by auto
  qed
  then show "fst s' = env" "res = Inr op \<Longrightarrow> op_mode op = ?m \<and>
      (op_trigger_controller op \<noteq> None \<longleftrightarrow> op_mode op = invoker_mode_oci)" by simp_all
qed

lemma triggers_set_up:
  "(\<exists>R. SetupTriggers R \<in> set (setup_steps mo (install_controllers P op))) \<longleftrightarrow> op_trigger_controller op \<noteq> None"
  by (auto simp: setup_steps_def install_controllers_def split: option.splits)

section \<open>Properties\<close>

text \<open>
  C32: \<open>main\<close> starts the controller manager only when the command line was understood, all parts of the mode
  could be configured, the manager was made with the flags' options, every reconciler was set up in order
  (that of triggers exactly in mode oci) and both probes were added. The calls made are a prefix of these steps:
  every call before the last one made has succeeded, and the last one has failed, and then \<open>main\<close> exits with 1
  in the world that call left, or it was the last step and \<open>main\<close> returns. Before that it exits with 2 or 0
  for a bad or a help flag, and with 1 when a part cannot be configured. If nothing fails it runs to the
  end. The process environment is left unchanged.
\<close>

theorem operator_runs_complete:
  assumes "sdk_ok S" "env_ok env" and run: "operator_main S F X P call args (env, w) = (r, made, s')"
  shows "fst s' = env \<and>
    (made \<noteq> [] \<longrightarrow> (\<exists>f op s1. parse_flags X args default_flags = Inr f \<and> start_operator S F (env, w) = (Inr op, s1) \<and>
       (\<exists>v err. after_calls call (butlast made) (snd s1) = Some v \<and> call (last made) v = (err, snd s') \<and>
          (if err = None then r = MainReturned \<and>
             made = setup_steps (manager_options_of f) (install_controllers P op) else r = Exited 1)) \<and>
       take (length made) (setup_steps (manager_options_of f) (install_controllers P op)) = made \<and>
       op_mode op = normalized_mode (os_getenv env invoker_mode_env) \<and>
       (StartManager \<in> set made \<longrightarrow> made = setup_steps (manager_options_of f) (install_controllers P op) \<and>
          ((\<exists>R. SetupTriggers R \<in> set made) \<longleftrightarrow> op_mode op = invoker_mode_oci)))) \<and>
    (r = MainReturned \<longrightarrow> StartManager \<in> set made) \<and>
    (r \<noteq> MainReturned \<longrightarrow> r = (case parse_flags X args default_flags of Inl e \<Rightarrow> Exited (flag_exit e) | Inr f \<Rightarrow> Exited 1)) \<and>
    (\<forall>f op s1. parse_flags X args default_flags = Inr f \<longrightarrow> start_operator S F (env, w) = (Inr op, s1) \<longrightarrow>
       made \<noteq> [] \<and> ((\<forall>x v. fst (call x v) = None) \<longrightarrow> r = MainReturned))"
proof (cases "parse_flags X args default_flags")
  case (Inl e)
  with run show ?thesis by (auto simp: operator_main_def)
next
  case (Inr f)
  obtain res env1 w1 where start: "start_operator S F (env, w) = (res, env1, w1)"
    by (cases "start_operator S F (env, w)") auto
  note env1 = started_by_mode(1) [OF assms(1,2) start, simplified]
  show ?thesis
  proof (cases res)
    case (Inl e)
    with run Inr start env1 show ?thesis by (auto simp: operator_main_def)
  next
    case op: (Inr op)
    note mode = started_by_mode(2) [OF assms(1,2) start op]
    let ?steps = "setup_steps (manager_options_of f) (install_controllers P op)"
    obtain w2 where steps: "run_setup call ?steps w1 = (r, made, w2)" "s' = (env, w2)"
      using run Inr start op env1 by (auto simp: operator_main_def split: prod.splits)
    note made = run_setup_made [OF steps(1)]
    have "?steps \<noteq> []" by (simp add: setup_steps_def)
    note stops = run_setup_stops [OF steps(1) this]
    have "made = ?steps \<and> ((\<exists>R. SetupTriggers R \<in> set made) \<longleftrightarrow> op_mode op = invoker_mode_oci)"
      if "StartManager \<in> set made"
      using start_last [OF made(1) that] triggers_set_up [of "manager_options_of f" P op] mode by simp
    moreover have "StartManager \<in> set ?steps" by (simp add: setup_steps_def)
    ultimately have "StartManager \<in> set made \<longrightarrow> made = ?steps \<and>
        ((\<exists>R. SetupTriggers R \<in> set made) \<longleftrightarrow> op_mode op = invoker_mode_oci)"
      "r = MainReturned \<longrightarrow> StartManager \<in> set made" using made(2) by blast+
    moreover have "r \<noteq> MainReturned \<longrightarrow> r = Exited 1" using made(3) by blast
    ultimately show ?thesis
      using Inr start [unfolded op env1] made(1,4) stops conjunct1 [OF mode] steps(2) by simp
  qed
qed

section \<open>Witness\<close>

text \<open>The command line of \<open>config/manager/manager.yaml\<close>.\<close>

theorem operator_runs_complete_witness:
  "\<exists>made s'. operator_main sample_auth idle_clients (\<lambda>name. None) sample_platform (\<lambda>x w. (None, w)) [''--leader-elect'']
      (sample_environ, []) = (MainReturned, made, s') \<and> fst s' = sample_environ \<and> StartManager \<in> set made \<and>
    NewManager (manager_options_of \<lparr>mf_metrics_address = '':8080'', mf_probe_address = '':8081'', mf_leader_elect = True\<rparr>)
      \<in> set made \<and> (\<exists>R. SetupTriggers R \<in> set made)"
proof -
  obtain r made s' where run: "operator_main sample_auth idle_clients (\<lambda>name. None) sample_platform (\<lambda>x w. (None, w))
      [''--leader-elect''] (sample_environ, []) = (r, made, s')"
    by (metis prod.exhaust)
  obtain op s1 where op: "start_operator sample_auth idle_clients (sample_environ, []) = (Inr op, s1)"
    by (rule sample_started)
  let ?f = "\<lparr>mf_metrics_address = '':8080'', mf_probe_address = '':8081'', mf_leader_elect = True\<rparr>"
  have flags: "parse_flags (\<lambda>name. None) [''--leader-elect''] default_flags = Inr ?f" by code_simp
  have mode: "normalized_mode (os_getenv sample_environ invoker_mode_env) = invoker_mode_oci" by code_simp
  note complete = operator_runs_complete [OF sample_auth_ok sample_environ_ok run]
  from complete flags op have r: "r = MainReturned" and start: "StartManager \<in> set made" and env: "fst s' = sample_environ"
    by (simp_all del: parse_flags.simps)
  then have "made \<noteq> []" by auto
  with complete obtain f op' s2 where parts: "parse_flags (\<lambda>name. None) [''--leader-elect''] default_flags = Inr f"
    "start_operator sample_auth idle_clients (sample_environ, []) = (Inr op', s2)"
    "op_mode op' = normalized_mode (os_getenv sample_environ invoker_mode_env)"
    "made = setup_steps (manager_options_of f) (install_controllers sample_platform op')"
    "(\<exists>R. SetupTriggers R \<in> set made) \<longleftrightarrow> op_mode op' = invoker_mode_oci"
    using start by blast
  from parts(1) flags have "f = ?f" by (simp del: parse_flags.simps)
  with parts(4) have made: "made = setup_steps (manager_options_of ?f) (install_controllers sample_platform op')" by simp
  from parts(3,5) mode have trigger: "\<exists>R. SetupTriggers R \<in> set made" by simp
  from made have "NewManager (manager_options_of ?f) \<in> set made" by (simp add: setup_steps_def)
  with run r start env trigger show ?thesis by blast
qed

end
