(* ===== verification/GoMemory.thy ===== *)
theory GoMemory
  imports Prelude
begin

text \<open>
  Memory with references, for the code that copies objects. An address is an index into the list of
  allocated cells; \<open>new\<close> and \<open>make\<close> append a blank cell. A pointer, a slice or a map that may be nil is an
  optional address. The locale \<open>deep_copier\<close> states what a deep copy of one type promises; the lemmas show
  that the ways in which the generated code builds copies of structs from copies of fields keep it.
\<close>

type_synonym addr = nat
type_synonym ref = "addr option"

section \<open>Reading\<close>

definition cell_at :: "'c list \<Rightarrow> addr \<Rightarrow> 'c option" where
  "cell_at s a = (if a < length s then Some (s ! a) else None)"

definition agree_on :: "addr list \<Rightarrow> 'c list \<Rightarrow> 'c list \<Rightarrow> bool" where
  "agree_on as s t \<longleftrightarrow> (\<forall>a \<in> set as. cell_at t a = cell_at s a)"

definition allocated :: "'c list \<Rightarrow> addr list \<Rightarrow> bool" where
  "allocated s as \<longleftrightarrow> (\<forall>a \<in> set as. a < length s)"

lemma agree_on_append [simp]: "agree_on (as @ bs) s t \<longleftrightarrow> agree_on as s t \<and> agree_on bs s t"
  by (auto simp: agree_on_def)

lemma allocated_append [simp]: "allocated s (as @ bs) \<longleftrightarrow> allocated s as \<and> allocated s bs"
  by (auto simp: allocated_def)

lemma agree_on_simps [simp]:
  "agree_on [] s t" "agree_on (a # as) s t \<longleftrightarrow> cell_at t a = cell_at s a \<and> agree_on as s t"
  by (simp_all add: agree_on_def)

lemma allocated_simps [simp]:
  "allocated s []" "allocated s (a # as) \<longleftrightarrow> a < length s \<and> allocated s as"
  by (simp_all add: allocated_def)

lemma cell_at_append: "a < length s \<Longrightarrow> cell_at (s @ t) a = cell_at s a"
  by (simp add: cell_at_def nth_append)

lemma cell_at_new [simp]: "cell_at (s @ c # t) (length s) = Some c"
  by (simp add: cell_at_def)

lemma cell_at_update: "a \<noteq> b \<Longrightarrow> cell_at (s[b := c]) a = cell_at s a"
  by (simp add: cell_at_def)

lemma agree_on_extended: "allocated s as \<Longrightarrow> agree_on as s (s @ t)"
  by (simp add: agree_on_def allocated_def cell_at_append)

lemma agree_on_update: "a \<notin> set as \<Longrightarrow> agree_on as s (s[a := c])"
  unfolding agree_on_def using cell_at_update by metis

lemma agree_on_rebuilt:
  assumes "\<forall>a \<in> set as. a \<noteq> length s"
  shows "agree_on as (s @ c # t) (s @ d # t)"
  using assms by (auto simp: agree_on_def cell_at_def nth_append nth_Cons split: nat.splits)

section \<open>The contract of a deep copy\<close>

text \<open>
  \<open>copy\<close> copies a value held in a variable of the type, \<open>view\<close> is what it stands for (\<open>None\<close> when it leads to
  a cell of another type or to none), \<open>cells\<close> are the cells it leads to. What a value stands for depends on
  its cells only, and they are allocated. A copy stands for the same value, changes no cell that was there,
  leads only to new cells, and to none of them twice.
\<close>

locale deep_copier =
  fixes copy :: "'m \<Rightarrow> 'c list \<Rightarrow> 'm \<times> 'c list"
    and view :: "'c list \<Rightarrow> 'm \<Rightarrow> 'v option"
    and cells :: "'c list \<Rightarrow> 'm \<Rightarrow> addr list"
  assumes local_view: "agree_on (cells s m) s t \<Longrightarrow> view t m = view s m"
    and local_cells: "agree_on (cells s m) s t \<Longrightarrow> cells t m = cells s m"
    and inside: "view s m = Some v \<Longrightarrow> allocated s (cells s m)"
    and copied: "view s m = Some v \<Longrightarrow> \<exists>m' t. copy m s = (m', s @ t) \<and> view (s @ t) m' = Some v \<and>
      (\<forall>a \<in> set (cells (s @ t) m'). length s \<le> a) \<and> distinct (cells (s @ t) m')"
begin

lemma view_extended: "view s m = Some v \<Longrightarrow> view (s @ t) m = Some v"
  using local_view [OF agree_on_extended [OF inside]] by simp

lemma cells_extended: "view s m = Some v \<Longrightarrow> cells (s @ t) m = cells s m"
  by (rule local_cells [OF agree_on_extended [OF inside]])

lemma view_update: "a \<notin> set (cells s m) \<Longrightarrow> view (s[a := c]) m = view s m"
  by (rule local_view [OF agree_on_update])

text \<open>The original stands for the same value, also when the copy is written to; and conversely.\<close>

lemma copy_isolated:
  assumes "view s m = Some v" "copy m s = (m', s')"
  shows "view s' m' = Some v" "view s' m = Some v" "\<exists>t. s' = s @ t"
    and "set (cells s' m') \<inter> set (cells s' m) = {}" "distinct (cells s' m')" "allocated s' (cells s' m')"
    and "a \<in> set (cells s' m') \<Longrightarrow> view (s'[a := c]) m = Some v"
    and "a \<in> set (cells s' m) \<Longrightarrow> view (s'[a := c]) m' = Some v"
proof -
  from copied [OF assms(1)] assms(2) obtain t where t: "s' = s @ t" "view s' m' = Some v"
    "\<forall>a \<in> set (cells s' m'). length s \<le> a" "distinct (cells s' m')" by auto
  have old: "\<forall>a \<in> set (cells s' m). a < length s"
    using inside [OF assms(1)] cells_extended [OF assms(1)] t(1) by (simp add: allocated_def)
  show "view s' m' = Some v" "\<exists>t. s' = s @ t" "distinct (cells s' m')" using t by auto
  show orig: "view s' m = Some v" using view_extended [OF assms(1)] t(1) by simp
  show apart: "set (cells s' m') \<inter> set (cells s' m) = {}" using t(3) old by (auto simp: not_less [symmetric])
  show "allocated s' (cells s' m')" by (rule inside [OF t(2)])
  show "a \<in> set (cells s' m') \<Longrightarrow> view (s'[a := c]) m = Some v" using apart orig view_update [of a s' m c] by auto
  show "a \<in> set (cells s' m) \<Longrightarrow> view (s'[a := c]) m' = Some v" using apart t(2) view_update [of a s' m' c] by auto
qed

end

section \<open>Values without references\<close>

definition copy_plain :: "'m \<Rightarrow> 'c list \<Rightarrow> 'm \<times> 'c list" where "copy_plain m s = (m, s)"
definition view_plain :: "'c list \<Rightarrow> 'm \<Rightarrow> 'm option" where "view_plain s m = Some m"
definition cells_plain :: "'c list \<Rightarrow> 'm \<Rightarrow> addr list" where "cells_plain s m = []"

interpretation plain: deep_copier copy_plain view_plain cells_plain
  by unfold_locales (simp_all add: copy_plain_def view_plain_def cells_plain_def)

section \<open>Two fields after each other\<close>

definition copy_pair ::
    "('m \<Rightarrow> 'c list \<Rightarrow> 'm \<times> 'c list) \<Rightarrow> ('n \<Rightarrow> 'c list \<Rightarrow> 'n \<times> 'c list) \<Rightarrow> 'm \<times> 'n \<Rightarrow> 'c list \<Rightarrow> ('m \<times> 'n) \<times> 'c list" where
  "copy_pair f g p s = (let (m, s1) = f (fst p) s; (n, s2) = g (snd p) s1 in ((m, n), s2))"

definition view_pair ::
    "('c list \<Rightarrow> 'm \<Rightarrow> 'v option) \<Rightarrow> ('c list \<Rightarrow> 'n \<Rightarrow> 'w option) \<Rightarrow> 'c list \<Rightarrow> 'm \<times> 'n \<Rightarrow> ('v \<times> 'w) option" where
  "view_pair f g s p = (case (f s (fst p), g s (snd p)) of (Some v, Some w) \<Rightarrow> Some (v, w) | _ \<Rightarrow> None)"

definition cells_pair ::
    "('c list \<Rightarrow> 'm \<Rightarrow> addr list) \<Rightarrow> ('c list \<Rightarrow> 'n \<Rightarrow> addr list) \<Rightarrow> 'c list \<Rightarrow> 'm \<times> 'n \<Rightarrow> addr list" where
  "cells_pair f g s p = f s (fst p) @ g s (snd p)"

lemma view_pair_Some:
  "view_pair f g s p = Some x \<longleftrightarrow> f s (fst p) = Some (fst x) \<and> g s (snd p) = Some (snd x)"
  by (cases x) (auto simp: view_pair_def split: option.splits)

lemma deep_copier_pair:
  assumes "deep_copier f vf cf" "deep_copier g vg cg"
  shows "deep_copier (copy_pair f g) (view_pair vf vg) (cells_pair cf cg)"
proof -
  note F = assms(1) and G = assms(2)
  show ?thesis
  proof
    fix s t :: "'b list" and m :: "'a \<times> 'd"
    assume "agree_on (cells_pair cf cg s m) s t"
    then have ag: "agree_on (cf s (fst m)) s t" "agree_on (cg s (snd m)) s t" by (simp_all add: cells_pair_def)
    show "view_pair vf vg t m = view_pair vf vg s m"
      by (simp add: view_pair_def deep_copier.local_view [OF F ag(1)] deep_copier.local_view [OF G ag(2)])
    show "cells_pair cf cg t m = cells_pair cf cg s m"
      by (simp add: cells_pair_def deep_copier.local_cells [OF F ag(1)] deep_copier.local_cells [OF G ag(2)])
  next
    fix s :: "'b list" and m :: "'a \<times> 'd" and v
    assume "view_pair vf vg s m = Some v"
    then have v: "vf s (fst m) = Some (fst v)" "vg s (snd m) = Some (snd v)" by (simp_all add: view_pair_Some)
    show "allocated s (cells_pair cf cg s m)"
      using deep_copier.inside [OF F v(1)] deep_copier.inside [OF G v(2)] by (simp add: cells_pair_def)
    from deep_copier.copied [OF F v(1)] obtain m1 t1 where m1: "f (fst m) s = (m1, s @ t1)" "vf (s @ t1) m1 = Some (fst v)"
      "\<forall>a \<in> set (cf (s @ t1) m1). length s \<le> a" "distinct (cf (s @ t1) m1)" by blast
    from deep_copier.copied [OF G deep_copier.view_extended [OF G v(2), of t1]] obtain m2 t2 where
      m2: "g (snd m) (s @ t1) = (m2, (s @ t1) @ t2)" "vg ((s @ t1) @ t2) m2 = Some (snd v)"
      "\<forall>a \<in> set (cg ((s @ t1) @ t2) m2). length (s @ t1) \<le> a" "distinct (cg ((s @ t1) @ t2) m2)" by blast
    note old = deep_copier.view_extended [OF F m1(2), of t2] deep_copier.cells_extended [OF F m1(2), of t2]
    have below: "\<forall>a \<in> set (cf (s @ t1) m1). a < length (s @ t1)"
      using deep_copier.inside [OF F m1(2)] by (simp add: allocated_def)
    show "\<exists>m' t. copy_pair f g m s = (m', s @ t) \<and> view_pair vf vg (s @ t) m' = Some v \<and>
        (\<forall>a \<in> set (cells_pair cf cg (s @ t) m'). length s \<le> a) \<and> distinct (cells_pair cf cg (s @ t) m')"
    proof (intro exI conjI)
      show "copy_pair f g m s = ((m1, m2), s @ t1 @ t2)" using m1(1) m2(1) by (simp add: copy_pair_def)
      show "view_pair vf vg (s @ t1 @ t2) (m1, m2) = Some v" using old m2(2) by (simp add: view_pair_Some)
      show "\<forall>a \<in> set (cells_pair cf cg (s @ t1 @ t2) (m1, m2)). length s \<le> a"
        using old m1(3) m2(3) by (auto simp: cells_pair_def)
      show "distinct (cells_pair cf cg (s @ t1 @ t2) (m1, m2))"
        using old m1(4) m2(3,4) below by (fastforce simp: cells_pair_def)
    qed
  qed
qed

section \<open>The elements of an array\<close>

text \<open>\<open>for i := range in { in[i].DeepCopyInto(&out[i]) }\<close>\<close>

fun copy_each :: "('m \<Rightarrow> 'c list \<Rightarrow> 'm \<times> 'c list) \<Rightarrow> 'm list \<Rightarrow> 'c list \<Rightarrow> 'm list \<times> 'c list" where
  "copy_each f [] s = ([], s)"
| "copy_each f (m # ms) s = (let (m', s1) = f m s; (ms', s2) = copy_each f ms s1 in (m' # ms', s2))"

fun view_each :: "('c list \<Rightarrow> 'm \<Rightarrow> 'v option) \<Rightarrow> 'c list \<Rightarrow> 'm list \<Rightarrow> 'v list option" where
  "view_each f s [] = Some []"
| "view_each f s (m # ms) = (case (f s m, view_each f s ms) of (Some v, Some vs) \<Rightarrow> Some (v # vs) | _ \<Rightarrow> None)"

definition cells_each :: "('c list \<Rightarrow> 'm \<Rightarrow> addr list) \<Rightarrow> 'c list \<Rightarrow> 'm list \<Rightarrow> addr list" where
  "cells_each f s ms = concat (map (f s) ms)"

text \<open>A copier of lists that is the copier of pairs on every list with a head.\<close>

lemma deep_copier_each:
  assumes F: "deep_copier f vf cf"
  shows "deep_copier (copy_each f) (view_each vf) (cells_each cf)"
proof
  fix s t :: "'b list" and ms :: "'a list"
  assume "agree_on (cells_each cf s ms) s t"
  then have "view_each vf t ms = view_each vf s ms \<and> cells_each cf t ms = cells_each cf s ms"
  proof (induction ms)
    case (Cons m ms)
    then have ag: "agree_on (cf s m) s t" "agree_on (cells_each cf s ms) s t" by (simp_all add: cells_each_def)
    from Cons.IH [OF ag(2)] show ?case
      by (simp add: deep_copier.local_view [OF F ag(1)] deep_copier.local_cells [OF F ag(1)] cells_each_def)
  qed (simp add: cells_each_def)
  then show "view_each vf t ms = view_each vf s ms" "cells_each cf t ms = cells_each cf s ms" by simp_all
next
  fix s :: "'b list" and ms :: "'a list" and vs
  assume "view_each vf s ms = Some vs"
  then show "allocated s (cells_each cf s ms)"
    by (induction ms arbitrary: vs) (auto simp: cells_each_def dest: deep_copier.inside [OF F] split: option.splits)
next
  fix s :: "'b list" and ms :: "'a list" and vs
  assume "view_each vf s ms = Some vs"
  then show "\<exists>ms' t. copy_each f ms s = (ms', s @ t) \<and> view_each vf (s @ t) ms' = Some vs \<and>
      (\<forall>a \<in> set (cells_each cf (s @ t) ms'). length s \<le> a) \<and> distinct (cells_each cf (s @ t) ms')"
  proof (induction ms arbitrary: s vs)
    case Nil
    then show ?case by (intro exI [of _ "[]"]) (simp add: cells_each_def)
  next
    case (Cons m ms)
    then obtain v ws where v: "vf s m = Some v" "view_each vf s ms = Some ws" "vs = v # ws"
      by (auto split: option.splits)
    from deep_copier.copied [OF F v(1)] obtain m1 t1 where m1: "f m s = (m1, s @ t1)" "vf (s @ t1) m1 = Some v"
      "\<forall>a \<in> set (cf (s @ t1) m1). length s \<le> a" "distinct (cf (s @ t1) m1)" by blast
    have "view_each vf (s @ t1) ms = Some ws"
      using v(2) by (induction ms arbitrary: ws) (auto simp: deep_copier.view_extended [OF F] split: option.splits)
    from Cons.IH [OF this] obtain ms' t2 where
      m2: "copy_each f ms (s @ t1) = (ms', (s @ t1) @ t2)" "view_each vf ((s @ t1) @ t2) ms' = Some ws"
      "\<forall>a \<in> set (cells_each cf ((s @ t1) @ t2) ms'). length (s @ t1) \<le> a"
      "distinct (cells_each cf ((s @ t1) @ t2) ms')" by blast
    note old = deep_copier.view_extended [OF F m1(2), of t2] deep_copier.cells_extended [OF F m1(2), of t2]
    have below: "\<forall>a \<in> set (cf (s @ t1) m1). a < length (s @ t1)"
      using deep_copier.inside [OF F m1(2)] by (simp add: allocated_def)
    have above: "\<forall>a \<in> set (cells_each cf ((s @ t1) @ t2) ms'). length s \<le> a"
      using m2(3) by (metis add_leD1 length_append)
    show ?case
    proof (intro exI conjI)
      show "copy_each f (m # ms) s = (m1 # ms', s @ t1 @ t2)" using m1(1) m2(1) by simp
      show "view_each vf (s @ t1 @ t2) (m1 # ms') = Some vs" using old m2(2) v(3) by simp
      show "\<forall>a \<in> set (cells_each cf (s @ t1 @ t2) (m1 # ms')). length s \<le> a"
        using old m1(3) above by (auto simp: cells_each_def)
      show "distinct (cells_each cf (s @ t1 @ t2) (m1 # ms'))"
        using old m1(4) m2(3,4) below by (fastforce simp: cells_each_def)
    qed
  qed
qed

section \<open>Pointers, slices and maps\<close>

text \<open>
  A type is kept in cells of its own: \<open>put\<close> makes one, \<open>get\<close> reads it. A reference is nil, or leads to such a cell
  and on to what its content leads to. Its copy is nil, or a new cell, blank at first, that receives the
  copy of the content.
\<close>

definition load :: "('c \<Rightarrow> 'm option) \<Rightarrow> 'c list \<Rightarrow> addr \<Rightarrow> 'm option" where
  "load get s a = (case cell_at s a of None \<Rightarrow> None | Some c \<Rightarrow> get c)"

definition copy_ref ::
    "'c \<Rightarrow> ('m \<Rightarrow> 'c) \<Rightarrow> ('c \<Rightarrow> 'm option) \<Rightarrow> ('m \<Rightarrow> 'c list \<Rightarrow> 'm \<times> 'c list) \<Rightarrow> ref \<Rightarrow> 'c list \<Rightarrow> ref \<times> 'c list" where
  "copy_ref blank put get f p s =
     (case p of
        None \<Rightarrow> (None, s)
      | Some a \<Rightarrow>
          (case load get s a of
             None \<Rightarrow> (None, s)
           | Some m \<Rightarrow> (let b = length s; (m', s') = f m (s @ [blank]) in (Some b, s'[b := put m']))))"

definition view_ref ::
    "('c \<Rightarrow> 'm option) \<Rightarrow> ('c list \<Rightarrow> 'm \<Rightarrow> 'v option) \<Rightarrow> 'c list \<Rightarrow> ref \<Rightarrow> 'v option option" where
  "view_ref get vf s p =
     (case p of
        None \<Rightarrow> Some None
      | Some a \<Rightarrow> (case load get s a of None \<Rightarrow> None | Some m \<Rightarrow> map_option Some (vf s m)))"

definition cells_ref :: "('c \<Rightarrow> 'm option) \<Rightarrow> ('c list \<Rightarrow> 'm \<Rightarrow> addr list) \<Rightarrow> 'c list \<Rightarrow> ref \<Rightarrow> addr list" where
  "cells_ref get cf s p =
     (case p of None \<Rightarrow> [] | Some a \<Rightarrow> a # (case load get s a of None \<Rightarrow> [] | Some m \<Rightarrow> cf s m))"

lemma load_agrees: "cell_at t a = cell_at s a \<Longrightarrow> load get t a = load get s a"
  by (simp add: load_def)

lemma load_inside: "load get s a = Some m \<Longrightarrow> a < length s"
  by (simp add: load_def cell_at_def split: if_splits)

lemma deep_copier_ref:
  assumes F: "deep_copier f vf cf" and get: "\<And>m. get (put m) = Some m"
  shows "deep_copier (copy_ref blank put get f) (view_ref get vf) (cells_ref get cf)"
proof
  fix s t :: "'b list" and p :: ref
  assume ag: "agree_on (cells_ref get cf s p) s t"
  have "view_ref get vf t p = view_ref get vf s p \<and> cells_ref get cf t p = cells_ref get cf s p"
  proof (cases p)
    case (Some a)
    from ag Some have a: "load get t a = load get s a" by (intro load_agrees) (simp add: cells_ref_def)
    show ?thesis
    proof (cases "load get s a")
      case None
      with a Some show ?thesis by (simp add: view_ref_def cells_ref_def)
    next
      case (Some m)
      with ag \<open>p = Some a\<close> have "agree_on (cf s m) s t" by (simp add: cells_ref_def)
      with a Some \<open>p = Some a\<close> show ?thesis
        by (simp add: view_ref_def cells_ref_def deep_copier.local_view [OF F] deep_copier.local_cells [OF F])
    qed
  qed (simp add: view_ref_def cells_ref_def)
  then show "view_ref get vf t p = view_ref get vf s p" "cells_ref get cf t p = cells_ref get cf s p" by simp_all
next
  fix s :: "'b list" and p :: ref and v
  assume v: "view_ref get vf s p = Some v"
  show "allocated s (cells_ref get cf s p)"
  proof (cases p)
    case (Some a)
    with v obtain m w where m: "load get s a = Some m" "vf s m = Some w"
      by (auto simp: view_ref_def split: option.splits)
    with Some show ?thesis
      using load_inside [OF m(1)] deep_copier.inside [OF F m(2)] by (simp add: cells_ref_def)
  qed (simp add: cells_ref_def)
next
  fix s :: "'b list" and p :: ref and v
  assume v: "view_ref get vf s p = Some v"
  show "\<exists>q t. copy_ref blank put get f p s = (q, s @ t) \<and> view_ref get vf (s @ t) q = Some v \<and>
      (\<forall>a \<in> set (cells_ref get cf (s @ t) q). length s \<le> a) \<and> distinct (cells_ref get cf (s @ t) q)"
  proof (cases p)
    case None
    with v show ?thesis by (intro exI [of _ None] exI [of _ "[]"]) (simp add: copy_ref_def view_ref_def cells_ref_def)
  next
    case (Some a)
    with v obtain m w where m: "load get s a = Some m" "vf s m = Some w" "v = Some w"
      by (auto simp: view_ref_def split: option.splits)
    from deep_copier.copied [OF F deep_copier.view_extended [OF F m(2), of "[blank]"]] obtain m' t where
      m': "f m (s @ [blank]) = (m', (s @ [blank]) @ t)" "vf (s @ blank # t) m' = Some w"
      "\<forall>a \<in> set (cf (s @ blank # t) m'). Suc (length s) \<le> a" "distinct (cf (s @ blank # t) m')" by auto
    let ?s = "s @ put m' # t"
    have "\<forall>a \<in> set (cf (s @ blank # t) m'). a \<noteq> length s" using m'(3) by auto
    then have ag: "agree_on (cf (s @ blank # t) m') (s @ blank # t) ?s" by (rule agree_on_rebuilt)
    note new = deep_copier.local_view [OF F ag] deep_copier.local_cells [OF F ag]
    have cell: "load get ?s (length s) = Some m'" by (simp add: load_def get)
    show ?thesis
    proof (intro exI conjI)
      show "copy_ref blank put get f p s = (Some (length s), ?s)"
        using Some m(1) m'(1) by (simp add: copy_ref_def list_update_append)
      show "view_ref get vf ?s (Some (length s)) = Some v" using cell new m'(2) m(3) by (simp add: view_ref_def)
      show "\<forall>a \<in> set (cells_ref get cf ?s (Some (length s))). length s \<le> a"
        using cell new m'(3) by (auto simp: cells_ref_def dest: Suc_leD)
      show "distinct (cells_ref get cf ?s (Some (length s)))"
        using cell new m'(3,4) by (fastforce simp: cells_ref_def)
    qed
  qed
qed

section \<open>Structs\<close>

text \<open>
  A struct is copied by copying what it holds by reference: \<open>refs\<close> takes these fields out, \<open>put\<close> replaces
  them, and \<open>build\<close> makes the value from the other fields and what the references stand for.
\<close>

lemma deep_copier_struct:
  assumes F: "deep_copier f vf cf"
    and copy: "\<And>m s. copy m s = (case f (refs m) s of (r, s') \<Rightarrow> (put r m, s'))"
    and view: "\<And>s m. view s m = map_option (build m) (vf s (refs m))"
    and cells: "\<And>s m. cells s m = cf s (refs m)"
    and refs: "\<And>m r. refs (put r m) = r" and build: "\<And>m r w. build (put r m) w = build m w"
  shows "deep_copier copy view cells"
proof
  fix s t m
  assume ag: "agree_on (cells s m) s t"
  then have ag': "agree_on (cf s (refs m)) s t" by (simp add: cells)
  show "view t m = view s m" by (simp add: view deep_copier.local_view [OF F ag'])
  show "cells t m = cells s m" by (simp add: cells deep_copier.local_cells [OF F ag'])
next
  fix s m v
  assume "view s m = Some v"
  then obtain w where w: "vf s (refs m) = Some w" "v = build m w" by (auto simp: view)
  show "allocated s (cells s m)" using deep_copier.inside [OF F w(1)] by (simp add: cells)
  from deep_copier.copied [OF F w(1)] obtain r t where "f (refs m) s = (r, s @ t)" "vf (s @ t) r = Some w"
    "\<forall>a \<in> set (cf (s @ t) r). length s \<le> a" "distinct (cf (s @ t) r)" by blast
  then show "\<exists>m' t. copy m s = (m', s @ t) \<and> view (s @ t) m' = Some v \<and>
      (\<forall>a \<in> set (cells (s @ t) m'). length s \<le> a) \<and> distinct (cells (s @ t) m')"
    using w(2) by (intro exI [of _ "put r m"] exI [of _ t]) (simp add: copy view cells refs build)
qed

end
