(* ===== verification/DeepCopyTypes.thy ===== *)
theory DeepCopyTypes
  imports ApiTypes GoMemory
begin

text \<open>
  The resources of \<open>api/v1alpha1\<close> as they lie in memory: a struct is a record in which pointers, slices and maps
  are references, and every type that is allocated has its own kind of cell. \<open>'x\<close> is the in-memory form of
  the library structs embedded in them (\<open>ObjectMeta\<close>, \<open>ListMeta\<close>, \<open>RawExtension\<close>); their copy methods are
  parameters, as are those of \<open>metav1.Time\<close> and \<open>metav1.Condition\<close>.
\<close>

section \<open>Structs\<close>

record type_meta =
  tm_kind :: string
  tm_api_version :: string

record list_meta =
  lm_resource_version :: string
  lm_continue :: string
  lm_remaining :: "int option"

record mem_function_config =
  mfc_region :: string
  mfc_compartment_id :: string
  mfc_application_name :: string
  mfc_subnet_ids :: ref
  mfc_nsg_ids :: ref
  mfc_application_ocid :: string
  mfc_display_name :: string
  mfc_image :: string
  mfc_memory_in_mbs :: int32
  mfc_memory_in_mb :: int32
  mfc_timeout_in_seconds :: int32
  mfc_config :: ref
  mfc_environment :: ref
  mfc_freeform_tags :: ref

record mem_function_spec =
  mfs_mode :: function_mode
  mfs_function_id :: string
  mfs_existing_function_ocid :: string
  mfs_invoke_endpoint :: string
  mfs_config :: ref
  mfs_application_ref :: ref
  mfs_deletion_policy :: deletion_policy

record mem_function_status =
  mfst_observed_generation :: int
  mfst_phase :: function_phase
  mfst_function_ocid :: string
  mfst_function_id :: string
  mfst_application_id :: string
  mfst_invoke_endpoint :: string
  mfst_message :: string
  mfst_last_sync_time :: ref
  mfst_conditions :: ref

record 'x mem_function =
  mfn_type :: type_meta
  mfn_meta :: 'x
  mfn_spec :: mem_function_spec
  mfn_status :: mem_function_status

record mem_invocation_logs =
  mil_enabled :: ref
  mil_log_group_id :: string
  mil_log_display_name :: string
  mil_service :: string
  mil_category :: string
  mil_line_format :: string

record mem_application_logging =
  mls_invocation_logs :: ref

record mem_application_spec =
  mas_mode :: application_mode
  mas_compartment_id :: string
  mas_display_name :: string
  mas_region :: string
  mas_subnet_ids :: ref
  mas_nsg_ids :: ref
  mas_config :: ref
  mas_logging :: ref
  mas_existing_application_id :: string
  mas_deletion_policy :: deletion_policy

record mem_application_status =
  mast_observed_generation :: int
  mast_phase :: application_phase
  mast_application_id :: string
  mast_display_name :: string
  mast_region :: string
  mast_message :: string
  mast_last_sync_time :: ref
  mast_conditions :: ref

record 'x mem_application =
  mapp_type :: type_meta
  mapp_meta :: 'x
  mapp_spec :: mem_application_spec
  mapp_status :: mem_application_status

record mem_job_spec =
  mjs_function_ref :: function_reference
  mjs_payload :: ref
  mjs_payloads :: ref
  mjs_parallelism :: int32
  mjs_retry_limit :: int32

record mem_job_invocation =
  mis_index :: int32
  mis_payload_digest :: string
  mis_phase :: invocation_phase
  mis_attempts :: int32
  mis_invocation_id :: string
  mis_oci_request_id :: string
  mis_status_code :: int32
  mis_error :: string
  mis_completed_at :: ref

record mem_job_status =
  mjst_observed_generation :: int
  mjst_phase :: job_phase
  mjst_start_time :: ref
  mjst_completion_time :: ref
  mjst_active :: int32
  mjst_succeeded :: int32
  mjst_failed :: int32
  mjst_retries :: int32
  mjst_last_error :: string
  mjst_last_oci_request_id :: string
  mjst_invocations :: ref
  mjst_conditions :: ref

record 'x mem_job =
  mjob_type :: type_meta
  mjob_meta :: 'x
  mjob_spec :: mem_job_spec
  mjob_status :: mem_job_status

record mem_event_spec =
  mes_event_type :: string
  mes_source :: string
  mes_subject :: string
  mes_payload :: ref
  mes_id :: string
  mes_ttl_seconds :: ref

record mem_event_invocation =
  mei_trigger_name :: string
  mei_function_name :: string
  mei_phase :: event_invocation_phase
  mei_attempts :: int32
  mei_last_attempt :: ref
  mei_message :: string

record mem_event_status =
  mest_observed_generation :: int
  mest_phase :: event_phase
  mest_matched_triggers :: ref
  mest_invocations :: ref
  mest_message :: string
  mest_conditions :: ref

record 'x mem_event =
  mev_type :: type_meta
  mev_meta :: 'x
  mev_spec :: mem_event_spec
  mev_status :: mem_event_status

record mem_event_condition =
  mec_raw_json :: string
  mec_event_type :: ref
  mec_data :: ref

record mem_trigger_spec =
  mts_function_ref :: function_reference
  mts_compartment_id :: string
  mts_display_name :: string
  mts_description :: string
  mts_is_enabled :: ref
  mts_condition :: mem_event_condition
  mts_deletion_policy :: deletion_policy

record mem_trigger_status =
  mtst_observed_generation :: int
  mtst_phase :: trigger_phase
  mtst_rule_id :: string
  mtst_last_sync_time :: ref
  mtst_message :: string
  mtst_conditions :: ref

record 'x mem_trigger =
  mtr_type :: type_meta
  mtr_meta :: 'x
  mtr_spec :: mem_trigger_spec
  mtr_status :: mem_trigger_status

text \<open>The list structs have all the same fields; they differ in the kind of array that \<open>Items\<close> leads to.\<close>

record 'x mem_list =
  ml_type :: type_meta
  ml_meta :: 'x
  ml_items :: ref

type_synonym 'x mem_function_list = "'x mem_list"
type_synonym 'x mem_application_list = "'x mem_list"
type_synonym 'x mem_job_list = "'x mem_list"
type_synonym 'x mem_event_list = "'x mem_list"
type_synonym 'x mem_trigger_list = "'x mem_list"

section \<open>Cells\<close>

datatype 'x cell =
    BlankCell
  | BoolCell bool
  | Int32Cell int32
  | TimeCell time
  | StringsCell "string list"
  | MapCell go_map
  | RawCell 'x
  | RawsCell "'x list"
  | ConditionsCell "condition list"
  | ApplicationReferenceCell application_reference
  | FunctionReferenceCell function_reference
  | FunctionConfigCell mem_function_config
  | FunctionSpecCell mem_function_spec
  | FunctionStatusCell mem_function_status
  | FunctionCell "'x mem_function"
  | FunctionListCell "'x mem_list"
  | InvocationLogsCell mem_invocation_logs
  | ApplicationLoggingCell mem_application_logging
  | ApplicationSpecCell mem_application_spec
  | ApplicationStatusCell mem_application_status
  | ApplicationCell "'x mem_application"
  | ApplicationListCell "'x mem_list"
  | JobSpecCell mem_job_spec
  | JobInvocationCell mem_job_invocation
  | JobStatusCell mem_job_status
  | JobCell "'x mem_job"
  | JobListCell "'x mem_list"
  | EventSpecCell mem_event_spec
  | EventInvocationCell mem_event_invocation
  | EventStatusCell mem_event_status
  | EventCell "'x mem_event"
  | EventListCell "'x mem_list"
  | EventConditionCell mem_event_condition
  | TriggerSpecCell mem_trigger_spec
  | TriggerStatusCell mem_trigger_status
  | TriggerCell "'x mem_trigger"
  | TriggerListCell "'x mem_list"
  | JobInvocationsCell "mem_job_invocation list"
  | EventInvocationsCell "mem_event_invocation list"
  | FunctionsCell "'x mem_function list"
  | ApplicationsCell "'x mem_application list"
  | JobsCell "'x mem_job list"
  | EventsCell "'x mem_event list"
  | TriggersCell "'x mem_trigger list"

text \<open>What a cell holds, read at a type.\<close>

definition read_bool :: "'x cell \<Rightarrow> bool option" where
  "read_bool c = (case c of BoolCell m \<Rightarrow> Some m | _ \<Rightarrow> None)"

definition read_int32 :: "'x cell \<Rightarrow> int32 option" where
  "read_int32 c = (case c of Int32Cell m \<Rightarrow> Some m | _ \<Rightarrow> None)"

definition read_time :: "'x cell \<Rightarrow> time option" where
  "read_time c = (case c of TimeCell m \<Rightarrow> Some m | _ \<Rightarrow> None)"

definition read_strings :: "'x cell \<Rightarrow> string list option" where
  "read_strings c = (case c of StringsCell m \<Rightarrow> Some m | _ \<Rightarrow> None)"

definition read_string_map :: "'x cell \<Rightarrow> go_map option" where
  "read_string_map c = (case c of MapCell m \<Rightarrow> Some m | _ \<Rightarrow> None)"

definition read_raw :: "'x cell \<Rightarrow> 'x option" where
  "read_raw c = (case c of RawCell m \<Rightarrow> Some m | _ \<Rightarrow> None)"

definition read_raws :: "'x cell \<Rightarrow> 'x list option" where
  "read_raws c = (case c of RawsCell m \<Rightarrow> Some m | _ \<Rightarrow> None)"

definition read_conditions :: "'x cell \<Rightarrow> condition list option" where
  "read_conditions c = (case c of ConditionsCell m \<Rightarrow> Some m | _ \<Rightarrow> None)"

definition read_application_reference :: "'x cell \<Rightarrow> application_reference option" where
  "read_application_reference c = (case c of ApplicationReferenceCell m \<Rightarrow> Some m | _ \<Rightarrow> None)"

definition read_function_reference :: "'x cell \<Rightarrow> function_reference option" where
  "read_function_reference c = (case c of FunctionReferenceCell m \<Rightarrow> Some m | _ \<Rightarrow> None)"

definition read_function_config :: "'x cell \<Rightarrow> mem_function_config option" where
  "read_function_config c = (case c of FunctionConfigCell m \<Rightarrow> Some m | _ \<Rightarrow> None)"

definition read_function_spec :: "'x cell \<Rightarrow> mem_function_spec option" where
  "read_function_spec c = (case c of FunctionSpecCell m \<Rightarrow> Some m | _ \<Rightarrow> None)"

definition read_function_status :: "'x cell \<Rightarrow> mem_function_status option" where
  "read_function_status c = (case c of FunctionStatusCell m \<Rightarrow> Some m | _ \<Rightarrow> None)"

definition read_function :: "'x cell \<Rightarrow> 'x mem_function option" where
  "read_function c = (case c of FunctionCell m \<Rightarrow> Some m | _ \<Rightarrow> None)"

definition read_function_list :: "'x cell \<Rightarrow> 'x mem_list option" where
  "read_function_list c = (case c of FunctionListCell m \<Rightarrow> Some m | _ \<Rightarrow> None)"

definition read_invocation_logs :: "'x cell \<Rightarrow> mem_invocation_logs option" where
  "read_invocation_logs c = (case c of InvocationLogsCell m \<Rightarrow> Some m | _ \<Rightarrow> None)"

definition read_application_logging :: "'x cell \<Rightarrow> mem_application_logging option" where
  "read_application_logging c = (case c of ApplicationLoggingCell m \<Rightarrow> Some m | _ \<Rightarrow> None)"

definition read_application_spec :: "'x cell \<Rightarrow> mem_application_spec option" where
  "read_application_spec c = (case c of ApplicationSpecCell m \<Rightarrow> Some m | _ \<Rightarrow> None)"

definition read_application_status :: "'x cell \<Rightarrow> mem_application_status option" where
  "read_application_status c = (case c of ApplicationStatusCell m \<Rightarrow> Some m | _ \<Rightarrow> None)"

definition read_application :: "'x cell \<Rightarrow> 'x mem_application option" where
  "read_application c = (case c of ApplicationCell m \<Rightarrow> Some m | _ \<Rightarrow> None)"

definition read_application_list :: "'x cell \<Rightarrow> 'x mem_list option" where
  "read_application_list c = (case c of ApplicationListCell m \<Rightarrow> Some m | _ \<Rightarrow> None)"

definition read_job_spec :: "'x cell \<Rightarrow> mem_job_spec option" where
  "read_job_spec c = (case c of JobSpecCell m \<Rightarrow> Some m | _ \<Rightarrow> None)"

definition read_job_invocation :: "'x cell \<Rightarrow> mem_job_invocation option" where
  "read_job_invocation c = (case c of JobInvocationCell m \<Rightarrow> Some m | _ \<Rightarrow> None)"

definition read_job_status :: "'x cell \<Rightarrow> mem_job_status option" where
  "read_job_status c = (case c of JobStatusCell m \<Rightarrow> Some m | _ \<Rightarrow> None)"

definition read_job :: "'x cell \<Rightarrow> 'x mem_job option" where
  "read_job c = (case c of JobCell m \<Rightarrow> Some m | _ \<Rightarrow> None)"

definition read_job_list :: "'x cell \<Rightarrow> 'x mem_list option" where
  "read_job_list c = (case c of JobListCell m \<Rightarrow> Some m | _ \<Rightarrow> None)"

definition read_event_spec :: "'x cell \<Rightarrow> mem_event_spec option" where
  "read_event_spec c = (case c of EventSpecCell m \<Rightarrow> Some m | _ \<Rightarrow> None)"

definition read_event_invocation :: "'x cell \<Rightarrow> mem_event_invocation option" where
  "read_event_invocation c = (case c of EventInvocationCell m \<Rightarrow> Some m | _ \<Rightarrow> None)"

definition read_event_status :: "'x cell \<Rightarrow> mem_event_status option" where
  "read_event_status c = (case c of EventStatusCell m \<Rightarrow> Some m | _ \<Rightarrow> None)"

definition read_event :: "'x cell \<Rightarrow> 'x mem_event option" where
  "read_event c = (case c of EventCell m \<Rightarrow> Some m | _ \<Rightarrow> None)"

definition read_event_list :: "'x cell \<Rightarrow> 'x mem_list option" where
  "read_event_list c = (case c of EventListCell m \<Rightarrow> Some m | _ \<Rightarrow> None)"

definition read_event_condition :: "'x cell \<Rightarrow> mem_event_condition option" where
  "read_event_condition c = (case c of EventConditionCell m \<Rightarrow> Some m | _ \<Rightarrow> None)"

definition read_trigger_spec :: "'x cell \<Rightarrow> mem_trigger_spec option" where
  "read_trigger_spec c = (case c of TriggerSpecCell m \<Rightarrow> Some m | _ \<Rightarrow> None)"

definition read_trigger_status :: "'x cell \<Rightarrow> mem_trigger_status option" where
  "read_trigger_status c = (case c of TriggerStatusCell m \<Rightarrow> Some m | _ \<Rightarrow> None)"

definition read_trigger :: "'x cell \<Rightarrow> 'x mem_trigger option" where
  "read_trigger c = (case c of TriggerCell m \<Rightarrow> Some m | _ \<Rightarrow> None)"

definition read_trigger_list :: "'x cell \<Rightarrow> 'x mem_list option" where
  "read_trigger_list c = (case c of TriggerListCell m \<Rightarrow> Some m | _ \<Rightarrow> None)"

definition read_job_invocations :: "'x cell \<Rightarrow> mem_job_invocation list option" where
  "read_job_invocations c = (case c of JobInvocationsCell m \<Rightarrow> Some m | _ \<Rightarrow> None)"

definition read_event_invocations :: "'x cell \<Rightarrow> mem_event_invocation list option" where
  "read_event_invocations c = (case c of EventInvocationsCell m \<Rightarrow> Some m | _ \<Rightarrow> None)"

definition read_functions :: "'x cell \<Rightarrow> 'x mem_function list option" where
  "read_functions c = (case c of FunctionsCell m \<Rightarrow> Some m | _ \<Rightarrow> None)"

definition read_applications :: "'x cell \<Rightarrow> 'x mem_application list option" where
  "read_applications c = (case c of ApplicationsCell m \<Rightarrow> Some m | _ \<Rightarrow> None)"

definition read_jobs :: "'x cell \<Rightarrow> 'x mem_job list option" where
  "read_jobs c = (case c of JobsCell m \<Rightarrow> Some m | _ \<Rightarrow> None)"

definition read_events :: "'x cell \<Rightarrow> 'x mem_event list option" where
  "read_events c = (case c of EventsCell m \<Rightarrow> Some m | _ \<Rightarrow> None)"

definition read_triggers :: "'x cell \<Rightarrow> 'x mem_trigger list option" where
  "read_triggers c = (case c of TriggersCell m \<Rightarrow> Some m | _ \<Rightarrow> None)"

section \<open>The library\<close>

record 'x copy_library =
  lib_object_meta :: "'x \<Rightarrow> 'x cell list \<Rightarrow> 'x \<times> 'x cell list"
  lib_list_meta :: "'x \<Rightarrow> 'x cell list \<Rightarrow> 'x \<times> 'x cell list"
  lib_raw :: "'x \<Rightarrow> 'x cell list \<Rightarrow> 'x \<times> 'x cell list"
  lib_time :: "ref \<Rightarrow> 'x cell list \<Rightarrow> ref \<times> 'x cell list"
  lib_condition :: "condition \<Rightarrow> condition"

end
