(* ===== verification/DeepCopy.thy ===== *)
theory DeepCopy
  imports DeepCopyTypes
begin

text \<open>
  \<open>api/v1alpha1/zz_generated.deepcopy.go\<close>: for every struct \<open>copy_*_into\<close> is \<open>DeepCopyInto\<close> (the struct is
  assigned as a whole, then what it holds by reference is replaced by copies), \<open>deep_copy_*\<close> is \<open>DeepCopy\<close>
  (nil, or a new cell that the struct is copied into) and \<open>deep_copy_*_object\<close> is \<open>DeepCopyObject\<close>.
\<close>

section \<open>Fields held by reference\<close>

text \<open>\<open>make\<close> and \<open>copy\<close> for strings; for a map, \<open>make\<close> and one assignment per entry.\<close>

definition copy_strings :: "ref \<Rightarrow> 'x cell list \<Rightarrow> ref \<times> 'x cell list" where
  "copy_strings = copy_ref BlankCell StringsCell read_strings copy_plain"

fun put_entry :: "string \<Rightarrow> string \<Rightarrow> go_map \<Rightarrow> go_map" where
  "put_entry k v [] = [(k, v)]"
| "put_entry k v ((k', v') # m) = (if k' = k then (k, v) # m else (k', v') # put_entry k v m)"

definition copy_entries :: "go_map \<Rightarrow> 'x cell list \<Rightarrow> go_map \<times> 'x cell list" where
  "copy_entries m s = (foldl (\<lambda>out (k, v). put_entry k v out) [] m, s)"

definition copy_string_map :: "ref \<Rightarrow> 'x cell list \<Rightarrow> ref \<times> 'x cell list" where
  "copy_string_map = copy_ref BlankCell MapCell read_string_map copy_entries"

definition copy_bool :: "ref \<Rightarrow> 'x cell list \<Rightarrow> ref \<times> 'x cell list" where
  "copy_bool = copy_ref BlankCell BoolCell read_bool copy_plain"

definition copy_int32 :: "ref \<Rightarrow> 'x cell list \<Rightarrow> ref \<times> 'x cell list" where
  "copy_int32 = copy_ref BlankCell Int32Cell read_int32 copy_plain"

definition copy_time :: "'x copy_library \<Rightarrow> ref \<Rightarrow> 'x cell list \<Rightarrow> ref \<times> 'x cell list" where
  "copy_time L p s = (case p of None \<Rightarrow> (None, s) | Some a \<Rightarrow> lib_time L p s)"

definition copy_conditions :: "'x copy_library \<Rightarrow> ref \<Rightarrow> 'x cell list \<Rightarrow> ref \<times> 'x cell list" where
  "copy_conditions L = copy_ref BlankCell ConditionsCell read_conditions (copy_each (\<lambda>c s. (lib_condition L c, s)))"

definition copy_raw_pointer :: "'x copy_library \<Rightarrow> ref \<Rightarrow> 'x cell list \<Rightarrow> ref \<times> 'x cell list" where
  "copy_raw_pointer L = copy_ref BlankCell RawCell read_raw (lib_raw L)"

definition copy_raws :: "'x copy_library \<Rightarrow> ref \<Rightarrow> 'x cell list \<Rightarrow> ref \<times> 'x cell list" where
  "copy_raws L = copy_ref BlankCell RawsCell read_raws (copy_each (lib_raw L))"

section \<open>Structs\<close>

text \<open>What \<open>DeepCopyObject\<close> returns: a pointer at one of the object types, as a \<open>runtime.Object\<close>.\<close>

datatype runtime_object =
    FunctionObject addr
  | FunctionListObject addr
  | ApplicationObject addr
  | ApplicationListObject addr
  | JobObject addr
  | JobListObject addr
  | EventObject addr
  | EventListObject addr
  | TriggerObject addr
  | TriggerListObject addr

definition copy_application_reference_into :: "application_reference \<Rightarrow> 'x cell list \<Rightarrow> application_reference \<times> 'x cell list" where
  "copy_application_reference_into m s = (m, s)"

definition deep_copy_application_reference :: "ref \<Rightarrow> 'x cell list \<Rightarrow> ref \<times> 'x cell list" where
  "deep_copy_application_reference = copy_ref BlankCell ApplicationReferenceCell read_application_reference copy_application_reference_into"

definition copy_function_reference_into :: "function_reference \<Rightarrow> 'x cell list \<Rightarrow> function_reference \<times> 'x cell list" where
  "copy_function_reference_into m s = (m, s)"

definition deep_copy_function_reference :: "ref \<Rightarrow> 'x cell list \<Rightarrow> ref \<times> 'x cell list" where
  "deep_copy_function_reference = copy_ref BlankCell FunctionReferenceCell read_function_reference copy_function_reference_into"

definition copy_function_config_into :: "mem_function_config \<Rightarrow> 'x cell list \<Rightarrow> mem_function_config \<times> 'x cell list" where
  "copy_function_config_into m s =
     (let (a, s1) = copy_strings (mfc_subnet_ids m) s;
          (b, s2) = copy_strings (mfc_nsg_ids m) s1;
          (c, s3) = copy_string_map (mfc_config m) s2;
          (d, s4) = copy_string_map (mfc_environment m) s3;
          (e, s5) = copy_string_map (mfc_freeform_tags m) s4
      in (m\<lparr>mfc_subnet_ids := a, mfc_nsg_ids := b, mfc_config := c, mfc_environment := d, mfc_freeform_tags := e\<rparr>, s5))"

definition deep_copy_function_config :: "ref \<Rightarrow> 'x cell list \<Rightarrow> ref \<times> 'x cell list" where
  "deep_copy_function_config = copy_ref BlankCell FunctionConfigCell read_function_config copy_function_config_into"

definition copy_function_spec_into :: "mem_function_spec \<Rightarrow> 'x cell list \<Rightarrow> mem_function_spec \<times> 'x cell list" where
  "copy_function_spec_into m s =
     (let (a, s1) = deep_copy_function_config (mfs_config m) s;
          (b, s2) = copy_ref BlankCell ApplicationReferenceCell read_application_reference copy_plain (mfs_application_ref m) s1
      in (m\<lparr>mfs_config := a, mfs_application_ref := b\<rparr>, s2))"

definition deep_copy_function_spec :: "ref \<Rightarrow> 'x cell list \<Rightarrow> ref \<times> 'x cell list" where
  "deep_copy_function_spec = copy_ref BlankCell FunctionSpecCell read_function_spec copy_function_spec_into"

definition copy_function_status_into :: "'x copy_library \<Rightarrow> mem_function_status \<Rightarrow> 'x cell list \<Rightarrow> mem_function_status \<times> 'x cell list" where
  "copy_function_status_into L m s =
     (let (a, s1) = copy_time L (mfst_last_sync_time m) s;
          (b, s2) = copy_conditions L (mfst_conditions m) s1
      in (m\<lparr>mfst_last_sync_time := a, mfst_conditions := b\<rparr>, s2))"

definition deep_copy_function_status :: "'x copy_library \<Rightarrow> ref \<Rightarrow> 'x cell list \<Rightarrow> ref \<times> 'x cell list" where
  "deep_copy_function_status L = copy_ref BlankCell FunctionStatusCell read_function_status (copy_function_status_into L)"

definition copy_function_into :: "'x copy_library \<Rightarrow> 'x mem_function \<Rightarrow> 'x cell list \<Rightarrow> 'x mem_function \<times> 'x cell list" where
  "copy_function_into L m s =
     (let (a, s1) = lib_object_meta L (mfn_meta m) s;
          (b, s2) = copy_function_spec_into (mfn_spec m) s1;
          (c, s3) = copy_function_status_into L (mfn_status m) s2
      in (m\<lparr>mfn_meta := a, mfn_spec := b, mfn_status := c\<rparr>, s3))"

definition deep_copy_function :: "'x copy_library \<Rightarrow> ref \<Rightarrow> 'x cell list \<Rightarrow> ref \<times> 'x cell list" where
  "deep_copy_function L = copy_ref BlankCell FunctionCell read_function (copy_function_into L)"

definition deep_copy_function_object :: "'x copy_library \<Rightarrow> ref \<Rightarrow> 'x cell list \<Rightarrow> runtime_object option \<times> 'x cell list" where
  "deep_copy_function_object L p s = (case deep_copy_function L p s of (c, s') \<Rightarrow> (map_option FunctionObject c, s'))"

definition copy_functions :: "'x copy_library \<Rightarrow> ref \<Rightarrow> 'x cell list \<Rightarrow> ref \<times> 'x cell list" where
  "copy_functions L = copy_ref BlankCell FunctionsCell read_functions (copy_each (copy_function_into L))"

definition copy_function_list_into :: "'x copy_library \<Rightarrow> 'x mem_list \<Rightarrow> 'x cell list \<Rightarrow> 'x mem_list \<times> 'x cell list" where
  "copy_function_list_into L m s =
     (let (a, s1) = lib_list_meta L (ml_meta m) s;
          (b, s2) = copy_functions L (ml_items m) s1
      in (m\<lparr>ml_meta := a, ml_items := b\<rparr>, s2))"

definition deep_copy_function_list :: "'x copy_library \<Rightarrow> ref \<Rightarrow> 'x cell list \<Rightarrow> ref \<times> 'x cell list" where
  "deep_copy_function_list L = copy_ref BlankCell FunctionListCell read_function_list (copy_function_list_into L)"

definition deep_copy_function_list_object :: "'x copy_library \<Rightarrow> ref \<Rightarrow> 'x cell list \<Rightarrow> runtime_object option \<times> 'x cell list" where
  "deep_copy_function_list_object L p s = (case deep_copy_function_list L p s of (c, s') \<Rightarrow> (map_option FunctionListObject c, s'))"

definition copy_invocation_logs_into :: "mem_invocation_logs \<Rightarrow> 'x cell list \<Rightarrow> mem_invocation_logs \<times> 'x cell list" where
  "copy_invocation_logs_into m s =
     (let (a, s1) = copy_bool (mil_enabled m) s
      in (m\<lparr>mil_enabled := a\<rparr>, s1))"

definition deep_copy_invocation_logs :: "ref \<Rightarrow> 'x cell list \<Rightarrow> ref \<times> 'x cell list" where
  "deep_copy_invocation_logs = copy_ref BlankCell InvocationLogsCell read_invocation_logs copy_invocation_logs_into"

definition copy_application_logging_into :: "mem_application_logging \<Rightarrow> 'x cell list \<Rightarrow> mem_application_logging \<times> 'x cell list" where
  "copy_application_logging_into m s =
     (let (a, s1) = deep_copy_invocation_logs (mls_invocation_logs m) s
      in (m\<lparr>mls_invocation_logs := a\<rparr>, s1))"

definition deep_copy_application_logging :: "ref \<Rightarrow> 'x cell list \<Rightarrow> ref \<times> 'x cell list" where
  "deep_copy_application_logging = copy_ref BlankCell ApplicationLoggingCell read_application_logging copy_application_logging_into"

definition copy_application_spec_into :: "mem_application_spec \<Rightarrow> 'x cell list \<Rightarrow> mem_application_spec \<times> 'x cell list" where
  "copy_application_spec_into m s =
     (let (a, s1) = copy_strings (mas_subnet_ids m) s;
          (b, s2) = copy_strings (mas_nsg_ids m) s1;
          (c, s3) = copy_string_map (mas_config m) s2;
          (d, s4) = deep_copy_application_logging (mas_logging m) s3
      in (m\<lparr>mas_subnet_ids := a, mas_nsg_ids := b, mas_config := c, mas_logging := d\<rparr>, s4))"

definition deep_copy_application_spec :: "ref \<Rightarrow> 'x cell list \<Rightarrow> ref \<times> 'x cell list" where
  "deep_copy_application_spec = copy_ref BlankCell ApplicationSpecCell read_application_spec copy_application_spec_into"

definition copy_application_status_into :: "'x copy_library \<Rightarrow> mem_application_status \<Rightarrow> 'x cell list \<Rightarrow> mem_application_status \<times> 'x cell list" where
  "copy_application_status_into L m s =
     (let (a, s1) = copy_time L (mast_last_sync_time m) s;
          (b, s2) = copy_conditions L (mast_conditions m) s1
      in (m\<lparr>mast_last_sync_time := a, mast_conditions := b\<rparr>, s2))"

definition deep_copy_application_status :: "'x copy_library \<Rightarrow> ref \<Rightarrow> 'x cell list \<Rightarrow> ref \<times> 'x cell list" where
  "deep_copy_application_status L = copy_ref BlankCell ApplicationStatusCell read_application_status (copy_application_status_into L)"

definition copy_application_into :: "'x copy_library \<Rightarrow> 'x mem_application \<Rightarrow> 'x cell list \<Rightarrow> 'x mem_application \<times> 'x cell list" where
  "copy_application_into L m s =
     (let (a, s1) = lib_object_meta L (mapp_meta m) s;
          (b, s2) = copy_application_spec_into (mapp_spec m) s1;
          (c, s3) = copy_application_status_into L (mapp_status m) s2
      in (m\<lparr>mapp_meta := a, mapp_spec := b, mapp_status := c\<rparr>, s3))"

definition deep_copy_application :: "'x copy_library \<Rightarrow> ref \<Rightarrow> 'x cell list \<Rightarrow> ref \<times> 'x cell list" where
  "deep_copy_application L = copy_ref BlankCell ApplicationCell read_application (copy_application_into L)"

definition deep_copy_application_object :: "'x copy_library \<Rightarrow> ref \<Rightarrow> 'x cell list \<Rightarrow> runtime_object option \<times> 'x cell list" where
  "deep_copy_application_object L p s = (case deep_copy_application L p s of (c, s') \<Rightarrow> (map_option ApplicationObject c, s'))"

definition copy_applications :: "'x copy_library \<Rightarrow> ref \<Rightarrow> 'x cell list \<Rightarrow> ref \<times> 'x cell list" where
  "copy_applications L = copy_ref BlankCell ApplicationsCell read_applications (copy_each (copy_application_into L))"

definition copy_application_list_into :: "'x copy_library \<Rightarrow> 'x mem_list \<Rightarrow> 'x cell list \<Rightarrow> 'x mem_list \<times> 'x cell list" where
  "copy_application_list_into L m s =
     (let (a, s1) = lib_list_meta L (ml_meta m) s;
          (b, s2) = copy_applications L (ml_items m) s1
      in (m\<lparr>ml_meta := a, ml_items := b\<rparr>, s2))"

definition deep_copy_application_list :: "'x copy_library \<Rightarrow> ref \<Rightarrow> 'x cell list \<Rightarrow> ref \<times> 'x cell list" where
  "deep_copy_application_list L = copy_ref BlankCell ApplicationListCell read_application_list (copy_application_list_into L)"

definition deep_copy_application_list_object :: "'x copy_library \<Rightarrow> ref \<Rightarrow> 'x cell list \<Rightarrow> runtime_object option \<times> 'x cell list" where
  "deep_copy_application_list_object L p s = (case deep_copy_application_list L p s of (c, s') \<Rightarrow> (map_option ApplicationListObject c, s'))"

definition copy_job_spec_into :: "'x copy_library \<Rightarrow> mem_job_spec \<Rightarrow> 'x cell list \<Rightarrow> mem_job_spec \<times> 'x cell list" where
  "copy_job_spec_into L m s =
     (let (a, s1) = copy_raw_pointer L (mjs_payload m) s;
          (b, s2) = copy_raws L (mjs_payloads m) s1
      in (m\<lparr>mjs_payload := a, mjs_payloads := b\<rparr>, s2))"

definition deep_copy_job_spec :: "'x copy_library \<Rightarrow> ref \<Rightarrow> 'x cell list \<Rightarrow> ref \<times> 'x cell list" where
  "deep_copy_job_spec L = copy_ref BlankCell JobSpecCell read_job_spec (copy_job_spec_into L)"

definition copy_job_invocation_into :: "'x copy_library \<Rightarrow> mem_job_invocation \<Rightarrow> 'x cell list \<Rightarrow> mem_job_invocation \<times> 'x cell list" where
  "copy_job_invocation_into L m s =
     (let (a, s1) = copy_time L (mis_completed_at m) s
      in (m\<lparr>mis_completed_at := a\<rparr>, s1))"

definition deep_copy_job_invocation :: "'x copy_library \<Rightarrow> ref \<Rightarrow> 'x cell list \<Rightarrow> ref \<times> 'x cell list" where
  "deep_copy_job_invocation L = copy_ref BlankCell JobInvocationCell read_job_invocation (copy_job_invocation_into L)"

definition copy_job_invocations :: "'x copy_library \<Rightarrow> ref \<Rightarrow> 'x cell list \<Rightarrow> ref \<times> 'x cell list" where
  "copy_job_invocations L = copy_ref BlankCell JobInvocationsCell read_job_invocations (copy_each (copy_job_invocation_into L))"

definition copy_job_status_into :: "'x copy_library \<Rightarrow> mem_job_status \<Rightarrow> 'x cell list \<Rightarrow> mem_job_status \<times> 'x cell list" where
  "copy_job_status_into L m s =
     (let (a, s1) = copy_time L (mjst_start_time m) s;
          (b, s2) = copy_time L (mjst_completion_time m) s1;
          (c, s3) = copy_job_invocations L (mjst_invocations m) s2;
          (d, s4) = copy_conditions L (mjst_conditions m) s3
      in (m\<lparr>mjst_start_time := a, mjst_completion_time := b, mjst_invocations := c, mjst_conditions := d\<rparr>, s4))"

definition deep_copy_job_status :: "'x copy_library \<Rightarrow> ref \<Rightarrow> 'x cell list \<Rightarrow> ref \<times> 'x cell list" where
  "deep_copy_job_status L = copy_ref BlankCell JobStatusCell read_job_status (copy_job_status_into L)"

definition copy_job_into :: "'x copy_library \<Rightarrow> 'x mem_job \<Rightarrow> 'x cell list \<Rightarrow> 'x mem_job \<times> 'x cell list" where
  "copy_job_into L m s =
     (let (a, s1) = lib_object_meta L (mjob_meta m) s;
          (b, s2) = copy_job_spec_into L (mjob_spec m) s1;
          (c, s3) = copy_job_status_into L (mjob_status m) s2
      in (m\<lparr>mjob_meta := a, mjob_spec := b, mjob_status := c\<rparr>, s3))"

definition deep_copy_job :: "'x copy_library \<Rightarrow> ref \<Rightarrow> 'x cell list \<Rightarrow> ref \<times> 'x cell list" where
  "deep_copy_job L = copy_ref BlankCell JobCell read_job (copy_job_into L)"

definition deep_copy_job_object :: "'x copy_library \<Rightarrow> ref \<Rightarrow> 'x cell list \<Rightarrow> runtime_object option \<times> 'x cell list" where
  "deep_copy_job_object L p s = (case deep_copy_job L p s of (c, s') \<Rightarrow> (map_option JobObject c, s'))"

definition copy_jobs :: "'x copy_library \<Rightarrow> ref \<Rightarrow> 'x cell list \<Rightarrow> ref \<times> 'x cell list" where
  "copy_jobs L = copy_ref BlankCell JobsCell read_jobs (copy_each (copy_job_into L))"

definition copy_job_list_into :: "'x copy_library \<Rightarrow> 'x mem_list \<Rightarrow> 'x cell list \<Rightarrow> 'x mem_list \<times> 'x cell list" where
  "copy_job_list_into L m s =
     (let (a, s1) = lib_list_meta L (ml_meta m) s;
          (b, s2) = copy_jobs L (ml_items m) s1
      in (m\<lparr>ml_meta := a, ml_items := b\<rparr>, s2))"

definition deep_copy_job_list :: "'x copy_library \<Rightarrow> ref \<Rightarrow> 'x cell list \<Rightarrow> ref \<times> 'x cell list" where
  "deep_copy_job_list L = copy_ref BlankCell JobListCell read_job_list (copy_job_list_into L)"

definition deep_copy_job_list_object :: "'x copy_library \<Rightarrow> ref \<Rightarrow> 'x cell list \<Rightarrow> runtime_object option \<times> 'x cell list" where
  "deep_copy_job_list_object L p s = (case deep_copy_job_list L p s of (c, s') \<Rightarrow> (map_option JobListObject c, s'))"

definition copy_event_spec_into :: "'x copy_library \<Rightarrow> mem_event_spec \<Rightarrow> 'x cell list \<Rightarrow> mem_event_spec \<times> 'x cell list" where
  "copy_event_spec_into L m s =
     (let (a, s1) = copy_raw_pointer L (mes_payload m) s;
          (b, s2) = copy_int32 (mes_ttl_seconds m) s1
      in (m\<lparr>mes_payload := a, mes_ttl_seconds := b\<rparr>, s2))"

definition deep_copy_event_spec :: "'x copy_library \<Rightarrow> ref \<Rightarrow> 'x cell list \<Rightarrow> ref \<times> 'x cell list" where
  "deep_copy_event_spec L = copy_ref BlankCell EventSpecCell read_event_spec (copy_event_spec_into L)"

definition copy_event_invocation_into :: "'x copy_library \<Rightarrow> mem_event_invocation \<Rightarrow> 'x cell list \<Rightarrow> mem_event_invocation \<times> 'x cell list" where
  "copy_event_invocation_into L m s =
     (let (a, s1) = copy_time L (mei_last_attempt m) s
      in (m\<lparr>mei_last_attempt := a\<rparr>, s1))"

definition deep_copy_event_invocation :: "'x copy_library \<Rightarrow> ref \<Rightarrow> 'x cell list \<Rightarrow> ref \<times> 'x cell list" where
  "deep_copy_event_invocation L = copy_ref BlankCell EventInvocationCell read_event_invocation (copy_event_invocation_into L)"

definition copy_event_invocations :: "'x copy_library \<Rightarrow> ref \<Rightarrow> 'x cell list \<Rightarrow> ref \<times> 'x cell list" where
  "copy_event_invocations L = copy_ref BlankCell EventInvocationsCell read_event_invocations (copy_each (copy_event_invocation_into L))"

definition copy_event_status_into :: "'x copy_library \<Rightarrow> mem_event_status \<Rightarrow> 'x cell list \<Rightarrow> mem_event_status \<times> 'x cell list" where
  "copy_event_status_into L m s =
     (let (a, s1) = copy_strings (mest_matched_triggers m) s;
          (b, s2) = copy_event_invocations L (mest_invocations m) s1;
          (c, s3) = copy_conditions L (mest_conditions m) s2
      in (m\<lparr>mest_matched_triggers := a, mest_invocations := b, mest_conditions := c\<rparr>, s3))"

definition deep_copy_event_status :: "'x copy_library \<Rightarrow> ref \<Rightarrow> 'x cell list \<Rightarrow> ref \<times> 'x cell list" where
  "deep_copy_event_status L = copy_ref BlankCell EventStatusCell read_event_status (copy_event_status_into L)"

definition copy_event_into :: "'x copy_library \<Rightarrow> 'x mem_event \<Rightarrow> 'x cell list \<Rightarrow> 'x mem_event \<times> 'x cell list" where
  "copy_event_into L m s =
     (let (a, s1) = lib_object_meta L (mev_meta m) s;
          (b, s2) = copy_event_spec_into L (mev_spec m) s1;
          (c, s3) = copy_event_status_into L (mev_status m) s2
      in (m\<lparr>mev_meta := a, mev_spec := b, mev_status := c\<rparr>, s3))"

definition deep_copy_event :: "'x copy_library \<Rightarrow> ref \<Rightarrow> 'x cell list \<Rightarrow> ref \<times> 'x cell list" where
  "deep_copy_event L = copy_ref BlankCell EventCell read_event (copy_event_into L)"

definition deep_copy_event_object :: "'x copy_library \<Rightarrow> ref \<Rightarrow> 'x cell list \<Rightarrow> runtime_object option \<times> 'x cell list" where
  "deep_copy_event_object L p s = (case deep_copy_event L p s of (c, s') \<Rightarrow> (map_option EventObject c, s'))"

definition copy_events :: "'x copy_library \<Rightarrow> ref \<Rightarrow> 'x cell list \<Rightarrow> ref \<times> 'x cell list" where
  "copy_events L = copy_ref BlankCell EventsCell read_events (copy_each (copy_event_into L))"

definition copy_event_list_into :: "'x copy_library \<Rightarrow> 'x mem_list \<Rightarrow> 'x cell list \<Rightarrow> 'x mem_list \<times> 'x cell list" where
  "copy_event_list_into L m s =
     (let (a, s1) = lib_list_meta L (ml_meta m) s;
          (b, s2) = copy_events L (ml_items m) s1
      in (m\<lparr>ml_meta := a, ml_items := b\<rparr>, s2))"

definition deep_copy_event_list :: "'x copy_library \<Rightarrow> ref \<Rightarrow> 'x cell list \<Rightarrow> ref \<times> 'x cell list" where
  "deep_copy_event_list L = copy_ref BlankCell EventListCell read_event_list (copy_event_list_into L)"

definition deep_copy_event_list_object :: "'x copy_library \<Rightarrow> ref \<Rightarrow> 'x cell list \<Rightarrow> runtime_object option \<times> 'x cell list" where
  "deep_copy_event_list_object L p s = (case deep_copy_event_list L p s of (c, s') \<Rightarrow> (map_option EventListObject c, s'))"

definition copy_event_condition_into :: "'x copy_library \<Rightarrow> mem_event_condition \<Rightarrow> 'x cell list \<Rightarrow> mem_event_condition \<times> 'x cell list" where
  "copy_event_condition_into L m s =
     (let (a, s1) = copy_strings (mec_event_type m) s;
          (b, s2) = copy_raw_pointer L (mec_data m) s1
      in (m\<lparr>mec_event_type := a, mec_data := b\<rparr>, s2))"

definition deep_copy_event_condition :: "'x copy_library \<Rightarrow> ref \<Rightarrow> 'x cell list \<Rightarrow> ref \<times> 'x cell list" where
  "deep_copy_event_condition L = copy_ref BlankCell EventConditionCell read_event_condition (copy_event_condition_into L)"

definition copy_trigger_spec_into :: "'x copy_library \<Rightarrow> mem_trigger_spec \<Rightarrow> 'x cell list \<Rightarrow> mem_trigger_spec \<times> 'x cell list" where
  "copy_trigger_spec_into L m s =
     (let (a, s1) = copy_bool (mts_is_enabled m) s;
          (b, s2) = copy_event_condition_into L (mts_condition m) s1
      in (m\<lparr>mts_is_enabled := a, mts_condition := b\<rparr>, s2))"

definition deep_copy_trigger_spec :: "'x copy_library \<Rightarrow> ref \<Rightarrow> 'x cell list \<Rightarrow> ref \<times> 'x cell list" where
  "deep_copy_trigger_spec L = copy_ref BlankCell TriggerSpecCell read_trigger_spec (copy_trigger_spec_into L)"

definition copy_trigger_status_into :: "'x copy_library \<Rightarrow> mem_trigger_status \<Rightarrow> 'x cell list \<Rightarrow> mem_trigger_status \<times> 'x cell list" where
  "copy_trigger_status_into L m s =
     (let (a, s1) = copy_time L (mtst_last_sync_time m) s;
          (b, s2) = copy_conditions L (mtst_conditions m) s1
      in (m\<lparr>mtst_last_sync_time := a, mtst_conditions := b\<rparr>, s2))"

definition deep_copy_trigger_status :: "'x copy_library \<Rightarrow> ref \<Rightarrow> 'x cell list \<Rightarrow> ref \<times> 'x cell list" where
  "deep_copy_trigger_status L = copy_ref BlankCell TriggerStatusCell read_trigger_status (copy_trigger_status_into L)"

definition copy_trigger_into :: "'x copy_library \<Rightarrow> 'x mem_trigger \<Rightarrow> 'x cell list \<Rightarrow> 'x mem_trigger \<times> 'x cell list" where
  "copy_trigger_into L m s =
     (let (a, s1) = lib_object_meta L (mtr_meta m) s;
          (b, s2) = copy_trigger_spec_into L (mtr_spec m) s1;
          (c, s3) = copy_trigger_status_into L (mtr_status m) s2
      in (m\<lparr>mtr_meta := a, mtr_spec := b, mtr_status := c\<rparr>, s3))"

definition deep_copy_trigger :: "'x copy_library \<Rightarrow> ref \<Rightarrow> 'x cell list \<Rightarrow> ref \<times> 'x cell list" where
  "deep_copy_trigger L = copy_ref BlankCell TriggerCell read_trigger (copy_trigger_into L)"

definition deep_copy_trigger_object :: "'x copy_library \<Rightarrow> ref \<Rightarrow> 'x cell list \<Rightarrow> runtime_object option \<times> 'x cell list" where
  "deep_copy_trigger_object L p s = (case deep_copy_trigger L p s of (c, s') \<Rightarrow> (map_option TriggerObject c, s'))"

definition copy_triggers :: "'x copy_library \<Rightarrow> ref \<Rightarrow> 'x cell list \<Rightarrow> ref \<times> 'x cell list" where
  "copy_triggers L = copy_ref BlankCell TriggersCell read_triggers (copy_each (copy_trigger_into L))"

definition copy_trigger_list_into :: "'x copy_library \<Rightarrow> 'x mem_list \<Rightarrow> 'x cell list \<Rightarrow> 'x mem_list \<times> 'x cell list" where
  "copy_trigger_list_into L m s =
     (let (a, s1) = lib_list_meta L (ml_meta m) s;
          (b, s2) = copy_triggers L (ml_items m) s1
      in (m\<lparr>ml_meta := a, ml_items := b\<rparr>, s2))"

definition deep_copy_trigger_list :: "'x copy_library \<Rightarrow> ref \<Rightarrow> 'x cell list \<Rightarrow> ref \<times> 'x cell list" where
  "deep_copy_trigger_list L = copy_ref BlankCell TriggerListCell read_trigger_list (copy_trigger_list_into L)"

definition deep_copy_trigger_list_object :: "'x copy_library \<Rightarrow> ref \<Rightarrow> 'x cell list \<Rightarrow> runtime_object option \<times> 'x cell list" where
  "deep_copy_trigger_list_object L p s = (case deep_copy_trigger_list L p s of (c, s') \<Rightarrow> (map_option TriggerListObject c, s'))"

end
