(* ===== verification/DeepCopyViews.thy ===== *)
theory DeepCopyViews
  imports DeepCopy
begin

text \<open>
  What the structs in memory stand for: the records of \<open>ApiTypes\<close>. \<open>view_*\<close> follows the references, \<open>cells_*\<close>
  lists the cells it visits. A nil slice or map stands for an empty one where the record does not tell them
  apart. The parameters of the library are given the same two functions; \<open>library_ok\<close> states what
  the library documents of its copy methods.
\<close>

section \<open>The library\<close>

record 'x library_views =
  vw_object_meta :: "'x cell list \<Rightarrow> 'x \<Rightarrow> object_meta option"
  cl_object_meta :: "'x cell list \<Rightarrow> 'x \<Rightarrow> addr list"
  vw_list_meta :: "'x cell list \<Rightarrow> 'x \<Rightarrow> list_meta option"
  cl_list_meta :: "'x cell list \<Rightarrow> 'x \<Rightarrow> addr list"
  vw_raw :: "'x cell list \<Rightarrow> 'x \<Rightarrow> raw_extension option"
  cl_raw :: "'x cell list \<Rightarrow> 'x \<Rightarrow> addr list"

definition view_time :: "'x cell list \<Rightarrow> ref \<Rightarrow> time option option" where
  "view_time = view_ref read_time view_plain"

definition cells_time :: "'x cell list \<Rightarrow> ref \<Rightarrow> addr list" where
  "cells_time = cells_ref read_time cells_plain"

definition library_ok :: "'x copy_library \<Rightarrow> 'x library_views \<Rightarrow> bool" where
  "library_ok L V \<longleftrightarrow>
     deep_copier (lib_object_meta L) (vw_object_meta V) (cl_object_meta V) \<and>
     deep_copier (lib_list_meta L) (vw_list_meta V) (cl_list_meta V) \<and>
     deep_copier (lib_raw L) (vw_raw V) (cl_raw V) \<and>
     deep_copier (lib_time L) view_time cells_time \<and>
     (\<forall>c. lib_condition L c = c)"

section \<open>Fields\<close>

definition or_empty :: "'a list option \<Rightarrow> 'a list" where
  "or_empty v = (case v of None \<Rightarrow> [] | Some xs \<Rightarrow> xs)"

definition view_strings :: "'x cell list \<Rightarrow> ref \<Rightarrow> string list option option" where
  "view_strings = view_ref read_strings view_plain"

definition cells_strings :: "'x cell list \<Rightarrow> ref \<Rightarrow> addr list" where
  "cells_strings = cells_ref read_strings cells_plain"

text \<open>The keys of a Go map are distinct.\<close>

definition view_entries :: "'x cell list \<Rightarrow> go_map \<Rightarrow> go_map option" where
  "view_entries s m = (if distinct (map fst m) then Some m else None)"

definition view_string_map :: "'x cell list \<Rightarrow> ref \<Rightarrow> go_map option option" where
  "view_string_map = view_ref read_string_map view_entries"

definition cells_string_map :: "'x cell list \<Rightarrow> ref \<Rightarrow> addr list" where
  "cells_string_map = cells_ref read_string_map cells_plain"

definition view_bool :: "'x cell list \<Rightarrow> ref \<Rightarrow> bool option option" where
  "view_bool = view_ref read_bool view_plain"

definition cells_bool :: "'x cell list \<Rightarrow> ref \<Rightarrow> addr list" where
  "cells_bool = cells_ref read_bool cells_plain"

definition view_int32 :: "'x cell list \<Rightarrow> ref \<Rightarrow> int32 option option" where
  "view_int32 = view_ref read_int32 view_plain"

definition cells_int32 :: "'x cell list \<Rightarrow> ref \<Rightarrow> addr list" where
  "cells_int32 = cells_ref read_int32 cells_plain"

definition view_conditions :: "'x cell list \<Rightarrow> ref \<Rightarrow> condition list option option" where
  "view_conditions = view_ref read_conditions (view_each view_plain)"

definition cells_conditions :: "'x cell list \<Rightarrow> ref \<Rightarrow> addr list" where
  "cells_conditions = cells_ref read_conditions (cells_each cells_plain)"

definition view_raw_pointer :: "'x library_views \<Rightarrow> 'x cell list \<Rightarrow> ref \<Rightarrow> raw_extension option option" where
  "view_raw_pointer V = view_ref read_raw (vw_raw V)"

definition cells_raw_pointer :: "'x library_views \<Rightarrow> 'x cell list \<Rightarrow> ref \<Rightarrow> addr list" where
  "cells_raw_pointer V = cells_ref read_raw (cl_raw V)"

definition view_raws :: "'x library_views \<Rightarrow> 'x cell list \<Rightarrow> ref \<Rightarrow> raw_extension list option option" where
  "view_raws V = view_ref read_raws (view_each (vw_raw V))"

definition cells_raws :: "'x library_views \<Rightarrow> 'x cell list \<Rightarrow> ref \<Rightarrow> addr list" where
  "cells_raws V = cells_ref read_raws (cells_each (cl_raw V))"

section \<open>Structs\<close>

text \<open>For every struct: the fields held by reference, the value built from what they stand for, its view and its cells.\<close>

definition function_config_refs :: "mem_function_config \<Rightarrow> ref \<times> ref \<times> ref \<times> ref \<times> ref" where
  "function_config_refs m = (mfc_subnet_ids m, mfc_nsg_ids m, mfc_config m, mfc_environment m, mfc_freeform_tags m)"

definition build_function_config :: "mem_function_config \<Rightarrow> (string list) option \<times> (string list) option \<times> go_map option \<times> go_map option \<times> go_map option \<Rightarrow> function_config" where
  "build_function_config m r = (case r of (a, b, c, d, e) \<Rightarrow>
     \<lparr>fc_region = mfc_region m, fc_compartment_id = mfc_compartment_id m,
      fc_application_name = mfc_application_name m, fc_subnet_ids = or_empty a, fc_nsg_ids = b,
      fc_application_ocid = mfc_application_ocid m, fc_display_name = mfc_display_name m,
      fc_image = mfc_image m, fc_memory_in_mbs = mfc_memory_in_mbs m,
      fc_memory_in_mb = mfc_memory_in_mb m, fc_timeout_in_seconds = mfc_timeout_in_seconds m,
      fc_config = or_empty c, fc_environment = or_empty d, fc_freeform_tags = or_empty e\<rparr>)"

definition view_function_config :: "'x cell list \<Rightarrow> mem_function_config \<Rightarrow> function_config option" where
  "view_function_config s m = map_option (build_function_config m)
     (view_pair view_strings (view_pair view_strings (view_pair view_string_map (view_pair view_string_map view_string_map))) s (function_config_refs m))"

definition cells_function_config :: "'x cell list \<Rightarrow> mem_function_config \<Rightarrow> addr list" where
  "cells_function_config s m = cells_pair cells_strings (cells_pair cells_strings (cells_pair cells_string_map (cells_pair cells_string_map cells_string_map))) s (function_config_refs m)"

definition function_spec_refs :: "mem_function_spec \<Rightarrow> ref \<times> ref" where
  "function_spec_refs m = (mfs_config m, mfs_application_ref m)"

definition build_function_spec :: "mem_function_spec \<Rightarrow> function_config option \<times> application_reference option \<Rightarrow> function_spec" where
  "build_function_spec m r = (case r of (a, b) \<Rightarrow>
     \<lparr>fs_mode = mfs_mode m, fs_function_id = mfs_function_id m,
      fs_existing_function_ocid = mfs_existing_function_ocid m,
      fs_invoke_endpoint = mfs_invoke_endpoint m, fs_config = a, fs_application_ref = b,
      fs_deletion_policy = mfs_deletion_policy m\<rparr>)"

definition view_function_spec :: "'x cell list \<Rightarrow> mem_function_spec \<Rightarrow> function_spec option" where
  "view_function_spec s m = map_option (build_function_spec m)
     (view_pair (view_ref read_function_config view_function_config) (view_ref read_application_reference view_plain) s (function_spec_refs m))"

definition cells_function_spec :: "'x cell list \<Rightarrow> mem_function_spec \<Rightarrow> addr list" where
  "cells_function_spec s m = cells_pair (cells_ref read_function_config cells_function_config) (cells_ref read_application_reference cells_plain) s (function_spec_refs m)"

definition function_status_refs :: "mem_function_status \<Rightarrow> ref \<times> ref" where
  "function_status_refs m = (mfst_last_sync_time m, mfst_conditions m)"

definition build_function_status :: "mem_function_status \<Rightarrow> time option \<times> (condition list) option \<Rightarrow> function_status" where
  "build_function_status m r = (case r of (a, b) \<Rightarrow>
     \<lparr>fst_observed_generation = mfst_observed_generation m, fst_phase = mfst_phase m,
      fst_function_ocid = mfst_function_ocid m, fst_function_id = mfst_function_id m,
      fst_application_id = mfst_application_id m, fst_invoke_endpoint = mfst_invoke_endpoint m,
      fst_message = mfst_message m, fst_last_sync_time = a, fst_conditions = or_empty b\<rparr>)"

definition view_function_status :: "'x cell list \<Rightarrow> mem_function_status \<Rightarrow> function_status option" where
  "view_function_status s m = map_option (build_function_status m)
     (view_pair view_time view_conditions s (function_status_refs m))"

definition cells_function_status :: "'x cell list \<Rightarrow> mem_function_status \<Rightarrow> addr list" where
  "cells_function_status s m = cells_pair cells_time cells_conditions s (function_status_refs m)"

definition function_refs :: "'x mem_function \<Rightarrow> 'x \<times> mem_function_spec \<times> mem_function_status" where
  "function_refs m = (mfn_meta m, mfn_spec m, mfn_status m)"

definition build_function :: "'x mem_function \<Rightarrow> object_meta \<times> function_spec \<times> function_status \<Rightarrow> type_meta \<times> oci_function" where
  "build_function m r = (case r of (a, b, c) \<Rightarrow>
     (mfn_type m, \<lparr>fn_meta = a, fn_spec = b, fn_status = c\<rparr>))"

definition view_function :: "'x library_views \<Rightarrow> 'x cell list \<Rightarrow> 'x mem_function \<Rightarrow> (type_meta \<times> oci_function) option" where
  "view_function V s m = map_option (build_function m)
     (view_pair (vw_object_meta V) (view_pair view_function_spec view_function_status) s (function_refs m))"

definition cells_function :: "'x library_views \<Rightarrow> 'x cell list \<Rightarrow> 'x mem_function \<Rightarrow> addr list" where
  "cells_function V s m = cells_pair (cl_object_meta V) (cells_pair cells_function_spec cells_function_status) s (function_refs m)"

definition view_functions :: "'x library_views \<Rightarrow> 'x cell list \<Rightarrow> ref \<Rightarrow> (type_meta \<times> oci_function) list option option" where
  "view_functions V = view_ref read_functions (view_each (view_function V))"

definition cells_functions :: "'x library_views \<Rightarrow> 'x cell list \<Rightarrow> ref \<Rightarrow> addr list" where
  "cells_functions V = cells_ref read_functions (cells_each (cells_function V))"

definition function_list_refs :: "'x mem_list \<Rightarrow> 'x \<times> ref" where
  "function_list_refs m = (ml_meta m, ml_items m)"

definition build_function_list :: "'x mem_list \<Rightarrow> list_meta \<times> (type_meta \<times> oci_function) list option \<Rightarrow> type_meta \<times> list_meta \<times> (type_meta \<times> oci_function) list" where
  "build_function_list m r = (case r of (a, b) \<Rightarrow>
     (ml_type m, a, or_empty b))"

definition view_function_list :: "'x library_views \<Rightarrow> 'x cell list \<Rightarrow> 'x mem_list \<Rightarrow> (type_meta \<times> list_meta \<times> (type_meta \<times> oci_function) list) option" where
  "view_function_list V s m = map_option (build_function_list m)
     (view_pair (vw_list_meta V) (view_functions V) s (function_list_refs m))"

definition cells_function_list :: "'x library_views \<Rightarrow> 'x cell list \<Rightarrow> 'x mem_list \<Rightarrow> addr list" where
  "cells_function_list V s m = cells_pair (cl_list_meta V) (cells_functions V) s (function_list_refs m)"

definition invocation_logs_refs :: "mem_invocation_logs \<Rightarrow> ref" where
  "invocation_logs_refs m = mil_enabled m"

definition build_invocation_logs :: "mem_invocation_logs \<Rightarrow> bool option \<Rightarrow> invocation_logs_spec" where
  "build_invocation_logs m a =
     \<lparr>il_enabled = a, il_log_group_id = mil_log_group_id m, il_log_display_name = mil_log_display_name m,
      il_service = mil_service m, il_category = mil_category m, il_line_format = mil_line_format m\<rparr>"

definition view_invocation_logs :: "'x cell list \<Rightarrow> mem_invocation_logs \<Rightarrow> invocation_logs_spec option" where
  "view_invocation_logs s m = map_option (build_invocation_logs m)
     (view_bool s (invocation_logs_refs m))"

definition cells_invocation_logs :: "'x cell list \<Rightarrow> mem_invocation_logs \<Rightarrow> addr list" where
  "cells_invocation_logs s m = cells_bool s (invocation_logs_refs m)"

definition application_logging_refs :: "mem_application_logging \<Rightarrow> ref" where
  "application_logging_refs m = mls_invocation_logs m"

definition build_application_logging :: "mem_application_logging \<Rightarrow> invocation_logs_spec option \<Rightarrow> application_logging_spec" where
  "build_application_logging m a =
     \<lparr>ls_invocation_logs = a\<rparr>"

definition view_application_logging :: "'x cell list \<Rightarrow> mem_application_logging \<Rightarrow> application_logging_spec option" where
  "view_application_logging s m = map_option (build_application_logging m)
     ((view_ref read_invocation_logs view_invocation_logs) s (application_logging_refs m))"

definition cells_application_logging :: "'x cell list \<Rightarrow> mem_application_logging \<Rightarrow> addr list" where
  "cells_application_logging s m = (cells_ref read_invocation_logs cells_invocation_logs) s (application_logging_refs m)"

definition application_spec_refs :: "mem_application_spec \<Rightarrow> ref \<times> ref \<times> ref \<times> ref" where
  "application_spec_refs m = (mas_subnet_ids m, mas_nsg_ids m, mas_config m, mas_logging m)"

definition build_application_spec :: "mem_application_spec \<Rightarrow> (string list) option \<times> (string list) option \<times> go_map option \<times> application_logging_spec option \<Rightarrow> application_spec" where
  "build_application_spec m r = (case r of (a, b, c, d) \<Rightarrow>
     \<lparr>as_mode = mas_mode m, as_compartment_id = mas_compartment_id m,
      as_display_name = mas_display_name m, as_region = mas_region m, as_subnet_ids = or_empty a,
      as_nsg_ids = b, as_config = c, as_logging = d,
      as_existing_application_id = mas_existing_application_id m,
      as_deletion_policy = mas_deletion_policy m\<rparr>)"

definition view_application_spec :: "'x cell list \<Rightarrow> mem_application_spec \<Rightarrow> application_spec option" where
  "view_application_spec s m = map_option (build_application_spec m)
     (view_pair view_strings (view_pair view_strings (view_pair view_string_map (view_ref read_application_logging view_application_logging))) s (application_spec_refs m))"

definition cells_application_spec :: "'x cell list \<Rightarrow> mem_application_spec \<Rightarrow> addr list" where
  "cells_application_spec s m = cells_pair cells_strings (cells_pair cells_strings (cells_pair cells_string_map (cells_ref read_application_logging cells_application_logging))) s (application_spec_refs m)"

definition application_status_refs :: "mem_application_status \<Rightarrow> ref \<times> ref" where
  "application_status_refs m = (mast_last_sync_time m, mast_conditions m)"

definition build_application_status :: "mem_application_status \<Rightarrow> time option \<times> (condition list) option \<Rightarrow> application_status" where
  "build_application_status m r = (case r of (a, b) \<Rightarrow>
     \<lparr>ast_observed_generation = mast_observed_generation m, ast_phase = mast_phase m,
      ast_application_id = mast_application_id m, ast_display_name = mast_display_name m,
      ast_region = mast_region m, ast_message = mast_message m, ast_last_sync_time = a,
      ast_conditions = or_empty b\<rparr>)"

definition view_application_status :: "'x cell list \<Rightarrow> mem_application_status \<Rightarrow> application_status option" where
  "view_application_status s m = map_option (build_application_status m)
     (view_pair view_time view_conditions s (application_status_refs m))"

definition cells_application_status :: "'x cell list \<Rightarrow> mem_application_status \<Rightarrow> addr list" where
  "cells_application_status s m = cells_pair cells_time cells_conditions s (application_status_refs m)"

definition application_refs :: "'x mem_application \<Rightarrow> 'x \<times> mem_application_spec \<times> mem_application_status" where
  "application_refs m = (mapp_meta m, mapp_spec m, mapp_status m)"

definition build_application :: "'x mem_application \<Rightarrow> object_meta \<times> application_spec \<times> application_status \<Rightarrow> type_meta \<times> function_application" where
  "build_application m r = (case r of (a, b, c) \<Rightarrow>
     (mapp_type m, \<lparr>app_meta = a, app_spec = b, app_status = c\<rparr>))"

definition view_application :: "'x library_views \<Rightarrow> 'x cell list \<Rightarrow> 'x mem_application \<Rightarrow> (type_meta \<times> function_application) option" where
  "view_application V s m = map_option (build_application m)
     (view_pair (vw_object_meta V) (view_pair view_application_spec view_application_status) s (application_refs m))"

definition cells_application :: "'x library_views \<Rightarrow> 'x cell list \<Rightarrow> 'x mem_application \<Rightarrow> addr list" where
  "cells_application V s m = cells_pair (cl_object_meta V) (cells_pair cells_application_spec cells_application_status) s (application_refs m)"

definition view_applications :: "'x library_views \<Rightarrow> 'x cell list \<Rightarrow> ref \<Rightarrow> (type_meta \<times> function_application) list option option" where
  "view_applications V = view_ref read_applications (view_each (view_application V))"

definition cells_applications :: "'x library_views \<Rightarrow> 'x cell list \<Rightarrow> ref \<Rightarrow> addr list" where
  "cells_applications V = cells_ref read_applications (cells_each (cells_application V))"

definition application_list_refs :: "'x mem_list \<Rightarrow> 'x \<times> ref" where
  "application_list_refs m = (ml_meta m, ml_items m)"

definition build_application_list :: "'x mem_list \<Rightarrow> list_meta \<times> (type_meta \<times> function_application) list option \<Rightarrow> type_meta \<times> list_meta \<times> (type_meta \<times> function_application) list" where
  "build_application_list m r = (case r of (a, b) \<Rightarrow>
     (ml_type m, a, or_empty b))"

definition view_application_list :: "'x library_views \<Rightarrow> 'x cell list \<Rightarrow> 'x mem_list \<Rightarrow> (type_meta \<times> list_meta \<times> (type_meta \<times> function_application) list) option" where
  "view_application_list V s m = map_option (build_application_list m)
     (view_pair (vw_list_meta V) (view_applications V) s (application_list_refs m))"

definition cells_application_list :: "'x library_views \<Rightarrow> 'x cell list \<Rightarrow> 'x mem_list \<Rightarrow> addr list" where
  "cells_application_list V s m = cells_pair (cl_list_meta V) (cells_applications V) s (application_list_refs m)"

definition job_spec_refs :: "mem_job_spec \<Rightarrow> ref \<times> ref" where
  "job_spec_refs m = (mjs_payload m, mjs_payloads m)"

definition build_job_spec :: "mem_job_spec \<Rightarrow> raw_extension option \<times> (raw_extension list) option \<Rightarrow> job_spec" where
  "build_job_spec m r = (case r of (a, b) \<Rightarrow>
     \<lparr>js_function_ref = mjs_function_ref m, js_payload = a, js_payloads = or_empty b,
      js_parallelism = mjs_parallelism m, js_retry_limit = mjs_retry_limit m\<rparr>)"

definition view_job_spec :: "'x library_views \<Rightarrow> 'x cell list \<Rightarrow> mem_job_spec \<Rightarrow> job_spec option" where
  "view_job_spec V s m = map_option (build_job_spec m)
     (view_pair (view_raw_pointer V) (view_raws V) s (job_spec_refs m))"

definition cells_job_spec :: "'x library_views \<Rightarrow> 'x cell list \<Rightarrow> mem_job_spec \<Rightarrow> addr list" where
  "cells_job_spec V s m = cells_pair (cells_raw_pointer V) (cells_raws V) s (job_spec_refs m)"

definition job_invocation_refs :: "mem_job_invocation \<Rightarrow> ref" where
  "job_invocation_refs m = mis_completed_at m"

definition build_job_invocation :: "mem_job_invocation \<Rightarrow> time option \<Rightarrow> invocation_status" where
  "build_job_invocation m a =
     \<lparr>is_index = mis_index m, is_payload_digest = mis_payload_digest m, is_phase = mis_phase m,
      is_attempts = mis_attempts m, is_invocation_id = mis_invocation_id m,
      is_oci_request_id = mis_oci_request_id m, is_status_code = mis_status_code m,
      is_error = mis_error m, is_completed_at = a\<rparr>"

definition view_job_invocation :: "'x cell list \<Rightarrow> mem_job_invocation \<Rightarrow> invocation_status option" where
  "view_job_invocation s m = map_option (build_job_invocation m)
     (view_time s (job_invocation_refs m))"

definition cells_job_invocation :: "'x cell list \<Rightarrow> mem_job_invocation \<Rightarrow> addr list" where
  "cells_job_invocation s m = cells_time s (job_invocation_refs m)"

definition view_job_invocations :: "'x cell list \<Rightarrow> ref \<Rightarrow> invocation_status list option option" where
  "view_job_invocations = view_ref read_job_invocations (view_each view_job_invocation)"

definition cells_job_invocations :: "'x cell list \<Rightarrow> ref \<Rightarrow> addr list" where
  "cells_job_invocations = cells_ref read_job_invocations (cells_each cells_job_invocation)"

definition job_status_refs :: "mem_job_status \<Rightarrow> ref \<times> ref \<times> ref \<times> ref" where
  "job_status_refs m = (mjst_start_time m, mjst_completion_time m, mjst_invocations m, mjst_conditions m)"

definition build_job_status :: "mem_job_status \<Rightarrow> time option \<times> time option \<times> invocation_status list option \<times> (condition list) option \<Rightarrow> job_status" where
  "build_job_status m r = (case r of (a, b, c, d) \<Rightarrow>
     \<lparr>jst_observed_generation = mjst_observed_generation m, jst_phase = mjst_phase m, jst_start_time = a,
      jst_completion_time = b, jst_active = mjst_active m, jst_succeeded = mjst_succeeded m,
      jst_failed = mjst_failed m, jst_retries = mjst_retries m, jst_last_error = mjst_last_error m,
      jst_last_oci_request_id = mjst_last_oci_request_id m, jst_invocations = or_empty c,
      jst_conditions = or_empty d\<rparr>)"

definition view_job_status :: "'x cell list \<Rightarrow> mem_job_status \<Rightarrow> job_status option" where
  "view_job_status s m = map_option (build_job_status m)
     (view_pair view_time (view_pair view_time (view_pair view_job_invocations view_conditions)) s (job_status_refs m))"

definition cells_job_status :: "'x cell list \<Rightarrow> mem_job_status \<Rightarrow> addr list" where
  "cells_job_status s m = cells_pair cells_time (cells_pair cells_time (cells_pair cells_job_invocations cells_conditions)) s (job_status_refs m)"

definition job_refs :: "'x mem_job \<Rightarrow> 'x \<times> mem_job_spec \<times> mem_job_status" where
  "job_refs m = (mjob_meta m, mjob_spec m, mjob_status m)"

definition build_job :: "'x mem_job \<Rightarrow> object_meta \<times> job_spec \<times> job_status \<Rightarrow> type_meta \<times> function_job" where
  "build_job m r = (case r of (a, b, c) \<Rightarrow>
     (mjob_type m, \<lparr>job_meta = a, job_spec = b, job_status = c\<rparr>))"

definition view_job :: "'x library_views \<Rightarrow> 'x cell list \<Rightarrow> 'x mem_job \<Rightarrow> (type_meta \<times> function_job) option" where
  "view_job V s m = map_option (build_job m)
     (view_pair (vw_object_meta V) (view_pair (view_job_spec V) view_job_status) s (job_refs m))"

definition cells_job :: "'x library_views \<Rightarrow> 'x cell list \<Rightarrow> 'x mem_job \<Rightarrow> addr list" where
  "cells_job V s m = cells_pair (cl_object_meta V) (cells_pair (cells_job_spec V) cells_job_status) s (job_refs m)"

definition view_jobs :: "'x library_views \<Rightarrow> 'x cell list \<Rightarrow> ref \<Rightarrow> (type_meta \<times> function_job) list option option" where
  "view_jobs V = view_ref read_jobs (view_each (view_job V))"

definition cells_jobs :: "'x library_views \<Rightarrow> 'x cell list \<Rightarrow> ref \<Rightarrow> addr list" where
  "cells_jobs V = cells_ref read_jobs (cells_each (cells_job V))"

definition job_list_refs :: "'x mem_list \<Rightarrow> 'x \<times> ref" where
  "job_list_refs m = (ml_meta m, ml_items m)"

definition build_job_list :: "'x mem_list \<Rightarrow> list_meta \<times> (type_meta \<times> function_job) list option \<Rightarrow> type_meta \<times> list_meta \<times> (type_meta \<times> function_job) list" where
  "build_job_list m r = (case r of (a, b) \<Rightarrow>
     (ml_type m, a, or_empty b))"

definition view_job_list :: "'x library_views \<Rightarrow> 'x cell list \<Rightarrow> 'x mem_list \<Rightarrow> (type_meta \<times> list_meta \<times> (type_meta \<times> function_job) list) option" where
  "view_job_list V s m = map_option (build_job_list m)
     (view_pair (vw_list_meta V) (view_jobs V) s (job_list_refs m))"

definition cells_job_list :: "'x library_views \<Rightarrow> 'x cell list \<Rightarrow> 'x mem_list \<Rightarrow> addr list" where
  "cells_job_list V s m = cells_pair (cl_list_meta V) (cells_jobs V) s (job_list_refs m)"

definition event_spec_refs :: "mem_event_spec \<Rightarrow> ref \<times> ref" where
  "event_spec_refs m = (mes_payload m, mes_ttl_seconds m)"

definition build_event_spec :: "mem_event_spec \<Rightarrow> raw_extension option \<times> int32 option \<Rightarrow> event_spec" where
  "build_event_spec m r = (case r of (a, b) \<Rightarrow>
     \<lparr>es_event_type = mes_event_type m, es_source = mes_source m, es_subject = mes_subject m,
      es_payload = a, es_id = mes_id m, es_ttl_seconds = b\<rparr>)"

definition view_event_spec :: "'x library_views \<Rightarrow> 'x cell list \<Rightarrow> mem_event_spec \<Rightarrow> event_spec option" where
  "view_event_spec V s m = map_option (build_event_spec m)
     (view_pair (view_raw_pointer V) view_int32 s (event_spec_refs m))"

definition cells_event_spec :: "'x library_views \<Rightarrow> 'x cell list \<Rightarrow> mem_event_spec \<Rightarrow> addr list" where
  "cells_event_spec V s m = cells_pair (cells_raw_pointer V) cells_int32 s (event_spec_refs m)"

definition event_invocation_refs :: "mem_event_invocation \<Rightarrow> ref" where
  "event_invocation_refs m = mei_last_attempt m"

definition build_event_invocation :: "mem_event_invocation \<Rightarrow> time option \<Rightarrow> event_invocation" where
  "build_event_invocation m a =
     \<lparr>ei_trigger_name = mei_trigger_name m, ei_function_name = mei_function_name m,
      ei_phase = mei_phase m, ei_attempts = mei_attempts m, ei_last_attempt = a,
      ei_message = mei_message m\<rparr>"

definition view_event_invocation :: "'x cell list \<Rightarrow> mem_event_invocation \<Rightarrow> event_invocation option" where
  "view_event_invocation s m = map_option (build_event_invocation m)
     (view_time s (event_invocation_refs m))"

definition cells_event_invocation :: "'x cell list \<Rightarrow> mem_event_invocation \<Rightarrow> addr list" where
  "cells_event_invocation s m = cells_time s (event_invocation_refs m)"

definition view_event_invocations :: "'x cell list \<Rightarrow> ref \<Rightarrow> event_invocation list option option" where
  "view_event_invocations = view_ref read_event_invocations (view_each view_event_invocation)"

definition cells_event_invocations :: "'x cell list \<Rightarrow> ref \<Rightarrow> addr list" where
  "cells_event_invocations = cells_ref read_event_invocations (cells_each cells_event_invocation)"

definition event_status_refs :: "mem_event_status \<Rightarrow> ref \<times> ref \<times> ref" where
  "event_status_refs m = (mest_matched_triggers m, mest_invocations m, mest_conditions m)"

definition build_event_status :: "mem_event_status \<Rightarrow> (string list) option \<times> event_invocation list option \<times> (condition list) option \<Rightarrow> event_status" where
  "build_event_status m r = (case r of (a, b, c) \<Rightarrow>
     \<lparr>est_observed_generation = mest_observed_generation m, est_phase = mest_phase m,
      est_matched_triggers = or_empty a, est_invocations = or_empty b, est_message = mest_message m,
      est_conditions = or_empty c\<rparr>)"

definition view_event_status :: "'x cell list \<Rightarrow> mem_event_status \<Rightarrow> event_status option" where
  "view_event_status s m = map_option (build_event_status m)
     (view_pair view_strings (view_pair view_event_invocations view_conditions) s (event_status_refs m))"

definition cells_event_status :: "'x cell list \<Rightarrow> mem_event_status \<Rightarrow> addr list" where
  "cells_event_status s m = cells_pair cells_strings (cells_pair cells_event_invocations cells_conditions) s (event_status_refs m)"

definition event_refs :: "'x mem_event \<Rightarrow> 'x \<times> mem_event_spec \<times> mem_event_status" where
  "event_refs m = (mev_meta m, mev_spec m, mev_status m)"

definition build_event :: "'x mem_event \<Rightarrow> object_meta \<times> event_spec \<times> event_status \<Rightarrow> type_meta \<times> function_event" where
  "build_event m r = (case r of (a, b, c) \<Rightarrow>
     (mev_type m, \<lparr>ev_meta = a, ev_spec = b, ev_status = c\<rparr>))"

definition view_event :: "'x library_views \<Rightarrow> 'x cell list \<Rightarrow> 'x mem_event \<Rightarrow> (type_meta \<times> function_event) option" where
  "view_event V s m = map_option (build_event m)
     (view_pair (vw_object_meta V) (view_pair (view_event_spec V) view_event_status) s (event_refs m))"

definition cells_event :: "'x library_views \<Rightarrow> 'x cell list \<Rightarrow> 'x mem_event \<Rightarrow> addr list" where
  "cells_event V s m = cells_pair (cl_object_meta V) (cells_pair (cells_event_spec V) cells_event_status) s (event_refs m)"

definition view_events :: "'x library_views \<Rightarrow> 'x cell list \<Rightarrow> ref \<Rightarrow> (type_meta \<times> function_event) list option option" where
  "view_events V = view_ref read_events (view_each (view_event V))"

definition cells_events :: "'x library_views \<Rightarrow> 'x cell list \<Rightarrow> ref \<Rightarrow> addr list" where
  "cells_events V = cells_ref read_events (cells_each (cells_event V))"

definition event_list_refs :: "'x mem_list \<Rightarrow> 'x \<times> ref" where
  "event_list_refs m = (ml_meta m, ml_items m)"

definition build_event_list :: "'x mem_list \<Rightarrow> list_meta \<times> (type_meta \<times> function_event) list option \<Rightarrow> type_meta \<times> list_meta \<times> (type_meta \<times> function_event) list" where
  "build_event_list m r = (case r of (a, b) \<Rightarrow>
     (ml_type m, a, or_empty b))"

definition view_event_list :: "'x library_views \<Rightarrow> 'x cell list \<Rightarrow> 'x mem_list \<Rightarrow> (type_meta \<times> list_meta \<times> (type_meta \<times> function_event) list) option" where
  "view_event_list V s m = map_option (build_event_list m)
     (view_pair (vw_list_meta V) (view_events V) s (event_list_refs m))"

definition cells_event_list :: "'x library_views \<Rightarrow> 'x cell list \<Rightarrow> 'x mem_list \<Rightarrow> addr list" where
  "cells_event_list V s m = cells_pair (cl_list_meta V) (cells_events V) s (event_list_refs m)"

definition event_condition_refs :: "mem_event_condition \<Rightarrow> ref \<times> ref" where
  "event_condition_refs m = (mec_event_type m, mec_data m)"

definition build_event_condition :: "mem_event_condition \<Rightarrow> (string list) option \<times> raw_extension option \<Rightarrow> event_condition" where
  "build_event_condition m r = (case r of (a, b) \<Rightarrow>
     \<lparr>ec_raw_json = mec_raw_json m, ec_event_type = or_empty a, ec_data = b\<rparr>)"

definition view_event_condition :: "'x library_views \<Rightarrow> 'x cell list \<Rightarrow> mem_event_condition \<Rightarrow> event_condition option" where
  "view_event_condition V s m = map_option (build_event_condition m)
     (view_pair view_strings (view_raw_pointer V) s (event_condition_refs m))"

definition cells_event_condition :: "'x library_views \<Rightarrow> 'x cell list \<Rightarrow> mem_event_condition \<Rightarrow> addr list" where
  "cells_event_condition V s m = cells_pair cells_strings (cells_raw_pointer V) s (event_condition_refs m)"

definition trigger_spec_refs :: "mem_trigger_spec \<Rightarrow> ref \<times> mem_event_condition" where
  "trigger_spec_refs m = (mts_is_enabled m, mts_condition m)"

definition build_trigger_spec :: "mem_trigger_spec \<Rightarrow> bool option \<times> event_condition \<Rightarrow> trigger_spec" where
  "build_trigger_spec m r = (case r of (a, b) \<Rightarrow>
     \<lparr>ts_function_ref = mts_function_ref m, ts_compartment_id = mts_compartment_id m,
      ts_display_name = mts_display_name m, ts_description = mts_description m, ts_is_enabled = a,
      ts_condition = b, ts_deletion_policy = mts_deletion_policy m\<rparr>)"

definition view_trigger_spec :: "'x library_views \<Rightarrow> 'x cell list \<Rightarrow> mem_trigger_spec \<Rightarrow> trigger_spec option" where
  "view_trigger_spec V s m = map_option (build_trigger_spec m)
     (view_pair view_bool (view_event_condition V) s (trigger_spec_refs m))"

definition cells_trigger_spec :: "'x library_views \<Rightarrow> 'x cell list \<Rightarrow> mem_trigger_spec \<Rightarrow> addr list" where
  "cells_trigger_spec V s m = cells_pair cells_bool (cells_event_condition V) s (trigger_spec_refs m)"

definition trigger_status_refs :: "mem_trigger_status \<Rightarrow> ref \<times> ref" where
  "trigger_status_refs m = (mtst_last_sync_time m, mtst_conditions m)"

definition build_trigger_status :: "mem_trigger_status \<Rightarrow> time option \<times> (condition list) option \<Rightarrow> trigger_status" where
  "build_trigger_status m r = (case r of (a, b) \<Rightarrow>
     \<lparr>tst_observed_generation = mtst_observed_generation m, tst_phase = mtst_phase m,
      tst_rule_id = mtst_rule_id m, tst_last_sync_time = a, tst_message = mtst_message m,
      tst_conditions = or_empty b\<rparr>)"

definition view_trigger_status :: "'x cell list \<Rightarrow> mem_trigger_status \<Rightarrow> trigger_status option" where
  "view_trigger_status s m = map_option (build_trigger_status m)
     (view_pair view_time view_conditions s (trigger_status_refs m))"

definition cells_trigger_status :: "'x cell list \<Rightarrow> mem_trigger_status \<Rightarrow> addr list" where
  "cells_trigger_status s m = cells_pair cells_time cells_conditions s (trigger_status_refs m)"

definition trigger_refs :: "'x mem_trigger \<Rightarrow> 'x \<times> mem_trigger_spec \<times> mem_trigger_status" where
  "trigger_refs m = (mtr_meta m, mtr_spec m, mtr_status m)"

definition build_trigger :: "'x mem_trigger \<Rightarrow> object_meta \<times> trigger_spec \<times> trigger_status \<Rightarrow> type_meta \<times> event_trigger" where
  "build_trigger m r = (case r of (a, b, c) \<Rightarrow>
     (mtr_type m, \<lparr>tr_meta = a, tr_spec = b, tr_status = c\<rparr>))"

definition view_trigger :: "'x library_views \<Rightarrow> 'x cell list \<Rightarrow> 'x mem_trigger \<Rightarrow> (type_meta \<times> event_trigger) option" where
  "view_trigger V s m = map_option (build_trigger m)
     (view_pair (vw_object_meta V) (view_pair (view_trigger_spec V) view_trigger_status) s (trigger_refs m))"

definition cells_trigger :: "'x library_views \<Rightarrow> 'x cell list \<Rightarrow> 'x mem_trigger \<Rightarrow> addr list" where
  "cells_trigger V s m = cells_pair (cl_object_meta V) (cells_pair (cells_trigger_spec V) cells_trigger_status) s (trigger_refs m)"

definition view_triggers :: "'x library_views \<Rightarrow> 'x cell list \<Rightarrow> ref \<Rightarrow> (type_meta \<times> event_trigger) list option option" where
  "view_triggers V = view_ref read_triggers (view_each (view_trigger V))"

definition cells_triggers :: "'x library_views \<Rightarrow> 'x cell list \<Rightarrow> ref \<Rightarrow> addr list" where
  "cells_triggers V = cells_ref read_triggers (cells_each (cells_trigger V))"

definition trigger_list_refs :: "'x mem_list \<Rightarrow> 'x \<times> ref" where
  "trigger_list_refs m = (ml_meta m, ml_items m)"

definition build_trigger_list :: "'x mem_list \<Rightarrow> list_meta \<times> (type_meta \<times> event_trigger) list option \<Rightarrow> type_meta \<times> list_meta \<times> (type_meta \<times> event_trigger) list" where
  "build_trigger_list m r = (case r of (a, b) \<Rightarrow>
     (ml_type m, a, or_empty b))"

definition view_trigger_list :: "'x library_views \<Rightarrow> 'x cell list \<Rightarrow> 'x mem_list \<Rightarrow> (type_meta \<times> list_meta \<times> (type_meta \<times> event_trigger) list) option" where
  "view_trigger_list V s m = map_option (build_trigger_list m)
     (view_pair (vw_list_meta V) (view_triggers V) s (trigger_list_refs m))"

definition cells_trigger_list :: "'x library_views \<Rightarrow> 'x cell list \<Rightarrow> 'x mem_list \<Rightarrow> addr list" where
  "cells_trigger_list V s m = cells_pair (cl_list_meta V) (cells_triggers V) s (trigger_list_refs m)"

end
