(* ===== verification/DeepCopyLemmas.thy ===== *)
theory DeepCopyLemmas
  imports DeepCopyViews
begin

text \<open>
  Every generated copy method keeps the contract of a deep copy, given that the library's methods do. The
  proof follows the structs: the contract of a struct is that of its fields, taken in pairs.
\<close>

section \<open>Fields\<close>

lemma library_copiers:
  assumes "library_ok L V"
  shows object_meta_copier: "deep_copier (lib_object_meta L) (vw_object_meta V) (cl_object_meta V)"
    and list_meta_copier: "deep_copier (lib_list_meta L) (vw_list_meta V) (cl_list_meta V)"
    and raw_copier: "deep_copier (lib_raw L) (vw_raw V) (cl_raw V)"
    and lib_time_copier: "deep_copier (lib_time L) view_time cells_time"
    and condition_copied: "lib_condition L c = c"
  using assms by (simp_all add: library_ok_def)

interpretation strings: deep_copier copy_strings view_strings cells_strings
  unfolding copy_strings_def view_strings_def cells_strings_def
  by (rule deep_copier_ref [OF plain.deep_copier_axioms]) (simp add: read_strings_def)

interpretation bools: deep_copier copy_bool view_bool cells_bool
  unfolding copy_bool_def view_bool_def cells_bool_def
  by (rule deep_copier_ref [OF plain.deep_copier_axioms]) (simp add: read_bool_def)

interpretation int32s: deep_copier copy_int32 view_int32 cells_int32
  unfolding copy_int32_def view_int32_def cells_int32_def
  by (rule deep_copier_ref [OF plain.deep_copier_axioms]) (simp add: read_int32_def)

lemma put_entry_new: "k \<notin> fst ` set m \<Longrightarrow> put_entry k v m = m @ [(k, v)]"
  by (induction m) auto

lemma copied_entries: "distinct (map fst (n @ m)) \<Longrightarrow> foldl (\<lambda>out (k, v). put_entry k v out) n m = n @ m"
proof (induction m arbitrary: n)
  case (Cons e m)
  obtain k v where e: "e = (k, v)" by (cases e)
  have "put_entry k v n = n @ [(k, v)]" using Cons.prems e by (intro put_entry_new) auto
  moreover have "distinct (map fst ((n @ [(k, v)]) @ m))" using Cons.prems e by simp
  ultimately show ?case using Cons.IH [of "n @ [(k, v)]"] e by simp
qed simp

lemma entries_copier: "deep_copier copy_entries view_entries cells_plain"
  using copied_entries [of "[]"]
  by unfold_locales (auto simp: copy_entries_def view_entries_def cells_plain_def split: if_splits)

interpretation string_maps: deep_copier copy_string_map view_string_map cells_string_map
  unfolding copy_string_map_def view_string_map_def cells_string_map_def
  by (rule deep_copier_ref [OF entries_copier]) (simp add: read_string_map_def)

lemmas strings_copier = strings.deep_copier_axioms
lemmas bool_copier = bools.deep_copier_axioms
lemmas int32_copier = int32s.deep_copier_axioms
lemmas string_map_copier = string_maps.deep_copier_axioms

lemma time_copier:
  assumes L: "library_ok L V"
  shows "deep_copier (copy_time L) view_time cells_time"
proof -
  have nil: "view_time s None = Some None" "cells_time s None = []" for s :: "'a cell list"
    by (simp_all add: view_time_def view_ref_def cells_time_def cells_ref_def)
  note T = lib_time_copier [OF L]
  show ?thesis
  proof
    fix s t :: "'a cell list" and p
    assume ag: "agree_on (cells_time s p) s t"
    show "view_time t p = view_time s p" by (rule deep_copier.local_view [OF T ag])
    show "cells_time t p = cells_time s p" by (rule deep_copier.local_cells [OF T ag])
  next
    fix s :: "'a cell list" and p v
    assume v: "view_time s p = Some v"
    show "allocated s (cells_time s p)" by (rule deep_copier.inside [OF T v])
    show "\<exists>q t. copy_time L p s = (q, s @ t) \<and> view_time (s @ t) q = Some v \<and>
        (\<forall>a \<in> set (cells_time (s @ t) q). length s \<le> a) \<and> distinct (cells_time (s @ t) q)"
    proof (cases p)
      case None
      with v show ?thesis by (intro exI [of _ None] exI [of _ "[]"]) (simp add: copy_time_def nil)
    next
      case (Some a)
      with deep_copier.copied [OF T v] show ?thesis by (simp add: copy_time_def)
    qed
  qed
qed

lemma conditions_copier:
  assumes L: "library_ok L V"
  shows "deep_copier (copy_conditions L) view_conditions cells_conditions"
proof -
  have eq: "(\<lambda>c s. (lib_condition L c, s)) = copy_plain"
    using condition_copied [OF L] by (simp add: copy_plain_def fun_eq_iff)
  show ?thesis
    unfolding copy_conditions_def eq view_conditions_def cells_conditions_def
    by (rule deep_copier_ref [OF deep_copier_each [OF plain.deep_copier_axioms]]) (simp add: read_conditions_def)
qed

lemma raw_pointer_copier:
  assumes L: "library_ok L V"
  shows "deep_copier (copy_raw_pointer L) (view_raw_pointer V) (cells_raw_pointer V)"
  unfolding copy_raw_pointer_def view_raw_pointer_def cells_raw_pointer_def
  by (rule deep_copier_ref [OF raw_copier [OF L]]) (simp add: read_raw_def)

lemma raws_copier:
  assumes L: "library_ok L V"
  shows "deep_copier (copy_raws L) (view_raws V) (cells_raws V)"
  unfolding copy_raws_def view_raws_def cells_raws_def
  by (rule deep_copier_ref [OF deep_copier_each [OF raw_copier [OF L]]]) (simp add: read_raws_def)

lemma application_reference_ref_copier:
  "deep_copier (copy_ref BlankCell ApplicationReferenceCell read_application_reference copy_plain)
     (view_ref read_application_reference view_plain) (cells_ref read_application_reference cells_plain)"
  by (rule deep_copier_ref [OF plain.deep_copier_axioms]) (simp add: read_application_reference_def)

section \<open>Structs\<close>

lemma application_reference_copier: "deep_copier copy_application_reference_into view_plain cells_plain"
proof -
  have "copy_application_reference_into = copy_plain" by (simp add: copy_application_reference_into_def copy_plain_def fun_eq_iff)
  then show ?thesis using plain.deep_copier_axioms by metis
qed

lemma deep_application_reference_copier:
  "deep_copier deep_copy_application_reference (view_ref read_application_reference view_plain) (cells_ref read_application_reference cells_plain)"
  unfolding deep_copy_application_reference_def by (rule deep_copier_ref [OF application_reference_copier]) (simp add: read_application_reference_def)

lemma function_reference_copier: "deep_copier copy_function_reference_into view_plain cells_plain"
proof -
  have "copy_function_reference_into = copy_plain" by (simp add: copy_function_reference_into_def copy_plain_def fun_eq_iff)
  then show ?thesis using plain.deep_copier_axioms by metis
qed

lemma deep_function_reference_copier:
  "deep_copier deep_copy_function_reference (view_ref read_function_reference view_plain) (cells_ref read_function_reference cells_plain)"
  unfolding deep_copy_function_reference_def by (rule deep_copier_ref [OF function_reference_copier]) (simp add: read_function_reference_def)

lemma function_config_copier:
  "deep_copier copy_function_config_into view_function_config cells_function_config"
  by (rule deep_copier_struct [OF deep_copier_pair [OF strings_copier deep_copier_pair [OF strings_copier deep_copier_pair [OF string_map_copier deep_copier_pair [OF string_map_copier string_map_copier]]]], where refs = function_config_refs and build = build_function_config
      and put = "\<lambda>(a, b, c, d, e) m. m\<lparr>mfc_subnet_ids := a, mfc_nsg_ids := b, mfc_config := c, mfc_environment := d, mfc_freeform_tags := e\<rparr>"])
    (simp_all add: copy_function_config_into_def copy_pair_def case_prod_beta Let_def view_function_config_def cells_function_config_def function_config_refs_def build_function_config_def)

lemma deep_function_config_copier:
  "deep_copier deep_copy_function_config (view_ref read_function_config view_function_config) (cells_ref read_function_config cells_function_config)"
  unfolding deep_copy_function_config_def by (rule deep_copier_ref [OF function_config_copier]) (simp add: read_function_config_def)

lemma function_spec_copier:
  "deep_copier copy_function_spec_into view_function_spec cells_function_spec"
  by (rule deep_copier_struct [OF deep_copier_pair [OF deep_function_config_copier application_reference_ref_copier], where refs = function_spec_refs and build = build_function_spec
      and put = "\<lambda>(a, b) m. m\<lparr>mfs_config := a, mfs_application_ref := b\<rparr>"])
    (simp_all add: copy_function_spec_into_def copy_pair_def case_prod_beta Let_def view_function_spec_def cells_function_spec_def function_spec_refs_def build_function_spec_def)

lemma deep_function_spec_copier:
  "deep_copier deep_copy_function_spec (view_ref read_function_spec view_function_spec) (cells_ref read_function_spec cells_function_spec)"
  unfolding deep_copy_function_spec_def by (rule deep_copier_ref [OF function_spec_copier]) (simp add: read_function_spec_def)

lemma function_status_copier:
  assumes L: "library_ok L V"
  shows "deep_copier (copy_function_status_into L) view_function_status cells_function_status"
  by (rule deep_copier_struct [OF deep_copier_pair [OF time_copier [OF L] conditions_copier [OF L]], where refs = function_status_refs and build = build_function_status
      and put = "\<lambda>(a, b) m. m\<lparr>mfst_last_sync_time := a, mfst_conditions := b\<rparr>"])
    (simp_all add: copy_function_status_into_def copy_pair_def case_prod_beta Let_def view_function_status_def cells_function_status_def function_status_refs_def build_function_status_def)

lemma deep_function_status_copier:
  assumes L: "library_ok L V"
  shows "deep_copier (deep_copy_function_status L) (view_ref read_function_status view_function_status) (cells_ref read_function_status cells_function_status)"
  unfolding deep_copy_function_status_def by (rule deep_copier_ref [OF function_status_copier [OF L]]) (simp add: read_function_status_def)

lemma function_copier:
  assumes L: "library_ok L V"
  shows "deep_copier (copy_function_into L) (view_function V) (cells_function V)"
  by (rule deep_copier_struct [OF deep_copier_pair [OF object_meta_copier [OF L] deep_copier_pair [OF function_spec_copier function_status_copier [OF L]]], where refs = function_refs and build = build_function
      and put = "\<lambda>(a, b, c) m. m\<lparr>mfn_meta := a, mfn_spec := b, mfn_status := c\<rparr>"])
    (simp_all add: copy_function_into_def copy_pair_def case_prod_beta Let_def view_function_def cells_function_def function_refs_def build_function_def)

lemma deep_function_copier:
  assumes L: "library_ok L V"
  shows "deep_copier (deep_copy_function L) (view_ref read_function (view_function V)) (cells_ref read_function (cells_function V))"
  unfolding deep_copy_function_def by (rule deep_copier_ref [OF function_copier [OF L]]) (simp add: read_function_def)

lemma functions_copier:
  assumes L: "library_ok L V"
  shows "deep_copier (copy_functions L) (view_functions V) (cells_functions V)"
  unfolding copy_functions_def view_functions_def cells_functions_def
  by (rule deep_copier_ref [OF deep_copier_each [OF function_copier [OF L]]]) (simp add: read_functions_def)

lemma function_list_copier:
  assumes L: "library_ok L V"
  shows "deep_copier (copy_function_list_into L) (view_function_list V) (cells_function_list V)"
  by (rule deep_copier_struct [OF deep_copier_pair [OF list_meta_copier [OF L] functions_copier [OF L]], where refs = function_list_refs and build = build_function_list
      and put = "\<lambda>(a, b) m. m\<lparr>ml_meta := a, ml_items := b\<rparr>"])
    (simp_all add: copy_function_list_into_def copy_pair_def case_prod_beta Let_def view_function_list_def cells_function_list_def function_list_refs_def build_function_list_def)

lemma deep_function_list_copier:
  assumes L: "library_ok L V"
  shows "deep_copier (deep_copy_function_list L) (view_ref read_function_list (view_function_list V)) (cells_ref read_function_list (cells_function_list V))"
  unfolding deep_copy_function_list_def by (rule deep_copier_ref [OF function_list_copier [OF L]]) (simp add: read_function_list_def)

lemma invocation_logs_copier:
  "deep_copier copy_invocation_logs_into view_invocation_logs cells_invocation_logs"
  by (rule deep_copier_struct [OF bool_copier, where refs = invocation_logs_refs and build = build_invocation_logs
      and put = "\<lambda>a m. m\<lparr>mil_enabled := a\<rparr>"])
    (simp_all add: copy_invocation_logs_into_def copy_pair_def case_prod_beta Let_def view_invocation_logs_def cells_invocation_logs_def invocation_logs_refs_def build_invocation_logs_def)

lemma deep_invocation_logs_copier:
  "deep_copier deep_copy_invocation_logs (view_ref read_invocation_logs view_invocation_logs) (cells_ref read_invocation_logs cells_invocation_logs)"
  unfolding deep_copy_invocation_logs_def by (rule deep_copier_ref [OF invocation_logs_copier]) (simp add: read_invocation_logs_def)

lemma application_logging_copier:
  "deep_copier copy_application_logging_into view_application_logging cells_application_logging"
  by (rule deep_copier_struct [OF deep_invocation_logs_copier, where refs = application_logging_refs and build = build_application_logging
      and put = "\<lambda>a m. m\<lparr>mls_invocation_logs := a\<rparr>"])
    (simp_all add: copy_application_logging_into_def copy_pair_def case_prod_beta Let_def view_application_logging_def cells_application_logging_def application_logging_refs_def build_application_logging_def)

lemma deep_application_logging_copier:
  "deep_copier deep_copy_application_logging (view_ref read_application_logging view_application_logging) (cells_ref read_application_logging cells_application_logging)"
  unfolding deep_copy_application_logging_def by (rule deep_copier_ref [OF application_logging_copier]) (simp add: read_application_logging_def)

lemma application_spec_copier:
  "deep_copier copy_application_spec_into view_application_spec cells_application_spec"
  by (rule deep_copier_struct [OF deep_copier_pair [OF strings_copier deep_copier_pair [OF strings_copier deep_copier_pair [OF string_map_copier deep_application_logging_copier]]], where refs = application_spec_refs and build = build_application_spec
      and put = "\<lambda>(a, b, c, d) m. m\<lparr>mas_subnet_ids := a, mas_nsg_ids := b, mas_config := c, mas_logging := d\<rparr>"])
    (simp_all add: copy_application_spec_into_def copy_pair_def case_prod_beta Let_def view_application_spec_def cells_application_spec_def application_spec_refs_def build_application_spec_def)

lemma deep_application_spec_copier:
  "deep_copier deep_copy_application_spec (view_ref read_application_spec view_application_spec) (cells_ref read_application_spec cells_application_spec)"
  unfolding deep_copy_application_spec_def by (rule deep_copier_ref [OF application_spec_copier]) (simp add: read_application_spec_def)

lemma application_status_copier:
  assumes L: "library_ok L V"
  shows "deep_copier (copy_application_status_into L) view_application_status cells_application_status"
  by (rule deep_copier_struct [OF deep_copier_pair [OF time_copier [OF L] conditions_copier [OF L]], where refs = application_status_refs and build = build_application_status
      and put = "\<lambda>(a, b) m. m\<lparr>mast_last_sync_time := a, mast_conditions := b\<rparr>"])
    (simp_all add: copy_application_status_into_def copy_pair_def case_prod_beta Let_def view_application_status_def cells_application_status_def application_status_refs_def build_application_status_def)

lemma deep_application_status_copier:
  assumes L: "library_ok L V"
  shows "deep_copier (deep_copy_application_status L) (view_ref read_application_status view_application_status) (cells_ref read_application_status cells_application_status)"
  unfolding deep_copy_application_status_def by (rule deep_copier_ref [OF application_status_copier [OF L]]) (simp add: read_application_status_def)

lemma application_copier:
  assumes L: "library_ok L V"
  shows "deep_copier (copy_application_into L) (view_application V) (cells_application V)"
  by (rule deep_copier_struct [OF deep_copier_pair [OF object_meta_copier [OF L] deep_copier_pair [OF application_spec_copier application_status_copier [OF L]]], where refs = application_refs and build = build_application
      and put = "\<lambda>(a, b, c) m. m\<lparr>mapp_meta := a, mapp_spec := b, mapp_status := c\<rparr>"])
    (simp_all add: copy_application_into_def copy_pair_def case_prod_beta Let_def view_application_def cells_application_def application_refs_def build_application_def)

lemma deep_application_copier:
  assumes L: "library_ok L V"
  shows "deep_copier (deep_copy_application L) (view_ref read_application (view_application V)) (cells_ref read_application (cells_application V))"
  unfolding deep_copy_application_def by (rule deep_copier_ref [OF application_copier [OF L]]) (simp add: read_application_def)

lemma applications_copier:
  assumes L: "library_ok L V"
  shows "deep_copier (copy_applications L) (view_applications V) (cells_applications V)"
  unfolding copy_applications_def view_applications_def cells_applications_def
  by (rule deep_copier_ref [OF deep_copier_each [OF application_copier [OF L]]]) (simp add: read_applications_def)

lemma application_list_copier:
  assumes L: "library_ok L V"
  shows "deep_copier (copy_application_list_into L) (view_application_list V) (cells_application_list V)"
  by (rule deep_copier_struct [OF deep_copier_pair [OF list_meta_copier [OF L] applications_copier [OF L]], where refs = application_list_refs and build = build_application_list
      and put = "\<lambda>(a, b) m. m\<lparr>ml_meta := a, ml_items := b\<rparr>"])
    (simp_all add: copy_application_list_into_def copy_pair_def case_prod_beta Let_def view_application_list_def cells_application_list_def application_list_refs_def build_application_list_def)

lemma deep_application_list_copier:
  assumes L: "library_ok L V"
  shows "deep_copier (deep_copy_application_list L) (view_ref read_application_list (view_application_list V)) (cells_ref read_application_list (cells_application_list V))"
  unfolding deep_copy_application_list_def by (rule deep_copier_ref [OF application_list_copier [OF L]]) (simp add: read_application_list_def)

lemma job_spec_copier:
  assumes L: "library_ok L V"
  shows "deep_copier (copy_job_spec_into L) (view_job_spec V) (cells_job_spec V)"
  by (rule deep_copier_struct [OF deep_copier_pair [OF raw_pointer_copier [OF L] raws_copier [OF L]], where refs = job_spec_refs and build = build_job_spec
      and put = "\<lambda>(a, b) m. m\<lparr>mjs_payload := a, mjs_payloads := b\<rparr>"])
    (simp_all add: copy_job_spec_into_def copy_pair_def case_prod_beta Let_def view_job_spec_def cells_job_spec_def job_spec_refs_def build_job_spec_def)

lemma deep_job_spec_copier:
  assumes L: "library_ok L V"
  shows "deep_copier (deep_copy_job_spec L) (view_ref read_job_spec (view_job_spec V)) (cells_ref read_job_spec (cells_job_spec V))"
  unfolding deep_copy_job_spec_def by (rule deep_copier_ref [OF job_spec_copier [OF L]]) (simp add: read_job_spec_def)

lemma job_invocation_copier:
  assumes L: "library_ok L V"
  shows "deep_copier (copy_job_invocation_into L) view_job_invocation cells_job_invocation"
  by (rule deep_copier_struct [OF time_copier [OF L], where refs = job_invocation_refs and build = build_job_invocation
      and put = "\<lambda>a m. m\<lparr>mis_completed_at := a\<rparr>"])
    (simp_all add: copy_job_invocation_into_def copy_pair_def case_prod_beta Let_def view_job_invocation_def cells_job_invocation_def job_invocation_refs_def build_job_invocation_def)

lemma deep_job_invocation_copier:
  assumes L: "library_ok L V"
  shows "deep_copier (deep_copy_job_invocation L) (view_ref read_job_invocation view_job_invocation) (cells_ref read_job_invocation cells_job_invocation)"
  unfolding deep_copy_job_invocation_def by (rule deep_copier_ref [OF job_invocation_copier [OF L]]) (simp add: read_job_invocation_def)

lemma job_invocations_copier:
  assumes L: "library_ok L V"
  shows "deep_copier (copy_job_invocations L) view_job_invocations cells_job_invocations"
  unfolding copy_job_invocations_def view_job_invocations_def cells_job_invocations_def
  by (rule deep_copier_ref [OF deep_copier_each [OF job_invocation_copier [OF L]]]) (simp add: read_job_invocations_def)

lemma job_status_copier:
  assumes L: "library_ok L V"
  shows "deep_copier (copy_job_status_into L) view_job_status cells_job_status"
  by (rule deep_copier_struct [OF deep_copier_pair [OF time_copier [OF L] deep_copier_pair [OF time_copier [OF L] deep_copier_pair [OF job_invocations_copier [OF L] conditions_copier [OF L]]]], where refs = job_status_refs and build = build_job_status
      and put = "\<lambda>(a, b, c, d) m. m\<lparr>mjst_start_time := a, mjst_completion_time := b, mjst_invocations := c, mjst_conditions := d\<rparr>"])
    (simp_all add: copy_job_status_into_def copy_pair_def case_prod_beta Let_def view_job_status_def cells_job_status_def job_status_refs_def build_job_status_def)

lemma deep_job_status_copier:
  assumes L: "library_ok L V"
  shows "deep_copier (deep_copy_job_status L) (view_ref read_job_status view_job_status) (cells_ref read_job_status cells_job_status)"
  unfolding deep_copy_job_status_def by (rule deep_copier_ref [OF job_status_copier [OF L]]) (simp add: read_job_status_def)

lemma job_copier:
  assumes L: "library_ok L V"
  shows "deep_copier (copy_job_into L) (view_job V) (cells_job V)"
  by (rule deep_copier_struct [OF deep_copier_pair [OF object_meta_copier [OF L] deep_copier_pair [OF job_spec_copier [OF L] job_status_copier [OF L]]], where refs = job_refs and build = build_job
      and put = "\<lambda>(a, b, c) m. m\<lparr>mjob_meta := a, mjob_spec := b, mjob_status := c\<rparr>"])
    (simp_all add: copy_job_into_def copy_pair_def case_prod_beta Let_def view_job_def cells_job_def job_refs_def build_job_def)

lemma deep_job_copier:
  assumes L: "library_ok L V"
  shows "deep_copier (deep_copy_job L) (view_ref read_job (view_job V)) (cells_ref read_job (cells_job V))"
  unfolding deep_copy_job_def by (rule deep_copier_ref [OF job_copier [OF L]]) (simp add: read_job_def)

lemma jobs_copier:
  assumes L: "library_ok L V"
  shows "deep_copier (copy_jobs L) (view_jobs V) (cells_jobs V)"
  unfolding copy_jobs_def view_jobs_def cells_jobs_def
  by (rule deep_copier_ref [OF deep_copier_each [OF job_copier [OF L]]]) (simp add: read_jobs_def)

lemma job_list_copier:
  assumes L: "library_ok L V"
  shows "deep_copier (copy_job_list_into L) (view_job_list V) (cells_job_list V)"
  by (rule deep_copier_struct [OF deep_copier_pair [OF list_meta_copier [OF L] jobs_copier [OF L]], where refs = job_list_refs and build = build_job_list
      and put = "\<lambda>(a, b) m. m\<lparr>ml_meta := a, ml_items := b\<rparr>"])
    (simp_all add: copy_job_list_into_def copy_pair_def case_prod_beta Let_def view_job_list_def cells_job_list_def job_list_refs_def build_job_list_def)

lemma deep_job_list_copier:
  assumes L: "library_ok L V"
  shows "deep_copier (deep_copy_job_list L) (view_ref read_job_list (view_job_list V)) (cells_ref read_job_list (cells_job_list V))"
  unfolding deep_copy_job_list_def by (rule deep_copier_ref [OF job_list_copier [OF L]]) (simp add: read_job_list_def)

lemma event_spec_copier:
  assumes L: "library_ok L V"
  shows "deep_copier (copy_event_spec_into L) (view_event_spec V) (cells_event_spec V)"
  by (rule deep_copier_struct [OF deep_copier_pair [OF raw_pointer_copier [OF L] int32_copier], where refs = event_spec_refs and build = build_event_spec
      and put = "\<lambda>(a, b) m. m\<lparr>mes_payload := a, mes_ttl_seconds := b\<rparr>"])
    (simp_all add: copy_event_spec_into_def copy_pair_def case_prod_beta Let_def view_event_spec_def cells_event_spec_def event_spec_refs_def build_event_spec_def)

lemma deep_event_spec_copier:
  assumes L: "library_ok L V"
  shows "deep_copier (deep_copy_event_spec L) (view_ref read_event_spec (view_event_spec V)) (cells_ref read_event_spec (cells_event_spec V))"
  unfolding deep_copy_event_spec_def by (rule deep_copier_ref [OF event_spec_copier [OF L]]) (simp add: read_event_spec_def)

lemma event_invocation_copier:
  assumes L: "library_ok L V"
  shows "deep_copier (copy_event_invocation_into L) view_event_invocation cells_event_invocation"
  by (rule deep_copier_struct [OF time_copier [OF L], where refs = event_invocation_refs and build = build_event_invocation
      and put = "\<lambda>a m. m\<lparr>mei_last_attempt := a\<rparr>"])
    (simp_all add: copy_event_invocation_into_def copy_pair_def case_prod_beta Let_def view_event_invocation_def cells_event_invocation_def event_invocation_refs_def build_event_invocation_def)

lemma deep_event_invocation_copier:
  assumes L: "library_ok L V"
  shows "deep_copier (deep_copy_event_invocation L) (view_ref read_event_invocation view_event_invocation) (cells_ref read_event_invocation cells_event_invocation)"
  unfolding deep_copy_event_invocation_def by (rule deep_copier_ref [OF event_invocation_copier [OF L]]) (simp add: read_event_invocation_def)

lemma event_invocations_copier:
  assumes L: "library_ok L V"
  shows "deep_copier (copy_event_invocations L) view_event_invocations cells_event_invocations"
  unfolding copy_event_invocations_def view_event_invocations_def cells_event_invocations_def
  by (rule deep_copier_ref [OF deep_copier_each [OF event_invocation_copier [OF L]]]) (simp add: read_event_invocations_def)

lemma event_status_copier:
  assumes L: "library_ok L V"
  shows "deep_copier (copy_event_status_into L) view_event_status cells_event_status"
  by (rule deep_copier_struct [OF deep_copier_pair [OF strings_copier deep_copier_pair [OF event_invocations_copier [OF L] conditions_copier [OF L]]], where refs = event_status_refs and build = build_event_status
      and put = "\<lambda>(a, b, c) m. m\<lparr>mest_matched_triggers := a, mest_invocations := b, mest_conditions := c\<rparr>"])
    (simp_all add: copy_event_status_into_def copy_pair_def case_prod_beta Let_def view_event_status_def cells_event_status_def event_status_refs_def build_event_status_def)

lemma deep_event_status_copier:
  assumes L: "library_ok L V"
  shows "deep_copier (deep_copy_event_status L) (view_ref read_event_status view_event_status) (cells_ref read_event_status cells_event_status)"
  unfolding deep_copy_event_status_def by (rule deep_copier_ref [OF event_status_copier [OF L]]) (simp add: read_event_status_def)

lemma event_copier:
  assumes L: "library_ok L V"
  shows "deep_copier (copy_event_into L) (view_event V) (cells_event V)"
  by (rule deep_copier_struct [OF deep_copier_pair [OF object_meta_copier [OF L] deep_copier_pair [OF event_spec_copier [OF L] event_status_copier [OF L]]], where refs = event_refs and build = build_event
      and put = "\<lambda>(a, b, c) m. m\<lparr>mev_meta := a, mev_spec := b, mev_status := c\<rparr>"])
    (simp_all add: copy_event_into_def copy_pair_def case_prod_beta Let_def view_event_def cells_event_def event_refs_def build_event_def)

lemma deep_event_copier:
  assumes L: "library_ok L V"
  shows "deep_copier (deep_copy_event L) (view_ref read_event (view_event V)) (cells_ref read_event (cells_event V))"
  unfolding deep_copy_event_def by (rule deep_copier_ref [OF event_copier [OF L]]) (simp add: read_event_def)

lemma events_copier:
  assumes L: "library_ok L V"
  shows "deep_copier (copy_events L) (view_events V) (cells_events V)"
  unfolding copy_events_def view_events_def cells_events_def
  by (rule deep_copier_ref [OF deep_copier_each [OF event_copier [OF L]]]) (simp add: read_events_def)

lemma event_list_copier:
  assumes L: "library_ok L V"
  shows "deep_copier (copy_event_list_into L) (view_event_list V) (cells_event_list V)"
  by (rule deep_copier_struct [OF deep_copier_pair [OF list_meta_copier [OF L] events_copier [OF L]], where refs = event_list_refs and build = build_event_list
      and put = "\<lambda>(a, b) m. m\<lparr>ml_meta := a, ml_items := b\<rparr>"])
    (simp_all add: copy_event_list_into_def copy_pair_def case_prod_beta Let_def view_event_list_def cells_event_list_def event_list_refs_def build_event_list_def)

lemma deep_event_list_copier:
  assumes L: "library_ok L V"
  shows "deep_copier (deep_copy_event_list L) (view_ref read_event_list (view_event_list V)) (cells_ref read_event_list (cells_event_list V))"
  unfolding deep_copy_event_list_def by (rule deep_copier_ref [OF event_list_copier [OF L]]) (simp add: read_event_list_def)

lemma event_condition_copier:
  assumes L: "library_ok L V"
  shows "deep_copier (copy_event_condition_into L) (view_event_condition V) (cells_event_condition V)"
  by (rule deep_copier_struct [OF deep_copier_pair [OF strings_copier raw_pointer_copier [OF L]], where refs = event_condition_refs and build = build_event_condition
      and put = "\<lambda>(a, b) m. m\<lparr>mec_event_type := a, mec_data := b\<rparr>"])
    (simp_all add: copy_event_condition_into_def copy_pair_def case_prod_beta Let_def view_event_condition_def cells_event_condition_def event_condition_refs_def build_event_condition_def)

lemma deep_event_condition_copier:
  assumes L: "library_ok L V"
  shows "deep_copier (deep_copy_event_condition L) (view_ref read_event_condition (view_event_condition V)) (cells_ref read_event_condition (cells_event_condition V))"
  unfolding deep_copy_event_condition_def by (rule deep_copier_ref [OF event_condition_copier [OF L]]) (simp add: read_event_condition_def)

lemma trigger_spec_copier:
  assumes L: "library_ok L V"
  shows "deep_copier (copy_trigger_spec_into L) (view_trigger_spec V) (cells_trigger_spec V)"
  by (rule deep_copier_struct [OF deep_copier_pair [OF bool_copier event_condition_copier [OF L]], where refs = trigger_spec_refs and build = build_trigger_spec
      and put = "\<lambda>(a, b) m. m\<lparr>mts_is_enabled := a, mts_condition := b\<rparr>"])
    (simp_all add: copy_trigger_spec_into_def copy_pair_def case_prod_beta Let_def view_trigger_spec_def cells_trigger_spec_def trigger_spec_refs_def build_trigger_spec_def)

lemma deep_trigger_spec_copier:
  assumes L: "library_ok L V"
  shows "deep_copier (deep_copy_trigger_spec L) (view_ref read_trigger_spec (view_trigger_spec V)) (cells_ref read_trigger_spec (cells_trigger_spec V))"
  unfolding deep_copy_trigger_spec_def by (rule deep_copier_ref [OF trigger_spec_copier [OF L]]) (simp add: read_trigger_spec_def)

lemma trigger_status_copier:
  assumes L: "library_ok L V"
  shows "deep_copier (copy_trigger_status_into L) view_trigger_status cells_trigger_status"
  by (rule deep_copier_struct [OF deep_copier_pair [OF time_copier [OF L] conditions_copier [OF L]], where refs = trigger_status_refs and build = build_trigger_status
      and put = "\<lambda>(a, b) m. m\<lparr>mtst_last_sync_time := a, mtst_conditions := b\<rparr>"])
    (simp_all add: copy_trigger_status_into_def copy_pair_def case_prod_beta Let_def view_trigger_status_def cells_trigger_status_def trigger_status_refs_def build_trigger_status_def)

lemma deep_trigger_status_copier:
  assumes L: "library_ok L V"
  shows "deep_copier (deep_copy_trigger_status L) (view_ref read_trigger_status view_trigger_status) (cells_ref read_trigger_status cells_trigger_status)"
  unfolding deep_copy_trigger_status_def by (rule deep_copier_ref [OF trigger_status_copier [OF L]]) (simp add: read_trigger_status_def)

lemma trigger_copier:
  assumes L: "library_ok L V"
  shows "deep_copier (copy_trigger_into L) (view_trigger V) (cells_trigger V)"
  by (rule deep_copier_struct [OF deep_copier_pair [OF object_meta_copier [OF L] deep_copier_pair [OF trigger_spec_copier [OF L] trigger_status_copier [OF L]]], where refs = trigger_refs and build = build_trigger
      and put = "\<lambda>(a, b, c) m. m\<lparr>mtr_meta := a, mtr_spec := b, mtr_status := c\<rparr>"])
    (simp_all add: copy_trigger_into_def copy_pair_def case_prod_beta Let_def view_trigger_def cells_trigger_def trigger_refs_def build_trigger_def)

lemma deep_trigger_copier:
  assumes L: "library_ok L V"
  shows "deep_copier (deep_copy_trigger L) (view_ref read_trigger (view_trigger V)) (cells_ref read_trigger (cells_trigger V))"
  unfolding deep_copy_trigger_def by (rule deep_copier_ref [OF trigger_copier [OF L]]) (simp add: read_trigger_def)

lemma triggers_copier:
  assumes L: "library_ok L V"
  shows "deep_copier (copy_triggers L) (view_triggers V) (cells_triggers V)"
  unfolding copy_triggers_def view_triggers_def cells_triggers_def
  by (rule deep_copier_ref [OF deep_copier_each [OF trigger_copier [OF L]]]) (simp add: read_triggers_def)

lemma trigger_list_copier:
  assumes L: "library_ok L V"
  shows "deep_copier (copy_trigger_list_into L) (view_trigger_list V) (cells_trigger_list V)"
  by (rule deep_copier_struct [OF deep_copier_pair [OF list_meta_copier [OF L] triggers_copier [OF L]], where refs = trigger_list_refs and build = build_trigger_list
      and put = "\<lambda>(a, b) m. m\<lparr>ml_meta := a, ml_items := b\<rparr>"])
    (simp_all add: copy_trigger_list_into_def copy_pair_def case_prod_beta Let_def view_trigger_list_def cells_trigger_list_def trigger_list_refs_def build_trigger_list_def)

lemma deep_trigger_list_copier:
  assumes L: "library_ok L V"
  shows "deep_copier (deep_copy_trigger_list L) (view_ref read_trigger_list (view_trigger_list V)) (cells_ref read_trigger_list (cells_trigger_list V))"
  unfolding deep_copy_trigger_list_def by (rule deep_copier_ref [OF trigger_list_copier [OF L]]) (simp add: read_trigger_list_def)

end
