(* ===== verification/DeepCopySamples.thy ===== *)
theory DeepCopySamples
  imports DeepCopyLemmas
begin

text \<open>
  A library and a small memory on which the properties of the copies are evaluated. The library keeps the
  finalizers of an \<open>ObjectMeta\<close> behind a reference, as the real one does, and its \<open>SetStatusCondition\<close>
  overwrites the array when there is one.
\<close>

record sample_struct =
  ss_meta :: object_meta
  ss_finalizers :: ref
  ss_list :: list_meta
  ss_raw :: raw_extension

definition copy_sample_meta :: "sample_struct \<Rightarrow> sample_struct cell list \<Rightarrow> sample_struct \<times> sample_struct cell list" where
  "copy_sample_meta m s = (case copy_strings (ss_finalizers m) s of (r, s') \<Rightarrow> (m\<lparr>ss_finalizers := r\<rparr>, s'))"

definition sample_copies :: "sample_struct copy_library" where
  "sample_copies = \<lparr>lib_object_meta = copy_sample_meta, lib_list_meta = copy_plain, lib_raw = copy_plain,
     lib_time = copy_ref BlankCell TimeCell read_time copy_plain, lib_condition = (\<lambda>c. c)\<rparr>"

definition build_sample_meta :: "sample_struct \<Rightarrow> string list option \<Rightarrow> object_meta" where
  "build_sample_meta m fs = (ss_meta m)\<lparr>om_finalizers := or_empty fs\<rparr>"

definition sample_views :: "sample_struct library_views" where
  "sample_views = \<lparr>
     vw_object_meta = (\<lambda>s m. map_option (build_sample_meta m) (view_strings s (ss_finalizers m))),
     cl_object_meta = (\<lambda>s m. cells_strings s (ss_finalizers m)),
     vw_list_meta = (\<lambda>s m. Some (ss_list m)), cl_list_meta = cells_plain,
     vw_raw = (\<lambda>s m. Some (ss_raw m)), cl_raw = cells_plain\<rparr>"

lemma sample_library_ok: "library_ok sample_copies sample_views"
  unfolding library_ok_def
proof (intro conjI allI)
  show "deep_copier (lib_object_meta sample_copies) (vw_object_meta sample_views) (cl_object_meta sample_views)"
    by (rule deep_copier_struct [OF strings_copier, where refs = ss_finalizers and put = "\<lambda>r. ss_finalizers_update (\<lambda>_. r)"
        and build = build_sample_meta]) (simp_all add: sample_copies_def sample_views_def copy_sample_meta_def build_sample_meta_def)
  show "deep_copier (lib_list_meta sample_copies) (vw_list_meta sample_views) (cl_list_meta sample_views)"
    "deep_copier (lib_raw sample_copies) (vw_raw sample_views) (cl_raw sample_views)"
    by (unfold_locales; simp add: sample_copies_def sample_views_def copy_plain_def cells_plain_def)+
  show "deep_copier (lib_time sample_copies) view_time cells_time"
    using deep_copier_ref [OF plain.deep_copier_axioms, of read_time TimeCell BlankCell]
    by (simp add: sample_copies_def view_time_def cells_time_def read_time_def)
qed (simp add: sample_copies_def)

section \<open>A memory\<close>

definition sample_type :: "string \<Rightarrow> type_meta" where
  "sample_type k = \<lparr>tm_kind = k, tm_api_version = ''functions.oci.oracle.com/v1alpha1''\<rparr>"

definition sample_embedded :: "string \<Rightarrow> ref \<Rightarrow> sample_struct" where
  "sample_embedded name fs = \<lparr>
     ss_meta = \<lparr>om_name = name, om_namespace = ''default'', om_uid = ''u1'', om_generation = 2, om_finalizers = [],
       om_deletion_timestamp = None\<rparr>,
     ss_finalizers = fs, ss_list = \<lparr>lm_resource_version = [], lm_continue = [], lm_remaining = None\<rparr>, ss_raw = None\<rparr>"

definition memory_condition :: "condition_status \<Rightarrow> condition" where
  "memory_condition st = \<lparr>c_type = trigger_condition_rule_ready, c_status = st, c_reason = ''Sample'', c_message = [],
     c_observed_generation = 2, c_last_transition = 0\<rparr>"

definition memory_trigger :: "sample_struct mem_trigger" where
  "memory_trigger = \<lparr>mtr_type = sample_type ''FunctionEventTrigger'', mtr_meta = sample_embedded ''t'' (Some 0),
     mtr_spec = \<lparr>mts_function_ref = \<lparr>fr_name = ''f''\<rparr>, mts_compartment_id = ''ocid1.compartment'', mts_display_name = [],
       mts_description = [], mts_is_enabled = Some 2,
       mts_condition = \<lparr>mec_raw_json = [], mec_event_type = Some 1, mec_data = None\<rparr>,
       mts_deletion_policy = DeletionPolicyRetain\<rparr>,
     mtr_status = \<lparr>mtst_observed_generation = 1, mtst_phase = TriggerPhasePending, mtst_rule_id = [],
       mtst_last_sync_time = Some 3, mtst_message = [], mtst_conditions = Some 4\<rparr>\<rparr>"

definition memory_config :: mem_function_config where
  "memory_config = \<lparr>mfc_region = [], mfc_compartment_id = ''ocid1.compartment'', mfc_application_name = ''a'',
     mfc_subnet_ids = Some 6, mfc_nsg_ids = None, mfc_application_ocid = [], mfc_display_name = [],
     mfc_image = ''iad.ocir.io/x:1'', mfc_memory_in_mbs = 256, mfc_memory_in_mb = 0, mfc_timeout_in_seconds = 30,
     mfc_config = Some 7, mfc_environment = None, mfc_freeform_tags = Some 8\<rparr>"

definition memory_function :: "sample_struct mem_function" where
  "memory_function = \<lparr>mfn_type = sample_type ''Function'', mfn_meta = sample_embedded ''f'' None,
     mfn_spec = \<lparr>mfs_mode = FunctionModeManaged, mfs_function_id = [], mfs_existing_function_ocid = [],
       mfs_invoke_endpoint = [], mfs_config = Some 9, mfs_application_ref = None,
       mfs_deletion_policy = DeletionPolicyRetain\<rparr>,
     mfn_status = \<lparr>mfst_observed_generation = 0, mfst_phase = FunctionPhasePending, mfst_function_ocid = [],
       mfst_function_id = [], mfst_application_id = [], mfst_invoke_endpoint = [], mfst_message = [],
       mfst_last_sync_time = None, mfst_conditions = None\<rparr>\<rparr>"

definition sample_memory :: "sample_struct cell list" where
  "sample_memory = [StringsCell [''functions.oci.oracle.com/trigger''], StringsCell [''com.oraclecloud.objectstorage.createobject''],
     BoolCell True, TimeCell 1000, ConditionsCell [memory_condition CondFalse], TriggerCell memory_trigger,
     StringsCell [''ocid1.subnet''], MapCell [(''LEVEL'', ''info'')], MapCell [(''team'', ''a''), (''cost'', ''b'')],
     FunctionConfigCell memory_config, FunctionCell memory_function]"

lemma memory_holds:
  "view_ref read_function (view_function sample_views) sample_memory (Some 10) \<noteq> None"
  "view_ref read_trigger (view_trigger sample_views) sample_memory (Some 5) \<noteq> None"
  by code_simp+

end
