(* ===== verification/DeepCopyProperties.thy ===== *)
theory DeepCopyProperties
  imports DeepCopyLemmas DeepCopySamples
begin

text \<open>
  The properties of the generated copy methods, with witnesses on a small memory: a deep copy stands for
  the same resource, and original and copy cannot be told apart from values that share nothing. This is what
  the models of the reconcilers rest on when they take the copy of a value for the value itself.
\<close>

section \<open>Isolation\<close>

definition isolates ::
    "('c list \<Rightarrow> 'm \<Rightarrow> 'v option) \<Rightarrow> ('c list \<Rightarrow> 'm \<Rightarrow> addr list) \<Rightarrow> 'm \<Rightarrow> 'c list \<Rightarrow> 'm \<Rightarrow> 'c list \<Rightarrow> bool" where
  "isolates view cells m s m' s' \<longleftrightarrow>
     take (length s) s' = s \<and> view s' m' = view s m \<and> distinct (cells s' m') \<and>
     (\<forall>a \<in> set (cells s' m'). length s \<le> a) \<and>
     (\<forall>t. agree_on [0..<length s] s' t \<longrightarrow> view t m = view s m) \<and>
     (\<forall>t. agree_on [length s..<length s'] s' t \<longrightarrow> view t m' = view s m)"

lemma isolated:
  assumes C: "deep_copier copy view cells" and v: "view s m \<noteq> None" and run: "copy m s = (m', s')"
  shows "isolates view cells m s m' s'"
proof -
  from v obtain x where x: "view s m = Some x" by auto
  note iso = deep_copier.copy_isolated [OF C x run]
  from deep_copier.copied [OF C x] run obtain t where t: "s' = s @ t" "\<forall>a \<in> set (cells s' m'). length s \<le> a" by auto
  have old: "allocated s (cells s' m)"
    using deep_copier.inside [OF C x] deep_copier.cells_extended [OF C x] t(1) by simp
  have "view u m = Some x" if "agree_on [0..<length s] s' u" for u
    using deep_copier.local_view [OF C, of s' m u] iso(2) that old by (simp add: agree_on_def allocated_def)
  moreover have "view u m' = Some x" if "agree_on [length s..<length s'] s' u" for u
    using deep_copier.local_view [OF C, of s' m' u] iso(1,6) that t(2) by (simp add: agree_on_def allocated_def)
  ultimately show ?thesis unfolding isolates_def using iso(1,5) t x by simp
qed

definition copies_isolated ::
    "('m \<Rightarrow> 'c list \<Rightarrow> 'm \<times> 'c list) \<Rightarrow> ('c list \<Rightarrow> 'm \<Rightarrow> 'v option) \<Rightarrow> ('c list \<Rightarrow> 'm \<Rightarrow> addr list) \<Rightarrow> bool" where
  "copies_isolated copy view cells \<longleftrightarrow>
     (\<forall>m s m' s'. view s m \<noteq> None \<longrightarrow> copy m s = (m', s') \<longrightarrow> isolates view cells m s m' s')"

lemma isolated_copies: "deep_copier copy view cells \<Longrightarrow> copies_isolated copy view cells"
  unfolding copies_isolated_def by (intro allI impI isolated)

text \<open>
  C22: a copy made by \<open>DeepCopy\<close>, of any of the five resources or of a list of them, stands for the same
  resource as the original, leaves every cell of the memory as it was, and consists of new cells, none of
  them used twice; whatever is then done to the cells made by the copy leaves the original as it is, and whatever
  is done to the cells that were there before leaves the copy.
\<close>

theorem resource_copies_isolated:
  assumes "library_ok L V"
  shows
    "copies_isolated (deep_copy_function L) (view_ref read_function (view_function V)) (cells_ref read_function (cells_function V)) \<and>
     copies_isolated (deep_copy_application L) (view_ref read_application (view_application V)) (cells_ref read_application (cells_application V)) \<and>
     copies_isolated (deep_copy_job L) (view_ref read_job (view_job V)) (cells_ref read_job (cells_job V)) \<and>
     copies_isolated (deep_copy_event L) (view_ref read_event (view_event V)) (cells_ref read_event (cells_event V)) \<and>
     copies_isolated (deep_copy_trigger L) (view_ref read_trigger (view_trigger V)) (cells_ref read_trigger (cells_trigger V)) \<and>
     copies_isolated (deep_copy_function_list L) (view_ref read_function_list (view_function_list V)) (cells_ref read_function_list (cells_function_list V)) \<and>
     copies_isolated (deep_copy_application_list L) (view_ref read_application_list (view_application_list V)) (cells_ref read_application_list (cells_application_list V)) \<and>
     copies_isolated (deep_copy_job_list L) (view_ref read_job_list (view_job_list V)) (cells_ref read_job_list (cells_job_list V)) \<and>
     copies_isolated (deep_copy_event_list L) (view_ref read_event_list (view_event_list V)) (cells_ref read_event_list (cells_event_list V)) \<and>
     copies_isolated (deep_copy_trigger_list L) (view_ref read_trigger_list (view_trigger_list V)) (cells_ref read_trigger_list (cells_trigger_list V))"
  by (intro conjI;
    rule
    isolated_copies [OF deep_function_copier [OF assms]]
    isolated_copies [OF deep_application_copier [OF assms]]
    isolated_copies [OF deep_job_copier [OF assms]]
    isolated_copies [OF deep_event_copier [OF assms]]
    isolated_copies [OF deep_trigger_copier [OF assms]]
    isolated_copies [OF deep_function_list_copier [OF assms]]
    isolated_copies [OF deep_application_list_copier [OF assms]]
    isolated_copies [OF deep_job_list_copier [OF assms]]
    isolated_copies [OF deep_event_list_copier [OF assms]]
    isolated_copies [OF deep_trigger_list_copier [OF assms]])

theorem resource_copies_isolated_witness:
  "library_ok sample_copies sample_views \<and>
   (case deep_copy_function sample_copies (Some 10) sample_memory of (q, s') \<Rightarrow>
      q = Some 11 \<and> length s' = 16 \<and>
      isolates (view_ref read_function (view_function sample_views)) (cells_ref read_function (cells_function sample_views))
        (Some 10) sample_memory q s')"
proof -
  obtain q s' where run: "deep_copy_function sample_copies (Some 10) sample_memory = (q, s')" by fastforce
  have "fst (deep_copy_function sample_copies (Some 10) sample_memory) = Some 11"
    "length (snd (deep_copy_function sample_copies (Some 10) sample_memory)) = 16" by code_simp+
  moreover have "isolates (view_ref read_function (view_function sample_views))
      (cells_ref read_function (cells_function sample_views)) (Some 10) sample_memory q s'"
    by (rule resource_copies_isolated [OF sample_library_ok, THEN conjunct1, unfolded copies_isolated_def, rule_format,
        OF memory_holds(1) run])
  ultimately show ?thesis using sample_library_ok run by simp
qed

section \<open>Setting a condition in place\<close>

text \<open>
  \<open>meta.SetStatusCondition\<close> is given the address of the slice. It may change the array in place or make a new
  one; it is known to touch no other cell and to leave the list that the model of the library leaves.
\<close>

type_synonym 'x set_in_place = "ref \<Rightarrow> condition \<Rightarrow> 'x cell list \<Rightarrow> ref \<times> 'x cell list"

definition set_in_place_ok :: "kube_lib \<Rightarrow> 'x set_in_place \<Rightarrow> bool" where
  "set_in_place_ok K set_cond \<longleftrightarrow> (\<forall>r c s cs. view_conditions s r = Some cs \<longrightarrow>
     (case set_cond r c s of (r', s') \<Rightarrow>
        length s \<le> length s' \<and>
        (\<forall>a < length s. a \<notin> set (cells_conditions s r) \<longrightarrow> cell_at s' a = cell_at s a) \<and>
        view_conditions s' r' = Some (Some (set_status_condition K (or_empty cs) c)) \<and>
        set (cells_conditions s' r') \<subseteq> set (cells_conditions s r) \<union> {length s..}))"

text \<open>\<open>(*FunctionEventTrigger).SetCondition\<close> on the trigger at an address.\<close>

definition set_trigger_condition_at ::
    "'x set_in_place \<Rightarrow> ref \<Rightarrow> condition \<Rightarrow> 'x cell list \<Rightarrow> 'x cell list" where
  "set_trigger_condition_at set_cond p c s =
     (case p of None \<Rightarrow> s
      | Some a \<Rightarrow>
          (case load read_trigger s a of
             None \<Rightarrow> s
           | Some m \<Rightarrow>
               (case set_cond (mtst_conditions (mtr_status m)) c s of
                  (r, s') \<Rightarrow> s'[a := TriggerCell (m\<lparr>mtr_status := (mtr_status m)\<lparr>mtst_conditions := r\<rparr>\<rparr>)])))"

abbreviation "view_trigger_at V \<equiv> view_ref read_trigger (view_trigger V)"
abbreviation "cells_trigger_at V \<equiv> cells_ref read_trigger (cells_trigger V)"

lemma read_trigger_put [simp]: "read_trigger (TriggerCell m) = Some m"
  by (simp add: read_trigger_def)

text \<open>What the parts of a trigger other than its conditions lead to.\<close>

definition other_cells :: "'x library_views \<Rightarrow> 'x cell list \<Rightarrow> 'x mem_trigger \<Rightarrow> addr list" where
  "other_cells V s m = cl_object_meta V s (mtr_meta m) @ cells_trigger_spec V s (mtr_spec m) @
     cells_time s (mtst_last_sync_time (mtr_status m))"

lemma trigger_cells: "cells_trigger V s m = other_cells V s m @ cells_conditions s (mtst_conditions (mtr_status m))"
  by (simp add: cells_trigger_def cells_pair_def trigger_refs_def cells_trigger_status_def trigger_status_refs_def other_cells_def)

lemma trigger_view_parts:
  "view_trigger V s m = Some (ty, t) \<longleftrightarrow>
     (\<exists>om spec time cs. vw_object_meta V s (mtr_meta m) = Some om \<and> view_trigger_spec V s (mtr_spec m) = Some spec \<and>
        view_time s (mtst_last_sync_time (mtr_status m)) = Some time \<and>
        view_conditions s (mtst_conditions (mtr_status m)) = Some cs \<and> ty = mtr_type m \<and>
        t = \<lparr>tr_meta = om, tr_spec = spec, tr_status = build_trigger_status (mtr_status m) (time, cs)\<rparr>)"
  by (auto simp: view_trigger_def trigger_refs_def build_trigger_def view_trigger_status_def trigger_status_refs_def
      view_pair_def split: option.splits)

text \<open>Setting a condition of the trigger at \<open>b\<close> changes only that condition, if the trigger is a tree of cells.\<close>

lemma condition_set:
  assumes L: "library_ok L V" and K: "set_in_place_ok K set_cond"
    and q: "view_trigger_at V s (Some b) = Some (Some (ty, t))" and tree: "distinct (cells_trigger_at V s (Some b))"
  shows "view_trigger_at V (set_trigger_condition_at set_cond (Some b) c s) (Some b) =
      Some (Some (ty, set_trigger_status_condition K c t))"
    and "a < length s \<Longrightarrow> a \<notin> set (cells_trigger_at V s (Some b)) \<Longrightarrow>
      cell_at (set_trigger_condition_at set_cond (Some b) c s) a = cell_at s a"
proof -
  from q obtain m where m: "load read_trigger s b = Some m" "view_trigger V s m = Some (ty, t)"
    by (auto simp: view_ref_def split: option.splits)
  from m(2) obtain om spec time cs where parts: "vw_object_meta V s (mtr_meta m) = Some om"
    "view_trigger_spec V s (mtr_spec m) = Some spec" "view_time s (mtst_last_sync_time (mtr_status m)) = Some time"
    "view_conditions s (mtst_conditions (mtr_status m)) = Some cs" "ty = mtr_type m"
    "t = \<lparr>tr_meta = om, tr_spec = spec, tr_status = build_trigger_status (mtr_status m) (time, cs)\<rparr>"
    unfolding trigger_view_parts by blast
  let ?r = "mtst_conditions (mtr_status m)"
  obtain r s1 where set: "set_cond ?r c s = (r, s1)" by (cases "set_cond ?r c s")
  note set_ok = K [unfolded set_in_place_ok_def, rule_format, OF parts(4), of c, unfolded set prod.case]
  have len: "length s \<le> length s1" and
    frame: "\<forall>a < length s. a \<notin> set (cells_conditions s ?r) \<longrightarrow> cell_at s1 a = cell_at s a" and
    new: "view_conditions s1 r = Some (Some (set_status_condition K (or_empty cs) c))" and
    cells: "set (cells_conditions s1 r) \<subseteq> set (cells_conditions s ?r) \<union> {length s..}"
    using set_ok by blast+
  let ?m = "m\<lparr>mtr_status := (mtr_status m)\<lparr>mtst_conditions := r\<rparr>\<rparr>"
  let ?s = "s1[b := TriggerCell ?m]"
  have run: "set_trigger_condition_at set_cond (Some b) c s = ?s"
    using m(1) set by (simp add: set_trigger_condition_at_def)
  have b: "b < length s" by (rule load_inside [OF m(1)])
  have all: "cells_trigger_at V s (Some b) = b # other_cells V s m @ cells_conditions s ?r"
    using m(1) by (simp add: cells_ref_def trigger_cells)
  with tree have apart: "b \<notin> set (other_cells V s m)" "b \<notin> set (cells_conditions s ?r)"
    "set (other_cells V s m) \<inter> set (cells_conditions s ?r) = {}" by auto
  have kept: "cell_at ?s a = cell_at s a" if "a < length s" "a \<noteq> b" "a \<notin> set (cells_conditions s ?r)" for a
    using that frame by (simp add: cell_at_update)
  show "a < length s \<Longrightarrow> a \<notin> set (cells_trigger_at V s (Some b)) \<Longrightarrow>
      cell_at (set_trigger_condition_at set_cond (Some b) c s) a = cell_at s a"
    unfolding run all using kept by simp
  note object_meta = object_meta_copier [OF L] and spec_copier = trigger_spec_copier [OF L] and time = time_copier [OF L]
  have "allocated s (other_cells V s m)"
    unfolding other_cells_def using deep_copier.inside [OF object_meta parts(1)] deep_copier.inside [OF spec_copier parts(2)]
      deep_copier.inside [OF time parts(3)] by simp
  then have "agree_on (other_cells V s m) s ?s"
    using kept apart by (auto simp: agree_on_def allocated_def)
  then have ag: "agree_on (cl_object_meta V s (mtr_meta m)) s ?s" "agree_on (cells_trigger_spec V s (mtr_spec m)) s ?s"
    "agree_on (cells_time s (mtst_last_sync_time (mtr_status m))) s ?s" by (simp_all add: other_cells_def)
  have "b \<notin> set (cells_conditions s1 r)" using cells b apart(2) by auto
  with new have conds: "view_conditions ?s r = Some (Some (set_status_condition K (or_empty cs) c))"
    using deep_copier.view_update [OF conditions_copier [OF L]] by simp
  have "load read_trigger ?s b = Some ?m" using b len by (simp add: load_def cell_at_def)
  moreover have "view_trigger V ?s ?m = Some (ty, set_trigger_status_condition K c t)"
    unfolding trigger_view_parts
    using parts conds deep_copier.local_view [OF object_meta ag(1)] deep_copier.local_view [OF spec_copier ag(2)]
      deep_copier.local_view [OF time ag(3)]
    by (auto simp: set_trigger_status_condition_def build_trigger_status_def or_empty_def)
  ultimately show "view_trigger_at V (set_trigger_condition_at set_cond (Some b) c s) (Some b) =
      Some (Some (ty, set_trigger_status_condition K c t))"
    unfolding run by (simp add: view_ref_def)
qed

text \<open>
  C23: the reconcilers' way of preparing a status is sound for the trigger: after
  \<open>desired := trigger.DeepCopy()\<close> and \<open>desired.SetCondition(c)\<close>, which may change the array of conditions in place,
  the copy stands for the trigger with that condition set and the original for the trigger as it was read,
  so that comparing and writing the two is comparing and writing values.
\<close>

theorem trigger_condition_edit_isolated:
  assumes "library_ok L V" "set_in_place_ok K set_cond"
    and "view_trigger_at V s (Some a) = Some (Some (ty, t))" "deep_copy_trigger L (Some a) s = (q, s')"
  shows "view_trigger_at V (set_trigger_condition_at set_cond q c s') q =
      Some (Some (ty, set_trigger_status_condition K c t)) \<and>
    view_trigger_at V (set_trigger_condition_at set_cond q c s') (Some a) = Some (Some (ty, t))"
proof -
  note C = deep_trigger_copier [OF assms(1)]
  note iso = deep_copier.copy_isolated [OF C assms(3,4)]
  from iso(1) obtain b where b: "q = Some b" by (cases q) (auto simp: view_ref_def)
  note edit = condition_set [OF assms(1,2) iso(1) [unfolded b] iso(5) [unfolded b], where c = c]
  let ?s = "set_trigger_condition_at set_cond (Some b) c s'"
  have "allocated s' (cells_trigger_at V s' (Some a))" by (rule deep_copier.inside [OF C iso(2)])
  then have "agree_on (cells_trigger_at V s' (Some a)) s' ?s"
    using edit(2) iso(4) unfolding b agree_on_def allocated_def by blast
  from deep_copier.local_view [OF C this] iso(2) edit(1) show ?thesis by (simp add: b)
qed

text \<open>A \<open>SetStatusCondition\<close> that overwrites the array when there is one.\<close>

definition set_sample_in_place :: "ref \<Rightarrow> condition \<Rightarrow> 'x cell list \<Rightarrow> ref \<times> 'x cell list" where
  "set_sample_in_place r c s =
     (case r of
        None \<Rightarrow> (Some (length s), s @ [ConditionsCell (set_status_condition sample_lib [] c)])
      | Some a \<Rightarrow>
          (case load read_conditions s a of
             None \<Rightarrow> (r, s)
           | Some cs \<Rightarrow> (r, s[a := ConditionsCell (set_status_condition sample_lib cs c)])))"

lemma view_each_plain: "view_each view_plain s ms = Some ms"
  by (induction ms) (simp_all add: view_plain_def)

lemma set_sample_in_place_ok: "set_in_place_ok sample_lib set_sample_in_place"
  unfolding set_in_place_ok_def
proof (intro allI impI)
  fix r c and s :: "'x cell list" and cs
  assume v: "view_conditions s r = Some cs"
  show "case set_sample_in_place r c s of (r', s') \<Rightarrow>
      length s \<le> length s' \<and> (\<forall>a < length s. a \<notin> set (cells_conditions s r) \<longrightarrow> cell_at s' a = cell_at s a) \<and>
      view_conditions s' r' = Some (Some (set_status_condition sample_lib (or_empty cs) c)) \<and>
      set (cells_conditions s' r') \<subseteq> set (cells_conditions s r) \<union> {length s..}"
  proof (cases r)
    case None
    with v show ?thesis
      by (auto simp: set_sample_in_place_def view_conditions_def cells_conditions_def view_ref_def cells_ref_def load_def
          view_each_plain cells_each_def cells_plain_def or_empty_def cell_at_append read_conditions_def)
  next
    case (Some a)
    with v obtain ds where ds: "load read_conditions s a = Some ds" "cs = Some ds"
      by (auto simp: view_conditions_def view_ref_def view_each_plain split: option.splits)
    then have a: "a < length s" by (auto dest: load_inside)
    then have "load read_conditions (s[a := ConditionsCell es]) a = Some es" for es
      by (simp add: load_def cell_at_def read_conditions_def)
    with Some ds show ?thesis
      by (auto simp: set_sample_in_place_def view_conditions_def cells_conditions_def view_ref_def cells_ref_def
          view_each_plain cells_each_def cells_plain_def or_empty_def cell_at_update)
  qed
qed

theorem trigger_condition_edit_isolated_witness:
  "case deep_copy_trigger sample_copies (Some 5) sample_memory of (q, s') \<Rightarrow>
     (\<exists>ty t. view_trigger_at sample_views sample_memory (Some 5) = Some (Some (ty, t)) \<and>
       tst_conditions (tr_status t) = [memory_condition CondFalse] \<and>
       view_trigger_at sample_views (set_trigger_condition_at set_sample_in_place q (memory_condition CondTrue) s') q =
         Some (Some (ty, set_trigger_status_condition sample_lib (memory_condition CondTrue) t)) \<and>
       view_trigger_at sample_views (set_trigger_condition_at set_sample_in_place q (memory_condition CondTrue) s') (Some 5) =
         Some (Some (ty, t)))"
proof -
  obtain q s' where run: "deep_copy_trigger sample_copies (Some 5) sample_memory = (q, s')" by fastforce
  from memory_holds(2) obtain ty t where v: "view_trigger_at sample_views sample_memory (Some 5) = Some (Some (ty, t))"
    by (auto simp: view_ref_def split: option.splits)
  have "map_option (map_option (\<lambda>(ty, t). tst_conditions (tr_status t)))
      (view_trigger_at sample_views sample_memory (Some 5)) = Some (Some [memory_condition CondFalse])" by code_simp
  with v have "tst_conditions (tr_status t) = [memory_condition CondFalse]" by simp
  with trigger_condition_edit_isolated [OF sample_library_ok set_sample_in_place_ok v run] v run show ?thesis by auto
qed

end
