(* ===== verification/Spec2Isabelle.thy ===== *)
theory Spec2Isabelle
  imports JobProperties FunctionProperties LifecycleProperties ApplicationProperties EventProperties
    RuleProperties TriggerProperties MainProperties DeepCopyProperties
begin

text \<open>
  A verification development for the OCI Functions operator, a Kubernetes operator in Go that runs OCI
  Functions from custom resources.

  \<^bold>\<open>The program.\<close> Five custom resources (\<open>api/v1alpha1\<close>) each have a reconciler (\<open>internal/controller\<close>):

  \<^item> \<open>Function\<close> makes an OCI function exist (or takes over an existing one) through the lifecycle manager
    (\<open>internal/lifecycle\<close>) and publishes its OCID and endpoint in its status;
  \<^item> \<open>FunctionApplication\<close> does the same for the application that functions live in;
  \<^item> \<open>FunctionJob\<close> invokes a function once per payload, with parallelism and retry limits, through the
    invoker (\<open>internal/invoker\<close>);
  \<^item> \<open>FunctionEvent\<close> invokes the functions of all triggers that match its type;
  \<^item> \<open>FunctionEventTrigger\<close> either only routes such events, or keeps an OCI Events rule in force through the rule
    manager (\<open>internal/eventtrigger\<close>).

  The parts meet in the statuses: jobs, events and triggers read what the function reconciler wrote, functions
  read what the application reconciler wrote. \<open>cmd/main.go\<close> and \<open>cmd/invoker_mode.go\<close> choose the invoker and
  the managers by mode; \<open>internal/ociauth\<close> chooses the SDK's authentication provider.

  \<^bold>\<open>Conventions.\<close> A Go struct is a record, a string enumeration a datatype with a constructor for the unset
  value, an \<open>error\<close> a value of \<open>go_error\<close>, \<open>nil\<close> is \<open>None\<close>. Strings and bytes are lists of bytes; \<open>int32\<close> is a
  32-bit word that wraps. A reconciler is a function of its dependencies (a record), the object read and the
  state \<open>('e, 'w) io\<close>: the world \<open>'w\<close>, on which the API server, the SDK and the clock depend and which is not
  interpreted, and the trace of effects (status updates, object updates, deletions, Kubernetes events, calls of
  an invoker or manager). Its result is the \<open>ctrl_result\<close> with an error, or \<open>Panicked\<close>. Error paths, early returns
  and the order of effects are those of the source.

  \<^bold>\<open>Theories of the model.\<close>

  \<^item> \<open>Prelude\<close>, \<open>GoStrings\<close>, \<open>GoErrors\<close>: the Go scalars, strings (white space and case of ASCII) and errors.
  \<^item> \<open>KubeApi\<close>, \<open>ApiTypes\<close>: metadata, conditions, results and traces; the resources, their methods, the API client.
  \<^item> \<open>GoJson\<close>: what is used of \<open>encoding/json\<close>: parsing, compaction of raw messages, writing of values.
  \<^item> \<open>Invoker\<close>: \<open>internal/invoker\<close>; the contract \<open>invoker_contract\<close>, the fake and the OCI invoker.
  \<^item> \<open>InvocationTarget\<close>: the mode, readiness and target of a function as the other reconcilers read them.
  \<^item> \<open>JobController\<close>, \<open>FunctionController\<close>, \<open>ApplicationController\<close>, \<open>EventController\<close>,
    \<open>TriggerController\<close> with \<open>TriggerCondition\<close>: the five reconcilers, from \<open>reconcile_*\<close> (\<open>Reconcile\<close>) down.
  \<^item> \<open>OciErrorText\<close>: how OCI errors become status messages. \<open>OciErrorLemmas\<close> lists anew what is local to one
    report (service lines, request id) and shows that the cleaned text does not depend on it.
  \<^item> \<open>Lifecycle\<close>, \<open>OciLifecycle\<close>: \<open>internal/lifecycle\<close>; the contract \<open>lifecycle_contract\<close> and the OCI manager.
  \<^item> \<open>EventRules\<close>: \<open>internal/eventtrigger\<close>; the contract \<open>rule_contract\<close> and the OCI manager.
  \<^item> \<open>OciAuth\<close>, \<open>OperatorSetup\<close>: \<open>internal/ociauth\<close>, the constructors (\<open>NewOCI\<close>) and \<open>cmd\<close>.
  \<^item> \<open>GoMemory\<close>, \<open>DeepCopyTypes\<close>, \<open>DeepCopy\<close>: \<open>zz_generated.deepcopy.go\<close> over an explicit memory, a list of
    typed cells in which pointers, slices and maps are addresses; \<open>copy_*_into\<close> is \<open>DeepCopyInto\<close>,
    \<open>deep_copy_*\<close> is \<open>DeepCopy\<close>. The reconcilers' theories treat objects as values; these justify it.

  \<^bold>\<open>What is proved.\<close> \<open>*Lemmas\<close>, \<open>*Reconcile\<close>, \<open>JobHistory\<close>, \<open>EventRounds\<close> hold the library, \<open>*Properties\<close> the
  properties with witnesses on concrete objects.

  \<^item> Jobs and events: at most one success per payload or trigger over any number of reconciliations, an end within
    a bounded number of them, which calls are made and how many, the form and the phase of every status
    written. The loops are described by inductive relations (\<open>attempts_run\<close>, \<open>pass_run\<close>, \<open>event_pass\<close>,
    \<open>event_rounds\<close>) that the functions satisfy.
  \<^item> Functions and applications: what may be created and deleted, when a finalizer is released, agreement of
    phase and conditions; over the OCI manager, that what is written as ready can be used by the resources
    that read it, and which function a deletion by name picks (from one page of the listing, as in the code).
  \<^item> Triggers: Ready means that a rule with the trigger's condition and function is in force, what a reconciliation
    may delete and when it releases the finalizer, no trigger is delivered twice, a steady environment is settled in one reconciliation, and a lasting
    error is recorded once.
  \<^item> Rules: the search over pages, convergence of \<open>EnsureRule\<close>; the condition document and the event envelope
    read back as what the specs say (\<open>GoJsonLemmas\<close>, \<open>GoJsonCompact\<close>, \<open>GoJsonRender\<close>).
  \<^item> The operator: authentication leaves the environment unchanged, the parts handed to the reconcilers belong
    together, the jobs of a started operator come to their end in either mode, and \<open>main\<close> stops at the
    first call that fails and runs the controller manager only when all of it is set up.
  \<^item> Copies: \<open>DeepCopyViews\<close> says which value of \<open>ApiTypes\<close> a struct in memory stands for, \<open>DeepCopyLemmas\<close>
    that every copy method keeps the contract \<open>deep_copier\<close>; so a copy stands for the same value and shares
    nothing with the original, and a condition set in place on the copy is one set in the value.

  Each contract is a locale interpreted on the code's implementation; \<open>condition_store\<close> states the laws of
  the condition library.

  \<^bold>\<open>Bounds.\<close> The JSON parser has fuel \<open>2 * length + 2\<close>, proved enough (\<open>parse_json_complete\<close>). The loops over pages
  of logs and rules have a bound in the manager value, where the code has none; a listing that ends within the
  bound gives the result of the whole listing (\<open>list_logs_complete\<close>, \<open>search_rules_concat\<close>).

  \<^bold>\<open>Parameters.\<close> The API client, the OCI SDK clients and provider constructors, \<open>net/url\<close>, SHA-256, the clock,
  the condition and finalizer library (\<open>kube_lib_ok\<close> states its documented laws), the copy methods of the
  library's structs (\<open>library_ok\<close>), the controller manager's calls, flags that libraries register, the decoding
  of JSON numbers, JSON error texts, and the order in which Go visits a map where the result could depend on it.

  \<^bold>\<open>Not modelled.\<close> Scheme registration, kubebuilder markers, what \<open>SetupWithManager\<close> asks of the library
  (registration only), log lines with \<open>hashString\<close>, mutexes (a reconciler is run one object at a time),
  contexts, signals and cancellation: they only call libraries.
\<close>

end
